(* ===== verification/Gftp_Prelude.thy ===== *)
theory Gftp_Prelude
  imports Main "HOL-Library.Word" "HOL-Library.Monad_Syntax"
begin

text \<open>
  Shared vocabulary of the development: characters and C strings, memory objects with
  explicit bounds, decimal printing and parsing, and the return codes of the library
  (\<open>lib/gftp.h\<close>).

  A C string that is only read up to its terminator is a \<^typ>\<open>string\<close> without NUL; a pointer
  into it is a suffix. Where a routine can step past the terminator, the memory object
  itself is modelled: a \<open>ptr\<close> is the list of bytes from the pointer to the end of the
  object, terminators included, and every read goes through a function that returns
  \<^term>\<open>None\<close> when it would leave the object. So \<^term>\<open>None\<close> always means an access out of bounds.
\<close>

named_theorems scan_simps \<open>equations that evaluate the pointer scans\<close>
named_theorems safe_rules \<open>rules showing that a scan stays inside its object\<close>
named_theorems printed \<open>decimal printing followed by parsing\<close>


section \<open>Return codes and constants of gftp.h\<close>

definition GFTP_ERETRYABLE :: int where [simp]: "GFTP_ERETRYABLE = -1"
definition GFTP_EFATAL :: int where [simp]: "GFTP_EFATAL = -2"
definition GFTP_ERETRYABLE_NO_WAIT :: int where [simp]: "GFTP_ERETRYABLE_NO_WAIT = -3"
definition GFTP_ENOTRANS :: int where [simp]: "GFTP_ENOTRANS = -4"
definition GFTP_ETIMEDOUT :: int where [simp]: "GFTP_ETIMEDOUT = -5"

definition GFTP_DIRTYPE_UNIX :: int where [simp]: "GFTP_DIRTYPE_UNIX = 1"
definition GFTP_DIRTYPE_EPLF :: int where [simp]: "GFTP_DIRTYPE_EPLF = 2"
definition GFTP_DIRTYPE_CRAY :: int where [simp]: "GFTP_DIRTYPE_CRAY = 3"
definition GFTP_DIRTYPE_NOVELL :: int where [simp]: "GFTP_DIRTYPE_NOVELL = 4"
definition GFTP_DIRTYPE_DOS :: int where [simp]: "GFTP_DIRTYPE_DOS = 5"
definition GFTP_DIRTYPE_VMS :: int where [simp]: "GFTP_DIRTYPE_VMS = 6"
definition GFTP_DIRTYPE_OTHER :: int where [simp]: "GFTP_DIRTYPE_OTHER = 7"
definition GFTP_DIRTYPE_MVS :: int where [simp]: "GFTP_DIRTYPE_MVS = 8"


section \<open>Characters\<close>

abbreviation NUL :: char where "NUL \<equiv> CHR 0x00"
abbreviation TAB :: char where "TAB \<equiv> CHR 0x09"
abbreviation LF :: char where "LF \<equiv> CHR 0x0A"
abbreviation CR :: char where "CR \<equiv> CHR 0x0D"
abbreviation SPC :: char where "SPC \<equiv> CHR 0x20"

definition code_of :: "char \<Rightarrow> nat" where "code_of c = of_char c"

definition is_blank :: "char \<Rightarrow> bool" where
  "is_blank c \<longleftrightarrow> c = SPC \<or> c = TAB"

definition is_digit :: "char \<Rightarrow> bool" where
  "is_digit c \<longleftrightarrow> 48 \<le> code_of c \<and> code_of c \<le> 57"

definition is_space :: "char \<Rightarrow> bool" where
  "is_space c \<longleftrightarrow> c = SPC \<or> (9 \<le> code_of c \<and> code_of c \<le> 13)"

definition is_alpha :: "char \<Rightarrow> bool" where
  "is_alpha c \<longleftrightarrow> (65 \<le> code_of c \<and> code_of c \<le> 90) \<or> (97 \<le> code_of c \<and> code_of c \<le> 122)"

definition to_lower :: "char \<Rightarrow> char" where
  "to_lower c = (if 65 \<le> code_of c \<and> code_of c \<le> 90 then char_of (code_of c + 32) else c)"

lemma code_of_less [simp]: "code_of c < 256"
  by (simp add: code_of_def)

lemma code_of_inject [simp]: "code_of c = code_of d \<longleftrightarrow> c = d"
  by (simp add: code_of_def)

lemma code_of_char_of [simp]: "n < 256 \<Longrightarrow> code_of (char_of n) = n"
  by (simp add: code_of_def)

lemma char_of_code_of [simp]: "char_of (code_of c) = c"
  by (simp add: code_of_def)

lemma code_of_consts [simp]:
  "code_of NUL = 0" "code_of SPC = 32" "code_of TAB = 9" "code_of LF = 10" "code_of CR = 13"
  by (simp_all add: code_of_def)

lemma blank_not_NUL [simp]: "\<not> is_blank NUL"
  by (simp add: is_blank_def)

lemma digit_not_NUL [simp]: "\<not> is_digit NUL"
  by (simp add: is_digit_def)

lemma blank_not_digit: "is_blank c \<Longrightarrow> \<not> is_digit c"
  by (auto simp: is_blank_def is_digit_def)

lemma space_not_digit: "is_space c \<Longrightarrow> \<not> is_digit c"
  by (auto simp: is_space_def is_digit_def)

fun strcasecmp :: "string \<Rightarrow> string \<Rightarrow> int" where
  "strcasecmp [] [] = 0"
| "strcasecmp [] (d # ds) = - int (code_of (to_lower d))"
| "strcasecmp (c # cs) [] = int (code_of (to_lower c))"
| "strcasecmp (c # cs) (d # ds) =
     (if to_lower c = to_lower d then (if c = NUL then 0 else strcasecmp cs ds)
      else int (code_of (to_lower c)) - int (code_of (to_lower d)))"


section \<open>Searching in C strings\<close>

fun starts_with :: "string \<Rightarrow> string \<Rightarrow> bool" where
  "starts_with [] s = True"
| "starts_with (p # ps) [] = False"
| "starts_with (p # ps) (c # cs) = (p = c \<and> starts_with ps cs)"

lemma starts_with_iff: "starts_with p s \<longleftrightarrow> (\<exists>r. s = p @ r)"
  by (induction p s rule: starts_with.induct) auto

text \<open>\<open>strstr (hay, needle)\<close>: the suffix of the haystack that begins with the needle.\<close>

fun strstr :: "string \<Rightarrow> string \<Rightarrow> string option" where
  "strstr [] nd = (if nd = [] then Some [] else None)"
| "strstr (c # cs) nd = (if starts_with nd (c # cs) then Some (c # cs) else strstr cs nd)"

lemma strstr_SomeD: "strstr h nd = Some r \<Longrightarrow> \<exists>p q. h = p @ r \<and> r = nd @ q"
proof (induction h nd rule: strstr.induct)
  case (2 c cs nd)
  show ?case
  proof (cases "starts_with nd (c # cs)")
    case True
    with 2 show ?thesis by (auto simp: starts_with_iff)
  next
    case False
    with 2 obtain p q where "cs = p @ r" "r = nd @ q" by auto
    then have "c # cs = (c # p) @ r" by simp
    with \<open>r = nd @ q\<close> show ?thesis by blast
  qed
qed (simp split: if_splits)

lemma strstr_None_iff: "strstr h nd = None \<longleftrightarrow> (\<nexists>p q. h = p @ nd @ q)"
proof (induction h nd rule: strstr.induct)
  case (2 c cs nd)
  have "(\<exists>p q. c # cs = p @ nd @ q) \<longleftrightarrow> starts_with nd (c # cs) \<or> (\<exists>p q. cs = p @ nd @ q)"
    (is "?l \<longleftrightarrow> ?r")
  proof
    assume ?l
    then obtain p q where pq: "c # cs = p @ nd @ q" by blast
    show ?r
    proof (cases p)
      case Nil
      with pq show ?thesis by (auto simp: starts_with_iff)
    next
      case (Cons a p')
      with pq show ?thesis by auto
    qed
  next
    assume ?r
    then show ?l
      by (metis append_Cons append_Nil starts_with_iff)
  qed
  with 2 show ?case by auto
qed auto

text \<open>\<open>strchr\<close> and \<open>strrchr\<close>: the suffix that begins at the character found.\<close>

fun strchr :: "string \<Rightarrow> char \<Rightarrow> string option" where
  "strchr [] c = None"
| "strchr (x # xs) c = (if x = c then Some (x # xs) else strchr xs c)"

fun strrchr :: "string \<Rightarrow> char \<Rightarrow> string option" where
  "strrchr [] c = None"
| "strrchr (x # xs) c =
     (case strrchr xs c of Some r \<Rightarrow> Some r | None \<Rightarrow> if x = c then Some (x # xs) else None)"

lemma strchr_None_iff [simp]: "strchr s c = None \<longleftrightarrow> c \<notin> set s"
  by (induction s) auto

lemma strchr_SomeD: "strchr s c = Some r \<Longrightarrow> \<exists>p q. s = p @ r \<and> r = c # q \<and> c \<notin> set p"
proof (induction s)
  case (Cons x xs)
  show ?case
  proof (cases "x = c")
    case True
    with Cons show ?thesis by auto
  next
    case False
    with Cons obtain p q where "xs = p @ r" "r = c # q" "c \<notin> set p" by auto
    with False have "x # xs = (x # p) @ r \<and> r = c # q \<and> c \<notin> set (x # p)" by simp
    then show ?thesis by blast
  qed
qed simp

lemma strchr_append: "c \<notin> set p \<Longrightarrow> strchr (p @ c # q) c = Some (c # q)"
  by (induction p) auto

lemma strrchr_None_iff [simp]: "strrchr s c = None \<longleftrightarrow> c \<notin> set s"
  by (induction s) (auto split: option.splits)

lemma strrchr_append: "c \<notin> set q \<Longrightarrow> strrchr (p @ c # q) c = Some (c # q)"
proof (induction p)
  case Nil
  then have "strrchr q c = None" by simp
  then show ?case by (simp del: strrchr_None_iff)
qed simp

lemma strrchr_SomeD: "strrchr s c = Some r \<Longrightarrow> \<exists>p q. s = p @ r \<and> r = c # q \<and> c \<notin> set q"
proof (induction s)
  case (Cons x xs)
  show ?case
  proof (cases "strrchr xs c")
    case None
    with Cons.prems show ?thesis by (auto split: if_splits)
  next
    case (Some r')
    with Cons obtain p q where "xs = p @ r" "r = c # q" "c \<notin> set q" by auto
    then have "x # xs = (x # p) @ r \<and> r = c # q \<and> c \<notin> set q" by simp
    then show ?thesis by blast
  qed
qed simp

text \<open>The part of a string before a suffix of it (\<open>*p = '\0'\<close> at a pointer \<open>p\<close> into it).\<close>

definition before :: "string \<Rightarrow> string \<Rightarrow> string" where
  "before s r = take (length s - length r) s"

lemma before_append [simp]: "before (p @ r) r = p"
  by (simp add: before_def)


section \<open>Decimal numbers\<close>

definition digit_char :: "nat \<Rightarrow> char" where
  "digit_char d = char_of (48 + d)"

definition digit_val :: "char \<Rightarrow> nat" where
  "digit_val c = code_of c - 48"

fun show_nat :: "nat \<Rightarrow> string" where
  "show_nat n = (if n < 10 then [digit_char n] else show_nat (n div 10) @ [digit_char (n mod 10)])"

declare show_nat.simps [simp del]

definition show_int :: "int \<Rightarrow> string" where
  "show_int i = (if i < 0 then CHR ''-'' # show_nat (nat (- i)) else show_nat (nat i))"

definition read_nat :: "string \<Rightarrow> nat" where
  "read_nat s = foldl (\<lambda>a c. 10 * a + digit_val c) 0 (takeWhile is_digit s)"

text \<open>
  \<open>strtol (s, NULL, 10)\<close> and \<open>strtoll\<close> on an LP64 target: white space, an optional sign,
  digits; saturating at the ends of the 64-bit range; 0 when there is no digit.
\<close>

definition clamp64 :: "int \<Rightarrow> int" where
  "clamp64 i = max (- (2 ^ 63)) (min (2 ^ 63 - 1) i)"

fun strtol_sign :: "string \<Rightarrow> bool \<times> string" where
  "strtol_sign [] = (False, [])"
| "strtol_sign (c # cs) =
     (if c = CHR ''-'' then (True, cs) else if c = CHR ''+'' then (False, cs) else (False, c # cs))"

definition strtol10 :: "string \<Rightarrow> int" where
  "strtol10 s = (let (neg, u) = strtol_sign (dropWhile is_space s); v = int (read_nat u)
                 in clamp64 (if neg then - v else v))"

lemma digit_char_digit [simp]: "d < 10 \<Longrightarrow> is_digit (digit_char d)"
  by (simp add: digit_char_def is_digit_def)

lemma digit_val_char [simp]: "d < 10 \<Longrightarrow> digit_val (digit_char d) = d"
  by (simp add: digit_char_def digit_val_def)

lemma digit_chars [simp]:
  "digit_char 0 = CHR ''0''" "digit_char 1 = CHR ''1''" "digit_char (Suc 0) = CHR ''1''"
  "digit_char 2 = CHR ''2''" "digit_char 3 = CHR ''3''" "digit_char 4 = CHR ''4''"
  "digit_char 5 = CHR ''5''" "digit_char 6 = CHR ''6''" "digit_char 7 = CHR ''7''"
  "digit_char 8 = CHR ''8''" "digit_char 9 = CHR ''9''"
  by code_simp+

lemma show_nat_digits [simp]: "c \<in> set (show_nat n) \<Longrightarrow> is_digit c"
proof (induction n arbitrary: c rule: show_nat.induct)
  case (1 n)
  then show ?case
    by (subst (asm) (2) show_nat.simps) (auto split: if_splits)
qed

lemma show_nat_nonempty [simp]: "show_nat n \<noteq> []"
  by (subst show_nat.simps) simp

lemma foldl_show_nat:
  "foldl (\<lambda>a c. 10 * a + digit_val c) 0 (show_nat n) = n"
proof (induction n rule: show_nat.induct)
  case (1 n)
  then show ?case
    by (subst show_nat.simps) auto
qed

lemma takeWhile_show_nat:
  "(r = [] \<or> \<not> is_digit (hd r)) \<Longrightarrow> takeWhile is_digit (show_nat n @ r) = show_nat n"
proof -
  assume r: "r = [] \<or> \<not> is_digit (hd r)"
  then have "takeWhile is_digit r = []" by (cases r) auto
  moreover have "\<forall>c \<in> set (show_nat n). is_digit c" by simp
  ultimately show ?thesis by (simp add: takeWhile_append)
qed

lemma read_show_nat [printed]:
  "(r = [] \<or> \<not> is_digit (hd r)) \<Longrightarrow> read_nat (show_nat n @ r) = n"
  by (simp only: read_nat_def takeWhile_show_nat foldl_show_nat)

lemma show_nat_Cons: "\<exists>c cs. show_nat n = c # cs \<and> is_digit c"
proof -
  obtain c cs where "show_nat n = c # cs" by (cases "show_nat n") auto
  moreover have "is_digit c"
    by (rule show_nat_digits [of _ n]) (simp add: \<open>show_nat n = c # cs\<close>)
  ultimately show ?thesis by blast
qed

lemma strtol_show_int [printed]:
  assumes r: "r = [] \<or> \<not> is_digit (hd r)"
    and lo: "- (2 ^ 63) \<le> i" and hi: "i < 2 ^ 63"
  shows "strtol10 (show_int i @ r) = i"
proof (cases "i < 0")
  case True
  then show ?thesis using read_show_nat [OF r, of "nat (- i)"] lo
    by (simp add: strtol10_def show_int_def is_space_def clamp64_def code_of_def)
next
  case False
  obtain c cs where c: "show_nat (nat i) = c # cs" "is_digit c"
    using show_nat_Cons by blast
  then have "\<not> is_space c" "c \<noteq> CHR ''-''" "c \<noteq> CHR ''+''"
    by (auto simp: is_digit_def is_space_def code_of_def)
  then show ?thesis using read_show_nat [OF r, of "nat i"] False hi c
    by (simp add: strtol10_def show_int_def clamp64_def)
qed

lemma strtol10_bounds: "- (2 ^ 63) \<le> strtol10 s \<and> strtol10 s < 2 ^ 63"
  by (auto simp: strtol10_def clamp64_def Let_def split: prod.splits)

text \<open>An \<open>off_t\<close> (64-bit signed) result of an arithmetic expression, wrapped as on the
  two's complement targets the program is built for.\<close>

definition off_wrap :: "int \<Rightarrow> int" where
  "off_wrap i = (i + 2 ^ 63) mod 2 ^ 64 - 2 ^ 63"

lemma off_wrap_id [simp]: "- (2 ^ 63) \<le> i \<Longrightarrow> i < 2 ^ 63 \<Longrightarrow> off_wrap i = i"
  by (simp add: off_wrap_def)


section \<open>Memory objects\<close>

type_synonym ptr = "char list"

fun deref :: "ptr \<Rightarrow> char option" where
  "deref [] = None"
| "deref (c # p) = Some c"

text \<open>Pointer arithmetic: one past the end may be formed, further may not.\<close>

definition ptr_add :: "ptr \<Rightarrow> nat \<Rightarrow> ptr option" where
  "ptr_add p n = (if n \<le> length p then Some (drop n p) else None)"

definition load :: "ptr \<Rightarrow> nat \<Rightarrow> char option" where
  "load p n = (if n < length p then Some (p ! n) else None)"

text \<open>A loop \<open>while (P (*p)) p++\<close>.\<close>

fun skip_while :: "(char \<Rightarrow> bool) \<Rightarrow> ptr \<Rightarrow> ptr option" where
  "skip_while P [] = None"
| "skip_while P (c # p) = (if P c then skip_while P p else Some (c # p))"

text \<open>The string a pointer denotes, and \<open>strchr\<close> over the object: the outer \<^term>\<open>None\<close> is a
  scan out of bounds, the inner one is a NULL result.\<close>

fun cstr :: "ptr \<Rightarrow> string option" where
  "cstr [] = None"
| "cstr (c # p) = (if c = NUL then Some [] else map_option ((#) c) (cstr p))"

fun mem_strchr :: "ptr \<Rightarrow> char \<Rightarrow> ptr option option" where
  "mem_strchr [] c = None"
| "mem_strchr (x # p) c =
     (if x = c then Some (Some (x # p)) else if x = NUL then Some None else mem_strchr p c)"

definition terminated :: "ptr \<Rightarrow> bool" where
  "terminated p \<longleftrightarrow> NUL \<in> set p"

lemma terminated_Cons [simp]: "terminated (c # p) \<longleftrightarrow> c = NUL \<or> terminated p"
  by (auto simp: terminated_def)

lemma terminated_Nil [simp]: "\<not> terminated []"
  by (simp add: terminated_def)

lemma terminated_append [simp]: "terminated (p @ q) \<longleftrightarrow> terminated p \<or> terminated q"
  by (auto simp: terminated_def)

lemma skip_while_terminated [safe_rules]:
  "terminated p \<Longrightarrow> \<not> P NUL \<Longrightarrow> \<exists>q. skip_while P p = Some q \<and> terminated q"
  by (induction P p rule: skip_while.induct) auto

lemma skip_while_suffix:
  "skip_while P p = Some q \<Longrightarrow> \<exists>u. p = u @ q \<and> (\<forall>c \<in> set u. P c) \<and> q \<noteq> [] \<and> \<not> P (hd q)"
proof (induction P p rule: skip_while.induct)
  case (2 P c p)
  show ?case
  proof (cases "P c")
    case True
    with 2 obtain u where "p = u @ q" "\<forall>c \<in> set u. P c" "q \<noteq> []" "\<not> P (hd q)" by auto
    with True have "c # p = (c # u) @ q \<and> (\<forall>c \<in> set (c # u). P c) \<and> q \<noteq> [] \<and> \<not> P (hd q)"
      by simp
    then show ?thesis by blast
  next
    case False
    with 2 show ?thesis by auto
  qed
qed simp

lemma skip_while_append [scan_simps]:
  "(\<forall>c \<in> set u. P c) \<Longrightarrow> skip_while P (u @ q) = skip_while P q"
  by (induction u) auto

lemma cstr_terminated [safe_rules]: "terminated p \<Longrightarrow> \<exists>s. cstr p = Some s \<and> NUL \<notin> set s"
  by (induction p) auto

lemma cstr_NUL [scan_simps]: "NUL \<notin> set s \<Longrightarrow> cstr (s @ NUL # q) = Some s"
  by (induction s) auto

lemma mem_strchr_terminated [safe_rules]:
  "terminated p \<Longrightarrow> \<exists>r. mem_strchr p c = Some r \<and> (\<forall>q. r = Some q \<longrightarrow> q \<noteq> [] \<and> hd q = c \<and> (c \<noteq> NUL \<longrightarrow> terminated (tl q)))"
  by (induction p c rule: mem_strchr.induct) auto

lemma mem_strchr_hit [scan_simps]:
  "c \<notin> set u \<Longrightarrow> NUL \<notin> set u \<Longrightarrow> mem_strchr (u @ c # q) c = Some (Some (c # q))"
  by (induction u) auto

lemma mem_strchr_miss [scan_simps]:
  "c \<notin> set u \<Longrightarrow> NUL \<notin> set u \<Longrightarrow> c \<noteq> NUL \<Longrightarrow> mem_strchr (u @ NUL # q) c = Some None"
  by (induction u) auto

lemma load_drop: "load p (n + m) = load (drop n p) m"
  by (auto simp: load_def)


section \<open>Bytes\<close>

text \<open>A plain \<open>char\<close> as an \<open>int\<close>.\<close>

definition char_int :: "char \<Rightarrow> int" where
  "char_int c = (if code_of c < 128 then int (code_of c) else int (code_of c) - 256)"

text \<open>\<open>memcpy\<close> into an object: \<^term>\<open>None\<close> when it does not fit.\<close>

definition overwrite :: "nat \<Rightarrow> string \<Rightarrow> string \<Rightarrow> string option" where
  "overwrite off bs mem =
    (if off + length bs \<le> length mem then Some (take off mem @ bs @ drop (off + length bs) mem) else None)"

end
