(* ===== verification/File_Modes.thy ===== *)
theory File_Modes
  imports Gftp_Prelude
begin

unbundle bit_operations_syntax

text \<open>
  File attributes: the \<open>mode_t\<close> word of \<open><sys/stat.h>\<close> and its two conversions in
  \<open>lib/protocols.c\<close>, \<open>gftp_convert_attributes_from_mode_t\<close> and
  \<open>gftp_convert_attributes_to_mode_t\<close>. A mode is a 32-bit word with the Linux values of
  the constants. The main facts say which modes survive printing followed by parsing, and
  which attribute strings survive parsing followed by printing.
\<close>

type_synonym mode_t = "32 word"

definition S_IFMT :: mode_t where "S_IFMT = 0xF000"
definition S_IFIFO :: mode_t where "S_IFIFO = 0x1000"
definition S_IFCHR :: mode_t where "S_IFCHR = 0x2000"
definition S_IFDIR :: mode_t where "S_IFDIR = 0x4000"
definition S_IFBLK :: mode_t where "S_IFBLK = 0x6000"
definition S_IFREG :: mode_t where "S_IFREG = 0x8000"
definition S_IFLNK :: mode_t where "S_IFLNK = 0xA000"
definition S_IFSOCK :: mode_t where "S_IFSOCK = 0xC000"

definition S_ISUID :: mode_t where "S_ISUID = 0x800"
definition S_ISGID :: mode_t where "S_ISGID = 0x400"
definition S_ISVTX :: mode_t where "S_ISVTX = 0x200"
definition S_IRUSR :: mode_t where "S_IRUSR = 0x100"
definition S_IWUSR :: mode_t where "S_IWUSR = 0x80"
definition S_IXUSR :: mode_t where "S_IXUSR = 0x40"
definition S_IRGRP :: mode_t where "S_IRGRP = 0x20"
definition S_IWGRP :: mode_t where "S_IWGRP = 0x10"
definition S_IXGRP :: mode_t where "S_IXGRP = 8"
definition S_IROTH :: mode_t where "S_IROTH = 4"
definition S_IWOTH :: mode_t where "S_IWOTH = 2"
definition S_IXOTH :: mode_t where "S_IXOTH = 1"
definition S_IRWXU :: mode_t where "S_IRWXU = 0x1C0"
definition S_IRWXG :: mode_t where "S_IRWXG = 0x38"
definition S_IRWXO :: mode_t where "S_IRWXO = 7"

lemmas file_type_defs = S_IFMT_def S_IFIFO_def S_IFCHR_def S_IFDIR_def S_IFBLK_def
  S_IFREG_def S_IFLNK_def S_IFSOCK_def

lemmas perm_defs = S_ISUID_def S_ISGID_def S_ISVTX_def S_IRUSR_def S_IWUSR_def S_IXUSR_def
  S_IRGRP_def S_IWGRP_def S_IXGRP_def S_IROTH_def S_IWOTH_def S_IXOTH_def

lemmas perm_class_defs = S_IRWXU_def S_IRWXG_def S_IRWXO_def

definition S_ISREG :: "mode_t \<Rightarrow> bool" where "S_ISREG m \<longleftrightarrow> m AND S_IFMT = S_IFREG"
definition S_ISDIR :: "mode_t \<Rightarrow> bool" where "S_ISDIR m \<longleftrightarrow> m AND S_IFMT = S_IFDIR"
definition S_ISLNK :: "mode_t \<Rightarrow> bool" where "S_ISLNK m \<longleftrightarrow> m AND S_IFMT = S_IFLNK"
definition S_ISBLK :: "mode_t \<Rightarrow> bool" where "S_ISBLK m \<longleftrightarrow> m AND S_IFMT = S_IFBLK"
definition S_ISCHR :: "mode_t \<Rightarrow> bool" where "S_ISCHR m \<longleftrightarrow> m AND S_IFMT = S_IFCHR"
definition S_ISFIFO :: "mode_t \<Rightarrow> bool" where "S_ISFIFO m \<longleftrightarrow> m AND S_IFMT = S_IFIFO"
definition S_ISSOCK :: "mode_t \<Rightarrow> bool" where "S_ISSOCK m \<longleftrightarrow> m AND S_IFMT = S_IFSOCK"

lemmas type_test_defs = S_ISREG_def S_ISDIR_def S_ISLNK_def S_ISBLK_def S_ISCHR_def
  S_ISFIFO_def S_ISSOCK_def

definition GFTP_IS_SPECIAL_DEVICE :: "mode_t \<Rightarrow> bool" where
  "GFTP_IS_SPECIAL_DEVICE m \<longleftrightarrow> S_ISBLK m \<or> S_ISCHR m"


section \<open>Printing a mode\<close>

text \<open>The first character is assigned by a chain of tests, the last successful one wins.\<close>

definition type_char :: "mode_t \<Rightarrow> char" where
  "type_char m =
    (let c = CHR ''?'';
         c = (if S_ISREG m then CHR ''-'' else c);
         c = (if S_ISLNK m then CHR ''l'' else c);
         c = (if S_ISBLK m then CHR ''b'' else c);
         c = (if S_ISCHR m then CHR ''c'' else c);
         c = (if S_ISFIFO m then CHR ''p'' else c);
         c = (if S_ISSOCK m then CHR ''s'' else c);
         c = (if S_ISDIR m then CHR ''d'' else c)
     in c)"

definition flag_char :: "mode_t \<Rightarrow> mode_t \<Rightarrow> char \<Rightarrow> char" where
  "flag_char m flag c = (if m AND flag \<noteq> 0 then c else CHR ''-'')"

definition exec_char :: "mode_t \<Rightarrow> mode_t \<Rightarrow> mode_t \<Rightarrow> char \<Rightarrow> char \<Rightarrow> char" where
  "exec_char m special x low up =
    (if m AND special \<noteq> 0 \<and> m AND x \<noteq> 0 then low
     else if m AND special \<noteq> 0 then up
     else if m AND x \<noteq> 0 then CHR ''x''
     else CHR ''-'')"

definition gftp_convert_attributes_from_mode_t :: "mode_t \<Rightarrow> string" where
  "gftp_convert_attributes_from_mode_t m =
    [type_char m,
     flag_char m S_IRUSR (CHR ''r''), flag_char m S_IWUSR (CHR ''w''),
     exec_char m S_ISUID S_IXUSR (CHR ''s'') (CHR ''S''),
     flag_char m S_IRGRP (CHR ''r''), flag_char m S_IWGRP (CHR ''w''),
     exec_char m S_ISGID S_IXGRP (CHR ''s'') (CHR ''S''),
     flag_char m S_IROTH (CHR ''r''), flag_char m S_IWOTH (CHR ''w''),
     exec_char m S_ISVTX S_IXOTH (CHR ''t'') (CHR ''T'')]"


section \<open>Parsing an attribute string\<close>

text \<open>
  The C function indexes \<open>attribs[0]\<close> to \<open>attribs[9]\<close> without a length check;
  \<^term>\<open>None\<close> is the read past the end of a shorter object.
\<close>

definition type_bits :: "char \<Rightarrow> mode_t" where
  "type_bits c =
    (if c = CHR ''d'' then S_IFDIR
     else if c = CHR ''l'' then S_IFLNK
     else if c = CHR ''s'' then S_IFSOCK
     else if c = CHR ''b'' then S_IFBLK
     else if c = CHR ''c'' then S_IFCHR
     else S_IFREG)"

definition or_if :: "bool \<Rightarrow> mode_t \<Rightarrow> mode_t \<Rightarrow> mode_t" where
  "or_if b bits m = (if b then m OR bits else m)"

definition attribs_bits :: "ptr \<Rightarrow> mode_t" where
  "attribs_bits a =
    (let m = type_bits (a ! 0);
         m = or_if (a ! 1 = CHR ''r'') S_IRUSR m;
         m = or_if (a ! 2 = CHR ''w'') S_IWUSR m;
         m = or_if (a ! 3 = CHR ''x'' \<or> a ! 3 = CHR ''s'') S_IXUSR m;
         m = or_if (a ! 3 = CHR ''s'' \<or> a ! 3 = CHR ''S'') S_ISUID m;
         m = or_if (a ! 4 = CHR ''r'') S_IRGRP m;
         m = or_if (a ! 5 = CHR ''w'') S_IWGRP m;
         m = or_if (a ! 6 = CHR ''x'' \<or> a ! 6 = CHR ''s'') S_IXGRP m;
         m = or_if (a ! 6 = CHR ''s'' \<or> a ! 6 = CHR ''S'') S_ISGID m;
         m = or_if (a ! 7 = CHR ''r'') S_IROTH m;
         m = or_if (a ! 8 = CHR ''w'') S_IWOTH m;
         m = or_if (a ! 9 = CHR ''x'' \<or> a ! 9 = CHR ''s'') S_IXOTH m;
         m = or_if (a ! 9 = CHR ''t'' \<or> a ! 9 = CHR ''T'') S_ISVTX m
     in m)"

definition gftp_convert_attributes_to_mode_t :: "ptr \<Rightarrow> mode_t option" where
  "gftp_convert_attributes_to_mode_t attribs =
    (if 10 \<le> length attribs then Some (attribs_bits attribs) else None)"

lemma to_mode_in_bounds [safe_rules]:
  "10 \<le> length attribs \<Longrightarrow> \<exists>m. gftp_convert_attributes_to_mode_t attribs = Some m"
  by (simp add: gftp_convert_attributes_to_mode_t_def)


section \<open>Bits of a mode\<close>

lemma and_flag_iff:
  "m AND S_ISUID \<noteq> 0 \<longleftrightarrow> bit m 11" "m AND S_ISGID \<noteq> 0 \<longleftrightarrow> bit m 10"
  "m AND S_ISVTX \<noteq> 0 \<longleftrightarrow> bit m 9"
  "m AND S_IRUSR \<noteq> 0 \<longleftrightarrow> bit m 8" "m AND S_IWUSR \<noteq> 0 \<longleftrightarrow> bit m 7"
  "m AND S_IXUSR \<noteq> 0 \<longleftrightarrow> bit m 6"
  "m AND S_IRGRP \<noteq> 0 \<longleftrightarrow> bit m 5" "m AND S_IWGRP \<noteq> 0 \<longleftrightarrow> bit m 4"
  "m AND S_IXGRP \<noteq> 0 \<longleftrightarrow> bit m 3"
  "m AND S_IROTH \<noteq> 0 \<longleftrightarrow> bit m 2" "m AND S_IWOTH \<noteq> 0 \<longleftrightarrow> bit m 1"
  "m AND S_IXOTH \<noteq> 0 \<longleftrightarrow> bit m 0"
proof -
  have *: "\<And>n. m AND 2 ^ n \<noteq> 0 \<longleftrightarrow> bit m n"
    by (simp add: and_exp_eq_0_iff_not_bit)
  show "m AND S_ISUID \<noteq> 0 \<longleftrightarrow> bit m 11" using * [of 11] by (simp add: perm_defs)
  show "m AND S_ISGID \<noteq> 0 \<longleftrightarrow> bit m 10" using * [of 10] by (simp add: perm_defs)
  show "m AND S_ISVTX \<noteq> 0 \<longleftrightarrow> bit m 9" using * [of 9] by (simp add: perm_defs)
  show "m AND S_IRUSR \<noteq> 0 \<longleftrightarrow> bit m 8" using * [of 8] by (simp add: perm_defs)
  show "m AND S_IWUSR \<noteq> 0 \<longleftrightarrow> bit m 7" using * [of 7] by (simp add: perm_defs)
  show "m AND S_IXUSR \<noteq> 0 \<longleftrightarrow> bit m 6" using * [of 6] by (simp add: perm_defs)
  show "m AND S_IRGRP \<noteq> 0 \<longleftrightarrow> bit m 5" using * [of 5] by (simp add: perm_defs)
  show "m AND S_IWGRP \<noteq> 0 \<longleftrightarrow> bit m 4" using * [of 4] by (simp add: perm_defs)
  show "m AND S_IXGRP \<noteq> 0 \<longleftrightarrow> bit m 3" using * [of 3] by (simp add: perm_defs)
  show "m AND S_IROTH \<noteq> 0 \<longleftrightarrow> bit m 2" using * [of 2] by (simp add: perm_defs)
  show "m AND S_IWOTH \<noteq> 0 \<longleftrightarrow> bit m 1" using * [of 1] by (simp add: perm_defs)
  show "m AND S_IXOTH \<noteq> 0 \<longleftrightarrow> bit m 0" using * [of 0] by (simp add: perm_defs)
qed

lemma bit_or_if: "bit (or_if b w m) n \<longleftrightarrow> (b \<and> bit w n) \<or> bit m n"
  by (auto simp: or_if_def bit_or_iff)

lemma bit_perms:
  "bit S_ISUID n \<longleftrightarrow> n = 11" "bit S_ISGID n \<longleftrightarrow> n = 10" "bit S_ISVTX n \<longleftrightarrow> n = 9"
  "bit S_IRUSR n \<longleftrightarrow> n = 8" "bit S_IWUSR n \<longleftrightarrow> n = 7" "bit S_IXUSR n \<longleftrightarrow> n = 6"
  "bit S_IRGRP n \<longleftrightarrow> n = 5" "bit S_IWGRP n \<longleftrightarrow> n = 4" "bit S_IXGRP n \<longleftrightarrow> n = 3"
  "bit S_IROTH n \<longleftrightarrow> n = 2" "bit S_IWOTH n \<longleftrightarrow> n = 1" "bit S_IXOTH n \<longleftrightarrow> n = 0"
proof -
  have *: "\<And>k. k < 32 \<Longrightarrow> bit (2 ^ k :: mode_t) n \<longleftrightarrow> n = k"
    by (auto simp: bit_exp_iff possible_bit_def)
  show "bit S_ISUID n \<longleftrightarrow> n = 11" using * [of 11] by (simp add: perm_defs)
  show "bit S_ISGID n \<longleftrightarrow> n = 10" using * [of 10] by (simp add: perm_defs)
  show "bit S_ISVTX n \<longleftrightarrow> n = 9" using * [of 9] by (simp add: perm_defs)
  show "bit S_IRUSR n \<longleftrightarrow> n = 8" using * [of 8] by (simp add: perm_defs)
  show "bit S_IWUSR n \<longleftrightarrow> n = 7" using * [of 7] by (simp add: perm_defs)
  show "bit S_IXUSR n \<longleftrightarrow> n = 6" using * [of 6] by (simp add: perm_defs)
  show "bit S_IRGRP n \<longleftrightarrow> n = 5" using * [of 5] by (simp add: perm_defs)
  show "bit S_IWGRP n \<longleftrightarrow> n = 4" using * [of 4] by (simp add: perm_defs)
  show "bit S_IXGRP n \<longleftrightarrow> n = 3" using * [of 3] by (simp add: perm_defs)
  show "bit S_IROTH n \<longleftrightarrow> n = 2" using * [of 2] by (simp add: perm_defs)
  show "bit S_IWOTH n \<longleftrightarrow> n = 1" using * [of 1] by (simp add: perm_defs)
  show "bit S_IXOTH n \<longleftrightarrow> n = 0" using * [of 0] by (simp add: perm_defs)
qed

text \<open>The modes the parser has a type letter for, within the 16 bits that are in use.\<close>

definition listable_mode :: "mode_t \<Rightarrow> bool" where
  "listable_mode m \<longleftrightarrow> take_bit 16 m = m \<and>
     (S_ISREG m \<or> S_ISDIR m \<or> S_ISLNK m \<or> S_ISBLK m \<or> S_ISCHR m \<or> S_ISSOCK m)"

lemma from_mode_length [simp]: "length (gftp_convert_attributes_from_mode_t m) = 10"
  by (simp add: gftp_convert_attributes_from_mode_t_def)

lemma type_bits_type_char:
  "listable_mode m \<Longrightarrow> type_bits (type_char m) = m AND S_IFMT"
  by (auto simp: listable_mode_def type_bits_def type_char_def type_test_defs file_type_defs)

lemma S_IFMT_eq: "S_IFMT = push_bit 12 (mask 4)"
  by (simp add: S_IFMT_def mask_eq_exp_minus_1 push_bit_eq_mult)

lemma bit_S_IFMT: "bit S_IFMT n \<longleftrightarrow> 12 \<le> n \<and> n < 16"
  by (auto simp: S_IFMT_eq bit_push_bit_iff bit_mask_iff possible_bit_def)

lemma low_mode_bits: "take_bit 16 (m :: mode_t) = m \<Longrightarrow> bit m n \<Longrightarrow> n < 16"
  by (metis bit_take_bit_iff)

lemma flag_char_eq: "c \<noteq> CHR ''-'' \<Longrightarrow> flag_char m w c = c \<longleftrightarrow> m AND w \<noteq> 0"
  by (simp add: flag_char_def)

lemma exec_char_set_id:
  "exec_char m w x (CHR ''s'') (CHR ''S'') = CHR ''x'' \<or>
   exec_char m w x (CHR ''s'') (CHR ''S'') = CHR ''s'' \<longleftrightarrow> m AND x \<noteq> 0"
  "exec_char m w x (CHR ''s'') (CHR ''S'') = CHR ''s'' \<or>
   exec_char m w x (CHR ''s'') (CHR ''S'') = CHR ''S'' \<longleftrightarrow> m AND w \<noteq> 0"
  by (auto simp: exec_char_def)

lemma exec_char_sticky:
  "exec_char m w x (CHR ''t'') (CHR ''T'') = CHR ''x'' \<or>
   exec_char m w x (CHR ''t'') (CHR ''T'') = CHR ''s'' \<longleftrightarrow> m AND x \<noteq> 0 \<and> \<not> m AND w \<noteq> 0"
  "exec_char m w x (CHR ''t'') (CHR ''T'') = CHR ''t'' \<or>
   exec_char m w x (CHR ''t'') (CHR ''T'') = CHR ''T'' \<longleftrightarrow> m AND w \<noteq> 0"
  by (auto simp: exec_char_def)

lemma printed_nth:
  "gftp_convert_attributes_from_mode_t m ! 0 = type_char m"
  "gftp_convert_attributes_from_mode_t m ! 1 = flag_char m S_IRUSR (CHR ''r'')"
  "gftp_convert_attributes_from_mode_t m ! 2 = flag_char m S_IWUSR (CHR ''w'')"
  "gftp_convert_attributes_from_mode_t m ! 3 = exec_char m S_ISUID S_IXUSR (CHR ''s'') (CHR ''S'')"
  "gftp_convert_attributes_from_mode_t m ! 4 = flag_char m S_IRGRP (CHR ''r'')"
  "gftp_convert_attributes_from_mode_t m ! 5 = flag_char m S_IWGRP (CHR ''w'')"
  "gftp_convert_attributes_from_mode_t m ! 6 = exec_char m S_ISGID S_IXGRP (CHR ''s'') (CHR ''S'')"
  "gftp_convert_attributes_from_mode_t m ! 7 = flag_char m S_IROTH (CHR ''r'')"
  "gftp_convert_attributes_from_mode_t m ! 8 = flag_char m S_IWOTH (CHR ''w'')"
  "gftp_convert_attributes_from_mode_t m ! 9 = exec_char m S_ISVTX S_IXOTH (CHR ''t'') (CHR ''T'')"
  by (simp_all add: gftp_convert_attributes_from_mode_t_def)

lemma flag_char_set:
  "flag_char m w (CHR ''r'') = CHR ''r'' \<longleftrightarrow> m AND w \<noteq> 0"
  "flag_char m w (CHR ''w'') = CHR ''w'' \<longleftrightarrow> m AND w \<noteq> 0"
  by (simp_all add: flag_char_def)

lemma bit_attribs_bits_printed:
  "bit (attribs_bits (gftp_convert_attributes_from_mode_t m)) n \<longleftrightarrow>
     bit (type_bits (type_char m)) n \<or> (bit m n \<and> n < 12 \<and> \<not> (n = 0 \<and> bit m 9))"
proof -
  have "bit (attribs_bits (gftp_convert_attributes_from_mode_t m)) n \<longleftrightarrow>
     bit (type_bits (type_char m)) n \<or>
     (n = 8 \<and> bit m 8) \<or> (n = 7 \<and> bit m 7) \<or> (n = 6 \<and> bit m 6) \<or> (n = 11 \<and> bit m 11) \<or>
     (n = 5 \<and> bit m 5) \<or> (n = 4 \<and> bit m 4) \<or> (n = 3 \<and> bit m 3) \<or> (n = 10 \<and> bit m 10) \<or>
     (n = 2 \<and> bit m 2) \<or> (n = 1 \<and> bit m 1) \<or> (n = 0 \<and> bit m 0 \<and> \<not> bit m 9) \<or>
     (n = 9 \<and> bit m 9)"
    unfolding attribs_bits_def Let_def printed_nth flag_char_set exec_char_set_id
      exec_char_sticky bit_or_if bit_perms and_flag_iff
    by satx
  also have "\<dots> \<longleftrightarrow> bit (type_bits (type_char m)) n \<or> (bit m n \<and> n < 12 \<and> \<not> (n = 0 \<and> bit m 9))"
  proof (cases "n < 12")
    case True
    then have "n = 0 \<or> n = 1 \<or> n = 2 \<or> n = 3 \<or> n = 4 \<or> n = 5 \<or> n = 6 \<or> n = 7 \<or> n = 8 \<or>
        n = 9 \<or> n = 10 \<or> n = 11" by arith
    then show ?thesis by (elim disjE) simp_all
  qed auto
  finally show ?thesis .
qed

lemma listable_bits:
  "listable_mode m \<Longrightarrow> bit (type_bits (type_char m)) n \<longleftrightarrow> bit m n \<and> 12 \<le> n"
  by (auto simp: type_bits_type_char bit_and_iff bit_S_IFMT listable_mode_def
      dest: low_mode_bits)

section \<open>Round trips\<close>

text \<open>C26: Printing a listable mode and parsing the string gives the mode back, but
  for a sticky, other-executable mode: its \<open>t\<close> is parsed without the execute bit.\<close>

theorem attributes_roundtrip:
  assumes "listable_mode m"
  shows "gftp_convert_attributes_to_mode_t (gftp_convert_attributes_from_mode_t m)
         = Some (if m AND S_ISVTX \<noteq> 0 then m AND NOT S_IXOTH else m)"
proof -
  have "attribs_bits (gftp_convert_attributes_from_mode_t m)
        = (if m AND S_ISVTX \<noteq> 0 then m AND NOT S_IXOTH else m)"
    by (rule bit_word_eqI)
      (auto simp: bit_attribs_bits_printed listable_bits [OF assms] and_flag_iff bit_and_iff
        bit_not_iff bit_perms)
  then show ?thesis by (simp add: gftp_convert_attributes_to_mode_t_def)
qed

theorem attributes_roundtrip_witness:
  "listable_mode (S_IFDIR OR 0x3FF) \<and>
   gftp_convert_attributes_to_mode_t (gftp_convert_attributes_from_mode_t (S_IFDIR OR 0x3FF))
     = Some (S_IFDIR OR 0x3FE)"
proof -
  have l: "listable_mode (S_IFDIR OR 0x3FF)"
    by (simp add: listable_mode_def type_test_defs file_type_defs)
  show ?thesis
    using l attributes_roundtrip [OF l] by (simp add: file_type_defs perm_defs)
qed


text \<open>Parsing never gives a mode with an unused bit, and always gives one of the six
  types that have a letter; anything else becomes a regular file.\<close>

theorem to_mode_listable:
  assumes "gftp_convert_attributes_to_mode_t s = Some m"
  shows "listable_mode m \<and> m AND S_IFMT = type_bits (s ! 0)"
proof -
  have m: "m = attribs_bits s" and "10 \<le> length s"
    using assms by (auto simp: gftp_convert_attributes_to_mode_t_def split: if_splits)
  have bit: "bit m n \<longleftrightarrow> bit (type_bits (s ! 0)) n \<or> (bit m n \<and> n < 12)" for n
    unfolding m attribs_bits_def Let_def bit_or_if bit_perms by auto
  have type: "bit (type_bits c) n \<Longrightarrow> 12 \<le> n \<and> n < 16" for c n
  proof -
    assume "bit (type_bits c) n"
    moreover have "type_bits c AND S_IFMT = type_bits c"
      by (simp add: type_bits_def file_type_defs)
    ultimately show "12 \<le> n \<and> n < 16" by (metis bit_and_iff bit_S_IFMT)
  qed
  have "m AND S_IFMT = type_bits (s ! 0)"
    by (rule bit_word_eqI) (use bit type in \<open>force simp: bit_and_iff bit_S_IFMT\<close>)
  moreover have "take_bit 16 m = m"
    by (rule bit_word_eqI) (use bit type in \<open>force simp: bit_take_bit_iff\<close>)
  ultimately show ?thesis
    by (auto simp: listable_mode_def type_test_defs type_bits_def)
qed

theorem to_mode_listable_witness:
  "\<exists>m. gftp_convert_attributes_to_mode_t ''drwxr-x---'' = Some m \<and> m AND S_IFMT = type_bits (CHR ''d'')"
  using to_mode_listable [of "''drwxr-x---''" "attribs_bits ''drwxr-x---''"]
  by (simp add: gftp_convert_attributes_to_mode_t_def)

end
