(* ===== verification/Encoders.thy ===== *)
theory Encoders
  imports Gftp_Prelude
begin

unbundle bit_operations_syntax

text \<open>
  The two byte encoders of \<open>lib/misc.c\<close>: the password scrambling written to the bookmarks
  file (\<open>gftp_scramble_password\<close>, \<open>gftp_descramble_password\<close>) and \<open>base64_encode\<close>, used
  for the HTTP proxy authorization. The interface \<open>text_codec\<close> says what the bookmark code
  needs of a scrambler; it is interpreted on the code's own pair of functions. Base64 is
  compared with a decoder written from RFC 2045, and both buffers are shown large enough.
\<close>


section \<open>The codec interface\<close>

locale text_codec =
  fixes enc :: "string \<Rightarrow> string" and dec :: "string \<Rightarrow> string"
  assumes dec_enc: "dec (enc s) = s"
    and enc_printable: "s \<noteq> t \<Longrightarrow> NUL \<notin> set s \<Longrightarrow> NUL \<notin> set (enc s)"
begin

lemma enc_inject: "enc s = enc t \<longleftrightarrow> s = t"
  by (metis dec_enc)

lemma dec_surj: "\<exists>t. dec t = s"
  using dec_enc by blast

end


section \<open>Password scrambling\<close>

text \<open>A \<open>char\<close> promoted to \<open>int\<close> (signed on the targets), and an \<open>int\<close> stored in a \<open>char\<close>.\<close>

definition promote :: "char \<Rightarrow> int" where
  "promote c = signed_take_bit 7 (of_char c)"

definition to_char :: "int \<Rightarrow> char" where
  "to_char i = char_of i"

definition scramble_hi :: "char \<Rightarrow> char" where
  "scramble_hi c = to_char ((drop_bit 2 (promote c) AND 0x3c) OR 0x41)"

definition scramble_lo :: "char \<Rightarrow> char" where
  "scramble_lo c = to_char ((push_bit 2 (promote c) AND 0x3c) OR 0x41)"

fun scramble_loop :: "string \<Rightarrow> string" where
  "scramble_loop [] = []"
| "scramble_loop (c # cs) = scramble_hi c # scramble_lo c # scramble_loop cs"

definition gftp_scramble_password :: "string \<Rightarrow> string" where
  "gftp_scramble_password password =
    (if password = ''@EMAIL@'' then password else CHR ''$'' # scramble_loop password)"

definition scrambled_byte :: "char \<Rightarrow> bool" where
  "scrambled_byte c \<longleftrightarrow> promote c AND 0xc3 = 0x41"

definition unscramble_pair :: "char \<Rightarrow> char \<Rightarrow> char" where
  "unscramble_pair a b =
    to_char (push_bit 2 (promote a AND 0x3c) OR drop_bit 2 (promote b AND 0x3c))"

text \<open>The loop over pairs; \<^term>\<open>None\<close> is the \<open>error\<close> exit. A last odd byte ends it.\<close>

fun descramble_loop :: "string \<Rightarrow> string option" where
  "descramble_loop (a # b # r) =
     (if \<not> scrambled_byte a \<or> \<not> scrambled_byte b then None
      else map_option ((#) (unscramble_pair a b)) (descramble_loop r))"
| "descramble_loop [a] = Some []"
| "descramble_loop [] = Some []"

definition gftp_descramble_password :: "string \<Rightarrow> string" where
  "gftp_descramble_password password =
    (case password of
       [] \<Rightarrow> password
     | c # pos \<Rightarrow>
         if c \<noteq> CHR ''$'' then password
         else (case descramble_loop pos of None \<Rightarrow> password | Some s \<Rightarrow> s))"

lemma bit_promote: "n < 8 \<Longrightarrow> bit (promote c) n \<longleftrightarrow> bit (of_char c :: int) n"
  by (cases "n = 7") (auto simp: promote_def bit_signed_take_bit_iff min_def)

lemma bit_to_char: "bit (of_char (to_char i) :: int) n \<longleftrightarrow> n < 8 \<and> bit i n"
  by (auto simp: to_char_def of_char_of bit_take_bit_iff simp flip: take_bit_eq_mod [of 8, simplified])

lemma bit_promote_to_char: "n < 8 \<Longrightarrow> bit (promote (to_char i)) n \<longleftrightarrow> bit i n"
  by (simp add: bit_promote bit_to_char)

lemma bit_0x3c: "bit (0x3c :: int) n \<longleftrightarrow> 2 \<le> n \<and> n < 6"
proof -
  have "(0x3c :: int) = push_bit 2 (mask 4)" by (simp add: mask_eq_exp_minus_1 push_bit_eq_mult)
  show ?thesis unfolding \<open>0x3c = _\<close> by (auto simp: bit_push_bit_iff bit_mask_iff)
qed

lemma bit_0x41: "bit (0x41 :: int) n \<longleftrightarrow> n = 0 \<or> n = 6"
proof -
  have "(0x41 :: int) = 1 OR 2 ^ 6" by simp
  then show ?thesis by (auto simp only: bit_or_iff bit_1_iff bit_exp_iff) (auto simp: possible_bit_def)
qed

lemma bit_0xc3: "bit (0xc3 :: int) n \<longleftrightarrow> n < 2 \<or> n = 6 \<or> n = 7"
proof -
  have "(0xc3 :: int) = mask 2 OR push_bit 6 (mask 2)"
    by (simp add: mask_eq_exp_minus_1 push_bit_eq_mult)
  show ?thesis unfolding \<open>0xc3 = _\<close> by (auto simp: bit_or_iff bit_push_bit_iff bit_mask_iff)
qed

lemma char_eqI: "(\<And>n. n < 8 \<Longrightarrow> bit (of_char c :: int) n = bit (of_char d :: int) n) \<Longrightarrow> c = d"
proof -
  assume *: "\<And>n. n < 8 \<Longrightarrow> bit (of_char c :: int) n = bit (of_char d :: int) n"
  have "bit (of_char c :: int) n = bit (of_char d :: int) n" for n
  proof (cases "n < 8")
    case True
    then show ?thesis by (rule *)
  next
    case False
    then show ?thesis
      by (metis bit_to_char to_char_def char_of_char)
  qed
  then have "(of_char c :: int) = of_char d" by (rule bit_eqI)
  then show ?thesis by simp
qed

lemma scrambled_bytes: "scrambled_byte (scramble_hi c)" "scrambled_byte (scramble_lo c)"
proof -
  have *: "scrambled_byte (to_char ((i AND 0x3c) OR 0x41))" for i
    unfolding scrambled_byte_def
  proof (rule bit_eqI)
    fix n
    show "bit (promote (to_char ((i AND 0x3c) OR 0x41)) AND 0xc3) n = bit (0x41 :: int) n"
      by (auto simp: bit_and_iff bit_or_iff bit_promote_to_char bit_0x3c bit_0x41 bit_0xc3)
  qed
  show "scrambled_byte (scramble_hi c)" "scrambled_byte (scramble_lo c)"
    by (simp_all only: scramble_hi_def scramble_lo_def *)
qed

lemma bit_scramble_hi:
  "2 \<le> n \<Longrightarrow> n < 6 \<Longrightarrow> bit (promote (scramble_hi c)) n \<longleftrightarrow> bit (of_char c :: int) (n + 2)"
  unfolding scramble_hi_def
  by (subst bit_promote_to_char)
    (simp_all only: bit_or_iff bit_and_iff bit_drop_bit_eq bit_0x3c bit_0x41 comp_def, simp_all add: bit_promote)

lemma bit_scramble_lo:
  "2 \<le> n \<Longrightarrow> n < 6 \<Longrightarrow> bit (promote (scramble_lo c)) n \<longleftrightarrow> bit (of_char c :: int) (n - 2)"
  unfolding scramble_lo_def
  by (subst bit_promote_to_char)
    (simp_all only: bit_or_iff bit_and_iff bit_push_bit_iff bit_0x3c bit_0x41, simp_all add: bit_promote)

lemma bit_unscramble_pair:
  "bit (of_char (unscramble_pair a b) :: int) n \<longleftrightarrow>
     n < 8 \<and> ((4 \<le> n \<and> bit (promote a) (n - 2)) \<or> (n < 4 \<and> bit (promote b) (n + 2)))"
  unfolding unscramble_pair_def bit_to_char bit_or_iff bit_push_bit_iff bit_drop_bit_eq bit_and_iff
    bit_0x3c comp_def
  by (auto simp: add.commute)

lemma unscramble_scramble: "unscramble_pair (scramble_hi c) (scramble_lo c) = c"
proof (rule char_eqI)
  fix n :: nat assume n: "n < 8"
  show "bit (of_char (unscramble_pair (scramble_hi c) (scramble_lo c)) :: int) n = bit (of_char c :: int) n"
  proof (cases "n < 4")
    case True
    with n bit_scramble_lo [of "n + 2" c] show ?thesis by (simp add: bit_unscramble_pair)
  next
    case False
    then have "n - 2 + 2 = n" by simp
    with n False bit_scramble_hi [of "n - 2" c] show ?thesis
      by (simp only: bit_unscramble_pair) simp
  qed
qed

lemma descramble_scramble_loop: "descramble_loop (scramble_loop s) = Some s"
  by (induction s) (simp_all add: scrambled_bytes unscramble_scramble)

lemma NUL_not_scrambled: "\<not> scrambled_byte NUL"
  by (simp add: scrambled_byte_def promote_def)

lemma scramble_byte_not_NUL [simp]:
  "scramble_hi d \<noteq> NUL" "scramble_lo d \<noteq> NUL" "NUL \<noteq> scramble_hi d" "NUL \<noteq> scramble_lo d"
  using scrambled_bytes NUL_not_scrambled by metis+

lemma scramble_no_NUL: "NUL \<notin> set (scramble_loop s)"
  by (induction s) simp_all

lemma length_scramble_loop: "length (scramble_loop s) = 2 * length s"
  by (induction s) auto

interpretation pw: text_codec gftp_scramble_password gftp_descramble_password
proof unfold_locales
  fix s t :: string
  show "gftp_descramble_password (gftp_scramble_password s) = s"
    by (simp add: gftp_scramble_password_def gftp_descramble_password_def descramble_scramble_loop)
  show "NUL \<notin> set s \<Longrightarrow> NUL \<notin> set (gftp_scramble_password s)"
    by (simp add: gftp_scramble_password_def scramble_no_NUL)
qed

text \<open>C24: Every password written to the bookmarks file is read back unchanged, whatever
  bytes it holds and even where it looks scrambled or is the \<open>@EMAIL@\<close> marker.\<close>

theorem descramble_scramble:
  "gftp_descramble_password (gftp_scramble_password password) = password"
  by (rule pw.dec_enc)

lemma scramble_buffer:
  "length (gftp_scramble_password s) + 1 \<le> length s * 2 + 2"
  by (simp add: gftp_scramble_password_def length_scramble_loop)

lemma length_descramble_loop: "descramble_loop s = Some t \<Longrightarrow> length t = length s div 2"
  by (induction s arbitrary: t rule: descramble_loop.induct) (auto split: if_splits)

text \<open>Descrambling never fails: a string without the \<open>$\<close> mark is returned as it is, one
  with the mark is halved or, where a byte is not of the form \<open>01xxxx01\<close>, returned as it is; in
  every case the result fits the buffer the code allocates for it.\<close>

theorem descramble_total:
  "gftp_descramble_password s = s \<or>
   (\<exists>p. s = CHR ''$'' # p \<and> descramble_loop p = Some (gftp_descramble_password s) \<and>
        length (gftp_descramble_password s) + 1 \<le> length p div 2 + 1)"
  by (auto simp: gftp_descramble_password_def length_descramble_loop split: list.splits option.splits)


section \<open>Base64\<close>

definition b64_table :: string where
  "b64_table = map (\<lambda>i. char_of (65 + i)) [0..<26] @ map (\<lambda>i. char_of (97 + i)) [0..<26]
     @ map (\<lambda>i. char_of (48 + i)) [0..<10] @ [CHR ''+'', CHR ''/'']"

text \<open>\<open>while (i < 3) fillpos[++i] = '=';\<close>\<close>

function b64_fill :: "nat \<Rightarrow> string \<Rightarrow> string" where
  "b64_fill i out = (if i < 3 then b64_fill (Suc i) (out[Suc i := CHR ''='']) else out)"
  by pat_completeness auto
termination
  by (relation "measure (\<lambda>(i, out). 3 - i)") auto

declare b64_fill.simps [simp del]

text \<open>The table indices computed from the three bytes of a group.\<close>

definition b64_ix0 :: "nat \<Rightarrow> nat" where
  "b64_ix0 e0 = drop_bit 2 e0"

definition b64_ix1 :: "nat \<Rightarrow> nat \<Rightarrow> nat" where
  "b64_ix1 e0 e1 = push_bit 4 (e0 AND 3) OR drop_bit 4 e1"

definition b64_ix2 :: "nat \<Rightarrow> nat \<Rightarrow> nat" where
  "b64_ix2 e1 e2 = push_bit 2 (e1 AND 0xF) OR drop_bit 6 e2"

definition b64_ix3 :: "nat \<Rightarrow> nat" where
  "b64_ix3 e2 = e2 AND 0x3F"

definition b64_group :: "string \<Rightarrow> string" where
  "b64_group e =
    (let e0 = code_of (e ! 0);
         e1 = (if 1 < length e then code_of (e ! 1) else 0);
         e2 = (if 2 < length e then code_of (e ! 2) else 0)
     in b64_fill (length e)
          [b64_table ! b64_ix0 e0, b64_table ! b64_ix1 e0 e1,
           b64_table ! b64_ix2 e1 e2, b64_table ! b64_ix3 e2])"

fun base64_encode :: "string \<Rightarrow> string" where
  "base64_encode [] = []"
| "base64_encode (c # cs) = b64_group (take 3 (c # cs)) @ base64_encode (drop 3 (c # cs))"

text \<open>A decoder after RFC 2045, as the specification.\<close>

definition b64_value :: "char \<Rightarrow> nat option" where
  "b64_value c = (let i = length (takeWhile ((\<noteq>) c) b64_table) in if i < 64 then Some i else None)"

fun b64_decode :: "string \<Rightarrow> string option" where
  "b64_decode [] = Some []"
| "b64_decode (a # b # c # d # r) =
    (case (b64_value a, b64_value b, b64_value c, b64_value d) of
       (Some u, Some v, Some x, Some y) \<Rightarrow>
         map_option (\<lambda>t. char_of (u * 4 + v div 16) # char_of (v mod 16 * 16 + x div 4)
                        # char_of (x mod 4 * 64 + y) # t) (b64_decode r)
     | (Some u, Some v, Some x, None) \<Rightarrow>
         if d = CHR ''='' \<and> r = [] \<and> x mod 4 = 0
         then Some [char_of (u * 4 + v div 16), char_of (v mod 16 * 16 + x div 4)] else None
     | (Some u, Some v, None, None) \<Rightarrow>
         if c = CHR ''='' \<and> d = CHR ''='' \<and> r = [] \<and> v mod 16 = 0
         then Some [char_of (u * 4 + v div 16)] else None
     | _ \<Rightarrow> None)"
| "b64_decode _ = None"

lemma length_b64_table [simp]: "length b64_table = 64"
  by (simp add: b64_table_def)

lemma distinct_b64_table: "distinct b64_table"
  by code_simp

lemma pad_not_in_table: "CHR ''='' \<notin> set b64_table"
  by code_simp

lemma b64_value_nth [simp]: "i < 64 \<Longrightarrow> b64_value (b64_table ! i) = Some i"
proof -
  assume i: "i < 64"
  have "takeWhile ((\<noteq>) (b64_table ! i)) b64_table = take i b64_table"
  proof (rule takeWhile_eq_take_P_nth)
    fix j assume j: "j < i" "j < length b64_table"
    show "b64_table ! i \<noteq> b64_table ! j"
      using distinct_b64_table i j by (simp add: nth_eq_iff_index_eq)
  qed simp
  then show ?thesis using i by (simp add: b64_value_def)
qed

lemma b64_value_pad [simp]: "b64_value (CHR ''='') = None"
proof -
  have "takeWhile ((\<noteq>) (CHR ''='')) b64_table = b64_table"
    using pad_not_in_table by (auto simp: takeWhile_eq_all_conv)
  then show ?thesis by (simp only: b64_value_def Let_def length_b64_table) simp
qed

lemma or_is_add: "b < 2 ^ k \<Longrightarrow> push_bit k (a :: nat) OR b = a * 2 ^ k + b"
proof -
  assume "b < 2 ^ k"
  then have b: "take_bit k b = b" by (simp add: take_bit_nat_eq_self)
  have "push_bit k a AND b = 0"
    by (rule bit_eqI) (metis b bit_and_iff bit_push_bit_iff bit_take_bit_iff not_le bit_0_eq bot_apply bot_bool_def)
  then have "push_bit k a + b = push_bit k a OR b"
    by (rule disjunctive_add_eq_or)
  then show ?thesis by (simp add: push_bit_eq_mult)
qed

lemma and_low:
  "(x :: nat) AND 3 = x mod 4" "x AND 0xF = x mod 16" "x AND 0x3F = x mod 64"
proof -
  have "x AND mask n = x mod 2 ^ n" for n
    by (metis take_bit_eq_mask take_bit_eq_mod)
  from this [of 2] this [of 4] this [of 6]
  show "x AND 3 = x mod 4" "x AND 0xF = x mod 16" "x AND 0x3F = x mod 64"
    by (simp_all add: mask_eq_exp_minus_1)
qed

lemma b64_indices:
  shows "b64_ix0 e0 = e0 div 4"
    and "e1 < 256 \<Longrightarrow> b64_ix1 e0 e1 = e0 mod 4 * 16 + e1 div 16"
    and "e2 < 256 \<Longrightarrow> b64_ix2 e1 e2 = e1 mod 16 * 4 + e2 div 64"
    and "b64_ix3 e2 = e2 mod 64"
  using or_is_add [of "e1 div 16" 4 "e0 mod 4"] or_is_add [of "e2 div 64" 2 "e1 mod 16"]
  unfolding b64_ix0_def b64_ix1_def b64_ix2_def b64_ix3_def and_low drop_bit_eq_div
  by simp_all

definition b64_char :: "nat \<Rightarrow> char" where
  "b64_char i = b64_table ! i"

lemma b64_value_char [simp]: "i < 64 \<Longrightarrow> b64_value (b64_char i) = Some i"
  by (simp add: b64_char_def)

lemma b64_fill_unfold [simp]:
  "b64_fill 3 [a, b, c, d] = [a, b, c, d]"
  "b64_fill 2 [a, b, c, d] = [a, b, c, CHR ''='']"
  "b64_fill (Suc 0) [a, b, c, d] = [a, b, CHR ''='', CHR ''='']"
  by (simp_all add: b64_fill.simps)

lemma b64_group_3:
  "b64_group [x, y, z] =
    [b64_char (code_of x div 4), b64_char (code_of x mod 4 * 16 + code_of y div 16),
     b64_char (code_of y mod 16 * 4 + code_of z div 64), b64_char (code_of z mod 64)]"
  by (simp add: b64_group_def Let_def b64_indices b64_char_def numeral_3_eq_3 [symmetric])

lemma b64_group_2:
  "b64_group [x, y] =
    [b64_char (code_of x div 4), b64_char (code_of x mod 4 * 16 + code_of y div 16),
     b64_char (code_of y mod 16 * 4), CHR ''='']"
  by (simp add: b64_group_def Let_def b64_indices b64_char_def numeral_2_eq_2 [symmetric])

lemma b64_group_1:
  "b64_group [x] =
    [b64_char (code_of x div 4), b64_char (code_of x mod 4 * 16), CHR ''='', CHR ''='']"
  by (simp add: b64_group_def Let_def b64_indices b64_char_def)

lemma base64_cases:
  "base64_encode [] = []"
  "base64_encode [x] = b64_group [x]"
  "base64_encode [x, y] = b64_group [x, y]"
  "base64_encode (x # y # z # r) = b64_group [x, y, z] @ base64_encode r"
  by (simp_all add: numeral_3_eq_3)

lemma three_step_induct [case_names Nil One Two Three]:
  "P [] \<Longrightarrow> (\<And>x. P [x]) \<Longrightarrow> (\<And>x y. P [x, y]) \<Longrightarrow> (\<And>x y z r. P r \<Longrightarrow> P (x # y # z # r)) \<Longrightarrow> P xs"
  by (induction_schema, pat_completeness) lexicographic_order

lemma b64_range:
  "code_of x div 4 < 64" "code_of x mod 4 * 16 + code_of y div 16 < 64"
  "code_of y mod 16 * 4 + code_of z div 64 < 64" "code_of x mod 4 * 16 < 64" "code_of y mod 16 * 4 < 64"
  using code_of_less [of x] code_of_less [of y] code_of_less [of z] by linarith+

lemma b64_rejoin [simp]:
  "code_of y div 16 div 16 = 0" "code_of y div 16 mod 16 = code_of y div 16"
  "code_of y div 64 div 4 = 0" "code_of y div 64 mod 4 = code_of y div 64"
proof -
  have "code_of y div 16 < 16" "code_of y div 64 < 4" using code_of_less [of y] by linarith+
  then show "code_of y div 16 div 16 = 0" "code_of y div 16 mod 16 = code_of y div 16"
    "code_of y div 64 div 4 = 0" "code_of y div 64 mod 4 = code_of y div 64" by simp_all
qed

text \<open>C25: The RFC 2045 decoder gives back every string \<open>base64_encode\<close> encodes, whatever its
  length and bytes: indices, padding and group order are those of the standard.\<close>

theorem base64_roundtrip: "b64_decode (base64_encode s) = Some s"
proof (induction s rule: three_step_induct)
  case (One x)
  then show ?case
    by (simp only: base64_cases b64_group_1) (simp add: b64_range)
next
  case (Two x y)
  then show ?case by (simp only: base64_cases b64_group_2) (simp add: b64_range)
next
  case (Three x y z r)
  then show ?case by (simp only: base64_cases b64_group_3 append_Cons append_Nil) (simp add: b64_range)
qed simp

text \<open>The output fills the \<open>num * 4\<close> bytes the code allocates before its terminator
  exactly, where \<open>num\<close> is the number of groups of three, rounded up.\<close>

theorem base64_buffer:
  "length (base64_encode s)
   = (length s div 3 + (if length s mod 3 > 0 then 1 else 0)) * 4"
proof (induction s rule: three_step_induct)
  case (Three x y z r)
  have "length (x # y # z # r) div 3 = Suc (length r div 3)"
    "length (x # y # z # r) mod 3 = length r mod 3" by simp_all
  with Three show ?case by (simp only: base64_cases b64_group_3 length_append) simp
qed (simp_all only: base64_cases b64_group_1 b64_group_2, simp_all)
end
