(* ===== verification/Line_Reader.thy ===== *)
theory Line_Reader
  imports Gftp_Prelude
begin

text \<open>
  Buffered line input, \<open>gftp_get_line\<close> of \<open>lib/sockutils.c\<close>. The read function it is given
  is the interface \<open>byte_source\<close>: a function that hands out the next bytes of a stream. Inside
  it, \<open>gftp_get_line\<close> is shown to implement \<open>stream_line\<close>, which cuts the stream itself and
  knows nothing of buffers, refills or the sizes of the chunks that arrive. The buffer is a
  byte list with its real length, so that a write past its end is the value
  \<open>Out_of_bounds\<close>; data with NUL bytes does reach it.
\<close>

datatype stuck = Out_of_bounds | Out_of_fuel

text \<open>A read function: at most \<open>n\<close> bytes, or a negative return code.\<close>

type_synonym 's reader = "nat \<Rightarrow> 's \<Rightarrow> (int + string) \<times> 's"

record getline_buffer =
  buffer :: "char list"
  curpos :: nat
  max_bufsize :: nat
  cur_bufsize :: nat
  eof :: bool

text \<open>\<open>size_t\<close> subtraction.\<close>

definition size_sub :: "nat \<Rightarrow> nat \<Rightarrow> nat" where
  "size_sub a b = (if b \<le> a then a - b else 2 ^ 64 + a - b)"

definition store :: "char list \<Rightarrow> nat \<Rightarrow> string \<Rightarrow> char list option" where
  "store buf off data =
    (if off + length data \<le> length buf
     then Some (take off buf @ data @ drop (off + length data) buf) else None)"

type_synonym 's line_result = "stuck + (int \<times> string option \<times> getline_buffer option \<times> 's)"

text \<open>The branch that has a line: \<open>q\<close> is the result of \<open>strchr (curpos, '\n')\<close>.\<close>

definition deliver_line :: "getline_buffer \<Rightarrow> nat \<Rightarrow> 's \<Rightarrow> ptr option \<Rightarrow> 's line_result" where
  "deliver_line rb len s q =
    (let p = drop (curpos rb) (buffer rb);
         rel = (case q of Some r \<Rightarrow> length p - length r | None \<Rightarrow> 0);
         nslen = (case q of Some _ \<Rightarrow> rel + 1 | None \<Rightarrow> cur_bufsize rb);
         w = (case q of
                Some _ \<Rightarrow> curpos rb + (if 0 < rel \<and> p ! (rel - 1) = CR then rel - 1 else rel)
              | None \<Rightarrow> nslen)
     in case store (buffer rb) w [NUL] of
          None \<Rightarrow> Inl Out_of_bounds
        | Some buf \<Rightarrow>
            (case cstr (drop (curpos rb) buf) of
               None \<Rightarrow> Inl Out_of_bounds
             | Some txt \<Rightarrow>
                 Inr (int nslen, Some (take (len - 1) txt),
                      Some (rb\<lparr>buffer := buf,
                               cur_bufsize := (if q = None then 0 else size_sub (cur_bufsize rb) nslen),
                               curpos := (if q = None then curpos rb else curpos rb + nslen)\<rparr>), s)))"

text \<open>The refill branch up to the read: the place and the room for the new bytes.\<close>

definition make_room :: "getline_buffer \<Rightarrow> (char list \<times> nat \<times> nat) option" where
  "make_room rb =
    (case load (buffer rb) (curpos rb) of
       None \<Rightarrow> None
     | Some c \<Rightarrow>
         if cur_bufsize rb = 0 \<or> c = NUL then Some (buffer rb, 0, max_bufsize rb)
         else if curpos rb + cur_bufsize rb \<le> length (buffer rb)
         then Some (take (cur_bufsize rb) (drop (curpos rb) (buffer rb)) @ drop (cur_bufsize rb) (buffer rb),
                    cur_bufsize rb, size_sub (max_bufsize rb) (cur_bufsize rb))
         else None)"

text \<open>The end of the refill branch: the new bytes and their terminator.\<close>

definition add_bytes :: "getline_buffer \<Rightarrow> char list \<Rightarrow> nat \<Rightarrow> string \<Rightarrow> getline_buffer option" where
  "add_bytes rb buf pos data =
    (case store buf pos data of
       None \<Rightarrow> None
     | Some buf' \<Rightarrow>
         let cur = cur_bufsize rb + length data in
         map_option (\<lambda>b. rb\<lparr>buffer := b, curpos := 0, cur_bufsize := cur,
                            eof := (if data = [] then True else eof rb)\<rparr>)
           (store buf' cur [NUL]))"

fun get_line_loop :: "'s reader \<Rightarrow> nat \<Rightarrow> getline_buffer \<Rightarrow> nat \<Rightarrow> 's \<Rightarrow> 's line_result" where
  "get_line_loop rd 0 rb len s = Inl Out_of_fuel"
| "get_line_loop rd (Suc n) rb len s =
    (case mem_strchr (drop (curpos rb) (buffer rb)) LF of
       None \<Rightarrow> Inl Out_of_bounds
     | Some q \<Rightarrow>
         let end_of_buffer = (curpos rb = 0 \<and> (max_bufsize rb = cur_bufsize rb \<or> eof rb)) in
         if 0 < cur_bufsize rb \<and> (q \<noteq> None \<or> end_of_buffer) then deliver_line rb len s q
         else
           (case make_room rb of
              None \<Rightarrow> Inl Out_of_bounds
            | Some (buf, pos, rlen) \<Rightarrow>
                (case (if eof rb then (Inr [], s) else rd rlen s) of
                   (Inl e, s') \<Rightarrow> Inr (e, None, None, s')
                 | (Inr data, s') \<Rightarrow>
                     if data = [] \<and> cur_bufsize rb = 0 then Inr (0, None, None, s')
                     else (case add_bytes rb buf pos data of
                             None \<Rightarrow> Inl Out_of_bounds
                           | Some rb' \<Rightarrow> get_line_loop rd n rb' len s'))))"

text \<open>The first call allocates \<open>len + 1\<close> bytes and fills them once before the loop.\<close>

definition gftp_get_line ::
  "'s reader \<Rightarrow> getline_buffer option \<Rightarrow> nat \<Rightarrow> 's \<Rightarrow> 's line_result" where
  "gftp_get_line rd rbuf len s =
    (case rbuf of
       Some rb \<Rightarrow> get_line_loop rd (max_bufsize rb + 3) rb len s
     | None \<Rightarrow>
         (case rd len s of
            (Inl e, s') \<Rightarrow> Inr (e, None, None, s')
          | (Inr [], s') \<Rightarrow> Inr (0, None, None, s')
          | (Inr data, s') \<Rightarrow>
              (case store (replicate (len + 1) NUL) 0 data of
                 None \<Rightarrow> Inl Out_of_bounds
               | Some buf \<Rightarrow>
                   (case store buf (length data) [NUL] of
                      None \<Rightarrow> Inl Out_of_bounds
                    | Some buf' \<Rightarrow>
                        get_line_loop rd (len + 3)
                          \<lparr>buffer = buf', curpos = 0, max_bufsize = len,
                           cur_bufsize = length data, eof = False\<rparr> len s'))))"


section \<open>The stream cut into lines\<close>

definition chop_cr :: "string \<Rightarrow> string" where
  "chop_cr l = (if l \<noteq> [] \<and> last l = CR then butlast l else l)"

text \<open>The first line of a stream, and the number of bytes it takes: a line of fewer than
  \<open>m\<close> bytes ends at its newline, a longer one is cut at \<open>m\<close> bytes.\<close>

definition stream_line :: "nat \<Rightarrow> string \<Rightarrow> (string \<times> nat) option" where
  "stream_line m d =
    (if d = [] then None
     else if LF \<in> set (take m d)
     then (let l = takeWhile ((\<noteq>) LF) d in Some (chop_cr l, length l + 1))
     else Some (take m d, length (take m d)))"

definition unread :: "getline_buffer \<Rightarrow> string" where
  "unread rb = take (cur_bufsize rb) (drop (curpos rb) (buffer rb))"

definition buffer_inv :: "getline_buffer \<Rightarrow> bool" where
  "buffer_inv rb \<longleftrightarrow>
     length (buffer rb) = max_bufsize rb + 1 \<and> 0 < max_bufsize rb \<and>
     curpos rb + cur_bufsize rb \<le> max_bufsize rb \<and>
     NUL \<notin> set (unread rb) \<and>
     terminated (drop (curpos rb) (buffer rb)) \<and>
     (0 < cur_bufsize rb \<longrightarrow> buffer rb ! (curpos rb + cur_bufsize rb) = NUL)"

lemma store_eq: "off + length d \<le> length b \<Longrightarrow> store b off d = Some (take off b @ d @ drop (off + length d) b)"
  by (simp add: store_def)

lemma store_length: "store b off d = Some b' \<Longrightarrow> length b' = length b"
  by (auto simp: store_def split: if_splits)

text \<open>A buffer is its consumed part, the unread bytes, a NUL and the rest.\<close>

lemma buffer_split:
  assumes "buffer_inv rb" and "0 < cur_bufsize rb"
  obtains pre post where "buffer rb = pre @ unread rb @ NUL # post" "length pre = curpos rb"
    "length (unread rb) = cur_bufsize rb" "unread rb \<noteq> []"
    "length pre + length (unread rb) + length post = max_bufsize rb"
proof
  let ?i = "curpos rb + cur_bufsize rb"
  have i: "?i < length (buffer rb)" using assms by (simp add: buffer_inv_def)
  have "drop (curpos rb) (buffer rb) = unread rb @ drop (cur_bufsize rb) (drop (curpos rb) (buffer rb))"
    by (simp only: unread_def append_take_drop_id)
  also have "drop (cur_bufsize rb) (drop (curpos rb) (buffer rb)) = NUL # drop (Suc ?i) (buffer rb)"
    using Cons_nth_drop_Suc [OF i] assms by (simp add: buffer_inv_def add.commute)
  finally show "buffer rb = take (curpos rb) (buffer rb) @ unread rb @ NUL # drop (Suc ?i) (buffer rb)"
    by (metis append_take_drop_id)
  show "length (take (curpos rb) (buffer rb)) = curpos rb" using i by simp
  show "length (unread rb) = cur_bufsize rb" using i by (simp add: unread_def)
  then show "unread rb \<noteq> []" using assms(2) by auto
  show "length (take (curpos rb) (buffer rb)) + length (unread rb) + length (drop (Suc ?i) (buffer rb)) = max_bufsize rb"
    using assms i by (auto simp: buffer_inv_def unread_def min_def)
qed

lemma buffer_invI:
  assumes "buffer rb = pre @ u @ NUL # post" "curpos rb = length pre" "cur_bufsize rb = length u"
    "max_bufsize rb = length pre + length u + length post" "0 < max_bufsize rb" "NUL \<notin> set u"
  shows "buffer_inv rb" "unread rb = u"
  using assms by (auto simp: buffer_inv_def unread_def nth_append)

lemma chop_cr_cases:
  obtains (cr) l' where "l = l' @ [CR]" "chop_cr l = l'" | (plain) "chop_cr l = l" "l = [] \<or> last l \<noteq> CR"
proof (cases "l \<noteq> [] \<and> last l = CR")
  case True
  then have "l = butlast l @ [CR]" by (metis append_butlast_last_id)
  with True that(1) show ?thesis by (simp add: chop_cr_def)
next
  case False
  with that(2) show ?thesis by (simp add: chop_cr_def)
qed

lemma scan_unread:
  assumes inv: "buffer_inv rb" and cur: "0 < cur_bufsize rb"
  shows "\<exists>q. mem_strchr (drop (curpos rb) (buffer rb)) LF = Some q \<and> (q \<noteq> None \<longleftrightarrow> LF \<in> set (unread rb))"
proof -
  obtain pre post where b: "buffer rb = pre @ unread rb @ NUL # post" and pre: "length pre = curpos rb"
    using buffer_split [OF inv cur] by metis
  have d: "drop (curpos rb) (buffer rb) = unread rb @ NUL # post"
    by (subst b) (simp add: pre [symmetric])
  have nul: "NUL \<notin> set (unread rb)" using inv by (simp add: buffer_inv_def)
  show ?thesis
  proof (cases "LF \<in> set (unread rb)")
    case True
    then obtain l r where "unread rb = l @ LF # r" "LF \<notin> set l" by (meson split_list_first)
    with nul True show ?thesis using mem_strchr_hit [of LF l "r @ NUL # post"] by (simp add: d)
  next
    case False
    with nul show ?thesis using mem_strchr_miss [of LF "unread rb" post] by (simp add: d)
  qed
qed

lemma deliver_found:
  assumes inv: "buffer_inv rb" and cur: "0 < cur_bufsize rb"
    and u: "unread rb = l @ LF # r" and l: "LF \<notin> set l"
  shows "\<exists>q rb'. mem_strchr (drop (curpos rb) (buffer rb)) LF = Some (Some q) \<and>
     deliver_line rb len s (Some q) = Inr (int (length l + 1), Some (take (len - 1) (chop_cr l)), Some rb', s) \<and>
     buffer_inv rb' \<and> unread rb' = r \<and> max_bufsize rb' = max_bufsize rb \<and> eof rb' = eof rb"
proof -
  obtain pre post where b: "buffer rb = pre @ (l @ LF # r) @ NUL # post" and pre: "curpos rb = length pre"
    and len_u: "cur_bufsize rb = length (l @ LF # r)"
    and max: "max_bufsize rb = length pre + length (l @ LF # r) + length post"
    using buffer_split [OF inv cur] u by metis
  have nul: "NUL \<notin> set l" "NUL \<notin> set r" using inv u by (auto simp: buffer_inv_def)
  define q where "q = LF # r @ NUL # post"
  have d: "drop (curpos rb) (buffer rb) = l @ q" by (simp add: b pre q_def)
  have rel: "length (l @ q) - length q = length l" by simp
  have found: "mem_strchr (drop (curpos rb) (buffer rb)) LF = Some (Some q)"
    using mem_strchr_hit [OF l nul(1)] by (simp add: d q_def)
  define buf where "buf = pre @ chop_cr l @ NUL # drop (length (chop_cr l) + 1) (l @ LF # r) @ NUL # post"
  define w where "w = length pre + (if 0 < length l \<and> (l @ q) ! (length l - 1) = CR then length l - 1 else length l)"
  have w: "w = length pre + length (chop_cr l)"
    by (cases l rule: chop_cr_cases) (auto simp: w_def nth_append last_conv_nth)
  have st: "store (buffer rb) w [NUL] = Some buf"
    unfolding w by (cases l rule: chop_cr_cases) (auto simp: store_def b buf_def)
  have c: "cstr (drop (curpos rb) buf) = Some (chop_cr l)"
    using nul(1) by (cases l rule: chop_cr_cases) (auto simp: buf_def pre cstr_NUL)
  have rest: "drop (length pre + length l + 1) buf = r @ NUL # post" and lenb: "length buf = length (buffer rb)"
    by (cases l rule: chop_cr_cases; simp add: buf_def b)+
  define rb' where "rb' = rb\<lparr>buffer := buf, cur_bufsize := length r, curpos := length pre + length l + 1\<rparr>"
  have "deliver_line rb len s (Some q) = Inr (int (length l + 1), Some (take (len - 1) (chop_cr l)), Some rb', s)"
    unfolding deliver_line_def Let_def d option.case rel
    unfolding pre w_def [symmetric] st option.case c [unfolded pre]
    by (simp add: len_u size_sub_def rb'_def add.commute)
  moreover have "buffer_inv rb'" "unread rb' = r"
  proof -
    have "buf = take (length pre + length l + 1) buf @ r @ NUL # post"
      using rest by (metis append_take_drop_id)
    moreover have "length (take (length pre + length l + 1) buf) = length pre + length l + 1"
      using lenb b by simp
    ultimately show "buffer_inv rb'" "unread rb' = r"
      using buffer_invI [of rb' "take (length pre + length l + 1) buf" r post] nul max
      by (simp_all add: rb'_def)
  qed
  ultimately show ?thesis using found by (auto simp: rb'_def)
qed

lemma deliver_end:
  assumes inv: "buffer_inv rb" and cur: "0 < cur_bufsize rb" and start: "curpos rb = 0"
    and u: "LF \<notin> set (unread rb)"
  shows "\<exists>rb'. mem_strchr (drop (curpos rb) (buffer rb)) LF = Some None \<and>
     deliver_line rb len s None = Inr (int (length (unread rb)), Some (take (len - 1) (unread rb)), Some rb', s) \<and>
     buffer_inv rb' \<and> unread rb' = [] \<and> max_bufsize rb' = max_bufsize rb \<and> eof rb' = eof rb"
proof -
  obtain pre post where b: "buffer rb = pre @ unread rb @ NUL # post" and pre: "curpos rb = length pre"
    and len_u: "length (unread rb) = cur_bufsize rb"
    and max: "length pre + length (unread rb) + length post = max_bufsize rb"
    using buffer_split [OF inv cur] by metis
  then have b: "buffer rb = unread rb @ NUL # post" using start by simp
  have nul: "NUL \<notin> set (unread rb)" using inv by (simp add: buffer_inv_def)
  have miss: "mem_strchr (drop (curpos rb) (buffer rb)) LF = Some None"
    using mem_strchr_miss [OF u nul, of post] b start by simp
  have st: "store (buffer rb) (cur_bufsize rb) [NUL] = Some (buffer rb)"
    unfolding len_u [symmetric] by (subst (1 2) b) (simp add: store_def)
  have c: "cstr (buffer rb) = Some (unread rb)"
    using cstr_NUL [OF nul, of post] b by simp
  define rb' where "rb' = rb\<lparr>cur_bufsize := 0\<rparr>"
  have "deliver_line rb len s None = Inr (int (length (unread rb)), Some (take (len - 1) (unread rb)), Some rb', s)"
    using st c start by (simp add: deliver_line_def Let_def len_u rb'_def)
  moreover have "buffer_inv rb'" "unread rb' = []"
    using inv by (auto simp: buffer_inv_def rb'_def unread_def)
  ultimately show ?thesis using miss by (auto simp: rb'_def)
qed

lemma make_room_ok:
  assumes inv: "buffer_inv rb"
  shows "\<exists>buf. make_room rb = Some (buf, cur_bufsize rb, max_bufsize rb - cur_bufsize rb) \<and>
     length buf = max_bufsize rb + 1 \<and> take (cur_bufsize rb) buf = unread rb"
proof (cases "cur_bufsize rb = 0")
  case True
  then show ?thesis using inv
    by (auto simp: make_room_def load_def buffer_inv_def unread_def)
next
  case False
  then obtain pre post where b: "buffer rb = pre @ unread rb @ NUL # post" and pre: "length pre = curpos rb"
    and len_u: "length (unread rb) = cur_bufsize rb" and ne: "unread rb \<noteq> []"
    and max: "length pre + length (unread rb) + length post = max_bufsize rb"
    using buffer_split [OF inv] by auto
  have "load (buffer rb) (curpos rb) = Some (hd (unread rb))"
    using ne by (subst b) (simp add: load_def pre [symmetric] nth_append hd_conv_nth)
  moreover have "hd (unread rb) \<noteq> NUL"
    using inv ne by (metis buffer_inv_def hd_in_set)
  ultimately show ?thesis using inv False len_u pre max
    by (auto simp: make_room_def buffer_inv_def size_sub_def unread_def)
qed

lemma add_bytes_ok:
  assumes buf: "length buf = max_bufsize rb + 1" "take (cur_bufsize rb) buf = u" "length u = cur_bufsize rb"
    and room: "cur_bufsize rb + length d \<le> max_bufsize rb" "0 < max_bufsize rb"
    and nul: "NUL \<notin> set u" "NUL \<notin> set d"
  shows "\<exists>rb'. add_bytes rb buf (cur_bufsize rb) d = Some rb' \<and> buffer_inv rb' \<and> unread rb' = u @ d \<and>
     curpos rb' = 0 \<and> cur_bufsize rb' = length (u @ d) \<and> max_bufsize rb' = max_bufsize rb \<and>
     eof rb' = (d = [] \<or> eof rb)"
proof -
  let ?c = "cur_bufsize rb" and ?n = "cur_bufsize rb + length d"
  have s1: "store buf ?c d = Some (u @ d @ drop ?n buf)"
    using buf room by (simp add: store_def)
  have s2: "store (u @ d @ drop ?n buf) ?n [NUL] = Some (u @ d @ NUL # drop (Suc ?n) buf)"
    using buf room by (simp add: store_def)
  define rb' where "rb' = rb\<lparr>buffer := (u @ d) @ NUL # drop (Suc ?n) buf, curpos := 0, cur_bufsize := ?n,
      eof := (if d = [] then True else eof rb)\<rparr>"
  have "add_bytes rb buf ?c d = Some rb'"
    using s1 s2 by (simp add: add_bytes_def Let_def rb'_def)
  moreover have "buffer_inv rb'" "unread rb' = u @ d"
    using buffer_invI [of rb' "[]" "u @ d" "drop (Suc ?n) buf"] buf room nul
    by (simp_all add: rb'_def)
  ultimately show ?thesis using buf by (auto simp: rb'_def)
qed


section \<open>The read interface and the refinement\<close>

locale byte_source =
  fixes rd :: "'s reader" and pending :: "'s \<Rightarrow> string" and ok :: "'s \<Rightarrow> bool"
  assumes rd_data: "ok s \<Longrightarrow> rd n s = (Inr d, s') \<Longrightarrow> pending s = d @ pending s' \<and> length d \<le> n \<and> ok s'"
    and rd_end: "ok s \<Longrightarrow> 0 < n \<Longrightarrow> rd n s = (Inr [], s') \<Longrightarrow> pending s = []"
    and rd_error: "ok s \<Longrightarrow> rd n s = (Inl e, s') \<Longrightarrow> e < 0"
begin

text \<open>What is left to read: the unread part of the buffer, then the source.\<close>

definition stream :: "getline_buffer \<Rightarrow> 's \<Rightarrow> string" where
  "stream rb s = unread rb @ pending s"

definition reader_inv :: "getline_buffer \<Rightarrow> 's \<Rightarrow> bool" where
  "reader_inv rb s \<longleftrightarrow> buffer_inv rb \<and> ok s \<and> NUL \<notin> set (pending s) \<and> (eof rb \<longrightarrow> pending s = [])"

definition call_ok :: "nat \<Rightarrow> nat \<Rightarrow> string \<Rightarrow> 's line_result \<Rightarrow> bool" where
  "call_ok m len d res \<longleftrightarrow>
    (\<exists>e s'. e < 0 \<and> res = Inr (e, None, None, s') \<and> (\<exists>n t. ok t \<and> rd n t = (Inl e, s'))) \<or>
    (stream_line m d = None \<and> (\<exists>s'. res = Inr (0, None, None, s'))) \<or>
    (\<exists>l n rb' s'. stream_line m d = Some (l, n) \<and>
       res = Inr (int n, Some (take (len - 1) l), Some rb', s') \<and>
       max_bufsize rb' = m \<and> reader_inv rb' s' \<and> stream rb' s' = drop n d)"

lemma call_ok_line:
  "stream_line m d = Some (l, n) \<Longrightarrow> res = Inr (int n, Some (take (len - 1) l), Some rb', s') \<Longrightarrow>
   max_bufsize rb' = m \<Longrightarrow> reader_inv rb' s' \<Longrightarrow> stream rb' s' = drop n d \<Longrightarrow> call_ok m len d res"
  unfolding call_ok_def by blast

lemma deliver_call_ok:
  assumes inv: "reader_inv rb s" and cur: "0 < cur_bufsize rb"
    and ready: "LF \<in> set (unread rb) \<or> curpos rb = 0 \<and> (max_bufsize rb = cur_bufsize rb \<or> eof rb)"
  shows "\<exists>q. mem_strchr (drop (curpos rb) (buffer rb)) LF = Some q \<and>
    (q \<noteq> None \<longleftrightarrow> LF \<in> set (unread rb)) \<and>
    call_ok (max_bufsize rb) len (stream rb s) (deliver_line rb len s q)"
proof (cases "LF \<in> set (unread rb)")
  case True
  then obtain l r where u: "unread rb = l @ LF # r" and l: "LF \<notin> set l"
    by (meson split_list_first)
  have b: "buffer_inv rb" using inv by (simp add: reader_inv_def)
  obtain q rb' where 1: "mem_strchr (drop (curpos rb) (buffer rb)) LF = Some (Some q)"
    and 2: "deliver_line rb len s (Some q) = Inr (int (length l + 1), Some (take (len - 1) (chop_cr l)), Some rb', s)"
    and 3: "buffer_inv rb'" "unread rb' = r" "max_bufsize rb' = max_bufsize rb" "eof rb' = eof rb"
    using deliver_found [OF b cur u l, of len s] by (elim exE conjE) (rule that)
  have "length (unread rb) \<le> max_bufsize rb"
    using b by (auto simp: buffer_inv_def unread_def)
  then have "LF \<in> set (take (max_bufsize rb) (stream rb s))"
    by (cases "max_bufsize rb - length l") (auto simp: stream_def u)
  moreover have "takeWhile ((\<noteq>) LF) (stream rb s) = l"
    using l by (auto simp: stream_def u takeWhile_append takeWhile_eq_all_conv)
  ultimately have "stream_line (max_bufsize rb) (stream rb s) = Some (chop_cr l, length l + 1)"
    by (auto simp: stream_line_def stream_def u Let_def)
  then have "call_ok (max_bufsize rb) len (stream rb s) (deliver_line rb len s (Some q))"
    by (rule call_ok_line [OF _ 2]) (use 3 inv in \<open>simp_all add: reader_inv_def stream_def u\<close>)
  with 1 True show ?thesis by blast
next
  case False
  then have start: "curpos rb = 0" and full: "max_bufsize rb = cur_bufsize rb \<or> eof rb"
    using ready by auto
  have b: "buffer_inv rb" using inv by (simp add: reader_inv_def)
  obtain rb' where 1: "mem_strchr (drop (curpos rb) (buffer rb)) LF = Some None"
    and 2: "deliver_line rb len s None = Inr (int (length (unread rb)), Some (take (len - 1) (unread rb)), Some rb', s)"
    and 3: "buffer_inv rb'" "unread rb' = []" "max_bufsize rb' = max_bufsize rb" "eof rb' = eof rb"
    using deliver_end [OF b cur start False, of len s] by (elim exE conjE) (rule that)
  have lu: "length (unread rb) = cur_bufsize rb" "cur_bufsize rb \<le> max_bufsize rb"
    using b start by (auto simp: buffer_inv_def unread_def)
  have "take (max_bufsize rb) (stream rb s) = unread rb"
    using full lu inv by (auto simp: stream_def reader_inv_def)
  moreover have "stream rb s \<noteq> []" using lu cur by (auto simp: stream_def)
  ultimately have "stream_line (max_bufsize rb) (stream rb s) = Some (unread rb, length (unread rb))"
    using False by (simp add: stream_line_def)
  then have "call_ok (max_bufsize rb) len (stream rb s) (deliver_line rb len s None)"
    by (rule call_ok_line [OF _ 2]) (use 3 inv in \<open>simp_all add: reader_inv_def stream_def\<close>)
  with 1 False show ?thesis by blast
qed

definition enough :: "getline_buffer \<Rightarrow> nat" where
  "enough rb = (if eof rb then 2 else max_bufsize rb - cur_bufsize rb + 2)"

lemma enough_le: "enough rb \<le> max_bufsize rb + 3"
  by (auto simp: enough_def)

lemma loop_refines:
  "reader_inv rb s \<Longrightarrow> enough rb \<le> n \<or> (0 < cur_bufsize rb \<and> curpos rb = 0 \<and> eof rb \<and> 0 < n) \<Longrightarrow>
   call_ok (max_bufsize rb) len (stream rb s) (get_line_loop rd n rb len s)"
proof (induction n arbitrary: rb s)
  case 0
  then show ?case by (simp add: enough_def split: if_splits)
next
  case (Suc n)
  have b: "buffer_inv rb" and ok: "ok s" using Suc.prems by (auto simp: reader_inv_def)
  define ready where "ready \<longleftrightarrow> 0 < cur_bufsize rb \<and>
    (LF \<in> set (unread rb) \<or> curpos rb = 0 \<and> (max_bufsize rb = cur_bufsize rb \<or> eof rb))"
  show ?case
  proof (cases ready)
    case True
    then show ?thesis using deliver_call_ok [OF Suc.prems(1), of len]
      by (auto simp: ready_def Let_def)
  next
    case False
    have tm: "terminated (drop (curpos rb) (buffer rb))" using b by (simp add: buffer_inv_def)
    obtain q where q: "mem_strchr (drop (curpos rb) (buffer rb)) LF = Some q"
      "0 < cur_bufsize rb \<longrightarrow> (q \<noteq> None \<longleftrightarrow> LF \<in> set (unread rb))"
      using mem_strchr_terminated [OF tm] scan_unread [OF b] by (cases "0 < cur_bufsize rb") auto
    obtain buf where room: "make_room rb = Some (buf, cur_bufsize rb, max_bufsize rb - cur_bufsize rb)"
      and buf: "length buf = max_bufsize rb + 1" "take (cur_bufsize rb) buf = unread rb"
      using make_room_ok [OF b] by blast
    obtain res s' where rd: "(if eof rb then (Inr [], s) else rd (max_bufsize rb - cur_bufsize rb) s) = (res, s')"
      by (cases "if eof rb then (Inr [], s) else rd (max_bufsize rb - cur_bufsize rb) s")
    have step: "get_line_loop rd (Suc n) rb len s =
      (case res of
         Inl e \<Rightarrow> Inr (e, None, None, s')
       | Inr data \<Rightarrow>
           if data = [] \<and> cur_bufsize rb = 0 then Inr (0, None, None, s')
           else (case add_bytes rb buf (cur_bufsize rb) data of
                   None \<Rightarrow> Inl Out_of_bounds
                 | Some rb' \<Rightarrow> get_line_loop rd n rb' len s'))"
      using q False by (auto simp: Let_def room rd ready_def)
    show ?thesis
    proof (cases res)
      case (Inl e)
      then have "rd (max_bufsize rb - cur_bufsize rb) s = (Inl e, s')" using rd by (auto split: if_splits)
      moreover from this have "e < 0" by (rule rd_error [OF ok])
      ultimately show ?thesis using Inl step ok unfolding call_ok_def by auto
    next
      case (Inr d)
      have lu: "length (unread rb) = cur_bufsize rb" "cur_bufsize rb \<le> max_bufsize rb"
        using b by (auto simp: buffer_inv_def unread_def)
      have nul: "NUL \<notin> set (unread rb)" "NUL \<notin> set (pending s)" "0 < max_bufsize rb"
        using Suc.prems(1) by (auto simp: reader_inv_def buffer_inv_def)
      have pos: "0 < max_bufsize rb - cur_bufsize rb" if "\<not> eof rb"
        using False b by (auto simp: ready_def buffer_inv_def)
      have d: "pending s = d @ pending s' \<and> length d \<le> max_bufsize rb - cur_bufsize rb \<and> ok s' \<and>
          (eof rb \<longrightarrow> d = []) \<and> (d = [] \<longrightarrow> pending s' = [])"
      proof (cases "eof rb")
        case True
        with rd Inr Suc.prems(1) show ?thesis by (auto simp: reader_inv_def)
      next
        case False
        with rd Inr have rd': "rd (max_bufsize rb - cur_bufsize rb) s = (Inr d, s')" by simp
        show ?thesis using rd_data [OF ok rd'] rd_end [OF ok pos [OF False], of s'] rd' False by auto
      qed
      show ?thesis
      proof (cases "d = [] \<and> cur_bufsize rb = 0")
        case True
        then have "stream rb s = []" using d lu by (simp add: stream_def)
        with True Inr step show ?thesis by (auto simp: call_ok_def stream_line_def)
      next
        case nonempty: False
        have fits: "cur_bufsize rb + length d \<le> max_bufsize rb" "NUL \<notin> set d"
          using d lu nul by auto
        obtain rb' where rb': "add_bytes rb buf (cur_bufsize rb) d = Some rb'" "buffer_inv rb'"
          "unread rb' = unread rb @ d" "curpos rb' = 0" "cur_bufsize rb' = length (unread rb @ d)"
          "max_bufsize rb' = max_bufsize rb" "eof rb' = (d = [] \<or> eof rb)"
          using add_bytes_ok [OF buf lu(1) fits(1) nul(3,1) fits(2)] by blast
        have inv': "reader_inv rb' s'" using rb' d Suc.prems(1) by (auto simp: reader_inv_def)
        have st: "stream rb' s' = stream rb s" using rb' d by (simp add: stream_def)
        have "enough rb' \<le> n \<or> (0 < cur_bufsize rb' \<and> curpos rb' = 0 \<and> eof rb' \<and> 0 < n)"
        proof (cases "d = []")
          case True
          with nonempty rb' lu Suc.prems(2) False show ?thesis
            by (auto simp: enough_def ready_def split: if_splits)
        next
          case False
          then obtain c d' where "d = c # d'" by (cases d) auto
          with d rb' lu Suc.prems(2) show ?thesis
            by (auto simp: enough_def split: if_splits)
        qed
        from Suc.IH [OF inv' this] have "call_ok (max_bufsize rb) len (stream rb s) (get_line_loop rd n rb' len s')"
          by (simp add: rb' st)
        with step Inr rb'(1) nonempty show ?thesis by auto
      qed
    qed
  qed
qed
lemma get_line_refines:
  assumes "case rbuf of Some rb \<Rightarrow> reader_inv rb s \<and> max_bufsize rb = m \<and> d = stream rb s
           | None \<Rightarrow> ok s \<and> NUL \<notin> set (pending s) \<and> 0 < len \<and> m = len \<and> d = pending s"
  shows "call_ok m len d (gftp_get_line rd rbuf len s)"
proof (cases rbuf)
  case (Some rb)
  then show ?thesis using assms loop_refines [of rb s "max_bufsize rb + 3" len]
    by (auto simp: gftp_get_line_def enough_le)
next
  case None
  then have ok: "ok s" and nul: "NUL \<notin> set (pending s)" and len: "0 < len" and m: "m = len" "d = pending s"
    using assms by auto
  show ?thesis
  proof (cases "fst (rd len s)")
    case (Inl e)
    then obtain s' where rd: "rd len s = (Inl e, s')" by (cases "rd len s") auto
    then show ?thesis using None rd_error [OF ok rd] ok unfolding call_ok_def
      by (auto simp: gftp_get_line_def)
  next
    case (Inr x)
    then obtain s' where rd: "rd len s = (Inr x, s')" by (cases "rd len s") auto
    show ?thesis
    proof (cases x)
      case Nil
      then show ?thesis using None rd rd_end [OF ok len, of s'] m
        by (auto simp: gftp_get_line_def call_ok_def stream_line_def)
    next
      case (Cons c cs)
      have x: "pending s = x @ pending s'" "length x \<le> len" "ok s'" "NUL \<notin> set x" "NUL \<notin> set (pending s')"
        using rd_data [OF ok rd] nul by auto
      define buf where "buf = x @ NUL # replicate (len - length x) NUL"
      have st: "store (replicate (len + 1) NUL) 0 x = Some buf" "store buf (length x) [NUL] = Some buf"
      proof -
        obtain j where "len = length x + j" using x(2) le_Suc_ex by blast
        moreover from this have "replicate (len + 1) NUL = replicate (length x) NUL @ NUL # replicate j NUL"
          by (simp only: add.assoc replicate_add) (simp add: replicate_app_Cons_same)
        ultimately show "store (replicate (len + 1) NUL) 0 x = Some buf" "store buf (length x) [NUL] = Some buf"
          by (simp_all only: store_def buf_def) simp_all
      qed
      define rb where "rb = \<lparr>buffer = buf, curpos = 0, max_bufsize = len, cur_bufsize = length x, eof = False\<rparr>"
      have "buffer_inv rb" "unread rb = x"
        using buffer_invI [of rb "[]" x "replicate (len - length x) NUL"] x len
        by (simp_all add: rb_def buf_def)
      then have inv: "reader_inv rb s'" and str: "stream rb s' = d"
        using x m by (simp_all add: reader_inv_def stream_def rb_def)
      have "gftp_get_line rd rbuf len s = get_line_loop rd (len + 3) rb len s'"
        using None rd st Cons by (simp add: gftp_get_line_def rb_def)
      then show ?thesis using loop_refines [OF inv, of "len + 3" len] m str
        by (simp add: enough_def rb_def)
    qed
  qed
qed

text \<open>While a newline is to come within the buffer, the end of the source is not reached.\<close>

lemma eof_stays_clear:
  "reader_inv rb s \<Longrightarrow> \<not> eof rb \<Longrightarrow> LF \<in> set (take (max_bufsize rb) (stream rb s)) \<Longrightarrow>
   get_line_loop rd n rb len s = Inr (r, l, Some rb2, s2) \<Longrightarrow> \<not> eof rb2"
proof (induction n arbitrary: rb s)
  case (Suc n)
  have b: "buffer_inv rb" and ok: "ok s" using Suc.prems(1) by (auto simp: reader_inv_def)
  define ready where "ready \<longleftrightarrow> 0 < cur_bufsize rb \<and>
    (LF \<in> set (unread rb) \<or> curpos rb = 0 \<and> max_bufsize rb = cur_bufsize rb)"
  have tm: "terminated (drop (curpos rb) (buffer rb))" using b by (simp add: buffer_inv_def)
  obtain q where q: "mem_strchr (drop (curpos rb) (buffer rb)) LF = Some q"
    "0 < cur_bufsize rb \<longrightarrow> (q \<noteq> None \<longleftrightarrow> LF \<in> set (unread rb))"
    using mem_strchr_terminated [OF tm] scan_unread [OF b] by (cases "0 < cur_bufsize rb") auto
  show ?case
  proof (cases ready)
    case True
    then show ?thesis using Suc.prems(2,4) q
      by (auto simp: ready_def Let_def deliver_line_def split: option.splits if_splits)
  next
    case False
    obtain buf where room: "make_room rb = Some (buf, cur_bufsize rb, max_bufsize rb - cur_bufsize rb)"
      and buf: "length buf = max_bufsize rb + 1" "take (cur_bufsize rb) buf = unread rb"
      using make_room_ok [OF b] by blast
    obtain d s' where rd: "rd (max_bufsize rb - cur_bufsize rb) s = (Inr d, s')"
      and ne: "\<not> (d = [] \<and> cur_bufsize rb = 0)"
      and next': "get_line_loop rd (Suc n) rb len s =
        (case add_bytes rb buf (cur_bufsize rb) d of None \<Rightarrow> Inl Out_of_bounds | Some rb' \<Rightarrow> get_line_loop rd n rb' len s')"
      using Suc.prems(2,4) q False room
      by (auto simp: ready_def Let_def split: prod.splits sum.splits if_splits)
    have lu: "length (unread rb) = cur_bufsize rb" "cur_bufsize rb \<le> max_bufsize rb"
      and nul: "NUL \<notin> set (unread rb)" "NUL \<notin> set (pending s)" "0 < max_bufsize rb"
      using b Suc.prems(1) by (auto simp: buffer_inv_def unread_def reader_inv_def)
    have pos: "0 < max_bufsize rb - cur_bufsize rb"
      using False b by (auto simp: ready_def buffer_inv_def)
    have d: "pending s = d @ pending s'" "length d \<le> max_bufsize rb - cur_bufsize rb" "ok s'"
      using rd_data [OF ok rd] by auto
    have "d \<noteq> []"
    proof
      assume "d = []"
      then have "pending s = []" using rd_end [OF ok pos] rd by simp
      then have "LF \<in> set (unread rb)" using Suc.prems(3) by (auto simp: stream_def dest: in_set_takeD)
      with False lu \<open>d = []\<close> ne show False by (auto simp: ready_def)
    qed
    have fits: "cur_bufsize rb + length d \<le> max_bufsize rb" "NUL \<notin> set d" using d lu nul by auto
    obtain rb' where rb': "add_bytes rb buf (cur_bufsize rb) d = Some rb'" "buffer_inv rb'"
      "unread rb' = unread rb @ d" "max_bufsize rb' = max_bufsize rb" "eof rb' = (d = [] \<or> eof rb)"
      using add_bytes_ok [OF buf lu(1) fits(1) nul(3,1) fits(2)] by blast
    have "reader_inv rb' s'" "stream rb' s' = stream rb s"
      using rb' d Suc.prems(1,2) \<open>d \<noteq> []\<close> by (auto simp: reader_inv_def stream_def)
    then show ?thesis
      using Suc.IH [of rb' s'] Suc.prems(2-4) rb' next' \<open>d \<noteq> []\<close> by simp
  qed
qed simp

lemma get_line_no_eof:
  assumes "case rbuf of Some rb \<Rightarrow> reader_inv rb s \<and> max_bufsize rb = m \<and> d = stream rb s \<and> \<not> eof rb
           | None \<Rightarrow> ok s \<and> NUL \<notin> set (pending s) \<and> 0 < len \<and> m = len \<and> d = pending s"
    and "LF \<in> set (take m d)" "gftp_get_line rd rbuf len s = Inr (r, l, Some rb2, s2)"
  shows "\<not> eof rb2"
proof (cases rbuf)
  case (Some rb)
  then show ?thesis using assms eof_stays_clear [of rb s "max_bufsize rb + 3" len r l rb2 s2]
    by (simp add: gftp_get_line_def)
next
  case None
  then have ok: "ok s" and nul: "NUL \<notin> set (pending s)" and len: "0 < len" and m: "m = len" "d = pending s"
    using assms by auto
  obtain c x s' where rd: "rd len s = (Inr (c # x), s')"
    using None assms(3) by (auto simp: gftp_get_line_def split: prod.splits sum.splits list.splits)
  have d: "pending s = (c # x) @ pending s'" "length (c # x) \<le> len" "ok s'" using rd_data [OF ok rd] by auto
  obtain buf buf' where st: "store (replicate (len + 1) NUL) 0 (c # x) = Some buf"
      "store buf (length (c # x)) [NUL] = Some buf'"
      "get_line_loop rd (len + 3) \<lparr>buffer = buf', curpos = 0, max_bufsize = len, cur_bufsize = length (c # x), eof = False\<rparr>
         len s' = Inr (r, l, Some rb2, s2)"
    using None assms(3) rd by (auto simp: gftp_get_line_def split: option.splits)
  let ?rb = "\<lparr>buffer = buf', curpos = 0, max_bufsize = len, cur_bufsize = length (c # x), eof = False\<rparr>"
  have "buf' = (c # x) @ NUL # drop (Suc (length (c # x))) buf" "length buf = len + 1"
    using st(1,2) store_eq [of 0 "c # x" "replicate (len + 1) NUL"] d(2)
      store_eq [of "length (c # x)" "[NUL]" buf] store_length [OF st(1)] by auto
  then have "buffer_inv ?rb" "unread ?rb = c # x"
    using buffer_invI [of ?rb "[]" "c # x" "drop (Suc (length (c # x))) buf"] nul d len by auto
  then have "reader_inv ?rb s'" "stream ?rb s' = d" using nul d m by (auto simp: reader_inv_def stream_def)
  from eof_stays_clear [OF this(1) _ _ st(3)] this(2) assms(2) m show ?thesis by simp
qed

end


section \<open>Termination without assumptions on the data\<close>

text \<open>
  The callers loop \<open>while (gftp_get_line (...) > 0)\<close>; \<open>read_lines\<close> is that loop with the lines
  it hands to its body, and \<open>stream_lines\<close> its specification.
\<close>

fun read_lines :: "'s reader \<Rightarrow> nat \<Rightarrow> getline_buffer option \<Rightarrow> nat \<Rightarrow> 's \<Rightarrow> stuck + string list" where
  "read_lines rd 0 rbuf len s = Inl Out_of_fuel"
| "read_lines rd (Suc n) rbuf len s =
    (case gftp_get_line rd rbuf len s of
       Inl f \<Rightarrow> Inl f
     | Inr (ret, line, rbuf', s') \<Rightarrow>
         (case line of
            Some l \<Rightarrow>
              if 0 < ret
              then (case read_lines rd n rbuf' len s' of Inl f \<Rightarrow> Inl f | Inr ls \<Rightarrow> Inr (l # ls))
              else Inr []
          | None \<Rightarrow> Inr []))"

function stream_lines :: "nat \<Rightarrow> string \<Rightarrow> string list" where
  "stream_lines m d =
    (if m = 0 then []
     else case stream_line m d of None \<Rightarrow> [] | Some (l, n) \<Rightarrow> l # stream_lines m (drop n d))"
  by pat_completeness auto
termination
  by (relation "measure (length \<circ> snd)") (auto simp: stream_line_def Let_def split: if_splits)

declare stream_lines.simps [simp del]

lemma takeWhile_neq_shorter: "x \<in> set d \<Longrightarrow> length (takeWhile ((\<noteq>) x) d) < length d"
  by (induction d) auto

lemma stream_line_pos: "0 < m \<Longrightarrow> stream_line m d = Some (l, n) \<Longrightarrow> 0 < n \<and> n \<le> length d"
proof -
  assume "0 < m" "stream_line m d = Some (l, n)"
  moreover have "LF \<in> set (take m d) \<Longrightarrow> length (takeWhile ((\<noteq>) LF) d) < length d"
    using takeWhile_neq_shorter in_set_takeD by metis
  ultimately show ?thesis by (auto simp: stream_line_def Let_def split: if_splits)
qed

lemma stream_line_None [simp]: "stream_line m d = None \<longleftrightarrow> d = []"
  by (simp add: stream_line_def Let_def)

locale reliable_source = byte_source rd pending ok
  for rd :: "'s reader" and pending :: "'s \<Rightarrow> string" and ok :: "'s \<Rightarrow> bool" +
  assumes rd_succeeds: "ok s \<Longrightarrow> isl (fst (rd n s)) \<Longrightarrow> False"
begin

lemma call_ok_reliable:
  "call_ok m len d res \<Longrightarrow>
   (case stream_line m d of
      None \<Rightarrow> \<exists>s'. res = Inr (0, None, None, s')
    | Some (l, n) \<Rightarrow> \<exists>rb' s'. res = Inr (int n, Some (take (len - 1) l), Some rb', s') \<and>
        max_bufsize rb' = m \<and> reader_inv rb' s' \<and> stream rb' s' = drop n d)"
proof -
  assume "call_ok m len d res"
  moreover have "\<not> (ok t \<and> rd n t = (Inl e, s'))" for n t e s'
    using rd_succeeds [of t n] by auto
  ultimately show ?thesis
    unfolding call_ok_def by (elim disjE) (auto simp del: stream_line_None)
qed

lemma read_lines_from:
  "reader_inv rb s \<Longrightarrow> max_bufsize rb = m \<Longrightarrow> length (stream rb s) < fuel \<Longrightarrow>
   read_lines rd fuel (Some rb) len s = Inr (map (take (len - 1)) (stream_lines m (stream rb s)))"
proof (induction fuel arbitrary: rb s)
  case (Suc fuel)
  let ?d = "stream rb s"
  have m: "0 < m" using Suc.prems by (auto simp: reader_inv_def buffer_inv_def)
  have ok: "call_ok m len ?d (gftp_get_line rd (Some rb) len s)"
    using get_line_refines [where rbuf = "Some rb" and s = s and m = m and d = ?d and len = len] Suc.prems by simp
  show ?case
  proof (cases "stream_line m ?d")
    case None
    with call_ok_reliable [OF ok] show ?thesis
      by (auto simp: stream_lines.simps [of m] simp del: stream_line_None)
  next
    case (Some ln)
    obtain l n where ln: "stream_line m ?d = Some (l, n)" using Some by (cases ln) auto
    with call_ok_reliable [OF ok] obtain rb' s' where
      r: "gftp_get_line rd (Some rb) len s = Inr (int n, Some (take (len - 1) l), Some rb', s')"
        "max_bufsize rb' = m" "reader_inv rb' s'" "stream rb' s' = drop n ?d" by auto
    have "0 < n" "length (stream rb' s') < fuel"
      using stream_line_pos [OF m ln] Suc.prems r(4) by auto
    with Suc.IH [OF r(3,2)] r ln m show ?thesis by (simp add: stream_lines.simps [of m ?d])
  qed
qed simp

lemma read_lines_all:
  assumes "ok s" "NUL \<notin> set (pending s)" "0 < len" "length (pending s) < fuel"
  shows "read_lines rd fuel None len s = Inr (map (take (len - 1)) (stream_lines len (pending s)))"
proof (cases fuel)
  case (Suc n)
  let ?d = "pending s"
  have ok: "call_ok len len ?d (gftp_get_line rd None len s)"
    using get_line_refines [where rbuf = None and s = s and m = len and d = ?d and len = len] assms by simp
  show ?thesis
  proof (cases "stream_line len ?d")
    case None
    with call_ok_reliable [OF ok] Suc show ?thesis
      by (auto simp: stream_lines.simps [of len] simp del: stream_line_None)
  next
    case (Some ln)
    obtain l k where ln: "stream_line len ?d = Some (l, k)" using Some by (cases ln) auto
    with call_ok_reliable [OF ok] obtain rb' s' where
      r: "gftp_get_line rd None len s = Inr (int k, Some (take (len - 1) l), Some rb', s')"
        "max_bufsize rb' = len" "reader_inv rb' s'" "stream rb' s' = drop k ?d" by auto
    have "0 < k" "length (stream rb' s') < n"
      using stream_line_pos [OF assms(3) ln] assms(4) Suc r(4) by auto
    with read_lines_from [OF r(3,2)] r ln assms(3) Suc show ?thesis
      by (simp add: stream_lines.simps [of len ?d])
  qed
qed (use assms in simp)

end

section \<open>Reading from a descriptor\<close>

text \<open>
  \<open>gftp_fd_read\<close> and \<open>gftp_fd_write\<close> loop over \<open>select\<close> and \<open>read\<close> or \<open>write\<close>. The kernel is
  a script of what these calls report, one entry per call that does not succeed at once;
  past its end the descriptor is readable at end of file and accepts every write. A channel
  holds the script, the request's \<open>cancel\<close> flag (\<^term>\<open>None\<close> when the request is NULL), and
  whether \<open>gftp_disconnect\<close> was called.
\<close>

datatype sys_event =
    Select_interrupted \<comment> \<open>select: -1 with EINTR or EAGAIN\<close>
  | Select_failed \<comment> \<open>select: 0 (timeout) or -1 with another errno\<close>
  | Call_interrupted \<comment> \<open>ready; read or write: -1 with EINTR or EAGAIN\<close>
  | Call_failed \<comment> \<open>ready; read or write: -1 with another errno\<close>
  | Bytes_in string \<comment> \<open>ready; read: these bytes are in the socket buffer\<close>
  | Bytes_out nat \<comment> \<open>ready; write: takes at most this many bytes\<close>

record channel =
  script :: "sys_event list"
  cancel_flag :: "bool option"
  disconnected :: bool
  written :: string

definition gives_up :: "channel \<Rightarrow> bool" where
  "gives_up ch \<longleftrightarrow> cancel_flag ch = Some True"

definition drop_connection :: "channel \<Rightarrow> channel" where
  "drop_connection ch = (if cancel_flag ch = None then ch else ch\<lparr>disconnected := True\<rparr>)"

fun fd_read_loop :: "nat \<Rightarrow> sys_event list \<Rightarrow> channel \<Rightarrow> (int + string) \<times> channel" where
  "fd_read_loop n [] ch = (Inr [], ch\<lparr>script := []\<rparr>)"
| "fd_read_loop n (Select_interrupted # evs) ch =
     (if gives_up ch then (Inl GFTP_ERETRYABLE, drop_connection (ch\<lparr>script := evs\<rparr>))
      else fd_read_loop n evs ch)"
| "fd_read_loop n (Select_failed # evs) ch =
     (Inl GFTP_ERETRYABLE, drop_connection (ch\<lparr>script := evs\<rparr>))"
| "fd_read_loop n (Call_interrupted # evs) ch =
     (if gives_up ch then (Inl GFTP_ERETRYABLE, drop_connection (ch\<lparr>script := evs\<rparr>))
      else fd_read_loop n evs ch)"
| "fd_read_loop n (Call_failed # evs) ch =
     (Inl GFTP_ERETRYABLE, drop_connection (ch\<lparr>script := evs\<rparr>))"
| "fd_read_loop n (Bytes_in bs # evs) ch =
     (Inr (take n bs),
      ch\<lparr>script := (if length bs \<le> n then evs else Bytes_in (drop n bs) # evs)\<rparr>)"
| "fd_read_loop n (Bytes_out k # evs) ch = fd_read_loop n evs ch"

definition gftp_fd_read :: "channel reader" where
  "gftp_fd_read n ch = fd_read_loop n (script ch) ch"

fun fd_write_loop :: "string \<Rightarrow> nat \<Rightarrow> sys_event list \<Rightarrow> channel \<Rightarrow> int \<times> channel" where
  "fd_write_loop p ret [] ch =
     (int (ret + length p), ch\<lparr>script := [], written := written ch @ p\<rparr>)"
| "fd_write_loop p ret (Select_interrupted # evs) ch =
     (if gives_up ch then (GFTP_ERETRYABLE, drop_connection (ch\<lparr>script := evs\<rparr>))
      else if p = [] then (int ret, ch\<lparr>script := evs\<rparr>)
      else fd_write_loop p ret evs ch)"
| "fd_write_loop p ret (Select_failed # evs) ch =
     (GFTP_ERETRYABLE, drop_connection (ch\<lparr>script := evs\<rparr>))"
| "fd_write_loop p ret (Call_interrupted # evs) ch =
     (if gives_up ch then (GFTP_ERETRYABLE, drop_connection (ch\<lparr>script := evs\<rparr>))
      else if p = [] then (int ret, ch\<lparr>script := evs\<rparr>)
      else fd_write_loop p ret evs ch)"
| "fd_write_loop p ret (Call_failed # evs) ch =
     (GFTP_ERETRYABLE, drop_connection (ch\<lparr>script := evs\<rparr>))"
| "fd_write_loop p ret (Bytes_out k # evs) ch =
     (let ch' = ch\<lparr>written := written ch @ take k p\<rparr> in
      if length p \<le> k then (int (ret + length p), ch'\<lparr>script := evs\<rparr>)
      else fd_write_loop (drop k p) (ret + k) evs ch')"
| "fd_write_loop p ret (Bytes_in bs # evs) ch = fd_write_loop p ret evs ch"

definition gftp_fd_write :: "string \<Rightarrow> channel \<Rightarrow> int \<times> channel" where
  "gftp_fd_write p ch = fd_write_loop p 0 (script ch) ch"

text \<open>What a channel has still to deliver, and the scripts that are possible: data comes in
  non-empty pieces.\<close>

fun bytes_in :: "sys_event list \<Rightarrow> string" where
  "bytes_in [] = []"
| "bytes_in (Bytes_in bs # evs) = bs @ bytes_in evs"
| "bytes_in (_ # evs) = bytes_in evs"

definition channel_ok :: "channel \<Rightarrow> bool" where
  "channel_ok ch \<longleftrightarrow> Bytes_in [] \<notin> set (script ch)"

lemma fd_read_loop_data:
  "fd_read_loop n evs ch = (Inr d, ch') \<Longrightarrow> Bytes_in [] \<notin> set evs \<Longrightarrow>
   bytes_in evs = d @ bytes_in (script ch') \<and> length d \<le> n \<and> Bytes_in [] \<notin> set (script ch') \<and>
   (d = [] \<and> 0 < n \<longrightarrow> bytes_in evs = [])"
  by (induction n evs ch rule: fd_read_loop.induct) (auto split: if_splits)

lemma fd_read_loop_error:
  "fd_read_loop n evs ch = (Inl e, ch') \<Longrightarrow> e = GFTP_ERETRYABLE \<and> (cancel_flag ch \<noteq> None \<longrightarrow> disconnected ch')"
  by (induction n evs ch rule: fd_read_loop.induct)
    (auto simp: gives_up_def drop_connection_def split: if_splits)

interpretation fd: byte_source gftp_fd_read "bytes_in \<circ> script" channel_ok
proof unfold_locales
  fix ch ch' n d e
  show "channel_ok ch \<Longrightarrow> gftp_fd_read n ch = (Inr d, ch') \<Longrightarrow>
      (bytes_in \<circ> script) ch = d @ (bytes_in \<circ> script) ch' \<and> length d \<le> n \<and> channel_ok ch'"
    using fd_read_loop_data [of n "script ch" ch d ch'] by (simp add: gftp_fd_read_def channel_ok_def)
  show "channel_ok ch \<Longrightarrow> 0 < n \<Longrightarrow> gftp_fd_read n ch = (Inr [], ch') \<Longrightarrow> (bytes_in \<circ> script) ch = []"
    using fd_read_loop_data [of n "script ch" ch "[]" ch'] by (auto simp: gftp_fd_read_def channel_ok_def)
  show "channel_ok ch \<Longrightarrow> gftp_fd_read n ch = (Inl e, ch') \<Longrightarrow> e < 0"
    using fd_read_loop_error [of n "script ch" ch e ch'] by (simp add: gftp_fd_read_def)
qed

text \<open>A regular file, or a socket that never fails: only data arrives.\<close>

definition all_data :: "channel \<Rightarrow> bool" where
  "all_data ch \<longleftrightarrow> (\<forall>e \<in> set (script ch). \<exists>bs. e = Bytes_in bs \<and> bs \<noteq> [])"

definition file_channel :: "string \<Rightarrow> channel" where
  "file_channel content =
     \<lparr>script = (if content = [] then [] else [Bytes_in content]), cancel_flag = None,
      disconnected = False, written = []\<rparr>"

lemma all_data_ok: "all_data ch \<Longrightarrow> channel_ok ch"
  by (auto simp: all_data_def channel_ok_def)

lemma fd_read_all_data:
  "all_data ch \<Longrightarrow> \<exists>d ch'. gftp_fd_read n ch = (Inr d, ch') \<and> all_data ch'"
proof (cases "script ch")
  case (Cons e evs)
  assume ch: "all_data ch"
  then obtain bs where "e = Bytes_in bs" using Cons by (auto simp: all_data_def)
  then show ?thesis using ch Cons by (auto simp: gftp_fd_read_def all_data_def)
qed (auto simp: gftp_fd_read_def all_data_def)

interpretation fdata: reliable_source gftp_fd_read "bytes_in \<circ> script" all_data
proof unfold_locales
  fix ch ch' n d e
  assume ch: "all_data ch"
  note ok = all_data_ok [OF ch]
  show "gftp_fd_read n ch = (Inr d, ch') \<Longrightarrow>
      (bytes_in \<circ> script) ch = d @ (bytes_in \<circ> script) ch' \<and> length d \<le> n \<and> all_data ch'"
    using fd.rd_data [OF ok] fd_read_all_data [OF ch, of n] by fastforce
  show "0 < n \<Longrightarrow> gftp_fd_read n ch = (Inr [], ch') \<Longrightarrow> (bytes_in \<circ> script) ch = []"
    by (rule fd.rd_end [OF ok])
  show "gftp_fd_read n ch = (Inl e, ch') \<Longrightarrow> e < 0"
    by (rule fd.rd_error [OF ok])
  show "isl (fst (gftp_fd_read n ch)) \<Longrightarrow> False"
    using fd_read_all_data [OF ch, of n] by auto
qed

lemma file_channel_data [simp]: "all_data (file_channel c)" "bytes_in (script (file_channel c)) = c"
  by (simp_all add: file_channel_def all_data_def)

text \<open>A buffer between two calls, as the caller keeps it.\<close>

definition between_calls :: "getline_buffer \<Rightarrow> channel \<Rightarrow> bool" where
  "between_calls rb ch \<longleftrightarrow> buffer_inv rb \<and> channel_ok ch \<and> NUL \<notin> set (bytes_in (script ch)) \<and>
     (eof rb \<longrightarrow> bytes_in (script ch) = [])"


section \<open>Properties\<close>



text \<open>The loop over all lines of a descriptor that only delivers data hands out the
  lines of its whole content, each cut to the caller's buffer, however the content is split into reads.\<close>

theorem read_lines_content:
  assumes "all_data ch" "NUL \<notin> set (bytes_in (script ch))" "0 < len" "length (bytes_in (script ch)) < fuel"
  shows "read_lines gftp_fd_read fuel None len ch =
    Inr (map (take (len - 1)) (stream_lines len (bytes_in (script ch))))"
  using fdata.read_lines_all [of ch len fuel] assms by simp

theorem read_lines_content_witness:
  "read_lines gftp_fd_read 20 None 16
     \<lparr>script = [Bytes_in ''ab'', Bytes_in (CHR ''c'' # CR # LF # ''de''), Bytes_in (''f'' @ [LF])],
      cancel_flag = None, disconnected = False, written = []\<rparr>
   = Inr (map (take 15) (stream_lines 16 (''abc'' @ [CR, LF] @ ''def'' @ [LF])))"
  by (rule read_lines_content [THEN trans]) (simp_all add: all_data_def)

text \<open>Where no newline comes within the caller's buffer size, the byte at its last
  position is in no line handed out: the line stops before it and the next one starts after it.\<close>

theorem long_line_loses_byte:
  assumes "0 < len" "length d > len" "LF \<notin> set (take len d)"
  shows "map (take (len - 1)) (stream_lines len d)
         = take (len - 1) d # map (take (len - 1)) (stream_lines len (drop (Suc (len - 1)) d))"
proof -
  have "stream_line len d = Some (take len d, len)"
    using assms by (auto simp: stream_line_def)
  then show ?thesis
    using assms(1) by (simp add: stream_lines.simps [of len d])
qed

theorem long_line_loses_byte_witness:
  "map (take 3) (stream_lines 4 ''abcdef'') = ''abc'' # map (take 3) (stream_lines 4 ''ef'')"
  using long_line_loses_byte [of 4 "''abcdef''"] by simp

lemma deliver_fuel: "deliver_line rb len s q \<noteq> Inl Out_of_fuel"
  by (auto simp: deliver_line_def Let_def split: option.splits)

lemma add_bytes_fits:
  "add_bytes rb buf pos d = Some rb' \<Longrightarrow> length (buffer rb') = length buf \<and> curpos rb' = 0 \<and>
   max_bufsize rb' = max_bufsize rb \<and> cur_bufsize rb' = cur_bufsize rb + length d \<and>
   cur_bufsize rb' < length buf \<and> eof rb' = (d = [] \<or> eof rb)"
  by (auto simp: add_bytes_def Let_def store_def split: if_splits)

lemma make_room_length: "make_room rb = Some (buf, pos, r) \<Longrightarrow> length buf = length (buffer rb)"
  by (auto simp: make_room_def split: option.splits if_splits)

definition turns :: "getline_buffer \<Rightarrow> nat" where
  "turns rb = (if eof rb then (if curpos rb = 0 \<and> 0 < cur_bufsize rb then 1 else 2)
               else max_bufsize rb + 2 - cur_bufsize rb + 1)"

lemma turns_le: "turns rb \<le> max_bufsize rb + 3"
  by (auto simp: turns_def)

lemma loop_terminates:
  "length (buffer rb) = max_bufsize rb + 1 \<Longrightarrow> turns rb \<le> n \<Longrightarrow>
   get_line_loop rd n rb len s \<noteq> Inl Out_of_fuel"
proof (induction n arbitrary: rb s)
  case 0
  then show ?case by (simp add: turns_def split: if_splits)
next
  case (Suc n)
  have next_turn: "get_line_loop rd n rb' len s' \<noteq> Inl Out_of_fuel"
    if room: "make_room rb = Some (buf, pos, r)" and add: "add_bytes rb buf pos d = Some rb'"
      and d: "d = [] \<longrightarrow> 0 < cur_bufsize rb" "eof rb \<longrightarrow> d = []"
      and wait: "\<not> (eof rb \<and> curpos rb = 0 \<and> 0 < cur_bufsize rb)" for buf pos r d rb' s'
  proof (rule Suc.IH)
    note fits = add_bytes_fits [OF add] and len = make_room_length [OF room]
    show "length (buffer rb') = max_bufsize rb' + 1" using fits len Suc.prems(1) by simp
    show "turns rb' \<le> n"
    proof (cases "d = []")
      case True
      with fits len d wait Suc.prems show ?thesis by (auto simp: turns_def split: if_splits)
    next
      case False
      then obtain c d' where "d = c # d'" by (cases d) auto
      with fits len d Suc.prems show ?thesis by (auto simp: turns_def split: if_splits)
    qed
  qed
  show ?case
    using next_turn
    by (auto simp: Let_def deliver_fuel split: option.splits sum.splits prod.splits if_splits)
qed

text \<open>\<open>gftp_get_line\<close> always returns or leaves its buffer, whatever the reader
  does and whatever the data is: each turn of its loop delivers, ends, or adds bytes to a
  buffer of fixed size.\<close>

theorem get_line_terminates:
  assumes "\<And>rb. rbuf = Some rb \<Longrightarrow> length (buffer rb) = max_bufsize rb + 1"
  shows "gftp_get_line rd rbuf len s \<noteq> Inl Out_of_fuel"
proof (cases rbuf)
  case (Some rb)
  then show ?thesis
    using assms loop_terminates [OF _ turns_le, of rb rd len s] by (simp add: gftp_get_line_def)
next
  case None
  then show ?thesis
    using loop_terminates [where n = "len + 3" and rd = rd and len = len]
    by (auto simp: gftp_get_line_def turns_def store_def split: prod.splits sum.splits list.splits)
qed

theorem get_line_terminates_witness:
  "gftp_get_line gftp_fd_read
     (Some \<lparr>buffer = replicate 9 NUL, curpos = 3, max_bufsize = 8, cur_bufsize = 2, eof = False\<rparr>) 8
     (file_channel [NUL, NUL]) \<noteq> Inl Out_of_fuel"
  by (rule get_line_terminates) auto

text \<open>A NUL byte in the data breaks the buffer's bookkeeping: the bytes behind it
  are counted but no longer seen, the next read is given the whole buffer again, and the terminator
  is stored past the end of the allocation.\<close>

theorem NUL_data_overflows:
  "gftp_get_line gftp_fd_read None 4
     \<lparr>script = [Bytes_in [NUL, CHR ''a'', CHR ''b''], Bytes_in ''wxyz''], cancel_flag = Some False,
      disconnected = False, written = []\<rparr> = Inl Out_of_bounds"
  by (simp add: gftp_get_line_def gftp_fd_read_def store_def numeral_eq_Suc make_room_def load_def
      add_bytes_def Let_def)

lemma fd_write_loop_result:
  "fd_write_loop p r evs ch = (ret, ch') \<Longrightarrow>
   (ret = int (r + length p) \<and> written ch' = written ch @ p) \<or>
   (ret = GFTP_ERETRYABLE \<and> (\<exists>k. written ch' = written ch @ take k p) \<and>
    (cancel_flag ch \<noteq> None \<longrightarrow> disconnected ch'))"
proof (induction p r evs ch arbitrary: ret ch' rule: fd_write_loop.induct)
  case (6 p r k evs ch)
  show ?case
  proof (cases "length p \<le> k")
    case True
    with "6.prems" show ?thesis by (auto simp: Let_def)
  next
    case False
    have "take k p @ take j (drop k p) = take (k + j) p" for j
      by (simp add: take_add)
    with False "6.prems" "6.IH" [OF refl False] show ?thesis
      by (fastforce simp: Let_def)
  qed
qed (fastforce simp: gives_up_def drop_connection_def intro: exI [of _ 0] split: if_splits)+

text \<open>\<open>gftp_fd_write\<close> has two outcomes, whatever the kernel does in between: all
  bytes written in order and their number returned, or a retryable error after a prefix of them, with
  the request disconnected.\<close>

theorem fd_write_all_or_error:
  "\<exists>ret ch'. gftp_fd_write p ch = (ret, ch') \<and>
    ((ret = int (length p) \<and> written ch' = written ch @ p) \<or>
     (ret = GFTP_ERETRYABLE \<and> (\<exists>k. written ch' = written ch @ take k p) \<and>
      (cancel_flag ch = None \<or> disconnected ch')))"
  using fd_write_loop_result [of p 0 "script ch" ch] unfolding gftp_fd_write_def
  by (cases "fd_write_loop p 0 (script ch) ch") fastforce
end
