(* ===== verification/Text_Utils.thy ===== *)
theory Text_Utils
  imports Line_Reader
begin

text \<open>
  The string utilities of \<open>lib/misc.c\<close>: \<open>alltrim\<close>, \<open>insert_commas\<close> (the version compiled
  without a grouping \<open>printf\<close>) and \<open>gftp_match_filespec\<close>. Each is compared with a
  specification that does not follow its loops; the fixed buffers they write are checked.
\<close>


section \<open>alltrim\<close>

fun trim_end :: "string \<Rightarrow> string" where
  "trim_end s = (if s \<noteq> [] \<and> is_blank (last s) then trim_end (butlast s) else s)"

declare trim_end.simps [simp del]

definition alltrim :: "string \<Rightarrow> string" where
  "alltrim str =
    (let s = trim_end str; diff = length (takeWhile ((=) SPC) s)
     in if diff = 0 then s else drop diff s)"

lemma trim_end_spec:
  "\<exists>b. s = trim_end s @ b \<and> (\<forall>c \<in> set b. is_blank c) \<and> (trim_end s = [] \<or> \<not> is_blank (last (trim_end s)))"
proof (induction s rule: trim_end.induct)
  case (1 s)
  show ?case
  proof (cases "s \<noteq> [] \<and> is_blank (last s)")
    case True
    with 1 obtain b where b: "butlast s = trim_end (butlast s) @ b" "\<forall>c \<in> set b. is_blank c"
      "trim_end (butlast s) = [] \<or> \<not> is_blank (last (trim_end (butlast s)))" by blast
    have "s = trim_end (butlast s) @ b @ [last s]"
      using b(1) True by (metis append.assoc append_butlast_last_id)
    moreover have "trim_end s = trim_end (butlast s)"
      using True by (subst trim_end.simps) simp
    moreover have "\<forall>c \<in> set (b @ [last s]). is_blank c" using b(2) True by simp
    ultimately show ?thesis using b(3) by metis
  next
    case False
    then have "trim_end s = s" by (subst trim_end.simps) auto
    with False show ?thesis by auto
  qed
qed

lemma alltrim_eq: "alltrim s = dropWhile ((=) SPC) (trim_end s)"
  by (auto simp: alltrim_def Let_def dropWhile_eq_drop)

text \<open>\<open>alltrim\<close> cuts a run of spaces at the start and a run of spaces and tabs at the
  end, and nothing else: what it returns neither begins with a space nor ends with a blank.
  A leading tab stays.\<close>

theorem alltrim_spec:
  "\<exists>a b. s = a @ alltrim s @ b \<and> (\<forall>c \<in> set a. c = SPC) \<and> (\<forall>c \<in> set b. is_blank c) \<and>
     (alltrim s = [] \<or> (hd (alltrim s) \<noteq> SPC \<and> \<not> is_blank (last (alltrim s))))"
proof -
  let ?t = "trim_end s"
  obtain b where b: "s = ?t @ b" "\<forall>c \<in> set b. is_blank c" "?t = [] \<or> \<not> is_blank (last ?t)"
    using trim_end_spec by blast
  have "s = takeWhile ((=) SPC) ?t @ alltrim s @ b"
    using b(1) by (simp add: alltrim_eq flip: append_assoc)
  moreover have "\<forall>c \<in> set (takeWhile ((=) SPC) ?t). c = SPC" by (auto dest: set_takeWhileD)
  moreover have "alltrim s = [] \<or> (hd (alltrim s) \<noteq> SPC \<and> \<not> is_blank (last (alltrim s)))"
  proof (cases "alltrim s = []")
    case False
    then have "hd (alltrim s) \<noteq> SPC" unfolding alltrim_eq by (metis hd_dropWhile)
    moreover have "last (alltrim s) = last ?t"
      using False unfolding alltrim_eq by (metis dropWhile_last last_ConsR last_appendR takeWhile_dropWhile_id)
    moreover have "?t \<noteq> []" using False by (auto simp: alltrim_eq)
    ultimately show ?thesis using b(3) by simp
  qed simp
  ultimately show ?thesis using b(2) by blast
qed


theorem alltrim_spec_witness:
  "\<exists>a b. '' ab  '' = a @ ''ab'' @ b \<and> (\<forall>c \<in> set a. c = SPC) \<and> (\<forall>c \<in> set b. is_blank c)"
  using alltrim_spec [of "'' ab  ''"]
  by (simp add: alltrim_def trim_end.simps is_blank_def)

section \<open>insert_commas\<close>

fun comma_groups :: "nat \<Rightarrow> string \<Rightarrow> string" where
  "comma_groups 0 p = take 3 p"
| "comma_groups (Suc num) p = take 3 p @ CHR '','' # comma_groups num (drop 3 p)"

definition comma_text :: "string \<Rightarrow> string" where
  "comma_text src =
    (let srclen = length src; num = size_sub (srclen div 3) 1; rm = srclen mod 3;
         frompos = drop rm src
     in if frompos = [] then take rm src
        else take rm src @ (if rm \<noteq> 0 then [CHR '','']  else []) @ comma_groups num frompos)"

text \<open>\<open>dest\<close> is the length of the caller's buffer, or \<^term>\<open>None\<close> when the function allocates;
  the result is \<^term>\<open>None\<close> when a byte is stored past the end of either.\<close>

definition insert_commas :: "int \<Rightarrow> nat option \<Rightarrow> string option" where
  "insert_commas number dest =
    (let src = show_int number; len = length src + length src div 3
     in case dest of
          Some dest_len \<Rightarrow>
            if dest_len = 0 then None
            else if len > dest_len then Some (replicate (dest_len - 1) (CHR ''X''))
            else if length (comma_text src) + 1 \<le> dest_len then Some (comma_text src) else None
        | None \<Rightarrow> if length (comma_text src) + 1 \<le> len then Some (comma_text src) else None)"

text \<open>The specification: a comma after every three characters, counted from the right.\<close>

fun group_from_right :: "string \<Rightarrow> string" where
  "group_from_right (a # b # c # d # r) = a # b # c # CHR '','' # group_from_right (d # r)"
| "group_from_right s = s"

lemma group_short: "length v \<le> 3 \<Longrightarrow> group_from_right v = v"
  by (induction v rule: group_from_right.induct) auto

lemma group_three:
  "v \<noteq> [] \<Longrightarrow> group_from_right (a # b # c # v) = a # b # c # CHR '','' # group_from_right v"
  by (cases v) auto

lemma group_append:
  "length u = 3 * Suc k \<Longrightarrow> v \<noteq> [] \<Longrightarrow>
   group_from_right (u @ v) = group_from_right u @ CHR '','' # group_from_right v"
proof (induction u arbitrary: k rule: group_from_right.induct)
  case (1 a b c d r)
  then obtain k' where "k = Suc k'" by (cases k) auto
  with 1 show ?case by simp
qed (auto simp: group_three)

lemma comma_groups_spec:
  "length p = 3 * Suc num \<Longrightarrow> comma_groups num p = rev (group_from_right (rev p))"
proof (induction num arbitrary: p)
  case 0
  then show ?case by (simp add: group_short)
next
  case (Suc num)
  let ?h = "take 3 p" and ?t = "drop 3 p"
  have "rev p = rev ?t @ rev ?h" by (simp flip: rev_append)
  moreover have "group_from_right (rev ?t @ rev ?h) = group_from_right (rev ?t) @ CHR '','' # rev ?h"
  proof -
    have "rev ?h \<noteq> []" "length (rev ?t) = 3 * Suc num" using Suc.prems by auto
    then show ?thesis using group_append [of "rev ?t" num "rev ?h"] by (simp add: group_short)
  qed
  ultimately show ?case using Suc.IH [of ?t] Suc.prems by simp
qed

lemma comma_text_spec: "comma_text src = rev (group_from_right (rev src))"
proof -
  let ?n = "length src" and ?rm = "length src mod 3"
  show ?thesis
  proof (cases "?n < 3")
    case True
    then show ?thesis by (simp add: comma_text_def Let_def group_short)
  next
    case False
    then obtain k where k: "?n div 3 = Suc k" by (cases "?n div 3") auto
    let ?h = "take ?rm src" and ?t = "drop ?rm src"
    have len: "length ?t = 3 * Suc k"
      using k by (metis length_drop minus_mod_eq_mult_div)
    have sz: "size_sub (?n div 3) 1 = k" by (simp add: size_sub_def k)
    have t: "comma_groups k ?t = rev (group_from_right (rev ?t))"
      using len by (rule comma_groups_spec)
    have "?t \<noteq> []" using len by auto
    show ?thesis
    proof (cases "?rm = 0")
      case True
      then show ?thesis using t \<open>?t \<noteq> []\<close> sz by (simp add: comma_text_def Let_def)
    next
      case False
      have "rev src = rev ?t @ rev ?h" by (simp flip: rev_append)
      moreover have "group_from_right (rev ?t @ rev ?h) = group_from_right (rev ?t) @ CHR '','' # rev ?h"
      proof -
        have "length ?h \<le> ?rm" "?rm < 3" by simp_all
        then have "length (rev ?h) \<le> 3" unfolding length_rev by linarith
        moreover have "rev ?h \<noteq> []" using False \<open>\<not> ?n < 3\<close> by auto
        moreover have "length (rev ?t) = 3 * Suc k" using len by simp
        ultimately show ?thesis
          using group_append [of "rev ?t" k "rev ?h"] group_short [of "rev ?h"] by metis
      qed
      ultimately show ?thesis using t \<open>?t \<noteq> []\<close> sz False by (simp add: comma_text_def Let_def)
    qed
  qed
qed

lemma length_group: "length (group_from_right s) = length s + (length s - 1) div 3"
  by (induction s rule: group_from_right.induct) auto

lemma comma_text_length: "length (comma_text s) = length s + (length s - 1) div 3"
  by (simp add: comma_text_spec length_group)

text \<open>\<open>insert_commas\<close> returns the decimal text grouped in threes from the right, or
  the row of X when the caller's buffer is too small. The exception is the terminator: the size
  it computes leaves no room for it unless the number of characters is a multiple of three, so
  the allocated buffer, and a caller's buffer of exactly that size, are overrun by one byte.\<close>

theorem insert_commas_spec:
  "insert_commas number dest =
    (let src = show_int number; len = length src + length src div 3;
         grouped = rev (group_from_right (rev src))
     in case dest of
          None \<Rightarrow> if length src mod 3 = 0 then Some grouped else None
        | Some n \<Rightarrow> if n = 0 \<or> (n = len \<and> length src mod 3 \<noteq> 0) then None
            else if n < len then Some (replicate (n - 1) (CHR ''X''))
            else Some grouped)"
proof -
  let ?n = "length (show_int number)"
  have n: "0 < ?n" by (auto simp: show_int_def)
  then have fit: "?n + (?n - 1) div 3 + 1 \<le> ?n + ?n div 3 \<longleftrightarrow> ?n mod 3 = 0"
    by presburger
  have grow: "?n + (?n - 1) div 3 \<le> ?n + ?n div 3" by (simp add: div_le_mono)
  show ?thesis
    using fit grow unfolding insert_commas_def Let_def comma_text_length comma_text_spec [symmetric]
    by (auto split: option.splits)
qed

text \<open>The sign is counted as a digit.\<close>

lemma insert_commas_minus: "insert_commas (-123) (Some 50) = Some ''-,123''"
proof -
  have src: "show_int (-123) = ''-123''" by (simp add: show_int_def show_nat.simps)
  show ?thesis unfolding insert_commas_def src by code_simp
qed


section \<open>gftp_match_filespec\<close>

definition wildcard :: "char \<Rightarrow> bool" where
  "wildcard c \<longleftrightarrow> c = CHR ''*'' \<or> c = CHR ''?''"

text \<open>The literal between a \<open>*\<close> and the next wildcard, as the loop copies it into
  \<open>search_str\<close>: at most \<open>sizeof (search_str)\<close> bytes, its terminator not counted.\<close>

definition search_size :: nat where "search_size = 20"

definition literal_after :: "string \<Rightarrow> string" where
  "literal_after pos = take search_size (takeWhile (\<lambda>c. \<not> wildcard c) pos)"

text \<open>\<^term>\<open>None\<close> is the store of the terminator behind \<open>search_str\<close>.\<close>

function match_loop :: "string \<Rightarrow> string \<Rightarrow> bool option" where
  "match_loop filepos [] = Some True"
| "match_loop [] (w # ws) = Some False"
| "match_loop (f # fs) (w # ws) =
    (if w = CHR ''?'' then match_loop fs ws
     else if w = CHR ''*'' \<and> ws = [] then Some True
     else if w = CHR ''*'' then
       (let seg = literal_after ws; curlen = length seg
        in if search_size \<le> curlen then None
           else (case strstr (f # fs) seg of
                   None \<Rightarrow> Some False
                 | Some r \<Rightarrow> match_loop (drop curlen r) (drop curlen ws)))
     else if w \<noteq> f then Some False
     else match_loop fs ws)"
  by pat_completeness auto
termination
  by (relation "measure (length \<circ> snd)") auto

definition gftp_match_filespec :: "bool \<Rightarrow> string option \<Rightarrow> string option \<Rightarrow> bool option" where
  "gftp_match_filespec show_hidden_files filename filespec =
    (case (filename, filespec) of
       (Some (f # fs), Some (w # ws)) \<Rightarrow>
         if \<not> show_hidden_files \<and> f = CHR ''.'' \<and> f # fs \<noteq> ''..'' then Some False
         else match_loop (f # fs) (w # ws)
     | _ \<Rightarrow> Some True)"

text \<open>Wildcard patterns, as the specification.\<close>

fun glob :: "string \<Rightarrow> string \<Rightarrow> bool" where
  "glob [] s = (s = [])"
| "glob (w # ws) s =
    (if w = CHR ''*'' then list_ex (\<lambda>k. glob ws (drop k s)) [0..<Suc (length s)]
     else (case s of [] \<Rightarrow> False | c # cs \<Rightarrow> (w = CHR ''?'' \<or> w = c) \<and> glob ws cs))"

lemma glob_star: "glob (CHR ''*'' # ws) s \<longleftrightarrow> (\<exists>k \<le> length s. glob ws (drop k s))"
proof -
  have "glob (CHR ''*'' # ws) s \<longleftrightarrow> (\<exists>k \<in> set [0..<Suc (length s)]. glob ws (drop k s))"
    by (simp add: list_ex_iff)
  also have "\<dots> \<longleftrightarrow> (\<exists>k \<le> length s. glob ws (drop k s))"
    by (metis atLeast0LessThan lessThan_iff less_Suc_eq_le set_upt)
  finally show ?thesis .
qed

lemma glob_literal: "\<forall>c \<in> set l. \<not> wildcard c \<Longrightarrow> glob (l @ ws) (l @ s) \<longleftrightarrow> glob ws s"
  by (induction l) (auto simp: wildcard_def)

lemma literal_after_prefix:
  "ws = literal_after ws @ drop (length (literal_after ws)) ws"
proof -
  obtain k where "takeWhile (\<lambda>c. \<not> wildcard c) ws = take k ws"
    using takeWhile_eq_take by blast
  then have "literal_after ws = take (length (literal_after ws)) ws"
    by (simp add: literal_after_def min_def)
  then show ?thesis by (metis append_take_drop_id)
qed

lemma literal_after_literal: "\<forall>c \<in> set (literal_after ws). \<not> wildcard c"
  by (auto simp: literal_after_def dest!: in_set_takeD set_takeWhileD)

lemma match_loop_sound: "match_loop f w = Some True \<Longrightarrow> \<exists>k. glob w (take k f)"
proof (induction f w rule: match_loop.induct)
  case (1 f)
  show ?case by (rule exI [of _ 0]) simp
next
  case (3 f fs w ws)
  consider (any) "w = CHR ''?''" | (last) "w = CHR ''*''" "ws = []" | (star) "w = CHR ''*''" "ws \<noteq> []"
    | (char) "w \<noteq> CHR ''?''" "w \<noteq> CHR ''*''" by blast
  then show ?case
  proof cases
    case any
    with 3 obtain k where "glob ws (take k fs)" by auto
    with any show ?thesis by (intro exI [of _ "Suc k"]) simp
  next
    case last
    then show ?thesis by (intro exI [of _ 0]) (simp add: list_ex_iff)
  next
    case star
    define seg where "seg = literal_after ws"
    from 3 star obtain r where r: "strstr (f # fs) seg = Some r" and fit: "\<not> search_size \<le> length seg"
      and m: "match_loop (drop (length seg) r) (drop (length seg) ws) = Some True"
      by (auto simp: seg_def Let_def split: if_splits option.splits)
    from 3(2) [of seg "length seg" r] star r fit m obtain k
      where k: "glob (drop (length seg) ws) (take k (drop (length seg) r))"
      by (auto simp: seg_def)
    obtain p q where pq: "f # fs = p @ r" "r = seg @ q" using strstr_SomeD [OF r] by blast
    have "glob ws (seg @ take k q)"
      using k pq literal_after_prefix [of ws] literal_after_literal [of ws] glob_literal [of seg]
      by (metis append_eq_conv_conj seg_def)
    then have "glob (CHR ''*'' # ws) (p @ seg @ take k q)"
      unfolding glob_star by (intro exI [of _ "length p"]) simp
    moreover have "p @ seg @ take k q = take (length p + length seg + k) (f # fs)"
      using pq by simp
    ultimately show ?thesis using star by metis
  next
    case char
    with 3 obtain k where "w = f" "glob ws (take k fs)" by (auto split: if_splits)
    with char show ?thesis by (intro exI [of _ "Suc k"]) simp
  qed
qed simp

text \<open>A visible name that \<open>gftp_match_filespec\<close> accepts matches the pattern, as a
  wildcard pattern, with some prefix of it.\<close>

theorem match_filespec_sound:
  assumes "gftp_match_filespec hidden (Some f) (Some w) = Some True" and "f \<noteq> []"
  shows "\<exists>k. glob w (take k f)"
  using assms match_loop_sound [of f w]
  by (cases f; cases w)
    (auto simp: gftp_match_filespec_def intro: exI [of _ 0] split: if_splits)

theorem match_filespec_sound_witness:
  "gftp_match_filespec False (Some ''notes.txt'') (Some ''n*.t?t'') = Some True \<and>
   (\<exists>k. glob ''n*.t?t'' (take k ''notes.txt''))"
proof -
  have m: "gftp_match_filespec False (Some ''notes.txt'') (Some ''n*.t?t'') = Some True" by code_simp
  show ?thesis using m match_filespec_sound [OF m] by simp
qed

text \<open>The converse fails three ways: a name may go on after the pattern ends, a final
  \<open>*\<close> does not stand for the empty string, and the first place where the literal after a \<open>*\<close> occurs
  is the only one tried.\<close>

theorem match_filespec_incomplete:
  "(gftp_match_filespec True (Some ''a.cpp'') (Some ''*.c'') = Some True \<and> \<not> glob ''*.c'' ''a.cpp'') \<and>
   (gftp_match_filespec True (Some ''abc'') (Some ''abc*'') = Some False \<and> glob ''abc*'' ''abc'') \<and>
   (gftp_match_filespec True (Some ''axxayb'') (Some ''*a?b'') = Some False \<and> glob ''*a?b'' ''axxayb'')"
  by code_simp

text \<open>A literal of twenty or more characters behind a \<open>*\<close> puts the terminator behind
  the end of \<open>search_str\<close> as soon as the loop reaches it.\<close>

theorem search_str_overflow:
  assumes "\<forall>c \<in> set l. \<not> wildcard c" and "20 \<le> length l" and "f \<noteq> []"
  shows "match_loop f (CHR ''*'' # l @ ws) = None"
proof -
  obtain c cs where f: "f = c # cs" using assms(3) by (cases f) auto
  have "takeWhile (\<lambda>c. \<not> wildcard c) (l @ ws) = l @ takeWhile (\<lambda>c. \<not> wildcard c) ws"
    using assms(1) by (simp add: takeWhile_append)
  then have "length (literal_after (l @ ws)) = 20"
    using assms(2) by (simp add: literal_after_def search_size_def)
  moreover have "l \<noteq> []" using assms(2) by auto
  ultimately show ?thesis by (simp add: f Let_def search_size_def)
qed

theorem search_str_overflow_witness:
  "match_loop ''x'' (CHR ''*'' # ''abcdefghijklmnopqrst'' @ []) = None"
  by (rule search_str_overflow) (simp_all add: wildcard_def)
end
