(* ===== verification/Paths.thy ===== *)
theory Paths
  imports Gftp_Prelude
begin

text \<open>
  Paths: \<open>gftp_build_path\<close> and \<open>gftp_expand_path\<close> of \<open>lib/misc.c\<close>. Building is related to the
  list of components of a path; expansion of an absolute path is shown to be the
  usual resolution of \<open>.\<close> and \<open>..\<close> on a stack of components. The pass\-word database behind \<open>~\<close> is
  a parameter.
\<close>

abbreviation SLASH :: char where "SLASH \<equiv> CHR ''/''"


section \<open>gftp_build_path\<close>

text \<open>
  \<open>ret\<close> is the text so far and \<open>retlen\<close> the code's own count of it, which is ahead of the text
  once a separator was left out for a VMS server; \<^term>\<open>None\<close> is the read of \<open>ret[retlen - 1]\<close>
  in the uninitialised bytes behind the terminator.
\<close>

definition char_at :: "string \<Rightarrow> nat \<Rightarrow> char option" where
  "char_at s i = (if i < length s then Some (s ! i) else if i = length s then Some NUL else None)"

fun build_loop :: "int option \<Rightarrow> string \<Rightarrow> nat \<Rightarrow> string list \<Rightarrow> string option" where
  "build_loop server ret retlen [] = Some ret"
| "build_loop server ret retlen (element # args) =
    (if element = [] then build_loop server ret retlen args
     else do {
       joined \<leftarrow> (if 0 < retlen
                  then do { c \<leftarrow> char_at ret (retlen - 1); Some (c = SLASH \<or> hd element = SLASH) }
                  else Some False);
       if joined then build_loop server (ret @ element) (retlen + length element) args
       else build_loop server
              (if server = Some GFTP_DIRTYPE_VMS then ret @ element else ret @ [SLASH] @ element)
              (retlen + length element + 1) args
     })"

definition gftp_build_path :: "int option \<Rightarrow> string \<Rightarrow> string list \<Rightarrow> string option" where
  "gftp_build_path server first_element args = build_loop server first_element (length first_element) args"

text \<open>The non-empty components of a path.\<close>

fun split_path :: "string \<Rightarrow> string list" where
  "split_path [] = [[]]"
| "split_path (c # cs) =
    (if c = SLASH then [] # split_path cs
     else (case split_path cs of [] \<Rightarrow> [[c]] | p # ps \<Rightarrow> (c # p) # ps))"

definition components :: "string \<Rightarrow> string list" where
  "components s = filter (\<lambda>p. p \<noteq> []) (split_path s)"

definition join2 :: "string \<Rightarrow> string \<Rightarrow> string" where
  "join2 a b = (if b = [] then a
                else if a \<noteq> [] \<and> (last a = SLASH \<or> hd b = SLASH) then a @ b
                else a @ [SLASH] @ b)"

lemma build_loop_unix:
  "server \<noteq> Some GFTP_DIRTYPE_VMS \<Longrightarrow> build_loop server ret (length ret) args = Some (foldl join2 ret args)"
proof (induction args arbitrary: ret)
  case (Cons e args)
  show ?case
  proof (cases "e = [] \<or> ret = []")
    case True
    then show ?thesis using Cons.IH [of ret] Cons.IH [of "SLASH # e"] Cons.prems
      by (auto simp: join2_def)
  next
    case False
    then have "char_at ret (length ret - 1) = Some (last ret)"
      by (simp add: char_at_def last_conv_nth)
    then show ?thesis using False Cons.IH [of "ret @ e"] Cons.IH [of "ret @ SLASH # e"] Cons.prems
      by (simp add: join2_def)
  qed
qed simp

lemma split_path_nonempty [simp]: "split_path s \<noteq> []"
  by (induction s) (auto split: list.splits)

lemma split_path_slash: "split_path (a @ SLASH # b) = split_path a @ split_path b"
  by (induction a) (auto split: list.splits simp: Cons_eq_append_conv)

lemma components_slash: "components (a @ SLASH # b) = components a @ components b"
  by (simp add: components_def split_path_slash)

lemma components_Nil [simp]: "components [] = []"
  by (simp add: components_def)

lemma components_Cons_slash [simp]: "components (SLASH # b) = components b"
  using components_slash [of "[]" b] by simp

lemma components_append_slash [simp]: "components (a @ [SLASH]) = components a"
  using components_slash [of a "[]"] by simp

lemma components_append:
  "(a \<noteq> [] \<and> last a = SLASH) \<or> (b \<noteq> [] \<and> hd b = SLASH) \<Longrightarrow> components (a @ b) = components a @ components b"
proof (elim disjE conjE)
  assume "a \<noteq> []" "last a = SLASH"
  then have "a = butlast a @ [SLASH]" by (metis append_butlast_last_id)
  then show ?thesis using components_slash [of "butlast a" b] components_append_slash [of "butlast a"]
    by (metis append.assoc append_Cons append_Nil)
next
  assume "b \<noteq> []" "hd b = SLASH"
  then show ?thesis using components_slash [of a "tl b"] by (cases b) auto
qed

lemma components_join2: "components (join2 a b) = components a @ components b"
  by (auto simp: join2_def components_append components_slash)

text \<open>On every server that is not VMS, the path built has the components of its
  arguments, in order: no separator is missing and none splits a component.\<close>

theorem build_path_components:
  assumes "server \<noteq> Some GFTP_DIRTYPE_VMS"
  shows "\<exists>p. gftp_build_path server a args = Some p \<and>
    components p = components a @ concat (map components args)"
proof -
  have "components (foldl join2 a args) = components a @ concat (map components args)"
    by (induction args arbitrary: a) (auto simp: components_join2)
  then show ?thesis using build_loop_unix [OF assms] by (simp add: gftp_build_path_def)
qed

theorem build_path_components_witness:
  "\<exists>p. gftp_build_path (Some GFTP_DIRTYPE_UNIX) ''/home/'' [''me'', [], ''/pub''] = Some p \<and>
     components p = [''home'', ''me'', ''pub'']"
  using build_path_components [of "Some GFTP_DIRTYPE_UNIX" "''/home/''" "[''me'', [], ''/pub'']"]
  by (simp add: components_def)

lemma build_path_join:
  "server \<noteq> Some GFTP_DIRTYPE_VMS \<Longrightarrow> gftp_build_path server a args = Some (foldl join2 a args)"
  by (simp add: gftp_build_path_def build_loop_unix)

text \<open>On a VMS server a third element is compared with a byte that was never written.\<close>

lemma build_path_vms:
  "gftp_build_path (Some GFTP_DIRTYPE_VMS) ''a'' [''b''] = Some ''ab''"
  "gftp_build_path (Some GFTP_DIRTYPE_VMS) ''a'' [''b'', ''c'', ''d''] = None"
  by (simp_all add: gftp_build_path_def char_at_def)


section \<open>gftp_expand_path\<close>

text \<open>The index of the first \<open>/\<close> at or behind \<open>i\<close>; the first index that is no \<open>/\<close>.\<close>

definition slash_from :: "string \<Rightarrow> nat \<Rightarrow> nat option" where
  "slash_from s i = (let k = i + length (takeWhile ((\<noteq>) SLASH) (drop i s))
                     in if k < length s then Some k else None)"

definition skip_slashes :: "string \<Rightarrow> nat \<Rightarrow> nat" where
  "skip_slashes s i = i + length (takeWhile ((=) SLASH) (drop i s))"

definition substr :: "string \<Rightarrow> nat \<Rightarrow> nat \<Rightarrow> string" where
  "substr s i j = take (j - i) (drop i s)"

text \<open>One token: \<open>..\<close> cuts the last component of \<open>newstr\<close>, \<open>.\<close> is dropped, anything else is
  appended with the slashes before it (\<open>piece\<close>).\<close>

definition apply_token :: "string option \<Rightarrow> string \<Rightarrow> string \<Rightarrow> string option" where
  "apply_token newstr token piece =
    (if token = ''..'' then
       (case newstr of
          None \<Rightarrow> None
        | Some t \<Rightarrow>
            (case strrchr t SLASH of
               None \<Rightarrow> newstr
             | Some r \<Rightarrow> (if before t r = [] then None else Some (before t r))))
     else if token \<noteq> ''.'' then
       (case newstr of None \<Rightarrow> Some piece | Some t \<Rightarrow> Some (t @ piece))
     else newstr)"

function expand_loop :: "string \<Rightarrow> nat \<Rightarrow> string option \<Rightarrow> nat \<times> string option" where
  "expand_loop str endpos newstr =
    (case slash_from str endpos of
       None \<Rightarrow> (endpos, newstr)
     | Some slash \<Rightarrow>
         let pos = slash + 1;
             ntoken = skip_slashes str pos;
             e = (case slash_from str ntoken of Some k \<Rightarrow> k | None \<Rightarrow> length str);
             newstr' = apply_token newstr (substr str ntoken e) (substr str slash e)
         in if e = length str then (e, newstr') else expand_loop str (pos + 1) newstr')"
  by pat_completeness auto
termination
  by (relation "measure (\<lambda>(str, endpos, newstr). length str - endpos)")
    (auto simp: slash_from_def Let_def split: if_splits)

declare expand_loop.simps [simp del]

text \<open>\<open>home None\<close> is the home directory of the effective user, \<open>home (Some u)\<close> that of \<open>u\<close>.\<close>

definition gftp_expand_path ::
  "(string option \<Rightarrow> string option) \<Rightarrow> int option \<Rightarrow> string \<Rightarrow> string option" where
  "gftp_expand_path home server src =
    (let pw_dir =
           (case src of
              [] \<Rightarrow> None
            | c # rest \<Rightarrow>
                if c = CHR ''~'' then
                  (if rest = [] \<or> hd rest = SLASH then home None
                   else home (Some (takeWhile ((\<noteq>) SLASH) rest)))
                else None);
         (endpos, newstr) = expand_loop src 0 None;
         newstr1 = (if endpos < length src \<and> newstr = None
                    then (if drop endpos src = ''..'' then Some ''/'' else Some (drop endpos src))
                    else newstr);
         newstr2 = (case newstr1 of None \<Rightarrow> ''/'' | Some t \<Rightarrow> if t = [] then ''/'' else t)
     in case pw_dir of
          None \<Rightarrow> Some newstr2
        | Some dir \<Rightarrow>
            (case strchr newstr2 SLASH of
               None \<Rightarrow> Some dir
             | Some pos \<Rightarrow> gftp_build_path server dir [pos]))"

section \<open>Expansion is resolution on a stack\<close>

definition plain_component :: "string \<Rightarrow> bool" where
  "plain_component c \<longleftrightarrow> c \<noteq> [] \<and> SLASH \<notin> set c"

definition render :: "string list \<Rightarrow> string" where
  "render cs = concat (map ((#) SLASH) cs)"

definition push_component :: "string list \<Rightarrow> string \<Rightarrow> string list" where
  "push_component st c = (if c = ''..'' then butlast st else if c = ''.'' then st else st @ [c])"

definition resolve :: "string list \<Rightarrow> string list" where
  "resolve cs = foldl push_component [] cs"

definition root_or :: "string list \<Rightarrow> string" where
  "root_or st = (if st = [] then ''/'' else render st)"

definition stack_string :: "string list \<Rightarrow> string option" where
  "stack_string st = (if st = [] then None else Some (render st))"

lemma render_simps [simp]:
  "render [] = []" "render (c # cs) = SLASH # c @ render cs" "render (a @ b) = render a @ render b"
  by (simp_all add: render_def)

lemma render_Nil_iff [simp]: "render st = [] \<longleftrightarrow> st = []"
  by (cases st) auto

lemma push_plain: "\<forall>x \<in> set st. plain_component x \<Longrightarrow> plain_component c \<Longrightarrow>
    \<forall>x \<in> set (push_component st c). plain_component x"
  by (auto simp: push_component_def dest: in_set_butlastD)

lemma apply_token_push:
  assumes "\<forall>x \<in> set st. plain_component x"
  shows "apply_token (stack_string st) c (SLASH # c) = stack_string (push_component st c)"
proof (cases "c = ''..''")
  case True
  show ?thesis
  proof (cases st rule: rev_cases)
    case Nil
    then show ?thesis using True by (simp add: apply_token_def stack_string_def push_component_def)
  next
    case (snoc st' x)
    then have "SLASH \<notin> set x" using assms by (simp add: plain_component_def)
    then have "strrchr (render st) SLASH = Some (SLASH # x)"
      by (simp add: snoc strrchr_append)
    moreover have "before (render st) (SLASH # x) = render st'"
      by (simp add: snoc)
    ultimately show ?thesis using True snoc
      by (simp add: apply_token_def stack_string_def push_component_def)
  qed
next
  case False
  then show ?thesis by (auto simp: apply_token_def stack_string_def push_component_def)
qed

lemma takeWhile_no_slash: "SLASH \<notin> set u \<Longrightarrow> takeWhile ((\<noteq>) SLASH) (u @ SLASH # v) = u"
  by (induction u) auto

lemma slash_from_hit:
  assumes "i \<le> length pre" "SLASH \<notin> set (drop i pre)"
  shows "slash_from (pre @ SLASH # v) i = Some (length pre)"
  using assms takeWhile_no_slash [OF assms(2), of v] by (simp add: slash_from_def Let_def)

lemma slash_from_miss: "SLASH \<notin> set (drop i s) \<Longrightarrow> slash_from s i = None"
proof -
  assume "SLASH \<notin> set (drop i s)"
  then have "takeWhile ((\<noteq>) SLASH) (drop i s) = drop i s" by (auto simp: takeWhile_eq_all_conv)
  then have "\<not> i + length (takeWhile ((\<noteq>) SLASH) (drop i s)) < length s" by (simp only: length_drop)
  then show ?thesis unfolding slash_from_def Let_def by (simp only: if_False)
qed

lemma expand_loop_step:
  assumes "slash_from str i = Some t" "skip_slashes str (Suc t) = n"
    "(case slash_from str n of Some k \<Rightarrow> k | None \<Rightarrow> length str) = e"
    "apply_token ns (substr str n e) (substr str t e) = ns'"
  shows "expand_loop str i ns =
    (if e = length str then (e, ns') else expand_loop str (Suc (Suc t)) ns')"
  by (subst expand_loop.simps) (use assms in \<open>auto simp: Let_def\<close>)

lemma expand_loop_render:
  "\<forall>x \<in> set st. plain_component x \<Longrightarrow> \<forall>x \<in> set (c # cs). plain_component x \<Longrightarrow>
   i \<le> length pre \<Longrightarrow> SLASH \<notin> set (drop i pre) \<Longrightarrow> str = pre @ render (c # cs) \<Longrightarrow>
   expand_loop str i (stack_string st) = (length str, stack_string (foldl push_component st (c # cs)))"
proof (induction cs arbitrary: st c i pre)
  case Nil
  have c: "c \<noteq> []" "SLASH \<notin> set c" using Nil.prems(2) by (auto simp: plain_component_def)
  have 1: "slash_from str i = Some (length pre)"
    using slash_from_hit [OF Nil.prems(3,4)] Nil.prems(5) by simp
  have 2: "skip_slashes str (Suc (length pre)) = Suc (length pre)"
    using c by (cases c) (auto simp: skip_slashes_def Nil.prems(5))
  have 3: "slash_from str (Suc (length pre)) = None"
    using c by (intro slash_from_miss) (simp add: Nil.prems(5))
  have 4: "apply_token (stack_string st) (substr str (Suc (length pre)) (length str))
      (substr str (length pre) (length str)) = stack_string (push_component st c)"
    using apply_token_push [OF Nil.prems(1), of c] by (simp add: substr_def Nil.prems(5))
  show ?case
    using expand_loop_step [OF 1 2 _ 4] 3 by simp
next
  case (Cons d ds)
  have c: "c \<noteq> []" "SLASH \<notin> set c" using Cons.prems(2) by (auto simp: plain_component_def)
  let ?pre = "pre @ SLASH # c"
  have str: "str = ?pre @ render (d # ds)" using Cons.prems(5) by simp
  have 1: "slash_from str i = Some (length pre)"
    using slash_from_hit [OF Cons.prems(3,4)] Cons.prems(5) by simp
  have 2: "skip_slashes str (Suc (length pre)) = Suc (length pre)"
    using c by (cases c) (auto simp: skip_slashes_def Cons.prems(5))
  have 3: "slash_from str (Suc (length pre)) = Some (length ?pre)"
    using slash_from_hit [of "Suc (length pre)" ?pre] c str by simp
  have 4: "apply_token (stack_string st) (substr str (Suc (length pre)) (length ?pre))
      (substr str (length pre) (length ?pre)) = stack_string (push_component st c)"
    using apply_token_push [OF Cons.prems(1), of c] by (simp add: substr_def Cons.prems(5))
  have "expand_loop str i (stack_string st) =
      expand_loop str (Suc (Suc (length pre))) (stack_string (push_component st c))"
    using expand_loop_step [OF 1 2 _ 4] 3 by (simp add: Cons.prems(5))
  also have "\<dots> = (length str, stack_string (foldl push_component (push_component st c) (d # ds)))"
  proof (rule Cons.IH [OF _ _ _ _ str])
    show "\<forall>x \<in> set (push_component st c). plain_component x"
      by (rule push_plain [OF Cons.prems(1)]) (use Cons.prems(2) in simp)
    show "Suc (Suc (length pre)) \<le> length ?pre" using c by (cases c) auto
    show "SLASH \<notin> set (drop (Suc (Suc (length pre))) ?pre)" using c by (auto dest: in_set_dropD)
  qed (use Cons.prems(2) in simp)
  finally show ?case by simp
qed

lemma expand_render:
  assumes "cs \<noteq> []" "\<forall>c \<in> set cs. plain_component c" "SLASH \<notin> set u"
  shows "expand_loop (u @ render cs) 0 None = (length (u @ render cs), stack_string (resolve cs))"
proof -
  obtain c cs' where "cs = c # cs'" using assms(1) by (cases cs) auto
  then show ?thesis
    using expand_loop_render [of "[]" c cs' 0 u "u @ render cs"] assms(2,3)
    by (simp add: stack_string_def resolve_def)
qed

text \<open>C21: An absolute path whose components are separated by single slashes is expanded to
  the path of its resolved components: \<open>.\<close> dropped, \<open>..\<close> removing the component before it and doing
  nothing at the root, and the root itself when nothing is left.\<close>

theorem expand_path_resolves:
  assumes "cs \<noteq> []" "\<forall>c \<in> set cs. plain_component c"
  shows "gftp_expand_path home server (render cs) = Some (root_or (resolve cs))"
proof -
  obtain r where r: "render cs = SLASH # r" using assms(1) by (cases cs) auto
  show ?thesis
    using expand_render [OF assms, of "[]"] r
    by (auto simp: gftp_expand_path_def stack_string_def root_or_def)
qed

theorem expand_path_resolves_witness:
  "gftp_expand_path (\<lambda>_. None) None ''/a/./b/../../c/..'' = Some ''/''"
  using expand_path_resolves [of "[''a'', ''.'', ''b'', ''..'', ''..'', ''c'', ''..'']" "\<lambda>_. None" None]
  by (simp add: plain_component_def resolve_def push_component_def root_or_def)

text \<open>A path below \<open>~\<close> is the resolved path below the effective user's home directory,
  so \<open>..\<close> does not lead above that directory.\<close>

theorem expand_home:
  assumes "home None = Some dir" "cs \<noteq> []" "\<forall>c \<in> set cs. plain_component c"
    and "server \<noteq> Some GFTP_DIRTYPE_VMS"
  shows "gftp_expand_path home server (CHR ''~'' # render cs) = Some (join2 dir (root_or (resolve cs)))"
proof -
  obtain c cs' where cs: "cs = c # cs'" using assms(2) by (cases cs) auto
  have e: "expand_loop (CHR ''~'' # render cs) 0 None = (length (CHR ''~'' # render cs), stack_string (resolve cs))"
    using expand_render [OF assms(2,3), of "''~''"] by simp
  have "strchr (root_or (resolve cs)) SLASH = Some (root_or (resolve cs))"
    by (cases "resolve cs") (auto simp: root_or_def)
  then show ?thesis
    using e assms(1) build_path_join [OF assms(4), of dir] cs
    by (auto simp: gftp_expand_path_def stack_string_def root_or_def split: if_splits)
qed

theorem expand_home_witness:
  "gftp_expand_path (\<lambda>_. Some ''/home/me'') None ''~/.gftp/x/../cache'' = Some ''/home/me/.gftp/cache''"
  using expand_home [of "\<lambda>_. Some ''/home/me''" "''/home/me''" "[''.gftp'', ''x'', ''..'', ''cache'']" None]
  by (simp add: plain_component_def resolve_def push_component_def root_or_def join2_def)

text \<open>Three slashes in a row make the next component appear twice, and a relative
  path loses its first component: the loop goes on one character behind a slash, and only keeps what
  follows a slash.\<close>

theorem expand_path_defects:
  "gftp_expand_path home server ''///a/b'' = Some ''///a/a/b'' \<and>
   gftp_expand_path home server ''sub/dir'' = Some ''/dir''"
  by (simp add: gftp_expand_path_def expand_loop.simps slash_from_def skip_slashes_def substr_def
      apply_token_def)

end
