(* ===== verification/File_Sort.thy ===== *)
theory File_Sort
  imports File_Modes "HOL-Library.Multiset"
begin

text \<open>
  Directory entries and how they are ordered: \<open>struct gftp_file_tag\<close> (\<open>lib/gftp.h\<close>) and,
  from \<open>lib/misc.c\<close>, \<open>copy_fdata\<close>, the twelve comparison functions, \<open>gftp_sort_filelist\<close> and
  \<open>gftp_get_transfer_action\<close>.

  \<open>g_list_sort\<close> belongs to GLib, so it is a parameter; what GLib documents of it (a stable sort)
  is the predicate \<open>is_list_sort\<close>, and \<open>insertion_sort\<close> is a function that meets it. The pointers
  of an entry may be NULL, and a comparison function that would pass NULL to \<open>strcasecmp\<close> is
  \<^term>\<open>None\<close>. The interface of a comparison function is the locale \<open>compare_fn\<close>.
\<close>


section \<open>Directory entries\<close>

record gftp_file =
  gf_file :: "string option"
  gf_user :: "string option"
  gf_group :: "string option"
  gf_destfile :: "string option"
  gf_fd :: int
  gf_datetime :: int
  gf_size :: int
  gf_startsize :: int
  gf_st_mode :: mode_t
  gf_st_dev :: nat
  gf_st_ino :: nat
  gf_selected :: bool
  gf_was_sel :: bool
  gf_shown :: bool
  gf_done_view :: bool
  gf_done_edit :: bool
  gf_done_rm :: bool
  gf_transfer_done :: bool
  gf_retry_transfer :: bool
  gf_exists_other_side :: bool
  gf_filename_utf8_encoded :: bool
  gf_transfer_action :: int
  gf_user_data :: "nat option"

text \<open>\<open>memset (fle, 0, sizeof (*fle))\<close>.\<close>

definition zero_file :: gftp_file where
  "zero_file = \<lparr> gf_file = None, gf_user = None, gf_group = None, gf_destfile = None, gf_fd = 0,
     gf_datetime = 0, gf_size = 0, gf_startsize = 0, gf_st_mode = 0, gf_st_dev = 0, gf_st_ino = 0,
     gf_selected = False, gf_was_sel = False, gf_shown = False, gf_done_view = False,
     gf_done_edit = False, gf_done_rm = False, gf_transfer_done = False, gf_retry_transfer = False,
     gf_exists_other_side = False, gf_filename_utf8_encoded = False, gf_transfer_action = 0,
     gf_user_data = None \<rparr>"

lemma zero_file_sel [simp]:
  "gf_file zero_file = None" "gf_user zero_file = None" "gf_group zero_file = None"
  "gf_size zero_file = 0" "gf_datetime zero_file = 0" "gf_st_mode zero_file = 0"
  "gf_startsize zero_file = 0"
  by (simp_all add: zero_file_def)

definition copy_fdata :: "gftp_file \<Rightarrow> gftp_file" where
  "copy_fdata fle = fle \<lparr> gf_user_data := None \<rparr>"


section \<open>What to do with a file that exists on the other side\<close>

definition GFTP_TRANS_ACTION_OVERWRITE :: int where "GFTP_TRANS_ACTION_OVERWRITE = 1"
definition GFTP_TRANS_ACTION_RESUME :: int where "GFTP_TRANS_ACTION_RESUME = 2"
definition GFTP_TRANS_ACTION_SKIP :: int where "GFTP_TRANS_ACTION_SKIP = 3"

text \<open>The value of the option \<open>overwrite_default\<close> is an argument.\<close>

definition gftp_get_transfer_action :: "bool \<Rightarrow> gftp_file \<Rightarrow> gftp_file \<times> int" where
  "gftp_get_transfer_action overwrite_default fle =
    (let action =
       (if overwrite_default then GFTP_TRANS_ACTION_OVERWRITE
        else if gf_startsize fle = gf_size fle then GFTP_TRANS_ACTION_SKIP
        else if gf_startsize fle > gf_size fle then GFTP_TRANS_ACTION_OVERWRITE
        else GFTP_TRANS_ACTION_RESUME)
     in (fle \<lparr> gf_transfer_action := action \<rparr>, action))"


section \<open>The comparison functions\<close>

definition compare_names :: "string option \<Rightarrow> string option \<Rightarrow> int option" where
  "compare_names n1 n2 =
    (case (n1, n2) of (Some s1, Some s2) \<Rightarrow> Some (strcasecmp s1 s2) | _ \<Rightarrow> None)"

definition gftp_file_sort_function_as :: "gftp_file \<Rightarrow> gftp_file \<Rightarrow> int option" where
  "gftp_file_sort_function_as f1 f2 = compare_names (gf_file f1) (gf_file f2)"

definition gftp_file_sort_function_ds :: "gftp_file \<Rightarrow> gftp_file \<Rightarrow> int option" where
  "gftp_file_sort_function_ds f1 f2 =
    (case compare_names (gf_file f1) (gf_file f2) of None \<Rightarrow> None | Some r \<Rightarrow> Some (r * -1))"

definition gftp_user_sort_function_as :: "gftp_file \<Rightarrow> gftp_file \<Rightarrow> int option" where
  "gftp_user_sort_function_as f1 f2 = compare_names (gf_user f1) (gf_user f2)"

definition gftp_user_sort_function_ds :: "gftp_file \<Rightarrow> gftp_file \<Rightarrow> int option" where
  "gftp_user_sort_function_ds f1 f2 =
    (case compare_names (gf_user f1) (gf_user f2) of None \<Rightarrow> None | Some r \<Rightarrow> Some (r * -1))"

definition gftp_group_sort_function_as :: "gftp_file \<Rightarrow> gftp_file \<Rightarrow> int option" where
  "gftp_group_sort_function_as f1 f2 = compare_names (gf_group f1) (gf_group f2)"

definition gftp_group_sort_function_ds :: "gftp_file \<Rightarrow> gftp_file \<Rightarrow> int option" where
  "gftp_group_sort_function_ds f1 f2 =
    (case compare_names (gf_group f1) (gf_group f2) of None \<Rightarrow> None | Some r \<Rightarrow> Some (r * -1))"

definition gftp_attribs_sort_function_as :: "gftp_file \<Rightarrow> gftp_file \<Rightarrow> int option" where
  "gftp_attribs_sort_function_as f1 f2 =
    Some (if gf_st_mode f1 < gf_st_mode f2 then -1
          else if gf_st_mode f1 = gf_st_mode f2 then 0 else 1)"

definition gftp_attribs_sort_function_ds :: "gftp_file \<Rightarrow> gftp_file \<Rightarrow> int option" where
  "gftp_attribs_sort_function_ds f1 f2 =
    Some (if gf_st_mode f1 < gf_st_mode f2 then 1
          else if gf_st_mode f1 = gf_st_mode f2 then 0 else -1)"

definition gftp_size_sort_function_as :: "gftp_file \<Rightarrow> gftp_file \<Rightarrow> int option" where
  "gftp_size_sort_function_as f1 f2 =
    Some (if gf_size f1 < gf_size f2 then -1 else if gf_size f1 = gf_size f2 then 0 else 1)"

definition gftp_size_sort_function_ds :: "gftp_file \<Rightarrow> gftp_file \<Rightarrow> int option" where
  "gftp_size_sort_function_ds f1 f2 =
    Some (if gf_size f1 < gf_size f2 then 1 else if gf_size f1 = gf_size f2 then 0 else -1)"

definition gftp_datetime_sort_function_as :: "gftp_file \<Rightarrow> gftp_file \<Rightarrow> int option" where
  "gftp_datetime_sort_function_as f1 f2 =
    Some (if gf_datetime f1 < gf_datetime f2 then -1
          else if gf_datetime f1 = gf_datetime f2 then 0 else 1)"

definition gftp_datetime_sort_function_ds :: "gftp_file \<Rightarrow> gftp_file \<Rightarrow> int option" where
  "gftp_datetime_sort_function_ds f1 f2 =
    Some (if gf_datetime f1 < gf_datetime f2 then 1
          else if gf_datetime f1 = gf_datetime f2 then 0 else -1)"


section \<open>gftp_sort_filelist\<close>

definition GFTP_SORT_COL_FILE :: int where [simp]: "GFTP_SORT_COL_FILE = 1"
definition GFTP_SORT_COL_SIZE :: int where [simp]: "GFTP_SORT_COL_SIZE = 2"
definition GFTP_SORT_COL_USER :: int where [simp]: "GFTP_SORT_COL_USER = 3"
definition GFTP_SORT_COL_GROUP :: int where [simp]: "GFTP_SORT_COL_GROUP = 4"
definition GFTP_SORT_COL_DATETIME :: int where [simp]: "GFTP_SORT_COL_DATETIME = 5"
definition GFTP_SORT_COL_ATTRIBS :: int where [simp]: "GFTP_SORT_COL_ATTRIBS = 6"

definition sort_function :: "int \<Rightarrow> bool \<Rightarrow> (gftp_file \<Rightarrow> gftp_file \<Rightarrow> int option) option" where
  "sort_function column asds =
    (if column = GFTP_SORT_COL_FILE then
       Some (if asds then gftp_file_sort_function_as else gftp_file_sort_function_ds)
     else if column = GFTP_SORT_COL_SIZE then
       Some (if asds then gftp_size_sort_function_as else gftp_size_sort_function_ds)
     else if column = GFTP_SORT_COL_USER then
       Some (if asds then gftp_user_sort_function_as else gftp_user_sort_function_ds)
     else if column = GFTP_SORT_COL_GROUP then
       Some (if asds then gftp_group_sort_function_as else gftp_group_sort_function_ds)
     else if column = GFTP_SORT_COL_DATETIME then
       Some (if asds then gftp_datetime_sort_function_as else gftp_datetime_sort_function_ds)
     else if column = GFTP_SORT_COL_ATTRIBS then
       Some (if asds then gftp_attribs_sort_function_as else gftp_attribs_sort_function_ds)
     else None)"

text \<open>The loop that takes the list apart: the first \<open>..\<close> aside, directories and the rest each
  pushed on the front of a list of their own.\<close>

fun split_entries ::
  "bool \<Rightarrow> gftp_file list \<Rightarrow> gftp_file option \<Rightarrow> gftp_file list \<Rightarrow> gftp_file list \<Rightarrow>
   (gftp_file option \<times> gftp_file list \<times> gftp_file list) option" where
  "split_entries sort_dirs_first [] dotdot dirs files = Some (dotdot, dirs, files)"
| "split_entries sort_dirs_first (tempfle # rest) dotdot dirs files =
    (case gf_file tempfle of
       None \<Rightarrow> if dotdot = None then None
               else if sort_dirs_first \<and> S_ISDIR (gf_st_mode tempfle)
                    then split_entries sort_dirs_first rest dotdot (tempfle # dirs) files
                    else split_entries sort_dirs_first rest dotdot dirs (tempfle # files)
     | Some name \<Rightarrow>
         if dotdot = None \<and> name = ''..''
         then split_entries sort_dirs_first rest (Some tempfle) dirs files
         else if sort_dirs_first \<and> S_ISDIR (gf_st_mode tempfle)
              then split_entries sort_dirs_first rest dotdot (tempfle # dirs) files
              else split_entries sort_dirs_first rest dotdot dirs (tempfle # files))"

definition gftp_sort_filelist ::
  "((gftp_file \<Rightarrow> gftp_file \<Rightarrow> int option) \<Rightarrow> gftp_file list \<Rightarrow> gftp_file list option) \<Rightarrow>
   bool \<Rightarrow> gftp_file list \<Rightarrow> int \<Rightarrow> bool \<Rightarrow> gftp_file list option" where
  "gftp_sort_filelist g_list_sort sort_dirs_first filelist column asds =
    (if filelist = [] then Some filelist
     else case sort_function column asds of
       None \<Rightarrow> Some filelist
     | Some sortfunc \<Rightarrow>
         do { (dotdot, dirs, files) \<leftarrow> split_entries sort_dirs_first filelist None [] [];
              dirs' \<leftarrow> (if dirs \<noteq> [] then g_list_sort sortfunc dirs else Some dirs);
              files' \<leftarrow> (if files \<noteq> [] then g_list_sort sortfunc files else Some files);
              Some ((case dotdot of None \<Rightarrow> [] | Some d \<Rightarrow> [d]) @ dirs' @ files') })"


section \<open>The contract of a comparison function\<close>

locale compare_fn =
  fixes cmp :: "'a \<Rightarrow> 'a \<Rightarrow> int"
  assumes flip: "sgn (cmp b a) = - sgn (cmp a b)"
    and trans: "cmp a b \<le> 0 \<Longrightarrow> cmp b c \<le> 0 \<Longrightarrow> cmp a c \<le> 0"
begin

lemma same: "cmp a a = 0"
  using flip [of a a] by (simp add: sgn_if split: if_splits)

lemma linear: "cmp a b \<le> 0 \<or> cmp b a \<le> 0"
  using flip [of b a] by (auto simp: sgn_if split: if_splits)

lemma zero_sym: "cmp a b = 0 \<longleftrightarrow> cmp b a = 0"
  using flip [of b a] by (auto simp: sgn_if split: if_splits)

lemma le_flip: "cmp b a \<le> 0 \<longleftrightarrow> 0 \<le> cmp a b"
  using flip [of b a] by (auto simp: sgn_if split: if_splits)

lemma on_key: "compare_fn (\<lambda>x y. cmp (f x) (f y))"
  by unfold_locales (auto intro: flip trans)

lemma reversed: "compare_fn (\<lambda>x y. cmp x y * -1)"
proof
  show "sgn (cmp b a * -1) = - sgn (cmp a b * -1)" for a b
    using flip [of a b] by (simp add: sgn_if split: if_splits)
  show "cmp a b * -1 \<le> 0 \<Longrightarrow> cmp b c * -1 \<le> 0 \<Longrightarrow> cmp a c * -1 \<le> 0" for a b c
    using trans [of c b a] le_flip [of b a] le_flip [of c b] le_flip [of c a] le_flip [of a b] le_flip [of b c] le_flip [of a c] by simp
qed

end

lemma strcasecmp_flip: "strcasecmp s t = - strcasecmp t s"
proof (induction s t rule: strcasecmp.induct)
  case (4 c cs d ds)
  have "to_lower c = to_lower d \<Longrightarrow> c = NUL \<longleftrightarrow> d = NUL"
    by (auto simp: to_lower_def split: if_splits dest: arg_cong [where f = code_of])
  with 4 show ?case by auto
qed auto

definition three_way :: "'a::linorder \<Rightarrow> 'a \<Rightarrow> int" where
  "three_way x y = (if x < y then -1 else if x = y then 0 else 1)"

lemma to_lower_NUL_iff [simp]: "to_lower c = NUL \<longleftrightarrow> c = NUL"
  by (auto simp: to_lower_def dest: arg_cong [where f = code_of])

lemma to_lower_NUL [simp]: "to_lower NUL = NUL"
  by simp

lemma to_lower_pos: "code_of (to_lower c) = 0 \<longleftrightarrow> c = NUL"
  using code_of_inject [of "to_lower c" NUL] by simp

lemma strcasecmp_trans:
  "strcasecmp s t \<le> 0 \<Longrightarrow> strcasecmp t u \<le> 0 \<Longrightarrow> strcasecmp s u \<le> 0"
proof (induction s t arbitrary: u rule: strcasecmp.induct)
  case (2 d ds u)
  then show ?case by (cases u) auto
next
  case (3 c cs u)
  then show ?case by (cases u) (auto simp: to_lower_pos split: if_splits)
next
  case (4 c cs d ds u)
  show ?case
  proof (cases u)
    case Nil
    then show ?thesis using "4.prems" to_lower_pos [of c] to_lower_pos [of d] by (simp split: if_splits)
  next
    case (Cons e es)
    have N: "to_lower c = to_lower d \<Longrightarrow> (c = NUL) = (d = NUL)"
      by (metis to_lower_NUL_iff)
    have I: "to_lower c = to_lower d \<Longrightarrow> c \<noteq> NUL \<Longrightarrow> strcasecmp cs ds \<le> 0 \<Longrightarrow>
        strcasecmp ds es \<le> 0 \<Longrightarrow> strcasecmp cs es \<le> 0"
      by (rule "4.IH")
    have "code_of (to_lower c) \<le> code_of (to_lower d)" "code_of (to_lower d) \<le> code_of (to_lower e)"
      using "4.prems" Cons by (simp_all split: if_splits)
    then consider "to_lower c = to_lower d" "to_lower d = to_lower e"
      | "to_lower c \<noteq> to_lower e" "code_of (to_lower c) \<le> code_of (to_lower e)"
      by (metis code_of_inject le_antisym le_trans)
    then show ?thesis
    proof cases
      case 1
      then have ce: "to_lower c = to_lower e" by simp
      show ?thesis
        using "4.prems" I N 1 unfolding Cons strcasecmp.simps(4) if_P [OF 1(1)] if_P [OF 1(2)] if_P [OF ce]
        by (auto split: if_splits)
    next
      case 2
      then show ?thesis by (simp add: Cons)
    qed
  qed
qed simp

interpretation casecmp: compare_fn strcasecmp
proof
  show "sgn (strcasecmp b a) = - sgn (strcasecmp a b)" for a b
    using strcasecmp_flip [of a b] by simp
qed (rule strcasecmp_trans)

interpretation threeway: compare_fn three_way
  by unfold_locales (auto simp: three_way_def split: if_splits)



section \<open>What the sort promises\<close>

text \<open>The order of a column, on entries whose name in that column is present.\<close>

definition name_of :: "string option \<Rightarrow> string" where
  "name_of n = (case n of Some s \<Rightarrow> s | None \<Rightarrow> [])"

definition column_cmp :: "int \<Rightarrow> gftp_file \<Rightarrow> gftp_file \<Rightarrow> int" where
  "column_cmp column a b =
    (if column = GFTP_SORT_COL_FILE then strcasecmp (name_of (gf_file a)) (name_of (gf_file b))
     else if column = GFTP_SORT_COL_SIZE then three_way (gf_size a) (gf_size b)
     else if column = GFTP_SORT_COL_USER then strcasecmp (name_of (gf_user a)) (name_of (gf_user b))
     else if column = GFTP_SORT_COL_GROUP then strcasecmp (name_of (gf_group a)) (name_of (gf_group b))
     else if column = GFTP_SORT_COL_DATETIME then three_way (gf_datetime a) (gf_datetime b)
     else three_way (gf_st_mode a) (gf_st_mode b))"

definition directed :: "bool \<Rightarrow> ('a \<Rightarrow> 'a \<Rightarrow> int) \<Rightarrow> 'a \<Rightarrow> 'a \<Rightarrow> int" where
  "directed asds cmp a b = (if asds then cmp a b else cmp a b * -1)"

definition names_present :: "int \<Rightarrow> gftp_file \<Rightarrow> bool" where
  "names_present column f \<longleftrightarrow> gf_file f \<noteq> None
     \<and> (column = GFTP_SORT_COL_USER \<longrightarrow> gf_user f \<noteq> None)
     \<and> (column = GFTP_SORT_COL_GROUP \<longrightarrow> gf_group f \<noteq> None)"

definition sort_column :: "int \<Rightarrow> bool" where
  "sort_column column \<longleftrightarrow> 1 \<le> column \<and> column \<le> 6"

text \<open>The documented behaviour of \<open>g_list_sort\<close>: called with a comparison function that does
  not fail on the elements and orders them, it returns the same elements in order and keeps the
  relative order of the elements that compare equal.\<close>

definition is_list_sort ::
  "(('a \<Rightarrow> 'a \<Rightarrow> int option) \<Rightarrow> 'a list \<Rightarrow> 'a list option) \<Rightarrow> bool" where
  "is_list_sort srt \<longleftrightarrow>
    (\<forall>pcmp cmp xs. compare_fn cmp \<longrightarrow> (\<forall>a \<in> set xs. \<forall>b \<in> set xs. pcmp a b = Some (cmp a b)) \<longrightarrow>
      (\<exists>ys. srt pcmp xs = Some ys \<and> mset ys = mset xs \<and> sorted_wrt (\<lambda>a b. cmp a b \<le> 0) ys \<and>
        (\<forall>a. filter (\<lambda>x. cmp a x = 0) ys = filter (\<lambda>x. cmp a x = 0) xs)))"

fun insort_opt :: "('a \<Rightarrow> 'a \<Rightarrow> int option) \<Rightarrow> 'a \<Rightarrow> 'a list \<Rightarrow> 'a list option" where
  "insort_opt pcmp x [] = Some [x]"
| "insort_opt pcmp x (y # ys) =
    (case pcmp x y of
       None \<Rightarrow> None
     | Some c \<Rightarrow> if c \<le> 0 then Some (x # y # ys) else map_option ((#) y) (insort_opt pcmp x ys))"

fun insertion_sort :: "('a \<Rightarrow> 'a \<Rightarrow> int option) \<Rightarrow> 'a list \<Rightarrow> 'a list option" where
  "insertion_sort pcmp [] = Some []"
| "insertion_sort pcmp (x # xs) =
    (case insertion_sort pcmp xs of None \<Rightarrow> None | Some ys \<Rightarrow> insort_opt pcmp x ys)"

context compare_fn
begin

lemma insort_opt_ok:
  assumes "sorted_wrt (\<lambda>a b. cmp a b \<le> 0) ys" "\<forall>b \<in> set ys. pcmp x b = Some (cmp x b)"
  shows "\<exists>zs. insort_opt pcmp x ys = Some zs \<and> mset zs = add_mset x (mset ys) \<and>
    sorted_wrt (\<lambda>a b. cmp a b \<le> 0) zs \<and>
    (\<forall>a. filter (\<lambda>x. cmp a x = 0) zs = filter (\<lambda>x. cmp a x = 0) (x # ys))"
  using assms
proof (induction ys)
  case (Cons y ys)
  show ?case
  proof (cases "cmp x y \<le> 0")
    case True
    then show ?thesis using Cons.prems by (auto intro: trans)
  next
    case False
    then obtain zs where zs: "insort_opt pcmp x ys = Some zs" "mset zs = add_mset x (mset ys)"
      "sorted_wrt (\<lambda>a b. cmp a b \<le> 0) zs"
      "\<forall>a. filter (\<lambda>x. cmp a x = 0) zs = filter (\<lambda>x. cmp a x = 0) (x # ys)"
      using Cons by auto
    have "set zs = insert x (set ys)" using zs(2) by (metis set_mset_add_mset_insert set_mset_mset)
    moreover have "cmp y x \<le> 0" using linear [of x y] False by blast
    moreover have "\<not> (cmp a x = 0 \<and> cmp a y = 0)" for a
      using False trans [of x a y] zero_sym [of a x] by auto
    ultimately show ?thesis using zs False Cons.prems by auto
  qed
qed simp

lemma insertion_sort_ok:
  assumes "\<forall>a \<in> set xs. \<forall>b \<in> set xs. pcmp a b = Some (cmp a b)"
  shows "\<exists>ys. insertion_sort pcmp xs = Some ys \<and> mset ys = mset xs \<and>
    sorted_wrt (\<lambda>a b. cmp a b \<le> 0) ys \<and>
    (\<forall>a. filter (\<lambda>x. cmp a x = 0) ys = filter (\<lambda>x. cmp a x = 0) xs)"
  using assms
proof (induction xs)
  case (Cons x xs)
  then obtain ys where ys: "insertion_sort pcmp xs = Some ys" "mset ys = mset xs"
    "sorted_wrt (\<lambda>a b. cmp a b \<le> 0) ys"
    "\<forall>a. filter (\<lambda>x. cmp a x = 0) ys = filter (\<lambda>x. cmp a x = 0) xs"
    by auto
  have "\<forall>b \<in> set ys. pcmp x b = Some (cmp x b)"
    using Cons.prems ys(2) by (metis list.set_intros set_mset_mset)
  from insort_opt_ok [OF ys(3), of pcmp x, OF this] ys show ?case by auto
qed simp

end

lemma is_list_sortD:
  "is_list_sort srt \<Longrightarrow> compare_fn cmp \<Longrightarrow> \<forall>a \<in> set xs. \<forall>b \<in> set xs. pcmp a b = Some (cmp a b) \<Longrightarrow>
   \<exists>ys. srt pcmp xs = Some ys \<and> mset ys = mset xs \<and> sorted_wrt (\<lambda>a b. cmp a b \<le> 0) ys \<and>
     (\<forall>a. filter (\<lambda>x. cmp a x = 0) ys = filter (\<lambda>x. cmp a x = 0) xs)"
  unfolding is_list_sort_def by (drule spec [of _ pcmp], drule spec [of _ cmp], drule spec [of _ xs]) (rule mp, rule mp)

lemma insertion_sort_is_list_sort: "is_list_sort insertion_sort"
  unfolding is_list_sort_def using compare_fn.insertion_sort_ok by blast

lemma directed_compare_fn: "compare_fn cmp \<Longrightarrow> compare_fn (directed asds cmp)"
  using compare_fn.reversed [of cmp] by (cases asds) (auto simp: directed_def [abs_def])

lemma column_compare_fn: "compare_fn (column_cmp column)"
proof -
  note name_keys = casecmp.on_key [of "\<lambda>f. name_of (gf_file f)"]
    casecmp.on_key [of "\<lambda>f. name_of (gf_user f)"] casecmp.on_key [of "\<lambda>f. name_of (gf_group f)"]
  note number_keys = compare_fn.on_key [OF threeway.compare_fn_axioms, of gf_size]
    compare_fn.on_key [OF threeway.compare_fn_axioms, of gf_datetime]
    compare_fn.on_key [OF threeway.compare_fn_axioms, of gf_st_mode]
  consider "column = 1" | "column = 2" | "column = 3" | "column = 4" | "column = 5"
    | "column \<notin> {1, 2, 3, 4, 5}" by auto
  then show ?thesis
    by cases (use name_keys number_keys in \<open>simp_all add: column_cmp_def [abs_def]\<close>)
qed

lemma sort_function_column:
  assumes "sort_column column"
  shows "\<exists>sf. sort_function column asds = Some sf \<and>
    (\<forall>a b. names_present column a \<longrightarrow> names_present column b \<longrightarrow>
       sf a b = Some (directed asds (column_cmp column) a b))"
proof -
  from assms have "column = 1 \<or> column = 2 \<or> column = 3 \<or> column = 4 \<or> column = 5 \<or> column = 6"
    unfolding sort_column_def by arith
  then show ?thesis
    by (elim disjE)
      (auto simp: sort_function_def directed_def column_cmp_def names_present_def compare_names_def
        name_of_def three_way_def gftp_file_sort_function_as_def gftp_file_sort_function_ds_def
        gftp_size_sort_function_as_def gftp_size_sort_function_ds_def
        gftp_user_sort_function_as_def gftp_user_sort_function_ds_def
        gftp_group_sort_function_as_def gftp_group_sort_function_ds_def
        gftp_datetime_sort_function_as_def gftp_datetime_sort_function_ds_def
        gftp_attribs_sort_function_as_def gftp_attribs_sort_function_ds_def)
qed

text \<open>The entry that is set aside, the entries that stay, and those among them that are grouped
  as directories.\<close>

definition is_dotdot :: "gftp_file \<Rightarrow> bool" where
  "is_dotdot f \<longleftrightarrow> gf_file f = Some ''..''"

definition first_dotdot :: "gftp_file list \<Rightarrow> gftp_file list" where
  "first_dotdot l = take 1 (filter is_dotdot l)"

fun without_dotdot :: "gftp_file list \<Rightarrow> gftp_file list" where
  "without_dotdot [] = []"
| "without_dotdot (f # l) = (if is_dotdot f then l else f # without_dotdot l)"

definition dirs_of :: "bool \<Rightarrow> gftp_file list \<Rightarrow> gftp_file list" where
  "dirs_of sdf l = filter (\<lambda>f. sdf \<and> S_ISDIR (gf_st_mode f)) (without_dotdot l)"

definition files_of :: "bool \<Rightarrow> gftp_file list \<Rightarrow> gftp_file list" where
  "files_of sdf l = filter (\<lambda>f. \<not> (sdf \<and> S_ISDIR (gf_st_mode f))) (without_dotdot l)"

lemma mset_parts: "mset (first_dotdot l @ dirs_of sdf l @ files_of sdf l) = mset l"
proof -
  have "mset (filter P xs @ filter (\<lambda>f. \<not> P f) xs) = mset xs" for P and xs :: "gftp_file list"
    by (induction xs) auto
  then have "mset (dirs_of sdf l @ files_of sdf l) = mset (without_dotdot l)"
    unfolding dirs_of_def files_of_def .
  moreover have "mset (first_dotdot l) + mset (without_dotdot l) = mset l"
    by (induction l) (auto simp: first_dotdot_def)
  ultimately show ?thesis by simp
qed

lemma set_without: "set (without_dotdot l) \<subseteq> set l"
  by (induction l) auto

lemma split_entries_found:
  "split_entries sdf l (Some d) ds fs =
    Some (Some d, rev (filter (\<lambda>f. sdf \<and> S_ISDIR (gf_st_mode f)) l) @ ds,
      rev (filter (\<lambda>f. \<not> (sdf \<and> S_ISDIR (gf_st_mode f))) l) @ fs)"
  by (induction l arbitrary: ds fs) (auto split: option.splits)

lemma split_entries_parts:
  "\<forall>f \<in> set l. gf_file f \<noteq> None \<Longrightarrow>
   split_entries sdf l None ds fs =
    Some (case first_dotdot l of [] \<Rightarrow> None | d # _ \<Rightarrow> Some d,
      rev (dirs_of sdf l) @ ds, rev (files_of sdf l) @ fs)"
proof (induction l arbitrary: ds fs)
  case (Cons f l)
  then show ?case
    by (cases "is_dotdot f")
      (auto simp: first_dotdot_def is_dotdot_def dirs_of_def files_of_def split_entries_found)
qed (simp add: first_dotdot_def dirs_of_def files_of_def)

text \<open>One group after the sort: its elements, in order, and equal ones in reverse of the listing.\<close>

definition sorted_group :: "(gftp_file \<Rightarrow> gftp_file \<Rightarrow> int) \<Rightarrow> gftp_file list \<Rightarrow> gftp_file list \<Rightarrow> bool" where
  "sorted_group cmp l ys \<longleftrightarrow> mset ys = mset l \<and> sorted_wrt (\<lambda>a b. cmp a b \<le> 0) ys \<and>
     (\<forall>a. filter (\<lambda>x. cmp a x = 0) ys = rev (filter (\<lambda>x. cmp a x = 0) l))"

lemma sort_group:
  assumes "is_list_sort srt" "compare_fn cmp"
    and "\<forall>a \<in> set l. \<forall>b \<in> set l. sf a b = Some (cmp a b)"
  shows "\<exists>ys. (if rev l \<noteq> [] then srt sf (rev l) else Some (rev l)) = Some ys \<and> sorted_group cmp l ys"
proof (cases "l = []")
  case False
  have "\<forall>a \<in> set (rev l). \<forall>b \<in> set (rev l). sf a b = Some (cmp a b)" using assms(3) by simp
  from is_list_sortD [OF assms(1,2), of "rev l" sf, OF this]
  obtain ys where "srt sf (rev l) = Some ys" "mset ys = mset (rev l)"
    "sorted_wrt (\<lambda>a b. cmp a b \<le> 0) ys"
    "\<forall>a. filter (\<lambda>x. cmp a x = 0) ys = filter (\<lambda>x. cmp a x = 0) (rev l)"
    by auto
  with False show ?thesis by (simp add: sorted_group_def rev_filter)
qed (simp add: sorted_group_def)

lemma sort_parts:
  assumes "is_list_sort srt" "sort_column column" "\<forall>f \<in> set l. names_present column f"
  shows "\<exists>ds fs. gftp_sort_filelist srt sdf l column asds = Some (first_dotdot l @ ds @ fs) \<and>
    sorted_group (directed asds (column_cmp column)) (dirs_of sdf l) ds \<and>
    sorted_group (directed asds (column_cmp column)) (files_of sdf l) fs"
proof (cases "l = []")
  case True
  then show ?thesis
    by (simp add: gftp_sort_filelist_def first_dotdot_def sorted_group_def dirs_of_def files_of_def)
next
  case False
  let ?cmp = "directed asds (column_cmp column)"
  obtain sf where sf: "sort_function column asds = Some sf"
    "\<And>a b. names_present column a \<Longrightarrow> names_present column b \<Longrightarrow> sf a b = Some (?cmp a b)"
    using sort_function_column [OF assms(2)] by blast
  have sub: "set (dirs_of sdf l) \<subseteq> set l" "set (files_of sdf l) \<subseteq> set l"
    using set_without by (auto simp: dirs_of_def files_of_def)
  have cmp: "compare_fn ?cmp" by (rule directed_compare_fn) (rule column_compare_fn)
  obtain ds where ds: "(if rev (dirs_of sdf l) \<noteq> [] then srt sf (rev (dirs_of sdf l))
      else Some (rev (dirs_of sdf l))) = Some ds" "sorted_group ?cmp (dirs_of sdf l) ds"
    using sort_group [OF assms(1) cmp, of "dirs_of sdf l" sf] sf(2) assms(3) sub(1) by blast
  obtain fs where fs: "(if rev (files_of sdf l) \<noteq> [] then srt sf (rev (files_of sdf l))
      else Some (rev (files_of sdf l))) = Some fs" "sorted_group ?cmp (files_of sdf l) fs"
    using sort_group [OF assms(1) cmp, of "files_of sdf l" sf] sf(2) assms(3) sub(2) by blast
  have "split_entries sdf l None [] [] = Some (case first_dotdot l of [] \<Rightarrow> None | d # _ \<Rightarrow> Some d,
      rev (dirs_of sdf l), rev (files_of sdf l))"
    using split_entries_parts [of l sdf "[]" "[]"] assms(3) by (auto simp: names_present_def)
  moreover have "length (first_dotdot l) \<le> 1" by (simp add: first_dotdot_def)
  then have "(case case first_dotdot l of [] \<Rightarrow> None | d # _ \<Rightarrow> Some d of None \<Rightarrow> [] | Some d \<Rightarrow> [d])
      = first_dotdot l"
    by (cases "first_dotdot l") auto
  ultimately have "gftp_sort_filelist srt sdf l column asds = Some (first_dotdot l @ ds @ fs)"
    using False sf(1) ds(1) fs(1) by (simp add: gftp_sort_filelist_def)
  with ds(2) fs(2) show ?thesis by blast
qed


text \<open>C23: Sorting a directory listing by any of the six columns, in either direction, keeps
  exactly the entries of the listing; the first \<open>..\<close> comes first, then (with \<open>sort_dirs_first\<close>) the
  directories, then the rest, both in the order of the column.\<close>

theorem sort_filelist_sorted:
  assumes "is_list_sort srt" "sort_column column" "\<forall>f \<in> set l. names_present column f"
  shows "\<exists>ds fs. gftp_sort_filelist srt sdf l column asds = Some (first_dotdot l @ ds @ fs) \<and>
    mset (first_dotdot l @ ds @ fs) = mset l \<and>
    (\<forall>f \<in> set ds. sdf \<and> S_ISDIR (gf_st_mode f)) \<and>
    (\<forall>f \<in> set fs. \<not> (sdf \<and> S_ISDIR (gf_st_mode f))) \<and>
    sorted_wrt (\<lambda>a b. directed asds (column_cmp column) a b \<le> 0) ds \<and>
    sorted_wrt (\<lambda>a b. directed asds (column_cmp column) a b \<le> 0) fs"
proof -
  obtain ds fs where r: "gftp_sort_filelist srt sdf l column asds = Some (first_dotdot l @ ds @ fs)"
    "sorted_group (directed asds (column_cmp column)) (dirs_of sdf l) ds"
    "sorted_group (directed asds (column_cmp column)) (files_of sdf l) fs"
    using sort_parts [OF assms] by blast
  have m: "mset ds = mset (dirs_of sdf l)" "mset fs = mset (files_of sdf l)"
    using r by (simp_all add: sorted_group_def)
  have "set ds = set (dirs_of sdf l)" "set fs = set (files_of sdf l)"
    using m by (metis set_mset_mset)+
  then show ?thesis
    using r m mset_parts [of l sdf]
    by (intro exI [of _ ds] exI [of _ fs]) (auto simp: sorted_group_def dirs_of_def files_of_def)
qed

definition named_entry :: "string \<Rightarrow> mode_t \<Rightarrow> int \<Rightarrow> gftp_file" where
  "named_entry name mode bytes =
    zero_file \<lparr> gf_file := Some name, gf_st_mode := mode, gf_size := bytes \<rparr>"

theorem sort_filelist_sorted_witness:
  "\<exists>ds fs. gftp_sort_filelist insertion_sort True
      [named_entry ''b'' S_IFREG 7, named_entry ''..'' S_IFDIR 0, named_entry ''A'' S_IFREG 9] 1 True =
    Some (named_entry ''..'' S_IFDIR 0 # ds @ fs) \<and> length fs = 2"
proof -
  let ?l = "[named_entry ''b'' S_IFREG 7, named_entry ''..'' S_IFDIR 0, named_entry ''A'' S_IFREG 9]"
  have d: "first_dotdot ?l = [named_entry ''..'' S_IFDIR 0]"
    by (simp add: first_dotdot_def is_dotdot_def named_entry_def)
  obtain ds fs where r: "gftp_sort_filelist insertion_sort True ?l 1 True = Some (first_dotdot ?l @ ds @ fs)"
    "mset (first_dotdot ?l @ ds @ fs) = mset ?l" "\<forall>f \<in> set ds. True \<and> S_ISDIR (gf_st_mode f)"
    using sort_filelist_sorted [OF insertion_sort_is_list_sort, of 1 ?l True True]
    by (auto simp: sort_column_def names_present_def named_entry_def)
  have m: "mset (ds @ fs) = mset [named_entry ''b'' S_IFREG 7, named_entry ''A'' S_IFREG 9]"
    using r(2) d by (simp add: add_mset_commute)
  then have "set ds \<subseteq> {named_entry ''b'' S_IFREG 7, named_entry ''A'' S_IFREG 9}"
    by (metis Un_upper1 empty_set list.simps(15) set_append set_mset_mset)
  then have "ds = []"
    using r(3) by (cases ds) (auto simp: named_entry_def type_test_defs file_type_defs)
  moreover have "length (ds @ fs) = 2" using arg_cong [OF m, of size] by simp
  ultimately show ?thesis using r(1) d by auto
qed

text \<open>Entries that the column cannot tell apart come out in the reverse of the
  order they had (each is pushed on the front of its group and the sort is stable), so sorting a
  listing of equal entries by that column reverses it.\<close>

theorem sort_filelist_ties:
  assumes "is_list_sort srt" "sort_column column" "\<forall>f \<in> set l. names_present column f"
    and "\<forall>f \<in> set l. \<not> is_dotdot f \<and> \<not> S_ISDIR (gf_st_mode f)"
    and "\<forall>f \<in> set l. \<forall>g \<in> set l. column_cmp column f g = 0"
  shows "gftp_sort_filelist srt sdf l column asds = Some (rev l)"
proof -
  obtain ds fs where r: "gftp_sort_filelist srt sdf l column asds = Some (first_dotdot l @ ds @ fs)"
    "sorted_group (directed asds (column_cmp column)) (dirs_of sdf l) ds"
    "sorted_group (directed asds (column_cmp column)) (files_of sdf l) fs"
    using sort_parts [OF assms(1,2,3)] by blast
  have w: "without_dotdot l = l" using assms(4) by (induction l) auto
  have p: "first_dotdot l = []" "dirs_of sdf l = []" "files_of sdf l = l"
    using assms(4) by (auto simp: first_dotdot_def dirs_of_def files_of_def w filter_empty_conv
        intro!: filter_True)
  have "ds = []" "mset fs = mset l"
    and e: "\<And>a. filter (\<lambda>x. directed asds (column_cmp column) a x = 0) fs
      = rev (filter (\<lambda>x. directed asds (column_cmp column) a x = 0) l)"
    using r(2,3) p by (simp_all add: sorted_group_def)
  have "fs = rev l"
  proof (cases l)
    case Nil
    then show ?thesis using \<open>mset fs = mset l\<close> by simp
  next
    case (Cons a l')
    have z: "\<forall>x \<in> set l. directed asds (column_cmp column) a x = 0"
      using assms(5) Cons by (simp add: directed_def)
    have "set fs = set l" using \<open>mset fs = mset l\<close> by (metis set_mset_mset)
    with z e [of a] show ?thesis by (simp add: filter_True)
  qed
  with r(1) p \<open>ds = []\<close> show ?thesis by simp
qed

theorem sort_filelist_ties_witness:
  "gftp_sort_filelist insertion_sort True [named_entry ''a'' S_IFREG 5, named_entry ''b'' S_IFREG 5] 2 True
    = Some [named_entry ''b'' S_IFREG 5, named_entry ''a'' S_IFREG 5]"
  using sort_filelist_ties [OF insertion_sort_is_list_sort, of 2
      "[named_entry ''a'' S_IFREG 5, named_entry ''b'' S_IFREG 5]" True True]
  by (simp add: sort_column_def names_present_def named_entry_def is_dotdot_def column_cmp_def
      three_way_def type_test_defs file_type_defs)

end
