(* ===== verification/Dir_Listing.thy ===== *)
theory Dir_Listing
  imports File_Sort
begin

unbundle bit_operations_syntax

text \<open>
  \<open>lib/parse-dir-listing.c\<close>: the parsers of one line of a directory listing in the Unix, Cray,
  EPLF, Novell, DOS, VMS and MVS formats, and the dispatcher \<open>gftp_parse_ls\<close> with its
  autodetection.

  The line is a heap copy of exactly \<open>strlen + 1\<close> bytes, so the parsers run on the memory object
  (a \<open>ptr\<close>): \<^term>\<open>None\<close> is an access outside it (or through an invalid pointer). A parser
  returns its result code and the entry it has filled so far. \<open>strptime\<close> is modelled for the
  conversions the formats use, in the C locale; \<open>mktime\<close> and the broken-down current time depend
  on the time zone and the clock and are arguments (record \<open>time_env\<close>).
\<close>


section \<open>strptime\<close>

record tm =
  tm_sec :: int
  tm_min :: int
  tm_hour :: int
  tm_mday :: int
  tm_mon :: int
  tm_year :: int
  tm_isdst :: int

definition zero_tm :: tm where
  "zero_tm = \<lparr> tm_sec = 0, tm_min = 0, tm_hour = 0, tm_mday = 0, tm_mon = 0, tm_year = 0,
     tm_isdst = 0 \<rparr>"

record time_env =
  mktime :: "tm \<Rightarrow> int"
  loctime :: tm

fun number_digits :: "nat \<Rightarrow> nat \<Rightarrow> nat \<Rightarrow> string \<Rightarrow> nat \<times> string" where
  "number_digits hi n v [] = (v, [])"
| "number_digits hi n v (c # cs) =
     (if 0 < n \<and> v * 10 \<le> hi \<and> is_digit c then number_digits hi (n - 1) (v * 10 + digit_val c) cs
      else (v, c # cs))"

text \<open>A number of at most \<open>n\<close> digits between \<open>lo\<close> and \<open>hi\<close>, after blanks.\<close>

definition get_number :: "nat \<Rightarrow> nat \<Rightarrow> nat \<Rightarrow> string \<Rightarrow> (nat \<times> string) option" where
  "get_number lo hi n rp =
    (case dropWhile (\<lambda>c. c = SPC) rp of
       [] \<Rightarrow> None
     | c # cs \<Rightarrow>
         if \<not> is_digit c then None
         else let (v, rest) = number_digits hi (n - 1) (digit_val c) cs
              in if v < lo \<or> hi < v then None else Some (v, rest))"

definition month_names :: "(string \<times> string) list" where
  "month_names = [(''January'', ''Jan''), (''February'', ''Feb''), (''March'', ''Mar''),
     (''April'', ''Apr''), (''May'', ''May''), (''June'', ''Jun''), (''July'', ''Jul''),
     (''August'', ''Aug''), (''September'', ''Sep''), (''October'', ''Oct''),
     (''November'', ''Nov''), (''December'', ''Dec'')]"

fun starts_with_ci :: "string \<Rightarrow> string \<Rightarrow> bool" where
  "starts_with_ci [] s = True"
| "starts_with_ci (p # ps) [] = False"
| "starts_with_ci (p # ps) (c # cs) = (to_lower p = to_lower c \<and> starts_with_ci ps cs)"

fun find_month :: "(string \<times> string) list \<Rightarrow> nat \<Rightarrow> string \<Rightarrow> (nat \<times> string) option" where
  "find_month [] k rp = None"
| "find_month ((full, ab) # ms) k rp =
     (if starts_with_ci full rp then Some (k, drop (length full) rp)
      else if starts_with_ci ab rp then Some (k, drop (length ab) rp)
      else find_month ms (k + 1) rp)"

text \<open>One conversion; the flags say that \<open>%I\<close> was seen and that \<open>%p\<close> read PM.\<close>

definition strptime_conv ::
  "char \<Rightarrow> string \<Rightarrow> tm \<Rightarrow> bool \<Rightarrow> bool \<Rightarrow> (string \<times> tm \<times> bool \<times> bool) option" where
  "strptime_conv d rp tm hI pm =
    (if d = CHR ''d'' then
       (case get_number 1 31 2 rp of None \<Rightarrow> None
        | Some (v, r) \<Rightarrow> Some (r, tm \<lparr> tm_mday := int v \<rparr>, hI, pm))
     else if d = CHR ''b'' \<or> d = CHR ''h'' then
       (case find_month month_names 0 rp of None \<Rightarrow> None
        | Some (v, r) \<Rightarrow> Some (r, tm \<lparr> tm_mon := int v \<rparr>, hI, pm))
     else if d = CHR ''m'' then
       (case get_number 1 12 2 rp of None \<Rightarrow> None
        | Some (v, r) \<Rightarrow> Some (r, tm \<lparr> tm_mon := int v - 1 \<rparr>, hI, pm))
     else if d = CHR ''Y'' then
       (case get_number 0 9999 4 rp of None \<Rightarrow> None
        | Some (v, r) \<Rightarrow> Some (r, tm \<lparr> tm_year := int v - 1900 \<rparr>, hI, pm))
     else if d = CHR ''y'' then
       (case get_number 0 99 2 rp of None \<Rightarrow> None
        | Some (v, r) \<Rightarrow> Some (r, tm \<lparr> tm_year := (if 69 \<le> v then int v else int v + 100) \<rparr>, hI, pm))
     else if d = CHR ''H'' then
       (case get_number 0 23 2 rp of None \<Rightarrow> None
        | Some (v, r) \<Rightarrow> Some (r, tm \<lparr> tm_hour := int v \<rparr>, False, pm))
     else if d = CHR ''I'' then
       (case get_number 1 12 2 rp of None \<Rightarrow> None
        | Some (v, r) \<Rightarrow> Some (r, tm \<lparr> tm_hour := int (v mod 12) \<rparr>, True, pm))
     else if d = CHR ''M'' then
       (case get_number 0 59 2 rp of None \<Rightarrow> None
        | Some (v, r) \<Rightarrow> Some (r, tm \<lparr> tm_min := int v \<rparr>, hI, pm))
     else if d = CHR ''S'' then
       (case get_number 0 61 2 rp of None \<Rightarrow> None
        | Some (v, r) \<Rightarrow> Some (r, tm \<lparr> tm_sec := int v \<rparr>, hI, pm))
     else if d = CHR ''p'' then
       (if starts_with_ci ''AM'' rp then Some (drop 2 rp, tm, hI, False)
        else if starts_with_ci ''PM'' rp then Some (drop 2 rp, tm, hI, True)
        else None)
     else None)"

fun strptime_loop ::
  "string \<Rightarrow> string \<Rightarrow> tm \<Rightarrow> bool \<Rightarrow> bool \<Rightarrow> tm \<times> string option" where
  "strptime_loop [] rp tm hI pm =
     ((if hI \<and> pm then tm \<lparr> tm_hour := tm_hour tm + 12 \<rparr> else tm), Some rp)"
| "strptime_loop (f # fmt) rp tm hI pm =
     (if is_space f then strptime_loop fmt (dropWhile is_space rp) tm hI pm
      else if f \<noteq> CHR ''%'' then
        (case rp of [] \<Rightarrow> (tm, None)
         | c # rp' \<Rightarrow> if c = f then strptime_loop fmt rp' tm hI pm else (tm, None))
      else
        (case fmt of [] \<Rightarrow> (tm, None)
         | d # fmt' \<Rightarrow>
             (case strptime_conv d rp tm hI pm of
                None \<Rightarrow> (tm, None)
              | Some (rp', tm', hI', pm') \<Rightarrow> strptime_loop fmt' rp' tm' hI' pm')))"

text \<open>The fields parsed before a mismatch are stored all the same.\<close>

definition strptime :: "string \<Rightarrow> string \<Rightarrow> tm \<Rightarrow> tm \<times> string option" where
  "strptime s fmt tm = strptime_loop fmt s tm False False"


section \<open>Tokens\<close>

definition token_char :: "char \<Rightarrow> bool" where
  "token_char c \<longleftrightarrow> \<not> is_blank c \<and> c \<noteq> NUL"

text \<open>\<open>copy_token\<close>: the outer \<^term>\<open>None\<close> is out of bounds, the inner one the NULL result of a
  last token.\<close>

definition copy_token :: "ptr \<Rightarrow> (string \<times> ptr) option option" where
  "copy_token source =
    do { endpos \<leftarrow> skip_while token_char source;
         c \<leftarrow> deref endpos;
         if c = NUL then Some None
         else do { rest \<leftarrow> ptr_add endpos 1;
                   next \<leftarrow> skip_while is_blank rest;
                   Some (Some (before source endpos, next)) } }"

definition goto_next_token :: "ptr \<Rightarrow> ptr option" where
  "goto_next_token pos = do { p \<leftarrow> skip_while token_char pos; skip_while is_blank p }"

definition poke :: "ptr \<Rightarrow> nat \<Rightarrow> char \<Rightarrow> ptr option" where
  "poke p n c = (if n < length p then Some (p[n := c]) else None)"

text \<open>\<open>strtol\<close> at a pointer.\<close>

definition strtol_at :: "ptr \<Rightarrow> int option" where
  "strtol_at p = map_option strtol10 (cstr p)"

definition pointer_into :: "ptr \<Rightarrow> string \<Rightarrow> string \<Rightarrow> ptr" where
  "pointer_into p s rest = drop (length s - length rest) p"


section \<open>Dates\<close>

definition parse_vms_time :: "time_env \<Rightarrow> ptr \<Rightarrow> (int \<times> ptr) option" where
  "parse_vms_time env p =
    do { s \<leftarrow> cstr p;
         let (tm1, end1) = strptime s ''%d-%b-%Y %H:%M:%S'' zero_tm;
         let (tm2, end2) = (case end1 of
               Some r \<Rightarrow> (tm1, Some r)
             | None \<Rightarrow> strptime s ''%d-%b-%Y %H:%M'' tm1);
         case end2 of
           Some r \<Rightarrow> do { q \<leftarrow> skip_while is_blank (pointer_into p s r); Some (mktime env tm2, q) }
         | None \<Rightarrow> do { q \<leftarrow> goto_next_token p; q' \<leftarrow> goto_next_token q; Some (0, q') } }"

fun skip_date :: "nat \<Rightarrow> string \<Rightarrow> string" where
  "skip_date 0 s = s"
| "skip_date (Suc num) s =
     (if s = [] then s else skip_date num (dropWhile is_blank (dropWhile (\<lambda>c. \<not> is_blank c) s)))"

definition parse_time_fields :: "time_env \<Rightarrow> string \<Rightarrow> tm \<times> string option" where
  "parse_time_fields env s =
    (let curtime = zero_tm \<lparr> tm_isdst := -1 \<rparr>
     in if length s > 4 \<and> is_digit (s ! 0) \<and> s ! 2 = CHR ''-'' \<and> is_digit (s ! 3) then
          strptime s ''%m-%d-%y %I:%M%p'' curtime
        else if length s > 4 \<and> is_digit (s ! 0) \<and> s ! 2 = CHR ''-'' \<and> is_alpha (s ! 3) then
          strptime s ''%d-%h-%Y %H:%M'' curtime
        else if length s > 4 \<and> is_digit (s ! 0) \<and> s ! 4 = CHR ''/'' then
          strptime s ''%Y/%m/%d'' curtime
        else if strchr s (CHR '':'') \<noteq> None then
          (let (tm', tmppos) = strptime s ''%h %d %H:%M'' curtime
           in (tm' \<lparr> tm_year := (if tm_mon tm' > tm_mon (loctime env)
                               then tm_year (loctime env) - 1 else tm_year (loctime env)) \<rparr>, tmppos))
        else strptime s ''%h %d %Y'' curtime)"

definition parse_time :: "time_env \<Rightarrow> ptr \<Rightarrow> (int \<times> ptr) option" where
  "parse_time env p =
    do { s \<leftarrow> cstr p;
         let (curtime, tmppos) = parse_time_fields env s;
         Some (case tmppos of
                 Some r \<Rightarrow> (mktime env curtime, pointer_into p s r)
               | None \<Rightarrow> (0, pointer_into p s (skip_date 2 s))) }"


text \<open>The two modes that are made up for formats without attributes.\<close>

definition plain_file_mode :: mode_t where
  "plain_file_mode = S_IRUSR OR S_IWUSR OR S_IRGRP OR S_IROTH"

definition directory_mode :: mode_t where
  "directory_mode = S_IFDIR OR S_IRUSR OR S_IWUSR OR S_IXUSR OR S_IRGRP OR S_IXGRP OR S_IROTH OR S_IXOTH"


section \<open>VMS\<close>

text \<open>The cursor of \<open>gftp_parse_vms_attribs\<close>: \<open>*src = endpos + 1\<close> is computed even when \<open>endpos\<close>
  is NULL, which leaves a pointer that is neither NULL nor valid.\<close>

datatype cursor = At ptr | Null | Null_plus_one

definition gftp_parse_vms_attribs :: "cursor \<Rightarrow> mode_t \<Rightarrow> (mode_t \<times> cursor) option" where
  "gftp_parse_vms_attribs src msk =
    (case src of
       Null \<Rightarrow> Some (0, Null)
     | Null_plus_one \<Rightarrow> None
     | At p \<Rightarrow>
         do { endpos \<leftarrow> mem_strchr p (CHR '','');
              s \<leftarrow> (case endpos of None \<Rightarrow> cstr p | Some e \<Rightarrow> Some (before p e));
              let ret = 0;
              let ret = (if CHR ''R'' \<in> set s then ret OR S_IRUSR OR S_IRGRP OR S_IROTH else ret);
              let ret = (if CHR ''W'' \<in> set s then ret OR S_IWUSR OR S_IWGRP OR S_IWOTH else ret);
              let ret = (if CHR ''E'' \<in> set s then ret OR S_IXUSR OR S_IXGRP OR S_IXOTH else ret);
              Some (ret AND msk, case endpos of None \<Rightarrow> Null_plus_one | Some e \<Rightarrow> At (tl e)) })"

text \<open>\<open>next_line buflen\<close> is what \<open>request->get_next_dirlist_line\<close> returns and leaves in the
  buffer; \<^term>\<open>None\<close> when the protocol has no such function.\<close>

type_synonym next_line = "(nat \<Rightarrow> int \<times> ptr) option"

definition vms_name :: "string \<Rightarrow> mode_t \<Rightarrow> string \<times> mode_t" where
  "vms_name s mode =
    (if length s > 4 \<and> drop (length s - 4) s = ''.DIR''
     then (take (length s - 4) s, mode OR S_IFDIR) else (s, mode))"

definition vms_fields :: "time_env \<Rightarrow> ptr \<Rightarrow> gftp_file \<Rightarrow> (int \<times> gftp_file) option" where
  "vms_fields env curpos fle =
    do { blocks \<leftarrow> strtol_at curpos;
         let fle = fle \<lparr> gf_size := off_wrap (blocks * 512) \<rparr>;
         curpos \<leftarrow> goto_next_token curpos;
         (datetime, curpos) \<leftarrow> parse_vms_time env curpos;
         let fle = fle \<lparr> gf_datetime := datetime \<rparr>;
         c \<leftarrow> deref curpos;
         if c \<noteq> CHR ''['' then Some (GFTP_EFATAL, fle)
         else do { bracket \<leftarrow> mem_strchr curpos (CHR '']'');
           case bracket of
             None \<Rightarrow> Some (GFTP_EFATAL, fle)
           | Some endpos \<Rightarrow>
               do { curpos \<leftarrow> goto_next_token (tl endpos);
                    comma \<leftarrow> mem_strchr curpos (CHR '','');
                    case comma of
                      None \<Rightarrow> Some (0, fle)
                    | Some q \<Rightarrow>
                        do { (m1, c1) \<leftarrow> gftp_parse_vms_attribs (At (tl q)) S_IRWXU;
                             (m2, c2) \<leftarrow> gftp_parse_vms_attribs c1 S_IRWXG;
                             (m3, c3) \<leftarrow> gftp_parse_vms_attribs c2 S_IRWXO;
                             Some (0, fle \<lparr> gf_st_mode := m1 OR m2 OR m3,
                                           gf_user := Some [], gf_group := Some [] \<rparr>) } } } }"

definition gftp_parse_ls_vms ::
  "next_line \<Rightarrow> time_env \<Rightarrow> ptr \<Rightarrow> gftp_file \<Rightarrow> (int \<times> gftp_file) option" where
  "gftp_parse_ls_vms next_line env str fle =
    do { semicolon \<leftarrow> mem_strchr str (CHR '';'');
         case semicolon of
           None \<Rightarrow> Some (GFTP_EFATAL, fle)
         | Some curpos \<Rightarrow>
             do { space \<leftarrow> mem_strchr str SPC;
                  let (name, mode) = vms_name (before str curpos) (gf_st_mode fle);
                  let fle = fle \<lparr> gf_st_mode := mode, gf_file := Some name \<rparr>;
                  if space = None then
                    (case next_line of
                       None \<Rightarrow> Some (GFTP_EFATAL, fle)
                     | Some f \<Rightarrow>
                         (let (len, tempstr) = f 1024
                          in if len \<le> 0 then Some (len, fle)
                             else do { p \<leftarrow> skip_while is_blank tempstr; vms_fields env p fle }))
                  else do { p \<leftarrow> goto_next_token (tl curpos); vms_fields env p fle } } }"


section \<open>MVS\<close>

text \<open>\<open>goto_next_token (curpos + 1)\<close>.\<close>

definition next_after :: "ptr \<Rightarrow> ptr option" where
  "next_after p = do { q \<leftarrow> ptr_add p 1; goto_next_token q }"

definition gftp_parse_ls_mvs :: "time_env \<Rightarrow> ptr \<Rightarrow> gftp_file \<Rightarrow> (int \<times> gftp_file) option" where
  "gftp_parse_ls_mvs env str fle =
    do { curpos \<leftarrow> next_after str;
         curpos \<leftarrow> next_after curpos;
         (datetime, curpos) \<leftarrow> parse_time env curpos;
         let fle = fle \<lparr> gf_datetime := datetime \<rparr>;
         curpos \<leftarrow> goto_next_token curpos;
         curpos \<leftarrow> next_after curpos;
         used \<leftarrow> strtol_at curpos;
         let fle = fle \<lparr> gf_size := off_wrap (used * 55996) \<rparr>;
         curpos \<leftarrow> next_after curpos;
         curpos \<leftarrow> next_after curpos;
         curpos \<leftarrow> next_after curpos;
         curpos \<leftarrow> next_after curpos;
         dsorg \<leftarrow> cstr curpos;
         if starts_with ''PS'' dsorg \<or> starts_with ''PO'' dsorg
         then do { let fle = fle \<lparr> gf_st_mode := (if starts_with ''PS'' dsorg then plain_file_mode
                                                  else directory_mode) \<rparr>;
                   curpos \<leftarrow> next_after curpos;
                   name \<leftarrow> cstr curpos;
                   Some (0, fle \<lparr> gf_user := Some ''unknown'', gf_group := Some ''unknown'',
                                  gf_file := Some name \<rparr>) }
         else Some (GFTP_EFATAL, fle) }"


section \<open>EPLF\<close>

lemma mem_strchr_suffix:
  "mem_strchr p c = Some (Some q) \<Longrightarrow> length (tl q) < length p \<and> (\<exists>u. p = u @ c # tl q)"
proof (induction p c rule: mem_strchr.induct)
  case (2 x p c)
  show ?case
  proof (cases "x = c")
    case False
    with 2 have "length (tl q) < length p" "\<exists>u. p = u @ c # tl q" by (auto split: if_splits)
    then show ?thesis by (auto intro: exI [of _ "x # _"])
  qed (use 2 in auto)
qed simp

text \<open>\<open>while (startpos) { startpos++; switch (*startpos) ...; startpos = strchr (startpos, ',') }\<close>;
  the argument is the pointer after the increment.\<close>

function eplf_facts :: "ptr \<Rightarrow> bool \<Rightarrow> gftp_file \<Rightarrow> (bool \<times> gftp_file) option" where
  "eplf_facts startpos isdir fle =
    do { c \<leftarrow> deref startpos;
         let isdir' = (isdir \<or> c = CHR ''/'');
         value \<leftarrow> (if c = CHR ''s'' \<or> c = CHR ''m'' then strtol_at (tl startpos) else Some 0);
         let fle' = (if c = CHR ''s'' then fle \<lparr> gf_size := value \<rparr>
                     else if c = CHR ''m'' then fle \<lparr> gf_datetime := value \<rparr> else fle);
         comma \<leftarrow> mem_strchr startpos (CHR '','');
         case comma of
           None \<Rightarrow> Some (isdir', fle')
         | Some p \<Rightarrow> eplf_facts (tl p) isdir' fle' }"
  by pat_completeness auto
termination
  by (relation "measure (\<lambda>(p, i, f). length p)") (auto dest: mem_strchr_suffix)

declare eplf_facts.simps [simp del]

definition gftp_parse_ls_eplf :: "ptr \<Rightarrow> gftp_file \<Rightarrow> (int \<times> gftp_file) option" where
  "gftp_parse_ls_eplf str fle =
    do { first \<leftarrow> ptr_add str 1;
         (isdir, fle) \<leftarrow> eplf_facts first False fle;
         tab \<leftarrow> mem_strchr str TAB;
         case tab of
           None \<Rightarrow> Some (GFTP_EFATAL, fle)
         | Some startpos \<Rightarrow>
             do { name \<leftarrow> cstr (tl startpos);
                  Some (0, fle \<lparr> gf_st_mode := (if isdir then directory_mode else plain_file_mode),
                                 gf_file := Some name, gf_user := Some ''unknown'',
                                 gf_group := Some ''unknown'' \<rparr>) } }"

section \<open>Unix and Cray\<close>

text \<open>The number of columns, a time of day counting as two and ending the count.\<close>

lemma skip_while_less:
  "skip_while P p = Some q \<Longrightarrow> length q \<le> length p"
  using skip_while_suffix by fastforce

lemma skip_while_strict:
  "skip_while P (c # p) = Some q \<Longrightarrow> P c \<Longrightarrow> length q < length (c # p)"
  using skip_while_less [of P p q] by simp

function count_columns :: "ptr \<Rightarrow> nat \<Rightarrow> nat option" where
  "count_columns pos cols =
    do { c \<leftarrow> deref pos;
         if c = NUL then Some cols
         else do { pos1 \<leftarrow> skip_while (\<lambda>c. token_char c \<and> c \<noteq> CHR '':'') pos;
                   c1 \<leftarrow> deref pos1;
                   if c1 = CHR '':'' then Some (cols + 2)
                   else do { pos2 \<leftarrow> skip_while is_blank pos1; count_columns pos2 (cols + 1) } } }"
  by pat_completeness auto

lemma count_columns_decreases:
  assumes "deref pos = Some c" "c \<noteq> NUL"
    and "skip_while (\<lambda>c. token_char c \<and> c \<noteq> CHR '':'') pos = Some pos1"
    and "deref pos1 = Some c1" "c1 \<noteq> CHR '':''" "skip_while is_blank pos1 = Some pos2"
  shows "length pos2 < length pos"
proof -
  obtain p where pos: "pos = c # p" using assms(1) by (cases pos) auto
  obtain p1 where pos1: "pos1 = c1 # p1" using assms(4) by (cases pos1) auto
  have le: "length pos1 \<le> length pos" "length pos2 \<le> length pos1"
    using skip_while_less assms(3,6) by blast+
  show ?thesis
  proof (cases "token_char c \<and> c \<noteq> CHR '':''")
    case True
    then have "length pos1 < length pos"
      using skip_while_strict [of _ c p pos1] assms(3) pos by auto
    with le show ?thesis by simp
  next
    case False
    then have "pos1 = pos" using assms(3) pos by auto
    with False assms(2,5) pos pos1 have "is_blank c1" by (auto simp: token_char_def)
    then have "length pos2 < length pos1"
      using skip_while_strict [of is_blank c1 p1 pos2] assms(6) pos1 by simp
    with le show ?thesis by simp
  qed
qed

termination count_columns
  by (relation "measure (\<lambda>(p, c). length p)") (auto dest: count_columns_decreases)

declare count_columns.simps [simp del]

text \<open>The user and group columns, then the cursor on the size.\<close>

definition unix_owner :: "nat \<Rightarrow> ptr \<Rightarrow> gftp_file \<Rightarrow> (ptr option \<times> gftp_file) option" where
  "unix_owner cols startpos fle =
    (if cols \<ge> 9 then
       do { startpos \<leftarrow> goto_next_token startpos;
            t \<leftarrow> copy_token startpos;
            case t of
              None \<Rightarrow> Some (None, fle)
            | Some (user, startpos) \<Rightarrow>
                do { let fle = fle \<lparr> gf_user := Some user \<rparr>;
                     t \<leftarrow> copy_token startpos;
                     case t of
                       None \<Rightarrow> Some (None, fle)
                     | Some (grp, startpos) \<Rightarrow> Some (Some startpos, fle \<lparr> gf_group := Some grp \<rparr>) } }
     else
       do { let fle = fle \<lparr> gf_group := Some ''unknown'' \<rparr>;
            if cols = 8 then
              do { t \<leftarrow> copy_token startpos;
                   case t of
                     None \<Rightarrow> Some (None, fle)
                   | Some (user, startpos) \<Rightarrow>
                       do { startpos \<leftarrow> goto_next_token startpos;
                            Some (Some startpos, fle \<lparr> gf_user := Some user \<rparr>) } }
            else
              do { startpos \<leftarrow> goto_next_token startpos;
                   Some (Some startpos, fle \<lparr> gf_user := Some ''unknown'' \<rparr>) } })"

text \<open>The Cray columns between the group and the size.\<close>

definition cray_columns :: "int \<Rightarrow> nat \<Rightarrow> ptr \<Rightarrow> ptr \<Rightarrow> ptr option" where
  "cray_columns server_type cols str startpos =
    (if server_type = GFTP_DIRTYPE_CRAY \<and> cols = 11 then
       do { line \<leftarrow> cstr str;
            if strstr line ''->'' = None
            then do { startpos \<leftarrow> goto_next_token startpos; goto_next_token startpos }
            else Some startpos }
     else Some startpos)"

text \<open>The size, or the device numbers with the major one in the high half; the result is the
  blank behind them.\<close>

definition unix_size :: "ptr \<Rightarrow> gftp_file \<Rightarrow> (ptr option \<times> gftp_file) option" where
  "unix_size startpos fle =
    do { comma \<leftarrow> (if GFTP_IS_SPECIAL_DEVICE (gf_st_mode fle) then mem_strchr startpos (CHR '','')
                 else Some None);
         case comma of
           Some endpos \<Rightarrow>
             do { major \<leftarrow> strtol_at startpos;
                  let fle = fle \<lparr> gf_size := off_wrap (major * 2 ^ 16) \<rparr>;
                  startpos \<leftarrow> skip_while (\<lambda>c. c = SPC) (tl endpos);
                  endpos \<leftarrow> mem_strchr startpos SPC;
                  case endpos of
                    None \<Rightarrow> Some (None, fle)
                  | Some e \<Rightarrow>
                      do { minor \<leftarrow> strtol_at startpos;
                           Some (Some e, fle \<lparr> gf_size := gf_size fle OR (minor AND 0xFF) \<rparr>) } }
         | None \<Rightarrow>
             do { endpos \<leftarrow> mem_strchr startpos SPC;
                  case endpos of
                    None \<Rightarrow> Some (None, fle)
                  | Some e \<Rightarrow>
                      do { bytes \<leftarrow> strtol_at startpos;
                           Some (Some e, fle \<lparr> gf_size := bytes \<rparr>) } } }"

text \<open>A symbolic link loses its \<open>->\<close> part, and the character before it.\<close>

definition link_name :: "mode_t \<Rightarrow> string \<Rightarrow> string" where
  "link_name mode name =
    (if S_ISLNK mode then
       (case strstr name ''->'' of
          None \<Rightarrow> name
        | Some endpos \<Rightarrow> if endpos = name then name else butlast (before name endpos))
     else name)"

definition gftp_parse_ls_unix ::
  "int \<Rightarrow> time_env \<Rightarrow> ptr \<Rightarrow> nat \<Rightarrow> gftp_file \<Rightarrow> (int \<times> gftp_file) option" where
  "gftp_parse_ls_unix server_type env str slen fle =
    do { str \<leftarrow> (if slen > 10 then poke str 10 SPC else Some str);
         cols \<leftarrow> count_columns str 0;
         t \<leftarrow> copy_token str;
         case t of
           None \<Rightarrow> Some (GFTP_EFATAL, fle)
         | Some (attribs, startpos) \<Rightarrow>
             if length attribs < 10 then Some (GFTP_EFATAL, fle)
             else do {
               mode \<leftarrow> gftp_convert_attributes_to_mode_t attribs;
               (owner, fle) \<leftarrow> unix_owner cols startpos (fle \<lparr> gf_st_mode := mode \<rparr>);
               case owner of
                 None \<Rightarrow> Some (GFTP_EFATAL, fle)
               | Some startpos \<Rightarrow>
                   do { startpos \<leftarrow> cray_columns server_type cols str startpos;
                        (blank, fle) \<leftarrow> unix_size startpos fle;
                        case blank of
                          None \<Rightarrow> Some (GFTP_EFATAL, fle)
                        | Some endpos \<Rightarrow>
                            do { startpos \<leftarrow> skip_while (\<lambda>c. c = SPC) (tl endpos);
                                 (datetime, startpos) \<leftarrow> parse_time env startpos;
                                 startpos \<leftarrow> goto_next_token startpos;
                                 name \<leftarrow> cstr startpos;
                                 Some (0, fle \<lparr> gf_datetime := datetime,
                                                gf_file := Some (link_name (gf_st_mode fle) name) \<rparr>) } } } }"


section \<open>DOS and Novell\<close>

definition gftp_parse_ls_nt :: "time_env \<Rightarrow> ptr \<Rightarrow> gftp_file \<Rightarrow> (int \<times> gftp_file) option" where
  "gftp_parse_ls_nt env str fle =
    do { (datetime, startpos) \<leftarrow> parse_time env str;
         let fle = fle \<lparr> gf_datetime := datetime, gf_user := Some ''unknown'',
                         gf_group := Some ''unknown'' \<rparr>;
         startpos \<leftarrow> goto_next_token startpos;
         c \<leftarrow> deref startpos;
         fle \<leftarrow> (if c = CHR ''<'' then Some (fle \<lparr> gf_st_mode := directory_mode \<rparr>)
                else do { bytes \<leftarrow> strtol_at startpos;
                          Some (fle \<lparr> gf_st_mode := plain_file_mode, gf_size := bytes \<rparr>) });
         startpos \<leftarrow> goto_next_token startpos;
         name \<leftarrow> cstr startpos;
         Some (0, fle \<lparr> gf_file := Some name \<rparr>) }"

definition gftp_parse_ls_novell :: "time_env \<Rightarrow> ptr \<Rightarrow> gftp_file \<Rightarrow> (int \<times> gftp_file) option" where
  "gftp_parse_ls_novell env str fle =
    do { c \<leftarrow> load str 12;
         if c \<noteq> SPC then Some (GFTP_EFATAL, fle)
         else do {
           mode \<leftarrow> gftp_convert_attributes_to_mode_t (take 12 str);
           let fle = fle \<lparr> gf_st_mode := mode \<rparr>;
           startpos \<leftarrow> ptr_add str 13;
           startpos \<leftarrow> skip_while is_blank startpos;
           t \<leftarrow> copy_token startpos;
           case t of
             None \<Rightarrow> Some (GFTP_EFATAL, fle)
           | Some (user, startpos) \<Rightarrow>
               do { let fle = fle \<lparr> gf_user := Some user, gf_group := Some ''unknown'' \<rparr>;
                    startpos \<leftarrow> skip_while (\<lambda>c. c \<noteq> NUL \<and> \<not> is_digit c) startpos;
                    bytes \<leftarrow> strtol_at startpos;
                    startpos \<leftarrow> goto_next_token startpos;
                    (datetime, startpos) \<leftarrow> parse_time env startpos;
                    startpos \<leftarrow> goto_next_token startpos;
                    name \<leftarrow> cstr startpos;
                    Some (0, fle \<lparr> gf_size := bytes, gf_datetime := datetime, gf_file := Some name \<rparr>) } } }"


section \<open>The dispatcher\<close>

text \<open>The heap copy of the line: a final line feed and a carriage return before it are overwritten
  by terminators. The result is the object and the length.\<close>

definition line_copy :: "string \<Rightarrow> ptr \<times> nat" where
  "line_copy s =
    (let str = s @ [NUL]; len = length s;
         (str, len) = (if len > 0 \<and> str ! (len - 1) = LF then (str[len - 1 := NUL], len - 1) else (str, len));
         (str, len) = (if len > 0 \<and> str ! (len - 1) = CR then (str[len - 1 := NUL], len - 1) else (str, len))
     in (str, len))"

definition gftp_parse_ls ::
  "int \<Rightarrow> next_line \<Rightarrow> time_env \<Rightarrow> string \<Rightarrow> (int \<times> gftp_file) option" where
  "gftp_parse_ls server_type next_line env lsoutput =
    (let (str, len) = line_copy lsoutput; fle = zero_file
     in if server_type = GFTP_DIRTYPE_CRAY \<or> server_type = GFTP_DIRTYPE_UNIX
        then gftp_parse_ls_unix server_type env str len fle
        else if server_type = GFTP_DIRTYPE_EPLF then gftp_parse_ls_eplf str fle
        else if server_type = GFTP_DIRTYPE_NOVELL then gftp_parse_ls_novell env str fle
        else if server_type = GFTP_DIRTYPE_DOS then gftp_parse_ls_nt env str fle
        else if server_type = GFTP_DIRTYPE_VMS then gftp_parse_ls_vms next_line env str fle
        else if server_type = GFTP_DIRTYPE_MVS then gftp_parse_ls_mvs env str fle
        else if lsoutput \<noteq> [] \<and> hd lsoutput = CHR ''+'' then gftp_parse_ls_eplf str fle
        else do {
          c0 \<leftarrow> load str 0;
          dos \<leftarrow> (if is_digit c0 then do { c2 \<leftarrow> load str 2; Some (c2 = CHR ''-'') } else Some False);
          if dos then gftp_parse_ls_nt env str fle
          else do {
            c1 \<leftarrow> load str 1;
            novell \<leftarrow> (if c1 = SPC then do { c2 \<leftarrow> load str 2; Some (c2 = CHR ''['') } else Some False);
            if novell then gftp_parse_ls_novell env str fle
            else do {
              space \<leftarrow> mem_strchr str SPC;
              let is_vms = (case space of None \<Rightarrow> False | Some e \<Rightarrow> CHR '';'' \<in> set (before str e));
              if is_vms then gftp_parse_ls_vms next_line env str fle
              else gftp_parse_ls_unix server_type env str len fle } } })"

section \<open>Staying inside the object\<close>

text \<open>\<open>inside m Q\<close>: the computation makes no invalid access and its result satisfies \<open>Q\<close>.\<close>

definition inside :: "'a option \<Rightarrow> ('a \<Rightarrow> bool) \<Rightarrow> bool" where
  "inside m Q = (case m of None \<Rightarrow> False | Some x \<Rightarrow> Q x)"

lemma inside_simps [simp]:
  "inside (Some x) Q = Q x"
  "inside (m \<bind> f) Q = inside m (\<lambda>x. inside (f x) Q)"
  "inside (map_option g m) Q = inside m (\<lambda>x. Q (g x))"
  by (cases m; simp add: inside_def)+

lemma inside_branch [simp]:
  "inside (if b then m else n) Q = (if b then inside m Q else inside n Q)"
  "inside (case r of None \<Rightarrow> m | Some x \<Rightarrow> g x) Q = (case r of None \<Rightarrow> inside m Q | Some x \<Rightarrow> inside (g x) Q)"
  "inside (case z of (a, b) \<Rightarrow> h a b) Q = (case z of (a, b) \<Rightarrow> inside (h a b) Q)"
  by (simp_all split: option.split prod.split)

lemma inside_iff: "inside m Q \<longleftrightarrow> (\<exists>x. m = Some x \<and> Q x)"
  by (simp add: inside_def split: option.splits)

lemma inside_mono: "inside m R \<Longrightarrow> (\<And>x. R x \<Longrightarrow> Q x) \<Longrightarrow> inside m Q"
  by (auto simp: inside_def split: option.splits)

lemma inside_skip_while:
  "terminated p \<Longrightarrow> \<not> P NUL \<Longrightarrow> (\<And>q. terminated q \<Longrightarrow> Q q) \<Longrightarrow> inside (skip_while P p) Q"
  using skip_while_terminated [of p P] by (auto simp: inside_def)

lemma inside_deref: "terminated p \<Longrightarrow> (\<And>c. c \<noteq> NUL \<longrightarrow> terminated (tl p) \<Longrightarrow> Q c) \<Longrightarrow> inside (deref p) Q"
  by (cases p) (auto simp: inside_def)

lemma inside_cstr: "terminated p \<Longrightarrow> (\<And>s. NUL \<notin> set s \<Longrightarrow> Q s) \<Longrightarrow> inside (cstr p) Q"
  using cstr_terminated [of p] by (auto simp: inside_def)

lemma inside_mem_strchr:
  "terminated p \<Longrightarrow> (\<And>r. (\<And>q. r = Some q \<Longrightarrow> q \<noteq> [] \<and> (c \<noteq> NUL \<longrightarrow> terminated (tl q))) \<Longrightarrow> Q r) \<Longrightarrow>
   inside (mem_strchr p c) Q"
  using mem_strchr_terminated [of p c] by (auto simp: inside_def)

lemma token_char_NUL [simp]: "\<not> token_char NUL"
  by (simp add: token_char_def)

lemma inside_goto_next_token:
  "terminated p \<Longrightarrow> (\<And>q. terminated q \<Longrightarrow> Q q) \<Longrightarrow> inside (goto_next_token p) Q"
  by (auto simp: goto_next_token_def intro!: inside_skip_while)

lemma inside_strtol_at: "terminated p \<Longrightarrow> (\<And>v. Q v) \<Longrightarrow> inside (strtol_at p) Q"
  by (auto simp: strtol_at_def intro!: inside_cstr)

lemma inside_copy_token:
  assumes "terminated p" "\<And>r. (\<And>t q. r = Some (t, q) \<Longrightarrow> terminated q) \<Longrightarrow> Q r"
  shows "inside (copy_token p) Q"
proof -
  obtain e where e: "skip_while token_char p = Some e" "terminated e"
    using skip_while_terminated [OF assms(1), of token_char] by auto
  then obtain c r where r: "e = c # r" by (cases e) auto
  show ?thesis
  proof (cases "c = NUL")
    case True
    then show ?thesis using e r assms(2) [of None] by (simp add: copy_token_def)
  next
    case False
    then have "terminated r" using e r by simp
    then obtain q where "skip_while is_blank r = Some q" "terminated q"
      using skip_while_terminated [of r is_blank] by auto
    then show ?thesis using e r False assms(2) [of "Some (before p e, q)"]
      by (simp add: copy_token_def ptr_add_def)
  qed
qed

lemma cstr_SomeD: "cstr p = Some s \<Longrightarrow> NUL \<notin> set s \<and> (\<exists>r. p = s @ NUL # r)"
  by (induction p arbitrary: s) (auto split: if_splits)

lemma inside_parse_time:
  assumes "terminated p" "\<And>t q. terminated q \<Longrightarrow> Q (t, q)"
  shows "inside (parse_time env p) Q"
proof -
  obtain s r where s: "cstr p = Some s" "p = s @ NUL # r"
    using cstr_terminated [OF assms(1)] cstr_SomeD by blast
  have "terminated (pointer_into p s u)" for u
    using s(2) by (simp add: pointer_into_def)
  then show ?thesis using s(1) assms(2)
    by (auto simp: parse_time_def split: prod.splits option.splits)
qed

lemma count_columns_defined: "terminated pos \<Longrightarrow> \<exists>n. count_columns pos cols = Some n"
proof (induction pos cols rule: count_columns.induct)
  case (1 pos cols)
  then obtain c p where pos: "pos = c # p" by (cases pos) auto
  obtain pos1 where p1: "skip_while (\<lambda>c. token_char c \<and> c \<noteq> CHR '':'') pos = Some pos1" "terminated pos1"
    using skip_while_terminated [OF "1.prems"(1), of "\<lambda>c. token_char c \<and> c \<noteq> CHR '':''"] by auto
  then obtain c1 r1 where r1: "pos1 = c1 # r1" by (cases pos1) auto
  obtain pos2 where p2: "skip_while is_blank pos1 = Some pos2" "terminated pos2"
    using skip_while_terminated [OF p1(2), of is_blank] by auto
  have d: "deref pos = Some c" "deref pos1 = Some c1" using pos r1 by simp_all
  have IH: "c \<noteq> NUL \<Longrightarrow> c1 \<noteq> CHR '':'' \<Longrightarrow> \<exists>n. count_columns pos2 (cols + 1) = Some n"
    by (rule "1.IH" [OF d(1) _ p1(1) d(2) _ p2])
  show ?case
    by (subst count_columns.simps, simp only: d p1 p2 bind.bind_lunit) (use IH in simp)
qed

lemma inside_count_columns:
  "terminated pos \<Longrightarrow> (\<And>n. Q n) \<Longrightarrow> inside (count_columns pos cols) Q"
  using count_columns_defined [of pos cols] by (auto simp: inside_def)

lemmas inside_rules = inside_skip_while inside_deref inside_cstr inside_mem_strchr
  inside_goto_next_token inside_strtol_at inside_copy_token inside_parse_time inside_count_columns

lemma unix_owner_inside:
  "terminated p \<Longrightarrow>
   inside (unix_owner cols p fle) (\<lambda>x. \<forall>q. fst x = Some q \<longrightarrow> terminated q)"
  unfolding unix_owner_def
  by (auto simp: Let_def intro!: inside_rules split: option.split)

lemma inside_unix_owner:
  "terminated p \<Longrightarrow> (\<And>r f. (\<And>q. r = Some q \<Longrightarrow> terminated q) \<Longrightarrow> Q (r, f)) \<Longrightarrow>
   inside (unix_owner cols p fle) Q"
  by (rule inside_mono [OF unix_owner_inside]) auto

lemma inside_cray_columns:
  "terminated str \<Longrightarrow> terminated p \<Longrightarrow> (\<And>q. terminated q \<Longrightarrow> Q q) \<Longrightarrow>
   inside (cray_columns server_type cols str p) Q"
  unfolding cray_columns_def by (auto intro!: inside_rules)

lemma unix_size_inside:
  "terminated p \<Longrightarrow>
   inside (unix_size p fle) (\<lambda>x. \<forall>q. fst x = Some q \<longrightarrow> terminated (tl q))"
  unfolding unix_size_def
  by (auto simp: Let_def intro!: inside_rules split: option.split)

lemma inside_unix_size:
  "terminated p \<Longrightarrow> (\<And>r f. (\<And>q. r = Some q \<Longrightarrow> terminated (tl q)) \<Longrightarrow> Q (r, f)) \<Longrightarrow>
   inside (unix_size p fle) Q"
  by (rule inside_mono [OF unix_size_inside]) auto

lemma to_mode_inside:
  "10 \<le> length s \<Longrightarrow> (\<And>m. Q m) \<Longrightarrow> inside (gftp_convert_attributes_to_mode_t s) Q"
  by (simp add: gftp_convert_attributes_to_mode_t_def)

lemma parse_ls_unix_inside:
  assumes "NUL \<in> set (drop (min slen 11) str)" "slen < length str"
  shows "inside (gftp_parse_ls_unix server_type env str slen fle) (\<lambda>r. True)"
proof -
  define str' where "str' = (if slen > 10 then str[10 := SPC] else str)"
  have "terminated str'"
  proof (cases "slen > 10")
    case True
    then have "NUL \<in> set (drop 11 str)" using assms(1) by simp
    moreover have "set (drop 11 str) \<subseteq> set (str[10 := SPC])"
      using set_drop_subset [of 11 "str[10 := SPC]"] by simp
    ultimately show ?thesis using True by (auto simp: terminated_def str'_def)
  next
    case False
    then show ?thesis using assms(1) in_set_dropD by (auto simp: terminated_def str'_def)
  qed
  moreover have "(if slen > 10 then poke str 10 SPC else Some str) = Some str'"
    using assms(2) by (simp add: poke_def str'_def)
  ultimately show ?thesis
    unfolding gftp_parse_ls_unix_def
    by (simp only: inside_simps bind.bind_lunit)
      (auto simp: Let_def intro!: inside_rules inside_unix_owner inside_cray_columns inside_unix_size to_mode_inside
        split: option.split)
qed

lemma line_copy_shape:
  obtains s k where "line_copy line = (s @ NUL # replicate k NUL, length s)" "s @ drop (length s) line = line"
    "length s + k = length line"
proof (cases line rule: rev_cases)
  case Nil
  then show ?thesis using that [of "[]" 0] by (simp add: line_copy_def)
next
  case (snoc u x)
  show ?thesis
  proof (cases "x = LF")
    case True
    show ?thesis
    proof (cases u rule: rev_cases)
      case Nil
      then show ?thesis using that [of "[]" 1] snoc True by (simp add: line_copy_def)
    next
      case (snoc v y)
      then show ?thesis
        using that [of v 2] that [of u 1] \<open>line = u @ [x]\<close> True
        by (cases "y = CR") (simp_all add: line_copy_def nth_append list_update_append numeral_2_eq_2)
    qed
  next
    case False
    then show ?thesis
      using that [of u 1] that [of line 0] snoc
      by (cases "x = CR") (simp_all add: line_copy_def nth_append list_update_append)
  qed
qed

definition is_eol :: "string \<Rightarrow> bool" where
  "is_eol e \<longleftrightarrow> e \<in> {[], [LF], [CR], [CR, LF]}"

lemma line_copy_eol:
  assumes "is_eol e" "s \<noteq> []" "last s \<noteq> LF" "last s \<noteq> CR"
  shows "line_copy (s @ e) = (s @ NUL # replicate (length e) NUL, length s)"
proof -
  obtain u x where "s = u @ [x]" using assms(2) by (cases s rule: rev_cases) auto
  then show ?thesis using assms
    by (auto simp: is_eol_def line_copy_def nth_append list_update_append numeral_2_eq_2)
qed

lemma parse_ls_nt_inside:
  "terminated str \<Longrightarrow> inside (gftp_parse_ls_nt env str fle) (\<lambda>r. True)"
  unfolding gftp_parse_ls_nt_def
  by (auto simp: Let_def intro!: inside_rules)

lemma eplf_facts_defined: "terminated p \<Longrightarrow> \<exists>r. eplf_facts p isdir fle = Some r"
proof (induction p isdir fle rule: eplf_facts.induct)
  case (1 p isdir fle)
  then obtain c r where p: "p = c # r" by (cases p) auto
  obtain m where m: "mem_strchr p (CHR '','') = Some m" "\<forall>q. m = Some q \<longrightarrow> terminated (tl q)"
    using mem_strchr_terminated [OF "1.prems", of "CHR '',''"] by auto
  have "\<exists>v. (if c = CHR ''s'' \<or> c = CHR ''m'' then strtol_at (tl p) else Some 0) = Some v"
    using "1.prems" p cstr_terminated [of r] by (auto simp: strtol_at_def)
  then obtain v where v: "(if c = CHR ''s'' \<or> c = CHR ''m'' then strtol_at (tl p) else Some 0) = Some v"
    by blast
  have d: "deref p = Some c" using p by simp
  show ?case
    using "1.IH" [OF d refl v refl m(1)] m(2)
    by (subst eplf_facts.simps, simp only: d m(1) v bind.bind_lunit Let_def)
      (auto split: option.split)
qed

lemma parse_ls_eplf_inside:
  assumes "terminated (tl str)"
  shows "inside (gftp_parse_ls_eplf str fle) (\<lambda>r. True)"
proof -
  obtain c p where str: "str = c # p" "terminated p" using assms by (cases str) auto
  then have "terminated str" by simp
  moreover have "inside (eplf_facts p False fle) (\<lambda>r. True)"
    using eplf_facts_defined [OF str(2), of False fle] by (auto simp: inside_def)
  ultimately show ?thesis using str(1)
    unfolding gftp_parse_ls_eplf_def
    by (auto simp: ptr_add_def Let_def intro!: inside_rules split: option.split
        elim!: inside_mono)
qed

text \<open>C27: The Unix, Cray, EPLF and DOS parsers never touch a byte outside the copy of the
  line, whatever the server sends, as long as the line is not empty.\<close>

theorem parse_ls_stays_inside:
  assumes "server_type \<in> {GFTP_DIRTYPE_UNIX, GFTP_DIRTYPE_CRAY, GFTP_DIRTYPE_EPLF, GFTP_DIRTYPE_DOS}"
    and "line \<noteq> []"
  shows "gftp_parse_ls server_type next_line env line \<noteq> None"
proof -
  obtain s k where l: "line_copy line = (s @ NUL # replicate k NUL, length s)" "length s + k = length line"
    using line_copy_shape by metis
  let ?str = "s @ NUL # replicate k NUL"
  have "0 < length s + k" using l(2) assms(2) by (cases line) auto
  then have "terminated (tl ?str)" by (cases s; cases k) simp_all
  moreover have "terminated ?str" by simp
  moreover have "inside (gftp_parse_ls_unix server_type env ?str (length s) zero_file) (\<lambda>r. True)"
    by (rule parse_ls_unix_inside) auto
  ultimately have "inside (gftp_parse_ls server_type next_line env line) (\<lambda>r. True)"
    using assms(1) parse_ls_nt_inside [of ?str env zero_file] parse_ls_eplf_inside [of ?str zero_file]
    unfolding gftp_parse_ls_def l(1) Let_def prod.case
    by (simp del: inside_simps inside_branch) (elim disjE; simp)
  then show ?thesis by (cases "gftp_parse_ls server_type next_line env line") (simp_all add: inside_def)
qed

theorem parse_ls_stays_inside_witness:
  "gftp_parse_ls GFTP_DIRTYPE_UNIX None \<lparr> mktime = (\<lambda>_. 0), loctime = zero_tm \<rparr> ''total 12'' \<noteq> None"
  using parse_ls_stays_inside [of GFTP_DIRTYPE_UNIX "''total 12''" None] by simp

text \<open>The other formats do leave it: an MVS or a Novell line that is shorter than the columns
  expected, a VMS protection with fewer than three commas, and the autodetection on an empty line or
  on a single digit.\<close>

theorem parse_ls_leaves_object:
  "gftp_parse_ls GFTP_DIRTYPE_MVS next_line env ''SVI52A 3390'' = None \<and>
   gftp_parse_ls GFTP_DIRTYPE_NOVELL next_line env ''d [RWCE]'' = None \<and>
   gftp_parse_ls GFTP_DIRTYPE_VMS next_line env ''A.TXT;1 1 23-NOV-1999 05:47 [X] (RWE,RE)'' = None \<and>
   gftp_parse_ls GFTP_DIRTYPE_OTHER next_line env [] = None \<and>
   gftp_parse_ls GFTP_DIRTYPE_OTHER next_line env ''7'' = None"
  by (intro conjI) code_simp+

section \<open>What a Unix line means\<close>

definition column :: "string \<Rightarrow> bool" where
  "column t \<longleftrightarrow> t \<noteq> [] \<and> (\<forall>c \<in> set t. token_char c \<and> c \<noteq> CHR '':'')"

definition gap :: "string \<Rightarrow> bool" where
  "gap b \<longleftrightarrow> b \<noteq> [] \<and> b = replicate (length b) SPC"

definition starts_token :: "ptr \<Rightarrow> bool" where
  "starts_token q \<longleftrightarrow> q \<noteq> [] \<and> \<not> is_blank (hd q)"

definition number :: "nat \<Rightarrow> nat \<Rightarrow> nat \<Rightarrow> string \<Rightarrow> bool" where
  "number lo hi n ds \<longleftrightarrow> ds \<noteq> [] \<and> (\<forall>c \<in> set ds. is_digit c) \<and> length ds \<le> n \<and>
     lo \<le> read_nat ds \<and> read_nat ds \<le> hi"

lemma blank_SPC [simp]: "is_blank SPC" "is_space SPC" "\<not> token_char SPC" "\<not> is_digit SPC"
  by (simp_all add: is_blank_def is_space_def token_char_def is_digit_def)

lemma skip_while_stop: "q \<noteq> [] \<Longrightarrow> \<not> P (hd q) \<Longrightarrow> skip_while P q = Some q"
  by (cases q) auto

lemma skip_while_over:
  "(\<forall>c \<in> set u. P c) \<Longrightarrow> q \<noteq> [] \<Longrightarrow> \<not> P (hd q) \<Longrightarrow> skip_while P (u @ q) = Some q"
  by (simp add: skip_while_append skip_while_stop)

lemma gap_cases: "gap b \<Longrightarrow> \<exists>n. b = SPC # replicate n SPC"
  by (cases b) (auto simp: gap_def)

lemma skip_gap [scan_simps]:
  assumes "gap b" "starts_token q"
  shows "skip_while is_blank (b @ q) = Some q" "skip_while (\<lambda>c. c = SPC) (b @ q) = Some q"
proof -
  obtain n where b: "b = SPC # replicate n SPC" using gap_cases [OF assms(1)] by blast
  have q: "q \<noteq> []" "\<not> is_blank (hd q)" "hd q \<noteq> SPC"
    using assms(2) by (auto simp: starts_token_def)
  show "skip_while is_blank (b @ q) = Some q" "skip_while (\<lambda>c. c = SPC) (b @ q) = Some q"
    using q by (auto simp: b intro!: skip_while_over)
qed

lemma skip_column:
  assumes "column t" "gap b"
  shows "skip_while token_char (t @ b @ q) = Some (b @ q)"
    and "skip_while (\<lambda>c. token_char c \<and> c \<noteq> CHR '':'') (t @ b @ q) = Some (b @ q)"
proof -
  obtain n where b: "b = SPC # replicate n SPC" using gap_cases [OF assms(2)] by blast
  have t: "\<forall>c \<in> set t. token_char c" "\<forall>c \<in> set t. token_char c \<and> c \<noteq> CHR '':''"
    using assms(1) unfolding column_def by blast+
  show "skip_while token_char (t @ b @ q) = Some (b @ q)"
    by (rule skip_while_over [OF t(1)]) (simp_all add: b)
  show "skip_while (\<lambda>c. token_char c \<and> c \<noteq> CHR '':'') (t @ b @ q) = Some (b @ q)"
    by (rule skip_while_over [OF t(2)]) (simp_all add: b)
qed

lemma copy_column [scan_simps]:
  assumes "column t" "gap b" "starts_token q"
  shows "copy_token (t @ b @ q) = Some (Some (t, q))"
proof -
  obtain n where b: "b = SPC # replicate n SPC" using gap_cases [OF assms(2)] by blast
  have "skip_while is_blank (replicate n SPC @ q) = Some q"
    using assms(3) by (intro skip_while_over) (auto simp: starts_token_def)
  then show ?thesis
    using skip_column(1) [OF assms(1,2), of q] b by (simp add: copy_token_def ptr_add_def)
qed

lemma next_column [scan_simps]:
  assumes "column t" "gap b" "starts_token q"
  shows "goto_next_token (t @ b @ q) = Some q"
  using skip_column(1) [OF assms(1,2), of q] skip_gap(1) [OF assms(2,3)]
  by (simp add: goto_next_token_def)

lemma next_gap [scan_simps]:
  assumes "gap b" "starts_token q"
  shows "goto_next_token (b @ q) = Some q"
proof -
  have "skip_while token_char (b @ q) = Some (b @ q)"
    using gap_cases [OF assms(1)] by (auto intro!: skip_while_stop)
  then show ?thesis using skip_gap(1) [OF assms] by (simp add: goto_next_token_def)
qed

lemma starts_column [intro]: "column t \<Longrightarrow> starts_token (t @ q)"
  by (cases t) (auto simp: column_def starts_token_def token_char_def)

lemma count_column [scan_simps]:
  assumes "column t" "gap b" "starts_token q"
  shows "count_columns (t @ b @ q) n = count_columns q (n + 1)"
proof -
  obtain c t' where t: "t = c # t'" "token_char c" using assms(1) by (cases t) (auto simp: column_def)
  obtain b' where b: "b = SPC # b'" using gap_cases [OF assms(2)] by blast
  have "deref (t @ b @ q) = Some c" "c \<noteq> NUL" using t by auto
  moreover have "deref (b @ q) = Some SPC" using b by simp
  ultimately show ?thesis
    by (subst count_columns.simps)
      (simp add: skip_column(2) [OF assms(1,2)] skip_gap(1) [OF assms(2,3)])
qed

lemma count_time [scan_simps]:
  assumes "column t"
  shows "count_columns (t @ CHR '':'' # q) n = Some (n + 2)"
proof -
  obtain c t' where t: "t = c # t'" "token_char c" using assms(1) by (cases t) (auto simp: column_def)
  have "skip_while (\<lambda>c. token_char c \<and> c \<noteq> CHR '':'') (t @ CHR '':'' # q) = Some (CHR '':'' # q)"
    using assms by (intro skip_while_over) (auto simp: column_def)
  moreover have "deref (t @ CHR '':'' # q) = Some c" "c \<noteq> NUL" using t by auto
  ultimately show ?thesis by (subst count_columns.simps) simp
qed

lemma count_columns_le: "count_columns p n = Some m \<Longrightarrow> n \<le> m"
proof (induction p n rule: count_columns.induct)
  case (1 pos cols)
  from "1.prems" show ?case
    by (subst (asm) count_columns.simps)
      (auto split: if_splits Option.bind_splits dest!: "1.IH")
qed

lemma count_columns_name:
  assumes "terminated q" "starts_token q" "hd q \<noteq> NUL"
  shows "\<exists>m. count_columns q n = Some m \<and> n + 1 \<le> m"
proof -
  obtain m where m: "count_columns q n = Some m" using count_columns_defined [OF assms(1)] by blast
  moreover have "n + 1 \<le> m"
    using m assms(2,3) count_columns_le
    by (subst (asm) count_columns.simps)
      (cases q; auto simp: starts_token_def split: if_splits Option.bind_splits dest: count_columns_le)
  ultimately show ?thesis by blast
qed

text \<open>Dates, as the formats with \<open>%h %d\<close> read them.\<close>

lemma foldl_digits_mono: "v \<le> foldl (\<lambda>a c. 10 * a + digit_val c) v ds"
proof (induction ds arbitrary: v)
  case (Cons d ds)
  have "v \<le> 10 * v + digit_val d" by simp
  also have "\<dots> \<le> foldl (\<lambda>a c. 10 * a + digit_val c) (10 * v + digit_val d) ds" by (rule Cons)
  finally show ?case by simp
qed simp

lemma number_digits_all:
  "(\<forall>c \<in> set ds. is_digit c) \<Longrightarrow> length ds \<le> n \<Longrightarrow>
   foldl (\<lambda>a c. 10 * a + digit_val c) v ds \<le> hi \<Longrightarrow> r = [] \<or> \<not> is_digit (hd r) \<Longrightarrow>
   number_digits hi n v (ds @ r) = (foldl (\<lambda>a c. 10 * a + digit_val c) v ds, r)"
proof (induction ds arbitrary: v n)
  case Nil
  then show ?case by (cases r) auto
next
  case (Cons d ds)
  have "10 * v + digit_val d \<le> hi"
    using foldl_digits_mono [of "10 * v + digit_val d" ds] Cons.prems(3) by simp
  then show ?case
    using Cons.IH [of "n - 1" "10 * v + digit_val d"] Cons.prems by (simp add: mult.commute)
qed

lemma get_number_digits [scan_simps]:
  assumes "number lo hi n ds" "r = [] \<or> \<not> is_digit (hd r)"
  shows "get_number lo hi n (ds @ r) = Some (read_nat ds, r)"
proof -
  obtain d ds' where ds: "ds = d # ds'" "is_digit d" "\<forall>c \<in> set ds'. is_digit c" "length ds' \<le> n - 1"
    using assms(1) by (cases ds) (auto simp: number_def)
  have tw: "takeWhile is_digit ds = ds" using assms(1) by (simp add: number_def)
  have rd: "read_nat ds = foldl (\<lambda>a c. 10 * a + digit_val c) (digit_val d) ds'"
    unfolding read_nat_def tw using ds(1) by simp
  have "number_digits hi (n - 1) (digit_val d) (ds' @ r) = (read_nat ds, r)"
    using number_digits_all [OF ds(3,4) _ assms(2), of "digit_val d" hi] assms(1)
    by (simp add: rd number_def)
  moreover have "d \<noteq> SPC" using ds(2) by auto
  ultimately show ?thesis using ds assms(1) by (simp add: get_number_def number_def)
qed

definition month_abbrev :: "nat \<Rightarrow> string" where
  "month_abbrev k = snd (month_names ! k)"

lemma below_12: "k < 12 \<Longrightarrow> k = 0 \<or> k = 1 \<or> k = 2 \<or> k = 3 \<or> k = 4 \<or> k = 5 \<or> k = 6 \<or> k = 7 \<or>
    k = 8 \<or> k = 9 \<or> k = 10 \<or> k = (11::nat)"
  by arith

lemma find_month_abbrev [scan_simps]:
  "k < 12 \<Longrightarrow> find_month month_names 0 (month_abbrev k @ SPC # r) = Some (k, SPC # r)"
  by (drule below_12, elim disjE)
    (simp_all add: month_abbrev_def month_names_def to_lower_def code_of_def)

lemma month_abbrev_column: "k < 12 \<Longrightarrow> column (month_abbrev k)"
  by (drule below_12, elim disjE)
    (simp_all add: month_abbrev_def month_names_def column_def token_char_def is_blank_def)

lemma month_abbrev_start: "k < 12 \<Longrightarrow> month_abbrev k \<noteq> [] \<and> \<not> is_digit (hd (month_abbrev k))"
  by (drule below_12, elim disjE)
    (simp_all add: month_abbrev_def month_names_def is_digit_def code_of_def)

lemma number_column: "number lo hi n ds \<Longrightarrow> column ds"
  by (auto simp: number_def column_def token_char_def is_blank_def is_digit_def code_of_def)

lemma drop_gap:
  assumes "gap b" "number lo hi n ds"
  shows "dropWhile is_space (b @ ds @ r) = ds @ r"
proof -
  obtain k where b: "b = SPC # replicate k SPC" using gap_cases [OF assms(1)] by blast
  obtain d ds' where "ds = d # ds'" "is_digit d" using assms(2) by (cases ds) (auto simp: number_def)
  then have "dropWhile is_space (ds @ r) = ds @ r" using space_not_digit by auto
  then show ?thesis by (simp add: b dropWhile_append)
qed

lemma strptime_month_day:
  assumes "k < 12" "gap b" "number 1 31 2 day" "gap b'" "number lo hi n x" 
  shows "strptime_loop (''%h %d '' @ fmt) (month_abbrev k @ b @ day @ b' @ x @ r) tm False False =
    strptime_loop fmt (x @ r) (tm \<lparr> tm_mon := int k, tm_mday := int (read_nat day) \<rparr>) False False"
proof -
  obtain i where b: "b = SPC # replicate i SPC" using gap_cases [OF assms(2)] by blast
  obtain j where b': "b' = SPC # replicate j SPC" using gap_cases [OF assms(4)] by blast
  have 1: "find_month month_names 0 (month_abbrev k @ b @ y) = Some (k, b @ y)" for y
    using find_month_abbrev [OF assms(1)] by (simp add: b)
  have 2: "get_number 1 31 2 (day @ b' @ x @ r) = Some (read_nat day, b' @ x @ r)"
    by (rule get_number_digits [OF assms(3)]) (simp add: b')
  show ?thesis
    by (simp add: is_space_def [of "CHR ''%''"] code_of_def strptime_conv_def 1 2 [unfolded One_nat_def]
        drop_gap [OF assms(2,3)] drop_gap [OF assms(4,5)] del: blank_SPC(3,4))
qed

lemma strptime_recent:
  assumes "k < 12" "gap b" "number 1 31 2 day" "gap b'" "number 0 23 2 hh" "number 0 59 2 mm"
    and "r = [] \<or> \<not> is_digit (hd r)"
  shows "strptime (month_abbrev k @ b @ day @ b' @ hh @ CHR '':'' # mm @ r) ''%h %d %H:%M'' tm =
    (tm \<lparr> tm_mon := int k, tm_mday := int (read_nat day), tm_hour := int (read_nat hh),
          tm_min := int (read_nat mm) \<rparr>, Some r)"
proof -
  have 1: "get_number 0 23 2 (hh @ CHR '':'' # mm @ r) = Some (read_nat hh, CHR '':'' # mm @ r)"
    by (rule get_number_digits [OF assms(5)]) (simp add: is_digit_def code_of_def)
  have 2: "get_number 0 59 2 (mm @ r) = Some (read_nat mm, r)"
    by (rule get_number_digits [OF assms(6,7)])
  show ?thesis
    using strptime_month_day [OF assms(1-5), of "''%H:%M''" "CHR '':'' # mm @ r" tm]
    by (simp add: strptime_def strptime_conv_def is_space_def code_of_def 1 2)
qed

lemma strptime_older:
  assumes "k < 12" "gap b" "number 1 31 2 day" "gap b'" "number 0 9999 4 year"
    and "r = [] \<or> \<not> is_digit (hd r)"
  shows "strptime (month_abbrev k @ b @ day @ b' @ year @ r) ''%h %d %Y'' tm =
    (tm \<lparr> tm_mon := int k, tm_mday := int (read_nat day), tm_year := int (read_nat year) - 1900 \<rparr>,
     Some r)"
  using strptime_month_day [OF assms(1-5), of "''%Y''" r tm] get_number_digits [OF assms(5,6)]
  by (simp add: strptime_def strptime_conv_def is_space_def code_of_def)

text \<open>The two shapes of the date columns: a time of day within the last year, or a year.\<close>

datatype listed_date =
    Recent nat string string string string string
  | Older nat string string string string

fun date_text :: "listed_date \<Rightarrow> string" where
  "date_text (Recent k b day b' hh mm) = month_abbrev k @ b @ day @ b' @ hh @ CHR '':'' # mm"
| "date_text (Older k b day b' year) = month_abbrev k @ b @ day @ b' @ year"

fun date_ok :: "listed_date \<Rightarrow> bool" where
  "date_ok (Recent k b day b' hh mm) \<longleftrightarrow> k < 12 \<and> gap b \<and> number 1 31 2 day \<and> gap b' \<and>
     number 0 23 2 hh \<and> number 0 59 2 mm"
| "date_ok (Older k b day b' year) \<longleftrightarrow> k < 12 \<and> gap b \<and> number 1 31 2 day \<and> gap b' \<and>
     number 0 9999 4 year"

text \<open>A date without a year is in the current year, or in the last one when its month is later
  than the current month.\<close>

fun date_tm :: "tm \<Rightarrow> listed_date \<Rightarrow> tm" where
  "date_tm now (Recent k b day b' hh mm) =
     zero_tm \<lparr> tm_isdst := -1, tm_mon := int k, tm_mday := int (read_nat day),
       tm_hour := int (read_nat hh), tm_min := int (read_nat mm),
       tm_year := (if int k > tm_mon now then tm_year now - 1 else tm_year now) \<rparr>"
| "date_tm now (Older k b day b' year) =
     zero_tm \<lparr> tm_isdst := -1, tm_mon := int k, tm_mday := int (read_nat day),
       tm_year := int (read_nat year) - 1900 \<rparr>"

fun older_date :: "listed_date \<Rightarrow> bool" where
  "older_date (Recent k b day b' hh mm) = False"
| "older_date (Older k b day b' year) = True"

lemma column_no_NUL: "column t \<Longrightarrow> NUL \<notin> set t \<and> CHR '':'' \<notin> set t \<and> SPC \<notin> set t"
  unfolding column_def using token_char_NUL blank_SPC(3) by blast

lemma gap_no_NUL: "gap b \<Longrightarrow> NUL \<notin> set b \<and> CHR '':'' \<notin> set b"
  by (drule gap_cases) auto

lemma month_start_fields:
  assumes "k < 12"
  shows "parse_time_fields env (month_abbrev k @ s) =
    (let curtime = zero_tm \<lparr> tm_isdst := -1 \<rparr> in
     if CHR '':'' \<in> set s then
       (let (tm', tmppos) = strptime (month_abbrev k @ s) ''%h %d %H:%M'' curtime
        in (tm' \<lparr> tm_year := (if tm_mon tm' > tm_mon (loctime env)
                            then tm_year (loctime env) - 1 else tm_year (loctime env)) \<rparr>, tmppos))
     else strptime (month_abbrev k @ s) ''%h %d %Y'' curtime)"
proof -
  have "\<not> is_digit ((month_abbrev k @ s) ! 0)"
    using month_abbrev_start [OF assms] by (cases "month_abbrev k") auto
  moreover have "strchr (month_abbrev k @ s) CHR '':'' \<noteq> None \<longleftrightarrow> CHR '':'' \<in> set s"
    using column_no_NUL [OF month_abbrev_column [OF assms]] by simp
  ultimately show ?thesis unfolding parse_time_fields_def Let_def by (simp only: if_False simp_thms)
qed

lemma pointer_after: "pointer_into (u @ r @ NUL # sl) (u @ r) r = r @ NUL # sl"
  by (simp add: pointer_into_def)

lemma parse_time_date:
  assumes "date_ok d" "NUL \<notin> set r" "r = [] \<or> \<not> is_digit (hd r)"
    and "older_date d \<longrightarrow> CHR '':'' \<notin> set r"
  shows "parse_time env (date_text d @ r @ NUL # sl) =
    Some (mktime env (date_tm (loctime env) d), r @ NUL # sl)"
proof -
  have f: "parse_time_fields env (date_text d @ r) = (date_tm (loctime env) d, Some r)"
    "NUL \<notin> set (date_text d)"
  proof (atomize (full), cases d)
    case (Recent k b day b' hh mm)
    note ok = assms(1) [unfolded Recent date_ok.simps]
    then have s: "strptime (month_abbrev k @ b @ day @ b' @ hh @ CHR '':'' # mm @ r) ''%h %d %H:%M'' tm =
        (tm \<lparr> tm_mon := int k, tm_mday := int (read_nat day), tm_hour := int (read_nat hh),
              tm_min := int (read_nat mm) \<rparr>, Some r)" for tm
      using strptime_recent [of k b day b' hh mm r tm] assms(3) by blast
    have "NUL \<notin> set (date_text d)"
      using ok column_no_NUL month_abbrev_column number_column gap_no_NUL unfolding Recent date_text.simps
      by (simp; blast)
    moreover have "parse_time_fields env (date_text d @ r) = (date_tm (loctime env) d, Some r)"
      using ok month_start_fields [of k env "b @ day @ b' @ hh @ CHR '':'' # mm @ r"]
      by (simp add: Recent s)
    ultimately show "parse_time_fields env (date_text d @ r) = (date_tm (loctime env) d, Some r) \<and>
        NUL \<notin> set (date_text d)" by simp
  next
    case (Older k b day b' year)
    note ok = assms(1) [unfolded Older date_ok.simps]
    then have s: "strptime (month_abbrev k @ b @ day @ b' @ year @ r) ''%h %d %Y'' tm =
        (tm \<lparr> tm_mon := int k, tm_mday := int (read_nat day), tm_year := int (read_nat year) - 1900 \<rparr>,
         Some r)" for tm
      using strptime_older [of k b day b' year r tm] assms(3) by blast
    have n: "NUL \<notin> set (date_text d)" "CHR '':'' \<notin> set (b @ day @ b' @ year @ r)"
      using ok assms(4) column_no_NUL month_abbrev_column number_column gap_no_NUL
      unfolding Older date_text.simps by (simp_all; blast)+
    have "parse_time_fields env (date_text d @ r) = (date_tm (loctime env) d, Some r)"
      using ok n(2) month_start_fields [of k env "b @ day @ b' @ year @ r"]
      by (simp add: Older s)
    with n show "parse_time_fields env (date_text d @ r) = (date_tm (loctime env) d, Some r) \<and>
        NUL \<notin> set (date_text d)" by simp
  qed
  have "cstr (date_text d @ r @ NUL # sl) = Some (date_text d @ r)"
    using cstr_NUL [of "date_text d @ r" sl] f(2) assms(2) by simp
  then show ?thesis by (simp add: parse_time_def f(1) pointer_after)
qed

lemma date_ok_starts: "date_ok d \<Longrightarrow> starts_token (date_text d @ r) \<and> hd (date_text d @ r) \<noteq> NUL"
proof (cases d)
  case (Recent k b day b' hh mm)
  assume "date_ok d"
  then have "column (month_abbrev k)" using Recent month_abbrev_column by simp
  then show ?thesis using Recent by (cases "month_abbrev k") (auto simp: column_def starts_token_def token_char_def)
next
  case (Older k b day b' year)
  assume "date_ok d"
  then have "column (month_abbrev k)" using Older month_abbrev_column by simp
  then show ?thesis using Older by (cases "month_abbrev k") (auto simp: column_def starts_token_def token_char_def)
qed

lemma date_columns:
  assumes "date_ok d" "gap g" "starts_token q" "terminated q" "hd q \<noteq> NUL"
  shows "\<exists>m. count_columns (date_text d @ g @ q) n = Some m \<and> n + 4 \<le> m"
proof (cases d)
  case (Recent k b day b' hh mm)
  note ok = assms(1) [unfolded Recent date_ok.simps]
  have c: "column (month_abbrev k)" "column day" "column hh"
    using ok month_abbrev_column number_column by blast+
  have "count_columns (date_text d @ g @ q) n = Some (n + 4)"
    using ok c by (simp add: Recent count_column starts_column count_time)
  then show ?thesis by simp
next
  case (Older k b day b' year)
  note ok = assms(1) [unfolded Older date_ok.simps]
  have c: "column (month_abbrev k)" "column day" "column year"
    using ok month_abbrev_column number_column by blast+
  have "count_columns (date_text d @ g @ q) n = count_columns q (n + 3)"
    using ok c assms(2,3) by (simp add: Older count_column starts_column eval_nat_numeral)
  then show ?thesis using count_columns_name [OF assms(4,3,5), of "n + 3"] by auto
qed

text \<open>A line of \<open>ls -l\<close>: ten attribute characters and any character behind them, the columns, and
  the name, which is everything after the date.\<close>

record unix_line =
  ul_attribs :: string
  ul_mark :: char
  ul_pad :: string
  ul_links :: string
  ul_g1 :: string
  ul_user :: string
  ul_g2 :: string
  ul_group :: string
  ul_g3 :: string
  ul_size :: string
  ul_g4 :: string
  ul_date :: listed_date
  ul_g5 :: string
  ul_name :: string

definition unix_tail :: "unix_line \<Rightarrow> string" where
  "unix_tail l = ul_links l @ ul_g1 l @ ul_user l @ ul_g2 l @ ul_group l @ ul_g3 l @ ul_size l @
     ul_g4 l @ date_text (ul_date l) @ ul_g5 l @ ul_name l"

definition unix_text :: "unix_line \<Rightarrow> string" where
  "unix_text l = ul_attribs l @ ul_mark l # ul_pad l @ unix_tail l"

definition unix_line_ok :: "unix_line \<Rightarrow> bool" where
  "unix_line_ok l \<longleftrightarrow>
     column (ul_attribs l) \<and> length (ul_attribs l) = 10 \<and> ul_mark l \<noteq> NUL \<and>
     ul_pad l = replicate (length (ul_pad l)) SPC \<and>
     column (ul_links l) \<and> gap (ul_g1 l) \<and> column (ul_user l) \<and> gap (ul_g2 l) \<and>
     column (ul_group l) \<and> gap (ul_g3 l) \<and> number 0 (2 ^ 63 - 1) (length (ul_size l)) (ul_size l) \<and>
     gap (ul_g4 l) \<and> date_ok (ul_date l) \<and> gap (ul_g5 l) \<and>
     ul_name l \<noteq> [] \<and> \<not> is_blank (hd (ul_name l)) \<and> NUL \<notin> set (ul_name l) \<and>
     last (ul_name l) \<noteq> LF \<and> last (ul_name l) \<noteq> CR \<and>
     (older_date (ul_date l) \<longrightarrow> CHR '':'' \<notin> set (ul_name l))"

lemma strtol_at_number:
  assumes "number 0 (2 ^ 63 - 1) n ds" "gap g" "NUL \<notin> set r"
  shows "strtol_at (ds @ g @ r @ NUL # sl) = Some (int (read_nat ds))"
proof -
  obtain k where g: "g = SPC # replicate k SPC" using gap_cases [OF assms(2)] by blast
  obtain d ds' where ds: "ds = d # ds'" "is_digit d" "\<forall>c \<in> set ds. is_digit c"
    using assms(1) by (cases ds) (auto simp: number_def)
  have "NUL \<notin> set ds" using ds(3) digit_not_NUL by blast
  then have "cstr (ds @ g @ r @ NUL # sl) = Some (ds @ g @ r)"
    using cstr_NUL [of "ds @ g @ r" sl] assms(3) by (simp add: g)
  moreover have "\<not> is_space d" "d \<noteq> CHR ''-''" "d \<noteq> CHR ''+''"
    using ds(2) by (auto simp: is_digit_def is_space_def code_of_def)
  moreover have "takeWhile is_digit (ds @ g @ r) = takeWhile is_digit ds"
    using ds(3) by (simp add: g takeWhile_append) (metis takeWhile_eq_all_conv)
  then have "read_nat (ds @ g @ r) = read_nat ds" by (simp add: read_nat_def)
  moreover have "int (read_nat ds) \<le> 2 ^ 63 - 1" using assms(1) by (simp add: number_def)
  ultimately show ?thesis
    using ds(1) by (simp add: strtol_at_def strtol10_def clamp64_def)
qed

lemma unix_size_number:
  assumes "number 0 (2 ^ 63 - 1) n ds" "gap g" "NUL \<notin> set r"
    and "\<not> GFTP_IS_SPECIAL_DEVICE (gf_st_mode fle)"
  shows "unix_size (ds @ g @ r @ NUL # sl) fle =
      Some (Some (g @ r @ NUL # sl), fle \<lparr> gf_size := int (read_nat ds) \<rparr>)"
proof -
  obtain k where g: "g = SPC # replicate k SPC" using gap_cases [OF assms(2)] by blast
  have "SPC \<notin> set ds" "NUL \<notin> set ds"
    using column_no_NUL [OF number_column [OF assms(1)]] by blast+
  then have "mem_strchr (ds @ g @ r @ NUL # sl) SPC = Some (Some (g @ r @ NUL # sl))"
    using mem_strchr_hit [of SPC ds "replicate k SPC @ r @ NUL # sl"] by (simp add: g)
  then show ?thesis
    using strtol_at_number [OF assms(1-3), of sl] assms(4) by (simp add: unix_size_def g)
qed

lemma skip_rest_of_gap:
  assumes "gap g" "starts_token q"
  shows "skip_while (\<lambda>c. c = SPC) (tl (g @ q)) = Some q"
proof -
  obtain k where g: "g = SPC # replicate k SPC" using gap_cases [OF assms(1)] by blast
  have "skip_while (\<lambda>c. c = SPC) (replicate k SPC @ q) = Some q"
    using assms(2) by (intro skip_while_over) (auto simp: starts_token_def)
  then show ?thesis by (simp add: g)
qed

lemma date_text_no_NUL: "date_ok d \<Longrightarrow> NUL \<notin> set (date_text d)"
proof (cases d)
  case (Recent k b day b' hh mm)
  assume "date_ok d"
  note ok = this [unfolded Recent date_ok.simps]
  show ?thesis
    using ok column_no_NUL month_abbrev_column number_column gap_no_NUL unfolding Recent date_text.simps
    by (simp; blast)
next
  case (Older k b day b' year)
  assume "date_ok d"
  note ok = this [unfolded Older date_ok.simps]
  show ?thesis
    using ok column_no_NUL month_abbrev_column number_column gap_no_NUL unfolding Older date_text.simps
    by (simp; blast)
qed

lemma unix_text_parsed:
  assumes ok: "unix_line_ok l"
    and mode: "gftp_convert_attributes_to_mode_t (ul_attribs l) = Some mode"
    and dev: "\<not> GFTP_IS_SPECIAL_DEVICE mode"
  shows "gftp_parse_ls_unix GFTP_DIRTYPE_UNIX env (unix_text l @ NUL # sl) (length (unix_text l)) fle =
    Some (0, fle \<lparr> gf_st_mode := mode, gf_user := Some (ul_user l), gf_group := Some (ul_group l),
      gf_size := int (read_nat (ul_size l)),
      gf_datetime := mktime env (date_tm (loctime env) (ul_date l)),
      gf_file := Some (link_name mode (ul_name l)) \<rparr>)"
proof -
  note o = ok [unfolded unix_line_ok_def]
  define pad where "pad = SPC # ul_pad l"
  define name where "name = ul_name l @ NUL # sl"
  define date where "date = date_text (ul_date l) @ ul_g5 l @ name"
  define tail where "tail = ul_links l @ ul_g1 l @ ul_user l @ ul_g2 l @ ul_group l @ ul_g3 l @
    ul_size l @ ul_g4 l @ date"
  note cols = o [THEN conjunct1]
  have c: "column (ul_attribs l)" "column (ul_links l)" "column (ul_user l)" "column (ul_group l)"
    "column (ul_size l)" using o number_column by blast+
  have g: "gap pad" "gap (ul_g1 l)" "gap (ul_g2 l)" "gap (ul_g3 l)" "gap (ul_g4 l)" "gap (ul_g5 l)"
    using o by (simp_all add: gap_def pad_def)
  have name: "starts_token name" "terminated name" "hd name \<noteq> NUL" "NUL \<notin> set (ul_name l)"
    unfolding name_def using o by (cases "ul_name l"; auto simp: starts_token_def)+
  have d: "date_ok (ul_date l)" using o by blast
  have date: "starts_token date" "date = (date_text (ul_date l) @ ul_g5 l @ ul_name l) @ NUL # sl"
    "NUL \<notin> set (date_text (ul_date l) @ ul_g5 l @ ul_name l)"
    using date_ok_starts [OF d] date_text_no_NUL [OF d] gap_no_NUL [OF g(6)] name(4)
    by (simp_all add: date_def name_def)
  have s: "starts_token tail" using c(2) unfolding tail_def by (rule starts_column)
  have str: "(if length (unix_text l) > 10 then poke (unix_text l @ NUL # sl) 10 SPC
      else Some (unix_text l @ NUL # sl)) = Some (ul_attribs l @ pad @ tail)"
    using o by (simp add: unix_text_def unix_tail_def poke_def list_update_append nth_append
        pad_def tail_def date_def name_def)
  obtain m where m: "count_columns date 5 = Some m" "9 \<le> m"
    using date_columns [OF d g(6) name(1-3), of 5] by (auto simp: date_def)
  have cols: "count_columns (ul_attribs l @ pad @ tail) 0 = Some m"
    using c g date(1) m(1) s count_column [OF c(1) g(1) s, of 0]
    by (simp add: tail_def count_column starts_column eval_nat_numeral)
  have tok: "copy_token (ul_attribs l @ pad @ tail) = Some (Some (ul_attribs l, tail))"
    by (rule copy_column [OF c(1) g(1) s])
  have owner: "unix_owner m tail f =
      Some (Some (ul_size l @ ul_g4 l @ date), f \<lparr> gf_user := Some (ul_user l), gf_group := Some (ul_group l) \<rparr>)"
    for f
    using m(2) c g date(1)
    by (simp add: unix_owner_def tail_def next_column copy_column starts_column)
  have num: "number 0 (2 ^ 63 - 1) (length (ul_size l)) (ul_size l)" using o by blast
  have bytes: "unix_size (ul_size l @ ul_g4 l @ date) f =
      Some (Some (ul_g4 l @ date), f \<lparr> gf_size := int (read_nat (ul_size l)) \<rparr>)"
    if "gf_st_mode f = mode" for f
    unfolding date(2) by (rule unix_size_number [OF num g(5) date(3)]) (simp add: dev that)
  have skip: "skip_while (\<lambda>c. c = SPC) (tl (ul_g4 l @ date)) = Some date"
    by (rule skip_rest_of_gap [OF g(5) date(1)])
  have colon: "older_date (ul_date l) \<longrightarrow> CHR '':'' \<notin> set (ul_g5 l @ ul_name l)"
    using o gap_no_NUL [OF g(6)] by simp
  have gap_hd: "ul_g5 l @ ul_name l = [] \<or> \<not> is_digit (hd (ul_g5 l @ ul_name l))"
    using gap_cases [OF g(6)] by auto
  have time: "parse_time env date = Some (mktime env (date_tm (loctime env) (ul_date l)), ul_g5 l @ name)"
    using parse_time_date [OF d _ gap_hd colon, of env sl] date(3) by (simp add: date_def name_def)
  have next_name: "goto_next_token (ul_g5 l @ name) = Some name"
    by (rule next_gap [OF g(6) name(1)])
  have cname: "cstr name = Some (ul_name l)"
    unfolding name_def by (rule cstr_NUL [OF name(4)])
  show ?thesis
    unfolding gftp_parse_ls_unix_def str bind.bind_lunit cols tok option.case prod.case
    by (simp add: mode o owner cray_columns_def bytes skip time next_name cname)
qed



lemma strstr_arrow:
  "strstr n ''->'' = None \<Longrightarrow> strstr (n @ '' ->'' @ t) ''->'' = Some (''->'' @ t)"
proof (induction n)
  case (Cons c n)
  then show ?case by (cases n) (auto split: if_splits)
qed simp

text \<open>The name of a symbolic link is what stands before the first arrow, without the
  blank in front of it; a name that begins with the arrow is kept whole.\<close>

theorem symlink_name:
  assumes "S_ISLNK m" "strstr n ''->'' = None"
  shows "link_name m (n @ '' ->'' @ t) = n \<and> link_name m (''->'' @ t) = ''->'' @ t"
proof -
  have "before (n @ '' ->'' @ t) (''->'' @ t) = n @ '' ''"
    using before_append [of "n @ '' ''" "''->'' @ t"] by simp
  then show ?thesis
    using strstr_arrow [OF assms(2), of t] assms(1) by (simp add: link_name_def)
qed

theorem symlink_name_witness: "link_name (S_IFLNK OR 0x1FF) ''lib -> usr/lib'' = ''lib''"
  using symlink_name [of "S_IFLNK OR 0x1FF" "''lib''" "'' usr/lib''"]
  by (simp add: type_test_defs file_type_defs)

text \<open>A file whose listing shows a year loses its date when its name contains a
  colon: the search for the colon of a time of day runs on through the name.\<close>

theorem colon_in_name_loses_date:
  "map_option (\<lambda>(r, f). (r, gf_file f, gf_datetime f))
     (gftp_parse_ls GFTP_DIRTYPE_UNIX next_line env ''-rw-r--r--   1 me users 5 Jul  6  1999 a:b'') =
   Some (0, Some ''a:b'', 0)"
  by code_simp

lemma vms_attribs_masked:
  assumes "gftp_parse_vms_attribs src msk = Some (m, c)"
  shows "\<exists>x. m = x AND msk"
  using assms unfolding gftp_parse_vms_attribs_def Let_def
  by (auto split: cursor.splits Option.bind_splits intro: exI [of _ 0])

lemma vms_fields_mode:
  assumes "vms_fields env p fle = Some (0, f)" "gf_user fle = None" "gf_user f \<noteq> None"
  shows "\<exists>x y z. gf_st_mode f = (x AND S_IRWXU) OR (y AND S_IRWXG) OR (z AND S_IRWXO)"
  using assms unfolding vms_fields_def Let_def
  by (auto split: Option.bind_splits if_splits option.splits dest!: vms_attribs_masked) blast

lemma permission_bits_no_type:
  "((x AND S_IRWXU) OR (y AND S_IRWXG) OR (z AND S_IRWXO)) AND S_IFMT = 0"
proof -
  have "S_IRWXU AND S_IFMT = 0" "S_IRWXG AND S_IFMT = 0" "S_IRWXO AND S_IFMT = 0"
    by (simp_all add: perm_class_defs S_IFMT_def)
  then show ?thesis by (simp add: bit.conj_disj_distrib2 and.assoc)
qed

lemma ls_vms_fields:
  assumes "gftp_parse_ls_vms next_line env str zero_file = Some (0, f)" "gf_user f \<noteq> None"
  shows "\<exists>p fle. vms_fields env p fle = Some (0, f) \<and> gf_user fle = None"
  using assms unfolding gftp_parse_ls_vms_def Let_def
  by (auto split: Option.bind_splits option.splits if_splits prod.splits)
    ((intro exI conjI, assumption, simp)+)

text \<open>A VMS entry whose protection was read has no file type at all, so a \<open>.DIR\<close>
  entry, whose extension has been cut off, is not a directory any more: the mode is assigned after
  the directory bit was set.\<close>

theorem vms_entry_has_no_type:
  assumes "gftp_parse_ls GFTP_DIRTYPE_VMS next_line env line = Some (0, f)"
    and "gf_user f \<noteq> None"
  shows "gf_st_mode f AND S_IFMT = 0 \<and> \<not> S_ISDIR (gf_st_mode f)"
proof -
  obtain str len where "line_copy line = (str, len)" by fastforce
  with assms(1) have "gftp_parse_ls_vms next_line env str zero_file = Some (0, f)"
    by (simp add: gftp_parse_ls_def)
  then obtain p fle where "vms_fields env p fle = Some (0, f)" "gf_user fle = None"
    using ls_vms_fields assms(2) by blast
  then have "gf_st_mode f AND S_IFMT = 0"
    using vms_fields_mode assms(2) permission_bits_no_type by metis
  then show ?thesis by (simp add: S_ISDIR_def S_IFDIR_def)
qed

theorem vms_entry_has_no_type_witness:
  "\<exists>f. gftp_parse_ls GFTP_DIRTYPE_VMS None \<lparr> mktime = tm_hour, loctime = zero_tm \<rparr>
      ''WWW.DIR;1                   1  23-NOV-1999 05:47 [MYERSRG] (RWE,RWE,RE,E)'' = Some (0, f) \<and>
    gf_file f = Some ''WWW'' \<and> \<not> S_ISDIR (gf_st_mode f)"
proof -
  let ?r = "gftp_parse_ls GFTP_DIRTYPE_VMS None \<lparr> mktime = tm_hour, loctime = zero_tm \<rparr>
      ''WWW.DIR;1                   1  23-NOV-1999 05:47 [MYERSRG] (RWE,RWE,RE,E)''"
  have r: "map_option (\<lambda>(r, f). (r, gf_file f, gf_user f)) ?r = Some (0, Some ''WWW'', Some [])"
    by code_simp
  then obtain f where f: "?r = Some (0, f)" "gf_file f = Some ''WWW''" "gf_user f = Some []" by auto
  then show ?thesis using vms_entry_has_no_type [OF f(1)] by simp
qed

section \<open>What an EPLF line means\<close>

fun join_commas :: "string list \<Rightarrow> string" where
  "join_commas [] = []"
| "join_commas [p] = p"
| "join_commas (p # q # ps) = p @ CHR '','' # join_commas (q # ps)"

definition apply_fact :: "bool \<times> gftp_file \<Rightarrow> string \<Rightarrow> bool \<times> gftp_file" where
  "apply_fact acc part =
    (let (isdir, fle) = acc in
     case part of
       [] \<Rightarrow> (isdir, fle)
     | c # r \<Rightarrow> (isdir \<or> c = CHR ''/'',
         if c = CHR ''s'' then fle \<lparr> gf_size := strtol10 r \<rparr>
         else if c = CHR ''m'' then fle \<lparr> gf_datetime := strtol10 r \<rparr> else fle))"

lemma read_nat_comma: "read_nat (u @ CHR '','' # x) = read_nat u"
proof -
  have "takeWhile is_digit (u @ CHR '','' # x) = takeWhile is_digit u"
    by (induction u) (auto simp: is_digit_def code_of_def)
  then show ?thesis by (simp add: read_nat_def)
qed

lemma apply_fact_Nil [simp]: "apply_fact a [] = a"
  by (simp add: apply_fact_def split: prod.split)

lemma strtol10_comma: "strtol10 (r @ CHR '','' # x) = strtol10 r"
proof -
  have d: "dropWhile is_space (r @ CHR '','' # x) = dropWhile is_space r @ CHR '','' # x"
    by (induction r) (auto simp: is_space_def code_of_def)
  have s: "strtol_sign (v @ CHR '','' # x) =
      (fst (strtol_sign v), snd (strtol_sign v) @ CHR '','' # x)" for v
    by (cases v) auto
  show ?thesis
    by (simp add: strtol10_def d s read_nat_comma split: prod.split)
qed

lemma eplf_facts_step:
  assumes "deref p = Some c" "mem_strchr p (CHR '','') = Some m"
    and "c = CHR ''s'' \<or> c = CHR ''m'' \<Longrightarrow> strtol_at (tl p) = Some v"
  shows "eplf_facts p isdir fle =
    (let isdir' = (isdir \<or> c = CHR ''/'');
         fle' = (if c = CHR ''s'' then fle \<lparr> gf_size := v \<rparr>
                 else if c = CHR ''m'' then fle \<lparr> gf_datetime := v \<rparr> else fle)
     in case m of None \<Rightarrow> Some (isdir', fle') | Some q \<Rightarrow> eplf_facts (tl q) isdir' fle')"
  using assms by (subst eplf_facts.simps) (auto simp: Let_def)

lemma eplf_facts_parts:
  "parts \<noteq> [] \<Longrightarrow> \<forall>p \<in> set parts. CHR '','' \<notin> set p \<and> NUL \<notin> set p \<Longrightarrow>
   eplf_facts (join_commas parts @ NUL # sl) isdir fle = Some (foldl apply_fact (isdir, fle) parts)"
proof (induction parts arbitrary: isdir fle rule: join_commas.induct)
  case (2 p)
  then have n: "CHR '','' \<notin> set p" "NUL \<notin> set p" by auto
  have m: "mem_strchr (p @ NUL # sl) (CHR '','') = Some None"
    using mem_strchr_miss [OF n] by simp
  show ?case
  proof (cases p)
    case Nil
    then show ?thesis using m by (subst eplf_facts_step [where c = NUL]) (auto simp: apply_fact_def)
  next
    case (Cons c r)
    have "strtol_at (tl (p @ NUL # sl)) = Some (strtol10 r)"
      using n cstr_NUL [of r sl] by (simp add: Cons strtol_at_def)
    then show ?thesis using m Cons
      by (subst eplf_facts_step [where c = c and v = "strtol10 r"]) (auto simp: apply_fact_def Let_def)
  qed
next
  case (3 p q ps)
  let ?rest = "join_commas (q # ps)"
  have n: "CHR '','' \<notin> set p" "NUL \<notin> set p" using 3 by auto
  have nr: "NUL \<notin> set ?rest" using "3.prems"(2)
    by (induction "q # ps" arbitrary: q ps rule: join_commas.induct) auto
  have IH: "eplf_facts (?rest @ NUL # sl) i f = Some (foldl apply_fact (i, f) (q # ps))" for i f
    using "3.IH" 3 by simp
  have m: "mem_strchr (p @ CHR '','' # ?rest @ NUL # sl) (CHR '','') = Some (Some (CHR '','' # ?rest @ NUL # sl))"
    using mem_strchr_hit [OF n] by simp
  show ?case
  proof (cases p)
    case Nil
    have "eplf_facts (CHR '','' # ?rest @ NUL # sl) isdir fle = eplf_facts (?rest @ NUL # sl) isdir fle"
      using m Nil by (subst eplf_facts_step [where c = "CHR '',''"]) auto
    then show ?thesis using IH Nil by simp
  next
    case (Cons c r)
    have v: "strtol_at (r @ CHR '','' # ?rest @ NUL # sl) = Some (strtol10 r)"
      using n nr cstr_NUL [of "r @ CHR '','' # ?rest" sl]
      by (simp add: Cons strtol_at_def strtol10_comma)
    have "eplf_facts (p @ CHR '','' # ?rest @ NUL # sl) isdir fle =
        eplf_facts (?rest @ NUL # sl) (fst (apply_fact (isdir, fle) p)) (snd (apply_fact (isdir, fle) p))"
      using v m Cons
      by (subst eplf_facts_step [where c = c and v = "strtol10 r"]) (auto simp: apply_fact_def Let_def)
    then show ?thesis using IH by simp
  qed
qed simp

text \<open>An EPLF line is read as its comma-separated facts, each by its first letter; the
  name is what follows the first tab. The facts are all the comma-separated parts of the whole line,
  those inside the name too.\<close>

theorem eplf_line_read:
  assumes "parts \<noteq> []" "\<forall>p \<in> set parts. CHR '','' \<notin> set p \<and> NUL \<notin> set p"
    and "join_commas parts = facts @ TAB # name" "TAB \<notin> set facts"
    and "name \<noteq> []" "last name \<noteq> LF" "last name \<noteq> CR" "is_eol e"
  shows "gftp_parse_ls GFTP_DIRTYPE_EPLF next_line env (CHR ''+'' # join_commas parts @ e) =
    (let (isdir, fle) = foldl apply_fact (False, zero_file) parts
     in Some (0, fle \<lparr> gf_st_mode := (if isdir then directory_mode else plain_file_mode),
       gf_file := Some name, gf_user := Some ''unknown'', gf_group := Some ''unknown'' \<rparr>))"
proof -
  let ?line = "CHR ''+'' # join_commas parts"
  let ?sl = "replicate (length e) NUL"
  have "line_copy (?line @ e) = (?line @ NUL # ?sl, length ?line)"
    using assms(3,5-8) by (intro line_copy_eol) auto
  moreover have "NUL \<notin> set (join_commas parts)"
    using assms(2) by (induction parts rule: join_commas.induct) auto
  then have "NUL \<notin> set facts" "NUL \<notin> set name" using assms(3) by auto
  then have "mem_strchr (?line @ NUL # ?sl) TAB = Some (Some (TAB # name @ NUL # ?sl))"
    "cstr (name @ NUL # ?sl) = Some name"
    using mem_strchr_hit [of TAB facts "name @ NUL # ?sl"] assms(3,4) cstr_NUL by simp_all
  ultimately show ?thesis
    using eplf_facts_parts [OF assms(1,2), of ?sl False zero_file]
    by (auto simp: gftp_parse_ls_def gftp_parse_ls_eplf_def ptr_add_def Let_def split: prod.split)
qed

theorem eplf_line_read_witness:
  "gftp_parse_ls GFTP_DIRTYPE_EPLF None \<lparr> mktime = tm_hour, loctime = zero_tm \<rparr>
     (''+s10,m825718503,r,'' @ TAB # ''djb.html'') =
   Some (0, zero_file \<lparr> gf_st_mode := plain_file_mode, gf_size := 10, gf_datetime := 825718503,
     gf_file := Some ''djb.html'', gf_user := Some ''unknown'', gf_group := Some ''unknown'' \<rparr>)"
proof -
  let ?parts = "[''s10'', ''m825718503'', ''r'', TAB # ''djb.html'']"
  have v: "strtol10 ''10'' = 10" "strtol10 ''825718503'' = 825718503"
    by (simp_all add: strtol10_def is_space_def code_of_def read_nat_def is_digit_def digit_val_def clamp64_def)
  show ?thesis
    using eplf_line_read [of ?parts "''s10,m825718503,r,''" "''djb.html''" "[]" None
        "\<lparr> mktime = tm_hour, loctime = zero_tm \<rparr>"]
    by (simp add: is_eol_def apply_fact_def v)
qed

text \<open>So a file name can overwrite the size and turn a file into a directory.\<close>

theorem eplf_name_read_as_facts:
  "map_option (\<lambda>(r, f). (r, gf_file f, gf_size f, S_ISDIR (gf_st_mode f)))
     (gftp_parse_ls GFTP_DIRTYPE_EPLF next_line env (''+s10,'' @ TAB # ''a,s5,/b'')) =
   Some (0, Some ''a,s5,/b'', 5, True)"
  by code_simp

end
