(* ===== verification/Request_State.thy ===== *)
theory Request_State
  imports Gftp_Prelude
begin

text \<open>
  The state of a connection: the data fields of \<open>struct gftp_request_tag\<close> (\<open>lib/gftp.h\<close>), the
  macros \<open>gftp_need_username\<close> and \<open>gftp_need_password\<close>, and \<open>compare_request\<close> (\<open>lib/misc.c\<close>).
  The function pointers of the structure are the record \<open>proto_ops\<close> of the theory Requests. Left out
  are the fields no modelled operation reads: the iconv handles, the GUI's \<open>user_data\<close>, the SSL
  handle, the wake-up pipe and the per-request option table (option values are arguments).
\<close>

record gftp_request =
  rq_protonum :: int
  rq_hostname :: "string option"
  rq_username :: "string option"
  rq_password :: "string option"
  rq_account :: "string option"
  rq_directory :: "string option"
  rq_url_prefix :: "string option"
  rq_last_ftp_response :: "string option"
  rq_last_dir_entry :: "string option"
  rq_last_dir_entry_len :: nat
  rq_port :: nat
  rq_datafd :: int
  rq_cachefd :: int
  rq_remote_addr :: "string option"
  rq_ai_family :: int
  rq_server_type :: int
  rq_use_proxy :: bool
  rq_always_connected :: bool
  rq_need_hostport :: bool
  rq_need_username :: bool
  rq_need_password :: bool
  rq_use_cache :: bool
  rq_cached :: bool
  rq_cancel :: bool
  rq_stopable :: bool
  rq_refreshing :: bool
  rq_use_local_encoding :: bool
  rq_gotbytes :: int

definition GFTP_ANONYMOUS_USER :: string where "GFTP_ANONYMOUS_USER = ''anonymous''"

text \<open>\<open>s == NULL || *s == '\0'\<close>.\<close>

definition no_text :: "string option \<Rightarrow> bool" where
  "no_text s \<longleftrightarrow> s = None \<or> s = Some []"

definition gftp_need_username :: "gftp_request \<Rightarrow> bool" where
  "gftp_need_username r \<longleftrightarrow> rq_need_username r \<and> no_text (rq_username r)"

definition gftp_need_password :: "gftp_request \<Rightarrow> bool" where
  "gftp_need_password r \<longleftrightarrow> rq_need_password r \<and>
     (case rq_username r of
        None \<Rightarrow> False
      | Some u \<Rightarrow> u \<noteq> [] \<and> strcasecmp u GFTP_ANONYMOUS_USER \<noteq> 0 \<and> no_text (rq_password r))"

fun differ :: "string option \<Rightarrow> string option \<Rightarrow> bool" where
  "differ None None = False"
| "differ (Some a) (Some b) = (a \<noteq> b)"
| "differ _ _ = True"

definition compare_request :: "gftp_request \<Rightarrow> gftp_request \<Rightarrow> bool \<Rightarrow> bool" where
  "compare_request r1 r2 compare_dirs =
    (if rq_protonum r1 = rq_protonum r2 \<and> rq_port r1 = rq_port r2
     then \<not> differ (rq_hostname r1) (rq_hostname r2) \<and> \<not> differ (rq_username r1) (rq_username r2) \<and>
          (compare_dirs \<longrightarrow> \<not> differ (rq_directory r1) (rq_directory r2))
     else False)"

lemma differ_iff [simp]: "differ a b \<longleftrightarrow> a \<noteq> b"
  by (cases a; cases b) auto

end
