(* ===== verification/Cache_Index.thy ===== *)
theory Cache_Index
  imports Request_State Line_Reader
begin

text \<open>
  \<open>lib/cache.c\<close>: the index of cached directory listings. Each line of \<open>index.db\<close> is an entry
  (description, file name, server type, expiration date, separated by tabs); the listing itself is in
  a file made by \<open>mkstemp\<close>. The state is the content of the two index files and of the cache files;
  the clock, \<open>mkstemp\<close>'s name and the failures of the system calls are arguments. The index is read
  through \<open>gftp_get_line\<close> and written through \<open>gftp_fd_write\<close> (theory Line\_Reader).
\<close>


section \<open>Lines of the index\<close>

definition int32_wrap :: "int \<Rightarrow> int" where
  "int32_wrap i = (i + 2 ^ 31) mod 2 ^ 32 - 2 ^ 31"

lemma int32_wrap_id [simp]: "- (2 ^ 31) \<le> i \<Longrightarrow> i < 2 ^ 31 \<Longrightarrow> int32_wrap i = i"
  by (simp add: int32_wrap_def)

text \<open>The fields of \<open>struct gftp_cache_entry_tag\<close>; the pointers into the line are offsets.\<close>

record gftp_cache_entry =
  ce_url :: "string option"
  ce_file :: "string option"
  ce_server_type :: int
  ce_expiration_date :: int
  ce_pos1 :: "nat option"
  ce_pos2 :: "nat option"
  ce_pos3 :: "nat option"

definition zero_entry :: gftp_cache_entry where
  "zero_entry = \<lparr> ce_url = None, ce_file = None, ce_server_type = 0, ce_expiration_date = 0,
     ce_pos1 = None, ce_pos2 = None, ce_pos3 = None \<rparr>"

text \<open>The next tab that is followed by something: the text before it and after it.\<close>

definition split_tab :: "string \<Rightarrow> (string \<times> string) option" where
  "split_tab s =
    (case strchr s TAB of
       None \<Rightarrow> None
     | Some p \<Rightarrow> if tl p = [] then None else Some (before s p, tl p))"

text \<open>\<open>gftp_parse_cache_line\<close> overwrites the three tabs with terminators. The result is the
  return value, the entry, and the line buffer; the texts are those up to the new terminators (the
  file name keeps the second tab and what follows while only the first one has been found).\<close>

definition gftp_parse_cache_line :: "string \<Rightarrow> int \<times> gftp_cache_entry \<times> string" where
  "gftp_parse_cache_line line =
    (case split_tab line of
       None \<Rightarrow> (-1, zero_entry, line)
     | Some (url, rest1) \<Rightarrow>
         let p1 = length url; line1 = line[p1 := NUL];
             centry1 = zero_entry \<lparr> ce_pos1 := Some p1, ce_url := Some url, ce_file := Some rest1 \<rparr>
         in case split_tab rest1 of
              None \<Rightarrow> (-1, centry1, line1)
            | Some (file, rest2) \<Rightarrow>
                let p2 = p1 + 1 + length file; line2 = line1[p2 := NUL];
                    centry2 = centry1 \<lparr> ce_pos2 := Some p2, ce_file := Some file,
                                        ce_server_type := int32_wrap (strtol10 rest2) \<rparr>
                in case split_tab rest2 of
                     None \<Rightarrow> (-1, centry2, line2)
                   | Some (server, rest3) \<Rightarrow>
                       let p3 = p2 + 1 + length server
                       in (0, centry2 \<lparr> ce_pos3 := Some p3, ce_expiration_date := strtol10 rest3 \<rparr>,
                           line2[p3 := NUL]))"

definition put_tab :: "nat option \<Rightarrow> string \<Rightarrow> string" where
  "put_tab p line = (case p of None \<Rightarrow> line | Some k \<Rightarrow> line[k := TAB])"

definition gftp_restore_cache_line :: "gftp_cache_entry \<Rightarrow> string \<Rightarrow> string" where
  "gftp_restore_cache_line centry line =
     put_tab (ce_pos3 centry) (put_tab (ce_pos2 centry) (put_tab (ce_pos1 centry) line))"


section \<open>Descriptions\<close>

definition BUFSIZ :: nat where "BUFSIZ = 8192"

text \<open>\<open>%s\<close> of a pointer that may be NULL, and the \<open>x == NULL ? "" : x\<close> of the callers.\<close>

definition printf_s :: "string option \<Rightarrow> string" where
  "printf_s s = (case s of None \<Rightarrow> ''(null)'' | Some t \<Rightarrow> t)"

definition or_empty :: "string option \<Rightarrow> string" where
  "or_empty s = (case s of None \<Rightarrow> [] | Some t \<Rightarrow> t)"

definition full_description :: "gftp_request \<Rightarrow> bool \<Rightarrow> string" where
  "full_description request ignore_directory =
     printf_s (rq_url_prefix request) @ ''://'' @ or_empty (rq_username request) @ ''@'' @
     or_empty (rq_hostname request) @ '':'' @ show_int (int32_wrap (int (rq_port request))) @
     (if ignore_directory then [] else or_empty (rq_directory request))"

text \<open>\<open>g_snprintf\<close> into \<open>len\<close> bytes.\<close>

definition gftp_generate_cache_description :: "gftp_request \<Rightarrow> nat \<Rightarrow> bool \<Rightarrow> string" where
  "gftp_generate_cache_description request len ignore_directory =
     take (len - 1) (full_description request ignore_directory)"


section \<open>The cache directory\<close>

record cache_fs =
  index_db :: "string option"
  index_new :: "string option"
  cache_files :: "string \<Rightarrow> string option"

text \<open>What the system calls of \<open>gftp_new_cache_entry\<close> report: whether the directory is there or
  can be made, whether the index opens, the name from \<open>mkstemp\<close>, the channel of the index, and
  whether \<open>close\<close> succeeds. The result is the name of the open cache file; \<^term>\<open>None\<close> is \<open>-1\<close>.\<close>

record new_calls =
  dir_ready :: bool
  index_opens :: bool
  temp_name :: "string option"
  index_channel :: channel
  close_works :: bool

definition index_line :: "gftp_request \<Rightarrow> string \<Rightarrow> int \<Rightarrow> string" where
  "index_line request file expires =
     full_description request False @ [TAB] @ file @ [TAB] @ show_int (rq_server_type request) @ [TAB] @
     show_int expires @ [LF]"

definition gftp_new_cache_entry ::
  "new_calls \<Rightarrow> int \<Rightarrow> int \<Rightarrow> gftp_request \<Rightarrow> cache_fs \<Rightarrow> string option \<times> cache_fs" where
  "gftp_new_cache_entry os now cache_ttl request fs =
    (if \<not> dir_ready os \<or> \<not> index_opens os then (None, fs)
     else let old = (case index_db fs of None \<Rightarrow> [] | Some c \<Rightarrow> c);
              fs = fs \<lparr> index_db := Some old \<rparr>
          in case temp_name os of
               None \<Rightarrow> (None, fs)
             | Some name \<Rightarrow>
                 let fs = fs \<lparr> cache_files := (cache_files fs)(name \<mapsto> []) \<rparr>;
                     (ret, ch) = gftp_fd_write (index_line request name (off_wrap (now + cache_ttl)))
                                   (index_channel os \<lparr> written := [], cancel_flag := None \<rparr>);
                     fs = fs \<lparr> index_db := Some (old @ written ch) \<rparr>
                 in if \<not> close_works os \<or> ret < 0 then (None, fs) else (Some name, fs))"

text \<open>The lines a loop \<open>while (gftp_get_line (...) > 0)\<close> over an index sees.\<close>

definition index_lines :: "nat \<Rightarrow> string \<Rightarrow> string list" where
  "index_lines len content =
    (case read_lines gftp_fd_read (length content + 1) None len (file_channel content) of
       Inl _ \<Rightarrow> [] | Inr ls \<Rightarrow> ls)"

fun find_entry :: "string \<Rightarrow> int \<Rightarrow> string list \<Rightarrow> (string \<times> int) option" where
  "find_entry description now [] = None"
| "find_entry description now (buf # ls) =
    (case gftp_parse_cache_line buf of
       (ret, centry, _) \<Rightarrow>
         if ret < 0 then find_entry description now ls
         else if ce_expiration_date centry < now then find_entry description now ls
         else (case (ce_url centry, ce_file centry) of
                 (Some url, Some file) \<Rightarrow>
                   if description = url then Some (file, ce_server_type centry)
                   else find_entry description now ls
               | _ \<Rightarrow> None))"

text \<open>The result is the name of the open file, and the request with the server type of the
  entry. The first entry that matches decides, even when its file is missing or empty.\<close>

definition gftp_find_cache_entry ::
  "int \<Rightarrow> gftp_request \<Rightarrow> cache_fs \<Rightarrow> string option \<times> gftp_request" where
  "gftp_find_cache_entry now request fs =
    (case index_db fs of
       None \<Rightarrow> (None, request)
     | Some content \<Rightarrow>
         (case find_entry (gftp_generate_cache_description request BUFSIZ False) now
                 (index_lines BUFSIZ content) of
            None \<Rightarrow> (None, request)
          | Some (file, server_type) \<Rightarrow>
              (case cache_files fs file of
                 None \<Rightarrow> (None, request)
               | Some listing \<Rightarrow>
                   if listing = [] then (None, request)
                   else (Some file, request \<lparr> rq_server_type := server_type \<rparr>))))"

definition unlink_entry :: "string \<Rightarrow> cache_fs \<Rightarrow> cache_fs" where
  "unlink_entry buf fs =
    (case gftp_parse_cache_line buf of
       (ret, centry, _) \<Rightarrow>
         if ret < 0 then fs
         else (case ce_file centry of
                 None \<Rightarrow> fs
               | Some file \<Rightarrow> fs \<lparr> cache_files := (cache_files fs)(file := None) \<rparr>))"

definition gftp_clear_cache_files :: "cache_fs \<Rightarrow> cache_fs" where
  "gftp_clear_cache_files fs =
    (case index_db fs of
       None \<Rightarrow> fs
     | Some content \<Rightarrow> (fold unlink_entry (index_lines BUFSIZ content) fs) \<lparr> index_db := None \<rparr>)"

text \<open>The loop of \<open>gftp_delete_cache_entry\<close>. The buffer of a kept entry gets a newline at its
  end, and \<open>len - 1\<close> bytes of it are written, since \<open>len\<close> is decremented by the assignment.\<close>

fun delete_loop ::
  "string \<Rightarrow> bool \<Rightarrow> int \<Rightarrow> string list \<Rightarrow> channel \<Rightarrow> cache_fs \<Rightarrow> channel \<times> cache_fs" where
  "delete_loop description ignore_directory now [] ch fs = (ch, fs)"
| "delete_loop description ignore_directory now (buf # ls) ch fs =
    (case gftp_parse_cache_line buf of
       (ret, centry, mem) \<Rightarrow>
         if ret < 0 then delete_loop description ignore_directory now ls ch fs
         else let url = or_empty (ce_url centry);
                  del_entry =
                    (if ce_expiration_date centry < now then True
                     else if ignore_directory then starts_with description url
                     else url = description)
              in if del_entry
                 then delete_loop description ignore_directory now ls ch
                        (fs \<lparr> cache_files := (cache_files fs)(or_empty (ce_file centry) := None) \<rparr>)
                 else let buf' = gftp_restore_cache_line centry mem;
                          len = length buf';
                          (wret, ch') = gftp_fd_write (take (len - 1) (buf' @ [LF])) ch
                      in if wret < 0 then (ch', fs)
                         else delete_loop description ignore_directory now ls ch' fs)"

text \<open>The description is the request's, or the one given (cut to the buffer). The new index is
  opened without truncation, so a left-over one keeps what is not overwritten.\<close>

definition gftp_delete_cache_entry ::
  "int \<Rightarrow> gftp_request option \<Rightarrow> string option \<Rightarrow> bool \<Rightarrow> bool \<Rightarrow> channel \<Rightarrow> cache_fs \<Rightarrow> cache_fs" where
  "gftp_delete_cache_entry now request descr ignore_directory new_opens ch fs =
    (case (request, descr) of
       (None, None) \<Rightarrow> fs
     | _ \<Rightarrow>
        let description =
              (case request of
                 Some r \<Rightarrow> gftp_generate_cache_description r BUFSIZ ignore_directory
               | None \<Rightarrow> take (BUFSIZ - 1) (or_empty descr))
        in case index_db fs of
             None \<Rightarrow> fs
           | Some content \<Rightarrow>
               if \<not> new_opens then fs
               else let (ch', fs') = delete_loop description ignore_directory now
                                       (index_lines (BUFSIZ - 1) content)
                                       (ch \<lparr> written := [], cancel_flag := None \<rparr>) fs;
                        leftover = or_empty (index_new fs)
                    in fs' \<lparr> index_db := Some (written ch' @ drop (length (written ch')) leftover),
                             index_new := None \<rparr>)"

section \<open>Parsing and restoring a line\<close>

lemma split_tab_SomeD: "split_tab s = Some (a, b) \<Longrightarrow> s = a @ TAB # b \<and> b \<noteq> [] \<and> TAB \<notin> set a"
proof -
  assume s: "split_tab s = Some (a, b)"
  then obtain p where p: "strchr s TAB = Some p" "tl p \<noteq> []" "a = before s p" "b = tl p"
    by (auto simp: split_tab_def split: option.splits if_splits)
  obtain u q where "s = u @ p" "p = TAB # q" "TAB \<notin> set u" using strchr_SomeD [OF p(1)] by blast
  with p show ?thesis by simp
qed

lemma split_tab_hit: "TAB \<notin> set a \<Longrightarrow> b \<noteq> [] \<Longrightarrow> split_tab (a @ TAB # b) = Some (a, b)"
  using strchr_append [of TAB a b] before_append [of a "TAB # b"] by (simp add: split_tab_def)

text \<open>The tabs that parsing overwrites are put back exactly: whatever the line was and
  wherever parsing stopped, restoring gives the line again, and on success the line is the four fields.\<close>

theorem cache_line_restored:
  assumes "gftp_parse_cache_line line = (ret, centry, mem)"
  shows "gftp_restore_cache_line centry mem = line \<and>
    (ret = 0 \<longrightarrow> (\<exists>url file server expires.
       line = url @ TAB # file @ TAB # server @ TAB # expires \<and>
       ce_url centry = Some url \<and> ce_file centry = Some file \<and>
       ce_server_type centry = int32_wrap (strtol10 (server @ TAB # expires)) \<and>
       ce_expiration_date centry = strtol10 expires))"
proof (cases "split_tab line")
  case None
  then show ?thesis using assms
    by (auto simp: gftp_parse_cache_line_def zero_entry_def gftp_restore_cache_line_def put_tab_def)
next
  case (Some x)
  then obtain url r1 where s1: "split_tab line = Some (url, r1)" by (cases x) auto
  note l1 = split_tab_SomeD [OF s1]
  show ?thesis
  proof (cases "split_tab r1")
    case None
    then show ?thesis using assms s1 l1
      by (auto simp: gftp_parse_cache_line_def zero_entry_def gftp_restore_cache_line_def put_tab_def
          list_update_append)
  next
    case (Some y)
    then obtain fname r2 where s2: "split_tab r1 = Some (fname, r2)" by (cases y) auto
    note l2 = split_tab_SomeD [OF s2]
    show ?thesis
    proof (cases "split_tab r2")
      case None
      then show ?thesis using assms s1 s2 l1 l2
        by (auto simp: gftp_parse_cache_line_def Let_def zero_entry_def gftp_restore_cache_line_def
            put_tab_def list_update_append)
    next
      case (Some z)
      then obtain server r3 where s3: "split_tab r2 = Some (server, r3)" by (cases z) auto
      note l3 = split_tab_SomeD [OF s3]
      show ?thesis using assms s1 s2 s3 l1 l2 l3
        by (auto simp: gftp_parse_cache_line_def Let_def zero_entry_def gftp_restore_cache_line_def
            put_tab_def list_update_append) (rule exI [of _ server], rule exI [of _ r3], simp)
    qed
  qed
qed

theorem cache_line_restored_witness:
  "\<exists>centry mem. gftp_parse_cache_line (''u'' @ TAB # ''f'' @ TAB # ''1'' @ TAB # ''9'') = (0, centry, mem) \<and>
     gftp_restore_cache_line centry mem = ''u'' @ TAB # ''f'' @ TAB # ''1'' @ TAB # ''9''"
proof -
  let ?line = "''u'' @ TAB # ''f'' @ TAB # ''1'' @ TAB # ''9''"
  have "fst (gftp_parse_cache_line ?line) = 0" by code_simp
  then obtain c m where p: "gftp_parse_cache_line ?line = (0, c, m)"
    by (cases "gftp_parse_cache_line ?line") auto
  show ?thesis using cache_line_restored [OF p] p by blast
qed


section \<open>The index as a list of entries\<close>

record cache_item =
  ci_url :: string
  ci_file :: string
  ci_server :: int
  ci_expires :: int

definition entry_text :: "cache_item \<Rightarrow> string" where
  "entry_text e = ci_url e @ TAB # ci_file e @ TAB # show_int (ci_server e) @ TAB # show_int (ci_expires e)"

definition plain_text :: "string \<Rightarrow> bool" where
  "plain_text s \<longleftrightarrow> TAB \<notin> set s \<and> LF \<notin> set s \<and> NUL \<notin> set s"

definition item_ok :: "cache_item \<Rightarrow> bool" where
  "item_ok e \<longleftrightarrow> plain_text (ci_url e) \<and> plain_text (ci_file e) \<and>
     - (2 ^ 31) \<le> ci_server e \<and> ci_server e < 2 ^ 31 \<and>
     - (2 ^ 63) \<le> ci_expires e \<and> ci_expires e < 2 ^ 63 \<and> length (entry_text e) < BUFSIZ - 1"

definition index_text :: "cache_item list \<Rightarrow> string" where
  "index_text es = concat (map (\<lambda>e. entry_text e @ [LF]) es)"

text \<open>What a look-up in such an index means.\<close>

fun find_item :: "string \<Rightarrow> int \<Rightarrow> cache_item list \<Rightarrow> (string \<times> int) option" where
  "find_item url now [] = None"
| "find_item url now (e # es) =
     (if now \<le> ci_expires e \<and> ci_url e = url then Some (ci_file e, ci_server e) else find_item url now es)"

lemma show_int_chars: "c \<in> set (show_int i) \<Longrightarrow> is_digit c \<or> c = CHR ''-''"
  by (auto simp: show_int_def split: if_splits)

lemma show_int_plain [simp]: "plain_text (show_int i)" "show_int i \<noteq> []"
proof -
  show "plain_text (show_int i)"
    using show_int_chars [of TAB i] show_int_chars [of LF i] show_int_chars [of NUL i]
    by (auto simp: plain_text_def is_digit_def)
  show "show_int i \<noteq> []" by (simp add: show_int_def)
qed

lemma parse_entry_text:
  assumes "item_ok e"
  shows "\<exists>centry mem. gftp_parse_cache_line (entry_text e @ r) = (0, centry, mem) \<and>
    ce_url centry = Some (ci_url e) \<and> ce_file centry = Some (ci_file e) \<and>
    ce_server_type centry = ci_server e \<and>
    ce_expiration_date centry = strtol10 (show_int (ci_expires e) @ r)"
proof -
  have t: "TAB \<notin> set (ci_url e)" "TAB \<notin> set (ci_file e)" "TAB \<notin> set (show_int (ci_server e))"
    using assms show_int_plain(1) [of "ci_server e"] by (auto simp: item_ok_def plain_text_def)
  have "strtol10 (show_int (ci_server e) @ TAB # show_int (ci_expires e) @ r) = ci_server e"
    using assms by (intro strtol_show_int) (auto simp: item_ok_def is_digit_def)
  then show ?thesis
    using t assms
    by (simp add: gftp_parse_cache_line_def entry_text_def split_tab_hit Let_def zero_entry_def item_ok_def)
qed

lemma parse_entry:
  assumes "item_ok e"
  shows "\<exists>centry mem. gftp_parse_cache_line (entry_text e) = (0, centry, mem) \<and>
    ce_url centry = Some (ci_url e) \<and> ce_file centry = Some (ci_file e) \<and>
    ce_server_type centry = ci_server e \<and> ce_expiration_date centry = ci_expires e"
proof -
  have "strtol10 (show_int (ci_expires e) @ []) = ci_expires e"
    using assms by (intro strtol_show_int) (auto simp: item_ok_def)
  then show ?thesis using parse_entry_text [OF assms, of "[]"] by simp
qed

lemma find_entry_items:
  "\<forall>e \<in> set es. item_ok e \<Longrightarrow> find_entry url now (map entry_text es) = find_item url now es"
proof (induction es)
  case (Cons e es)
  obtain centry mem where "gftp_parse_cache_line (entry_text e) = (0, centry, mem)"
    "ce_url centry = Some (ci_url e)" "ce_file centry = Some (ci_file e)"
    "ce_server_type centry = ci_server e" "ce_expiration_date centry = ci_expires e"
    using parse_entry [of e] Cons.prems by auto
  then show ?case using Cons by auto
qed simp

lemma stream_lines_line:
  assumes "LF \<notin> set l" "length l < m" "l = [] \<or> last l \<noteq> CR"
  shows "stream_lines m (l @ LF # rest) = l # stream_lines m rest"
proof -
  have "takeWhile ((\<noteq>) LF) (l @ LF # rest) = l" using assms(1) by (induction l) auto
  moreover have "LF \<in> set (take m (l @ LF # rest))" using assms(2) by (simp add: take_Cons')
  moreover have "chop_cr l = l" using assms(3) by (auto simp: chop_cr_def)
  ultimately have "stream_line m (l @ LF # rest) = Some (l, length l + 1)"
    by (simp add: stream_line_def)
  then show ?thesis using assms(2) by (simp add: stream_lines.simps [of m "l @ LF # rest"])
qed

lemma stream_lines_last:
  assumes "LF \<notin> set l" "length l \<le> m" "l \<noteq> []"
  shows "stream_lines m l = [l]"
proof -
  have "stream_line m l = Some (l, length l)"
    using assms in_set_takeD by (fastforce simp: stream_line_def)
  moreover have "m \<noteq> 0" using assms(2,3) by (cases l) auto
  moreover have "stream_lines m [] = []" by (simp add: stream_lines.simps [of m "[]"] stream_line_def)
  ultimately show ?thesis by (simp add: stream_lines.simps [of m l])
qed

lemma entry_text_line:
  assumes "item_ok e"
  shows "LF \<notin> set (entry_text e)" "NUL \<notin> set (entry_text e)" "entry_text e \<noteq> []"
    "last (entry_text e) \<noteq> CR" "length (entry_text e) < BUFSIZ - 1"
proof -
  have p: "plain_text (show_int (ci_server e))" "plain_text (show_int (ci_expires e))" by simp_all
  show "LF \<notin> set (entry_text e)" "NUL \<notin> set (entry_text e)" "entry_text e \<noteq> []"
    using assms p by (auto simp: entry_text_def item_ok_def plain_text_def)
  have "last (entry_text e) \<in> set (show_int (ci_expires e))"
    by (simp add: entry_text_def)
  then show "last (entry_text e) \<noteq> CR"
    using show_int_chars [of "last (entry_text e)" "ci_expires e"] by (auto simp: is_digit_def)
  show "length (entry_text e) < BUFSIZ - 1" using assms by (simp add: item_ok_def)
qed

lemma stream_lines_index:
  "\<forall>e \<in> set es. item_ok e \<Longrightarrow> BUFSIZ - 1 \<le> m \<Longrightarrow> stream_lines m (index_text es) = map entry_text es"
proof (induction es)
  case Nil
  then show ?case by (simp add: index_text_def stream_lines.simps [of m "[]"] BUFSIZ_def stream_line_def)
next
  case (Cons e es)
  then have "stream_lines m (entry_text e @ LF # index_text es) = entry_text e # stream_lines m (index_text es)"
    using entry_text_line [of e] by (intro stream_lines_line) auto
  then show ?case using Cons by (simp add: index_text_def)
qed

lemma index_lines_content:
  assumes "NUL \<notin> set content" "0 < len"
  shows "index_lines len content = map (take (len - 1)) (stream_lines len content)"
  unfolding index_lines_def
  using fdata.read_lines_all [of "file_channel content" len "length content + 1"] assms by simp

lemma index_lines_items:
  assumes "\<forall>e \<in> set es. item_ok e" "m = BUFSIZ \<or> m = BUFSIZ - 1"
  shows "index_lines m (index_text es) = map entry_text es"
proof -
  have n: "NUL \<notin> set (index_text es)" using assms(1) entry_text_line(2) by (auto simp: index_text_def)
  have "index_lines m (index_text es) = map (take (m - 1)) (map entry_text es)"
    using index_lines_content [OF n, of m] stream_lines_index [OF assms(1), of m] assms(2)
    by (auto simp: BUFSIZ_def)
  also have "\<dots> = map entry_text es"
    using assms entry_text_line(5) by (fastforce intro!: map_idI simp: BUFSIZ_def)
  finally show ?thesis .
qed

lemma find_item_skip:
  "\<forall>e \<in> set es. ci_url e = url \<longrightarrow> ci_expires e < now \<Longrightarrow>
   find_item url now (es @ es') = find_item url now es'"
  by (induction es) auto

text \<open>The request's entry in the index.\<close>

definition item_of :: "gftp_request \<Rightarrow> string \<Rightarrow> int \<Rightarrow> cache_item" where
  "item_of request file expires =
     \<lparr> ci_url = full_description request False, ci_file = file, ci_server = rq_server_type request,
       ci_expires = expires \<rparr>"

lemma index_line_item: "index_line request file expires = entry_text (item_of request file expires) @ [LF]"
  by (simp add: index_line_def entry_text_def item_of_def)

lemma fd_write_no_events:
  "script ch = [] \<Longrightarrow> gftp_fd_write p ch = (int (length p), ch \<lparr> script := [], written := written ch @ p \<rparr>)"
  by (simp add: gftp_fd_write_def)

lemma find_cache_items:
  assumes "index_db fs = Some (index_text es)" "\<forall>e \<in> set es. item_ok e"
    and "length (full_description request False) < BUFSIZ"
  shows "gftp_find_cache_entry now request fs =
    (case find_item (full_description request False) now es of
       None \<Rightarrow> (None, request)
     | Some (file, server_type) \<Rightarrow>
         if cache_files fs file = None \<or> cache_files fs file = Some [] then (None, request)
         else (Some file, request \<lparr> rq_server_type := server_type \<rparr>))"
proof -
  have "gftp_generate_cache_description request BUFSIZ False = full_description request False"
    using assms(3) by (simp add: gftp_generate_cache_description_def)
  then show ?thesis
    using index_lines_items [OF assms(2), of BUFSIZ] find_entry_items [OF assms(2)] assms(1)
    by (auto simp: gftp_find_cache_entry_def split: option.split)
qed

text \<open>C20: A listing that was put in the cache is found again: after a new entry was made
  for a request and its file filled, the same request finds that file until the time to live is over,
  unless an older entry for the same description is still valid.\<close>

theorem new_entry_found:
  assumes "dir_ready os" "index_opens os" "temp_name os = Some name" "close_works os"
    and "script (index_channel os) = []"
    and "index_db fs = (if es = [] then None else Some (index_text es))"
    and "\<forall>e \<in> set es. item_ok e \<and> (ci_url e = full_description request False \<longrightarrow> ci_expires e < later)"
    and "item_ok (item_of request name (now + cache_ttl))"
    and "later \<le> now + cache_ttl" "listing \<noteq> []"
    and "gftp_new_cache_entry os now cache_ttl request fs = (r, fs')"
  shows "r = Some name \<and>
    gftp_find_cache_entry later request (fs' \<lparr> cache_files := (cache_files fs')(name \<mapsto> listing) \<rparr>) =
      (Some name, request)"
proof -
  let ?e = "item_of request name (now + cache_ttl)"
  have w: "off_wrap (now + cache_ttl) = now + cache_ttl"
    using assms(8) by (intro off_wrap_id) (auto simp: item_ok_def item_of_def)
  have old: "(case index_db fs of None \<Rightarrow> [] | Some c \<Rightarrow> c) = index_text es"
    using assms(6) by (auto simp: index_text_def)
  have r: "r = Some name" "index_db fs' = Some (index_text (es @ [?e]))"
    using assms(1-5,11) old
    by (auto simp: gftp_new_cache_entry_def fd_write_no_events w index_line_item index_text_def)
  have ok: "\<forall>e \<in> set (es @ [?e]). item_ok e" using assms(7,8) by auto
  have len: "length (full_description request False) < BUFSIZ"
    using entry_text_line(5) [OF assms(8)] by (simp add: item_of_def entry_text_def)
  have "find_item (full_description request False) later (es @ [?e]) = Some (name, rq_server_type request)"
    using assms(7,9) by (simp add: find_item_skip) (simp add: item_of_def)
  then show ?thesis
    using find_cache_items [of "fs' \<lparr> cache_files := (cache_files fs')(name \<mapsto> listing) \<rparr>",
        OF _ ok len, of later] r assms(10)
    by simp
qed

definition me_at :: "string \<Rightarrow> gftp_request" where
  "me_at dir = \<lparr> rq_protonum = 0, rq_hostname = Some ''host'', rq_username = Some ''me'',
     rq_password = None, rq_account = None, rq_directory = Some dir, rq_url_prefix = Some ''ftp'',
     rq_last_ftp_response = None, rq_last_dir_entry = None, rq_last_dir_entry_len = 0, rq_port = 21,
     rq_datafd = 5, rq_cachefd = -1, rq_remote_addr = None, rq_ai_family = 0, rq_server_type = 1,
     rq_use_proxy = False, rq_always_connected = False, rq_need_hostport = True,
     rq_need_username = True, rq_need_password = True, rq_use_cache = True, rq_cached = False,
     rq_cancel = False, rq_stopable = False, rq_refreshing = False, rq_use_local_encoding = False,
     rq_gotbytes = 0 \<rparr>"

theorem new_entry_found_witness:
  "\<exists>fs'. gftp_new_cache_entry \<lparr> dir_ready = True, index_opens = True, temp_name = Some ''cache.1'',
        index_channel = file_channel [], close_works = True \<rparr> 1000 3600 (me_at ''/pub'')
        \<lparr> index_db = None, index_new = None, cache_files = (\<lambda>_. None) \<rparr> = (Some ''cache.1'', fs') \<and>
    gftp_find_cache_entry 4600 (me_at ''/pub'')
      (fs' \<lparr> cache_files := (cache_files fs')(''cache.1'' \<mapsto> ''total 0'') \<rparr>) = (Some ''cache.1'', me_at ''/pub'')"
proof -
  let ?os = "\<lparr> dir_ready = True, index_opens = True, temp_name = Some ''cache.1'',
    index_channel = file_channel [], close_works = True \<rparr>"
  let ?fs = "\<lparr> index_db = None, index_new = None, cache_files = (\<lambda>_. None) \<rparr>"
  obtain r fs' where n: "gftp_new_cache_entry ?os 1000 3600 (me_at ''/pub'') ?fs = (r, fs')"
    by fastforce
  have d: "full_description (me_at ''/pub'') False = ''ftp://me@host:21/pub''" by code_simp
  have s: "show_int 1 = ''1''" "show_int 4600 = ''4600''" by code_simp+
  have ok: "item_ok (item_of (me_at ''/pub'') ''cache.1'' (1000 + 3600))"
    by (simp add: item_ok_def item_of_def d plain_text_def entry_text_def s BUFSIZ_def) (simp add: me_at_def s)
  show ?thesis
    using new_entry_found [where es = "[]", OF _ _ _ _ _ _ _ ok _ _ n, of 4600 "''total 0''"] n
    by (auto simp: file_channel_def)
qed


section \<open>Deleting an entry\<close>

definition doomed :: "string \<Rightarrow> bool \<Rightarrow> int \<Rightarrow> cache_item \<Rightarrow> bool" where
  "doomed description ignore_directory now e \<longleftrightarrow> ci_expires e < now \<or>
     (if ignore_directory then starts_with description (ci_url e) else ci_url e = description)"

definition delete_description :: "gftp_request option \<Rightarrow> string option \<Rightarrow> bool \<Rightarrow> string" where
  "delete_description request descr ignore_directory =
     (case request of
        Some r \<Rightarrow> gftp_generate_cache_description r BUFSIZ ignore_directory
      | None \<Rightarrow> take (BUFSIZ - 1) (or_empty descr))"

definition without_files :: "cache_item list \<Rightarrow> (string \<Rightarrow> string option) \<Rightarrow> string \<Rightarrow> string option" where
  "without_files es g f = (if \<exists>e \<in> set es. ci_file e = f then None else g f)"

lemma without_files_simps [simp]:
  "without_files [] g = g"
  "without_files (e # es) g = without_files es (g(ci_file e := None))"
  by (auto simp: without_files_def fun_eq_iff)

lemma parse_restore: "gftp_parse_cache_line l = (ret, c, m) \<Longrightarrow> ret = 0 \<Longrightarrow> gftp_restore_cache_line c m = l"
  unfolding gftp_parse_cache_line_def Let_def
  by (auto simp: zero_entry_def gftp_restore_cache_line_def put_tab_def list_update_append
      split: option.splits prod.splits dest!: split_tab_SomeD)

lemma delete_loop_items:
  "\<forall>e \<in> set es. item_ok e \<Longrightarrow> script ch = [] \<Longrightarrow>
   \<exists>ch' fs'. delete_loop d ign now (map entry_text es) ch fs = (ch', fs') \<and>
     written ch' = written ch @ concat (map (\<lambda>e. butlast (entry_text e)) (filter (\<lambda>e. \<not> doomed d ign now e) es)) \<and>
     cache_files fs' = without_files (filter (doomed d ign now) es) (cache_files fs)"
proof (induction es arbitrary: ch fs)
  case (Cons e es)
  obtain centry mem where p: "gftp_parse_cache_line (entry_text e) = (0, centry, mem)"
    "ce_url centry = Some (ci_url e)" "ce_file centry = Some (ci_file e)"
    "ce_expiration_date centry = ci_expires e"
    using parse_entry [of e] Cons.prems by auto
  have r: "gftp_restore_cache_line centry mem = entry_text e" using parse_restore [OF p(1)] by simp
  show ?case
  proof (cases "doomed d ign now e")
    case True
    obtain ch' fs' where "delete_loop d ign now (map entry_text es) ch
        (fs \<lparr> cache_files := (cache_files fs)(ci_file e := None) \<rparr>) = (ch', fs')"
      "written ch' = written ch @ concat (map (\<lambda>e. butlast (entry_text e)) (filter (\<lambda>e. \<not> doomed d ign now e) es))"
      "cache_files fs' = without_files (filter (doomed d ign now) es)
         ((cache_files fs)(ci_file e := None))"
      using Cons.IH [of ch "fs \<lparr> cache_files := (cache_files fs)(ci_file e := None) \<rparr>"] Cons.prems
      by (auto simp del: fun_upd_apply)
    moreover have "delete_loop d ign now (map entry_text (e # es)) ch fs = delete_loop d ign now (map entry_text es) ch
        (fs \<lparr> cache_files := (cache_files fs)(ci_file e := None) \<rparr>)"
      using True p unfolding doomed_def
      by (cases "ci_expires e < now") (simp_all add: or_empty_def Let_def del: fun_upd_apply)
    ultimately show ?thesis using True by simp
  next
    case False
    let ?ch = "ch \<lparr> script := [], written := written ch @ butlast (entry_text e) \<rparr>"
    have w: "gftp_fd_write (take (length (entry_text e) - 1) (entry_text e @ [LF])) ch =
        (int (length (entry_text e) - 1), ?ch)"
      using Cons.prems(2) by (simp add: fd_write_no_events butlast_conv_take)
    obtain ch' fs' where "delete_loop d ign now (map entry_text es) ?ch fs = (ch', fs')"
      "written ch' = written ?ch @ concat (map (\<lambda>e. butlast (entry_text e)) (filter (\<lambda>e. \<not> doomed d ign now e) es))"
      "cache_files fs' = without_files (filter (doomed d ign now) es) (cache_files fs)"
      using Cons.IH [of ?ch fs] Cons.prems by auto
    moreover have "delete_loop d ign now (map entry_text (e # es)) ch fs = delete_loop d ign now (map entry_text es) ?ch fs"
      using False p r w unfolding doomed_def by (auto simp: or_empty_def Let_def)
    ultimately show ?thesis using False by simp
  qed
qed simp

lemma delete_items:
  assumes "index_db fs = Some (index_text es)" "index_new fs = None" "\<forall>e \<in> set es. item_ok e"
    and "request \<noteq> None \<or> descr \<noteq> None" "script ch = []"
  shows "\<exists>fs'. gftp_delete_cache_entry now request descr ign True ch fs = fs' \<and>
    index_db fs' = Some (concat (map (\<lambda>e. butlast (entry_text e))
      (filter (\<lambda>e. \<not> doomed (delete_description request descr ign) ign now e) es))) \<and>
    cache_files fs' = without_files
      (filter (doomed (delete_description request descr ign) ign now) es) (cache_files fs)"
proof -
  let ?d = "delete_description request descr ign"
  obtain ch' fs' where l: "delete_loop ?d ign now (map entry_text es)
      (ch \<lparr> written := [], cancel_flag := None \<rparr>) fs = (ch', fs')"
    "written ch' = concat (map (\<lambda>e. butlast (entry_text e)) (filter (\<lambda>e. \<not> doomed ?d ign now e) es))"
    "cache_files fs' = without_files (filter (doomed ?d ign now) es) (cache_files fs)"
    using delete_loop_items [OF assms(3), of "ch \<lparr> written := [], cancel_flag := None \<rparr>" ?d ign now fs] assms(5)
    by auto
  have i: "index_lines (BUFSIZ - 1) (index_text es) = map entry_text es"
    by (rule index_lines_items [OF assms(3)]) simp
  have "gftp_delete_cache_entry now request descr ign True ch fs =
      fs' \<lparr> index_db := Some (written ch'), index_new := None \<rparr>"
    using assms(1,2,4) l(1) i
    by (cases request; cases descr)
      (simp_all add: gftp_delete_cache_entry_def delete_description_def or_empty_def Let_def)
  then show ?thesis using l by auto
qed

text \<open>Deleting removes the files of the entries it is about (and of the expired ones),
  and no others. But the index it leaves has every kept entry without its last character and without
  its newline, so that all of them run together in one line.\<close>

theorem delete_truncates_entries:
  assumes "index_db fs = Some (index_text es)" "index_new fs = None" "\<forall>e \<in> set es. item_ok e"
    and "request \<noteq> None \<or> descr \<noteq> None" "script ch = []"
  shows "\<exists>fs'. gftp_delete_cache_entry now request descr ign True ch fs = fs' \<and>
    index_db fs' = Some (concat (map (\<lambda>e. butlast (entry_text e))
      (filter (\<lambda>e. \<not> doomed (delete_description request descr ign) ign now e) es))) \<and>
    (\<forall>f. cache_files fs' f =
      (if \<exists>e \<in> set es. doomed (delete_description request descr ign) ign now e \<and> ci_file e = f
       then None else cache_files fs f))"
  using delete_items [OF assms, of now ign]
  by (fastforce simp: without_files_def)

theorem delete_truncates_entries_witness:
  "\<exists>fs'. gftp_delete_cache_entry 50 None (Some ''ftp://a'') False True (file_channel [])
      \<lparr> index_db = Some (index_text
          [\<lparr> ci_url = ''ftp://a'', ci_file = ''f1'', ci_server = 1, ci_expires = 100 \<rparr>,
           \<lparr> ci_url = ''ftp://b'', ci_file = ''f2'', ci_server = 1, ci_expires = 123 \<rparr>,
           \<lparr> ci_url = ''ftp://c'', ci_file = ''f3'', ci_server = 1, ci_expires = 456 \<rparr>]),
        index_new = None, cache_files = (\<lambda>_. Some ''x'') \<rparr> = fs' \<and>
    index_db fs' = Some (''ftp://b'' @ TAB # ''f2'' @ TAB # ''1'' @ TAB # ''12ftp://c'' @ TAB # ''f3'' @ TAB #
      ''1'' @ TAB # ''45'') \<and>
    cache_files fs' ''f1'' = None \<and> cache_files fs' ''f2'' = Some ''x''"
proof -
  let ?es = "[\<lparr> ci_url = ''ftp://a'', ci_file = ''f1'', ci_server = 1, ci_expires = 100 \<rparr>,
    \<lparr> ci_url = ''ftp://b'', ci_file = ''f2'', ci_server = 1, ci_expires = 123 \<rparr>,
    \<lparr> ci_url = ''ftp://c'', ci_file = ''f3'', ci_server = 1, ci_expires = 456 \<rparr>]"
  let ?fs = "\<lparr> index_db = Some (index_text ?es), index_new = None, cache_files = (\<lambda>_. Some ''x'') \<rparr>"
  have s: "show_int 1 = ''1''" "show_int 100 = ''100''" "show_int 123 = ''123''" "show_int 456 = ''456''"
    by code_simp+
  have ok: "\<forall>e \<in> set ?es. item_ok e"
    by (simp add: item_ok_def plain_text_def entry_text_def s BUFSIZ_def)
  have d: "delete_description None (Some ''ftp://a'') False = ''ftp://a''"
    by (simp add: delete_description_def or_empty_def BUFSIZ_def)
  obtain fs' where f: "gftp_delete_cache_entry 50 None (Some ''ftp://a'') False True (file_channel []) ?fs = fs'"
    "index_db fs' = Some (concat (map (\<lambda>e. butlast (entry_text e))
      (filter (\<lambda>e. \<not> doomed ''ftp://a'' False 50 e) ?es)))"
    "\<forall>f. cache_files fs' f = (if \<exists>e \<in> set ?es. doomed ''ftp://a'' False 50 e \<and> ci_file e = f
       then None else cache_files ?fs f)"
    using delete_truncates_entries [of ?fs ?es None "Some ''ftp://a''" "file_channel []" 50 False, unfolded d] ok
    by (auto simp: file_channel_def)
  show ?thesis
    using f(2) f(3) by (intro exI [of _ fs'] conjI f(1)) (simp_all add: doomed_def entry_text_def s)
qed

lemma butlast_show_nat: "10 \<le> n \<Longrightarrow> butlast (show_nat n) = show_nat (n div 10)"
  by (subst show_nat.simps) simp

lemma butlast_entry:
  assumes "10 \<le> ci_expires e"
  shows "butlast (entry_text e) = entry_text (e \<lparr> ci_expires := ci_expires e div 10 \<rparr>)"
  using assms butlast_show_nat [of "nat (ci_expires e)"]
  by (simp add: entry_text_def butlast_append show_int_def nat_div_distrib)

text \<open>A well-formed entry that expires after 2001 and before 2286, for a URL.\<close>

definition dated_item :: "cache_item \<Rightarrow> bool" where
  "dated_item e \<longleftrightarrow> item_ok e \<and> 10 ^ 9 \<le> ci_expires e \<and> ci_expires e < 10 ^ 10 \<and>
     ci_url e \<noteq> [] \<and> \<not> is_digit (hd (ci_url e))"

lemma single_index_line:
  assumes "LF \<notin> set l" "NUL \<notin> set l" "l \<noteq> []" "length l < BUFSIZ"
  shows "index_lines BUFSIZ l = [l]"
proof -
  have "stream_lines BUFSIZ l = [l]" using assms by (intro stream_lines_last) auto
  moreover have "take (BUFSIZ - 1) l = l" using assms(4) by simp
  ultimately show ?thesis using index_lines_content [OF assms(2), of BUFSIZ] by (simp add: BUFSIZ_def)
qed

lemma truncated_hd:
  assumes "\<forall>e \<in> set ks. dated_item e"
  shows "concat (map (\<lambda>e. butlast (entry_text e)) ks) = [] \<or>
    \<not> is_digit (hd (concat (map (\<lambda>e. butlast (entry_text e)) ks)))"
proof (cases ks)
  case (Cons k ks')
  then have "ci_url k \<noteq> []" "\<not> is_digit (hd (ci_url k))" "10 \<le> ci_expires k"
    using assms by (auto simp: dated_item_def)
  then show ?thesis using Cons butlast_entry [of k]
    by (cases "ci_url k") (simp_all add: entry_text_def)
qed simp

lemma truncated_lookup:
  assumes "\<forall>e \<in> set ks. dated_item e" "10 ^ 9 \<le> later"
    and "length (concat (map (\<lambda>e. butlast (entry_text e)) ks)) < BUFSIZ"
  shows "find_entry d later (index_lines BUFSIZ (concat (map (\<lambda>e. butlast (entry_text e)) ks))) = None"
proof (cases ks)
  case Nil
  then show ?thesis
    using index_lines_content [of "[]" BUFSIZ]
    by (simp add: BUFSIZ_def stream_lines.simps [of _ "[]"] stream_line_def)
next
  case (Cons e es)
  let ?text = "concat (map (\<lambda>e. butlast (entry_text e)) ks)"
  let ?rest = "concat (map (\<lambda>e. butlast (entry_text e)) es)"
  let ?e = "e \<lparr> ci_expires := ci_expires e div 10 \<rparr>"
  have ten: "10 \<le> ci_expires e" and ok1: "item_ok e" and late: "ci_expires e div 10 < later"
    using assms(1,2) Cons by (auto simp: dated_item_def)
  have t: "?text = entry_text ?e @ ?rest" using Cons butlast_entry [OF ten] by simp
  have "length (entry_text ?e) \<le> length (entry_text e)"
    using butlast_entry [OF ten] by (metis length_butlast diff_le_self)
  then have ok: "item_ok ?e" using ok1 ten by (auto simp: item_ok_def)
  have "strtol10 (show_int (ci_expires ?e) @ ?rest) = ci_expires e div 10"
    using ok truncated_hd [of es] assms(1) Cons by (subst strtol_show_int) (auto simp: item_ok_def)
  then obtain centry mem where "gftp_parse_cache_line ?text = (0, centry, mem)"
    "ce_expiration_date centry = ci_expires e div 10"
    using parse_entry_text [OF ok, of ?rest] t by auto
  moreover have "index_lines BUFSIZ ?text = [?text]"
  proof (rule single_index_line)
    show "LF \<notin> set ?text" "NUL \<notin> set ?text"
      using assms(1) entry_text_line(1,2) by (auto simp: dated_item_def dest: in_set_butlastD)
    show "?text \<noteq> []" unfolding t by (simp add: entry_text_def)
  qed (rule assms(3))
  ultimately show ?thesis using late by simp
qed

text \<open>With the ten-digit dates of today, deleting one entry makes every other entry of
  the index useless: after it no look-up finds anything, although the cache files are still there.\<close>

theorem delete_loses_index:
  assumes "index_db fs = Some (index_text es)" "index_new fs = None"
    and "\<forall>e \<in> set es. dated_item e"
    and "length (index_text es) < BUFSIZ" "request \<noteq> None \<or> descr \<noteq> None" "script ch = []"
    and "10 ^ 9 \<le> later"
  shows "fst (gftp_find_cache_entry later r (gftp_delete_cache_entry now request descr ign True ch fs)) = None"
proof -
  let ?keep = "filter (\<lambda>e. \<not> doomed (delete_description request descr ign) ign now e) es"
  let ?text = "concat (map (\<lambda>e. butlast (entry_text e)) ?keep)"
  have ok: "\<forall>e \<in> set es. item_ok e" using assms(3) by (simp add: dated_item_def)
  have fs': "index_db (gftp_delete_cache_entry now request descr ign True ch fs) = Some ?text"
    using delete_items [OF assms(1,2) ok assms(5,6), of now ign] by simp
  have "length (concat (map (\<lambda>e. butlast (entry_text e)) (filter P es))) \<le> length (index_text es)" for P
    unfolding index_text_def by (induction es) auto
  then have "length ?text < BUFSIZ" using assms(4) by (meson le_less_trans)
  then have "find_entry d later (index_lines BUFSIZ ?text) = None" for d
    using assms(3,7) by (intro truncated_lookup) auto
  then show ?thesis using fs' by (simp add: gftp_find_cache_entry_def)
qed

theorem delete_loses_index_witness:
  "fst (gftp_find_cache_entry 1234000001 (me_at ''/b'')
     (gftp_delete_cache_entry 1234000000 (Some (me_at ''/a'')) None False True (file_channel [])
        \<lparr> index_db = Some (index_text [item_of (me_at ''/a'') ''f1'' 1234567890, item_of (me_at ''/b'') ''f2'' 1234567890]),
          index_new = None, cache_files = (\<lambda>_. Some ''x'') \<rparr>)) = None"
proof -
  let ?es = "[item_of (me_at ''/a'') ''f1'' 1234567890, item_of (me_at ''/b'') ''f2'' 1234567890]"
  have d: "full_description (me_at ''/a'') False = ''ftp://me@host:21/a''"
    "full_description (me_at ''/b'') False = ''ftp://me@host:21/b''" by code_simp+
  have s: "show_int 1 = ''1''" "show_int 1234567890 = ''1234567890''"
    by (simp_all add: show_int_def show_nat.simps)
  have t: "rq_server_type (me_at x) = 1" for x by (simp add: me_at_def)
  have ok: "\<forall>e \<in> set ?es. dated_item e" and len: "length (index_text ?es) < BUFSIZ"
    by (simp_all add: dated_item_def item_ok_def item_of_def d plain_text_def entry_text_def s t BUFSIZ_def
        is_digit_def code_of_def index_text_def)
  show ?thesis
    by (rule delete_loses_index [OF _ _ ok len]) (simp_all add: file_channel_def)
qed

end
