(* ===== verification/Requests.thy ===== *)
theory Requests
  imports Cache_Index File_Sort Paths Text_Utils
begin

unbundle bit_operations_syntax

text \<open>
  The protocol layer of \<open>lib/protocols.c\<close>: a connection is a request together with the function
  pointers its protocol has installed (record \<open>proto_ops\<close>, \<^term>\<open>None\<close> for NULL), the operations
  \<open>gftp_*\<close> dispatch to them. The protocols act on a world of an arbitrary type \<open>'s\<close>, which is passed
  through. The listing and transfer operations that do more than dispatch are in the second section;
  URLs and bookmarks are in the theory Url\_Parser.
\<close>


section \<open>Connections\<close>

type_synonym 's call = "gftp_request \<Rightarrow> 's \<Rightarrow> int \<times> gftp_request \<times> 's"

text \<open>The only function ever stored in \<open>parse_url\<close> is the one of \<open>lib/bookmark.c\<close>.\<close>

datatype url_parser = Bookmark_parse_url

record 's proto_ops =
  op_copy_param_options :: "(gftp_request \<Rightarrow> gftp_request \<Rightarrow> gftp_request) option"
  op_read_function :: "(nat \<Rightarrow> int \<Rightarrow> gftp_request \<Rightarrow> 's \<Rightarrow> (int + string) \<times> gftp_request \<times> 's) option"
  op_write_function :: "(string \<Rightarrow> int \<Rightarrow> 's call) option"
  op_destroy :: "(gftp_request \<Rightarrow> 's \<Rightarrow> gftp_request \<times> 's) option"
  op_connect :: "'s call option"
  op_disconnect :: "(gftp_request \<Rightarrow> 's \<Rightarrow> gftp_request \<times> 's) option"
  op_get_file :: "(string \<Rightarrow> int \<Rightarrow> 's call) option"
  op_put_file :: "(string \<Rightarrow> int \<Rightarrow> int \<Rightarrow> 's call) option"
  op_transfer_file :: "(string \<Rightarrow> int \<Rightarrow> gftp_request \<Rightarrow> string \<Rightarrow> int \<Rightarrow> gftp_request \<Rightarrow> 's \<Rightarrow>
      int \<times> gftp_request \<times> gftp_request \<times> 's) option"
  op_get_next_file_chunk :: "(nat \<Rightarrow> gftp_request \<Rightarrow> 's \<Rightarrow> (int + string) \<times> gftp_request \<times> 's) option"
  op_put_next_file_chunk :: "(string \<Rightarrow> 's call) option"
  op_end_transfer :: "'s call option"
  op_abort_transfer :: "'s call option"
  op_stat_filename :: "(string \<Rightarrow> gftp_request \<Rightarrow> 's \<Rightarrow> (int \<times> mode_t \<times> int) \<times> gftp_request \<times> 's) option"
  op_list_files :: "'s call option"
  op_get_next_file :: "(int \<Rightarrow> gftp_request \<Rightarrow> 's \<Rightarrow> (int \<times> gftp_file) \<times> gftp_request \<times> 's) option"
  op_get_file_size :: "(string \<Rightarrow> 's call) option"
  op_chdir :: "(string \<Rightarrow> 's call) option"
  op_rmdir :: "(string \<Rightarrow> 's call) option"
  op_rmfile :: "(string \<Rightarrow> 's call) option"
  op_mkdir :: "(string \<Rightarrow> 's call) option"
  op_rename :: "(string \<Rightarrow> string \<Rightarrow> 's call) option"
  op_chmod :: "(string \<Rightarrow> mode_t \<Rightarrow> 's call) option"
  op_set_file_time :: "(string \<Rightarrow> int \<Rightarrow> 's call) option"
  op_site :: "(bool \<Rightarrow> string \<Rightarrow> 's call) option"
  op_parse_url :: "url_parser option"
  op_set_config_options :: "'s call option"
  op_swap_socks :: "(gftp_request \<Rightarrow> gftp_request \<Rightarrow> gftp_request \<times> gftp_request) option"

record 's connection =
  con_req :: gftp_request
  con_ops :: "'s proto_ops"

type_synonym 's effect = "'s connection \<Rightarrow> 's \<Rightarrow> int \<times> 's connection \<times> 's"

definition zero_request :: gftp_request where
  "zero_request = \<lparr> rq_protonum = 0, rq_hostname = None, rq_username = None, rq_password = None,
     rq_account = None, rq_directory = None, rq_url_prefix = None, rq_last_ftp_response = None,
     rq_last_dir_entry = None, rq_last_dir_entry_len = 0, rq_port = 0, rq_datafd = 0, rq_cachefd = 0,
     rq_remote_addr = None, rq_ai_family = 0, rq_server_type = 0, rq_use_proxy = False,
     rq_always_connected = False, rq_need_hostport = False, rq_need_username = False,
     rq_need_password = False, rq_use_cache = False, rq_cached = False, rq_cancel = False,
     rq_stopable = False, rq_refreshing = False, rq_use_local_encoding = False, rq_gotbytes = 0 \<rparr>"

text \<open>The function pointers of a request filled with zeros.\<close>

definition no_ops :: "'s proto_ops" where
  "no_ops = \<lparr> op_copy_param_options = None, op_read_function = None, op_write_function = None, op_destroy = None, op_connect = None,
     op_disconnect = None, op_get_file = None, op_put_file = None, op_transfer_file = None,
     op_get_next_file_chunk = None, op_put_next_file_chunk = None, op_end_transfer = None,
     op_abort_transfer = None, op_stat_filename = None, op_list_files = None, op_get_next_file = None,
     op_get_file_size = None, op_chdir = None, op_rmdir = None, op_rmfile = None, op_mkdir = None,
     op_rename = None, op_chmod = None, op_set_file_time = None, op_site = None, op_parse_url = None,
     op_set_config_options = None, op_swap_socks = None \<rparr>"

definition gftp_request_new :: "'s connection" where
  "gftp_request_new = \<lparr> con_req = zero_request \<lparr> rq_datafd := -1, rq_cachefd := -1,
       rq_server_type := GFTP_DIRTYPE_OTHER \<rparr>, con_ops = no_ops \<rparr>"

text \<open>A call through a function pointer that is answered with \<open>GFTP_EFATAL\<close> when it is NULL.\<close>

definition dispatch :: "'s call option \<Rightarrow> 's effect" where
  "dispatch f c s =
    (case f of
       None \<Rightarrow> (GFTP_EFATAL, c, s)
     | Some g \<Rightarrow> let (ret, rq, s') = g (con_req c) s in (ret, c \<lparr> con_req := rq \<rparr>, s'))"

definition uncached :: "'s connection \<Rightarrow> 's connection" where
  "uncached c = c \<lparr> con_req := con_req c \<lparr> rq_cached := False \<rparr> \<rparr>"

definition gftp_disconnect :: "'s connection \<Rightarrow> 's \<Rightarrow> 's connection \<times> 's" where
  "gftp_disconnect c s =
    (let c = uncached c
     in case op_disconnect (con_ops c) of
          None \<Rightarrow> (c, s)
        | Some f \<Rightarrow> let (rq, s') = f (con_req c) s in (c \<lparr> con_req := rq \<rparr>, s'))"

text \<open>\<open>gftp_request_destroy (request, 0)\<close>: everything is released and cleared.\<close>

definition gftp_request_destroy :: "'s connection \<Rightarrow> 's \<Rightarrow> 's connection \<times> 's" where
  "gftp_request_destroy c s =
    (let (c, s) = gftp_disconnect c s;
         s = (case op_destroy (con_ops c) of None \<Rightarrow> s | Some f \<Rightarrow> snd (f (con_req c) s))
     in (gftp_request_new, s))"

definition gftp_copy_param_options :: "'s connection \<Rightarrow> 's connection \<Rightarrow> 's connection" where
  "gftp_copy_param_options dest src =
    (if rq_protonum (con_req dest) \<noteq> rq_protonum (con_req src) then dest
     else case op_copy_param_options (con_ops dest) of
       None \<Rightarrow> dest
     | Some f \<Rightarrow> dest \<lparr> con_req := f (con_req dest) (con_req src) \<rparr>)"

definition gftp_set_config_options :: "'s effect" where
  "gftp_set_config_options c s =
    (case op_set_config_options (con_ops c) of
       None \<Rightarrow> (0, c, s) | Some f \<Rightarrow> dispatch (Some f) c s)"

definition gftp_connect :: "'s effect" where
  "gftp_connect c s =
    (case op_connect (con_ops c) of
       None \<Rightarrow> (GFTP_EFATAL, c, s)
     | Some f \<Rightarrow>
         let (ret, c, s) = gftp_set_config_options c s
         in if ret < 0 then (ret, c, s) else dispatch (Some f) c s)"

definition gftp_get_file :: "string \<Rightarrow> int \<Rightarrow> 's effect" where
  "gftp_get_file filename startsize c s =
     dispatch (map_option (\<lambda>f. f filename startsize) (op_get_file (con_ops c))) (uncached c) s"

definition gftp_put_file :: "string \<Rightarrow> int \<Rightarrow> int \<Rightarrow> 's effect" where
  "gftp_put_file filename startsize totalsize c s =
     dispatch (map_option (\<lambda>f. f filename startsize totalsize) (op_put_file (con_ops c))) (uncached c) s"

text \<open>Without a chunk function of its own the protocol reads and writes its data connection; the
  pointers to the read and write functions are called unguarded, \<^term>\<open>None\<close> is the call through NULL.\<close>

definition gftp_get_next_file_chunk ::
  "nat \<Rightarrow> 's connection \<Rightarrow> 's \<Rightarrow> ((int + string) \<times> 's connection \<times> 's) option" where
  "gftp_get_next_file_chunk size' c s =
    map_option (\<lambda>f. let (r, rq, s') = f (con_req c) s in (r, c \<lparr> con_req := rq \<rparr>, s'))
     (case op_get_next_file_chunk (con_ops c) of
        Some f \<Rightarrow> Some (f size')
      | None \<Rightarrow> map_option (\<lambda>f. f size' (rq_datafd (con_req c))) (op_read_function (con_ops c)))"

definition gftp_put_next_file_chunk :: "string \<Rightarrow> 's connection \<Rightarrow> 's \<Rightarrow> (int \<times> 's connection \<times> 's) option" where
  "gftp_put_next_file_chunk buf c s =
    map_option (\<lambda>f. dispatch (Some f) c s)
     (case op_put_next_file_chunk (con_ops c) of
        Some f \<Rightarrow> Some (f buf)
      | None \<Rightarrow> map_option (\<lambda>f. f buf (rq_datafd (con_req c))) (op_write_function (con_ops c)))"

text \<open>The cache file is closed and the last listing line dropped, whatever the protocol says.\<close>

definition gftp_end_transfer :: "'s effect" where
  "gftp_end_transfer c s =
    (let (ret, c, s) =
       (case op_end_transfer (con_ops c) of
          Some f \<Rightarrow> if rq_cached (con_req c) then (0, c, s) else dispatch (Some f) c s
        | None \<Rightarrow> (0, c, s));
         rq = con_req c;
         rq = (if rq_cachefd rq > 0 then rq \<lparr> rq_cachefd := -1 \<rparr> else rq);
         rq = (if rq_last_dir_entry rq \<noteq> None
               then rq \<lparr> rq_last_dir_entry := None, rq_last_dir_entry_len := 0 \<rparr> else rq)
     in (ret, c \<lparr> con_req := rq \<rparr>, s))"

definition gftp_abort_transfer :: "'s effect" where
  "gftp_abort_transfer c s = dispatch (op_abort_transfer (con_ops c)) c s"

definition gftp_stat_filename ::
  "string \<Rightarrow> mode_t \<Rightarrow> int \<Rightarrow> 's connection \<Rightarrow> 's \<Rightarrow> (int \<times> mode_t \<times> int) \<times> 's connection \<times> 's" where
  "gftp_stat_filename filename mode filesize c s =
    (case op_stat_filename (con_ops c) of
       None \<Rightarrow> ((0, mode, filesize), c, s)
     | Some f \<Rightarrow> let (r, rq, s') = f filename (con_req c) s in (r, c \<lparr> con_req := rq \<rparr>, s'))"

definition gftp_set_hostname :: "string \<Rightarrow> gftp_request \<Rightarrow> gftp_request" where
  "gftp_set_hostname hostname rq = rq \<lparr> rq_hostname := Some hostname \<rparr>"

definition gftp_set_username :: "string option \<Rightarrow> gftp_request \<Rightarrow> gftp_request" where
  "gftp_set_username username rq = rq \<lparr> rq_username := username \<rparr>"

definition gftp_set_password :: "string option \<Rightarrow> gftp_request \<Rightarrow> gftp_request" where
  "gftp_set_password password rq = rq \<lparr> rq_password := password \<rparr>"

definition gftp_set_account :: "string \<Rightarrow> gftp_request \<Rightarrow> gftp_request" where
  "gftp_set_account account rq = rq \<lparr> rq_account := Some account \<rparr>"

definition gftp_set_port :: "nat \<Rightarrow> gftp_request \<Rightarrow> gftp_request" where
  "gftp_set_port port rq = rq \<lparr> rq_port := port \<rparr>"

definition on_req :: "(gftp_request \<Rightarrow> gftp_request) \<Rightarrow> 's connection \<Rightarrow> 's connection" where
  "on_req f c = c \<lparr> con_req := f (con_req c) \<rparr>"

definition gftp_set_directory :: "string \<Rightarrow> 's effect" where
  "gftp_set_directory directory c s =
    (if rq_datafd (con_req c) \<le> 0 \<and> \<not> rq_always_connected (con_req c)
     then (0, on_req (\<lambda>rq. rq \<lparr> rq_directory := Some directory \<rparr>) c, s)
     else dispatch (map_option (\<lambda>f. f directory) (op_chdir (con_ops c))) c s)"

definition gftp_remove_directory :: "string \<Rightarrow> 's effect" where
  "gftp_remove_directory directory c s =
     dispatch (map_option (\<lambda>f. f directory) (op_rmdir (con_ops c))) c s"

definition gftp_remove_file :: "string \<Rightarrow> 's effect" where
  "gftp_remove_file fname c s = dispatch (map_option (\<lambda>f. f fname) (op_rmfile (con_ops c))) c s"

definition gftp_make_directory :: "string \<Rightarrow> 's effect" where
  "gftp_make_directory directory c s =
     dispatch (map_option (\<lambda>f. f directory) (op_mkdir (con_ops c))) c s"

definition gftp_rename_file :: "string \<Rightarrow> string \<Rightarrow> 's effect" where
  "gftp_rename_file oldname newname c s =
     dispatch (map_option (\<lambda>f. f oldname newname) (op_rename (con_ops c))) c s"

definition gftp_chmod :: "string \<Rightarrow> mode_t \<Rightarrow> 's effect" where
  "gftp_chmod fname mode c s =
     dispatch (map_option (\<lambda>f. f fname
       (mode AND (S_IRWXU OR S_IRWXG OR S_IRWXO OR S_ISUID OR S_ISGID OR S_ISVTX))) (op_chmod (con_ops c))) c s"

definition gftp_set_file_time :: "string \<Rightarrow> int \<Rightarrow> 's effect" where
  "gftp_set_file_time fname datetime c s =
     dispatch (map_option (\<lambda>f. f fname datetime) (op_set_file_time (con_ops c))) c s"

definition gftp_site_cmd :: "bool \<Rightarrow> string \<Rightarrow> 's effect" where
  "gftp_site_cmd specify_site command c s =
     dispatch (map_option (\<lambda>f. f specify_site command) (op_site (con_ops c))) c s"

definition gftp_get_file_size :: "string \<Rightarrow> 's effect" where
  "gftp_get_file_size filename c s =
    (case op_get_file_size (con_ops c) of
       None \<Rightarrow> (0, c, s) | Some f \<Rightarrow> dispatch (Some (f filename)) c s)"

definition gftp_swap_socks :: "'s connection \<Rightarrow> 's connection \<Rightarrow> 's connection \<times> 's connection" where
  "gftp_swap_socks dest source =
    (if rq_protonum (con_req dest) \<noteq> rq_protonum (con_req source) then (dest, source)
     else let d = (con_req dest) \<lparr> rq_datafd := rq_datafd (con_req source), rq_cached := False \<rparr>;
              q = (if \<not> rq_always_connected (con_req source)
                   then (con_req source) \<lparr> rq_datafd := -1, rq_cached := True \<rparr> else con_req source);
              (d, q) = (case op_swap_socks (con_ops dest) of None \<Rightarrow> (d, q) | Some f \<Rightarrow> f d q)
          in (dest \<lparr> con_req := d \<rparr>, source \<lparr> con_req := q \<rparr>))"

section \<open>Copying between two servers\<close>

text \<open>The two retry loops of \<open>gftp_transfer_file\<close>. The second one asks whether the size it was given
  is \<open>GFTP_ETIMEDOUT\<close>, and reconnects the source.\<close>

fun get_file_loop :: "nat \<Rightarrow> string \<Rightarrow> int \<Rightarrow> 's connection \<Rightarrow> 's \<Rightarrow> stuck + (int + int) \<times> 's connection \<times> 's" where
  "get_file_loop 0 fromfile tosize fc s = Inl Out_of_fuel"
| "get_file_loop (Suc fuel) fromfile tosize fc s =
    (let (sz, fc, s) = gftp_get_file fromfile tosize fc s
     in if sz < 0 then
          if sz = GFTP_ETIMEDOUT
          then let (ret, fc, s) = gftp_connect fc s
               in if ret < 0 then Inr (Inl ret, fc, s) else get_file_loop fuel fromfile tosize fc s
          else Inr (Inl sz, fc, s)
        else Inr (Inr sz, fc, s))"

fun put_file_loop ::
  "nat \<Rightarrow> string \<Rightarrow> int \<Rightarrow> int \<Rightarrow> 's connection \<Rightarrow> 's connection \<Rightarrow> 's \<Rightarrow> stuck + int \<times> 's connection \<times> 's connection \<times> 's" where
  "put_file_loop 0 tofile tosize sz fc tc s = Inl Out_of_fuel"
| "put_file_loop (Suc fuel) tofile tosize sz fc tc s =
    (let (ret, tc, s) = gftp_put_file tofile tosize sz tc s
     in if ret \<noteq> 0 then
          if sz = GFTP_ETIMEDOUT
          then let (ret, fc, s) = gftp_connect fc s
               in if ret < 0 then Inr (ret, fc, tc, s) else put_file_loop fuel tofile tosize sz fc tc s
          else let (a, fc, s) = gftp_abort_transfer fc s;
                   (fc, s) = (if a \<noteq> 0 then let (e, fc, s) = gftp_end_transfer fc s in (fc, s) else (fc, s))
               in Inr (ret, fc, tc, s)
        else Inr (sz, fc, tc, s))"

definition gftp_transfer_file ::
  "nat \<Rightarrow> string \<Rightarrow> int \<Rightarrow> string \<Rightarrow> int \<Rightarrow> 's connection \<Rightarrow> 's connection \<Rightarrow> 's \<Rightarrow>
   stuck + int \<times> 's connection \<times> 's connection \<times> 's" where
  "gftp_transfer_file fuel fromfile fromsize tofile tosize fc tc s =
    (case (if rq_protonum (con_req fc) = rq_protonum (con_req tc) then op_transfer_file (con_ops fc) else None) of
       Some f \<Rightarrow> let (ret, fq, tq, s) = f fromfile fromsize (con_req tc) tofile tosize (con_req fc) s
                 in Inr (ret, fc \<lparr> con_req := fq \<rparr>, tc \<lparr> con_req := tq \<rparr>, s)
     | None \<Rightarrow>
         (case get_file_loop fuel fromfile tosize (uncached fc) s of
            Inl e \<Rightarrow> Inl e
          | Inr (Inl ret, fc, s) \<Rightarrow> Inr (ret, fc, uncached tc, s)
          | Inr (Inr sz, fc, s) \<Rightarrow> put_file_loop fuel tofile tosize sz fc (uncached tc) s))"


section \<open>Listings\<close>

text \<open>\<open>fd\<close> is the descriptor \<open>open\<close> or \<open>mkstemp\<close> returns; the name of the file behind \<open>cachefd\<close>
  is returned beside the request.\<close>

definition gftp_list_files ::
  "int \<Rightarrow> new_calls \<Rightarrow> int \<Rightarrow> int \<Rightarrow> 's connection \<Rightarrow> cache_fs \<Rightarrow> 's \<Rightarrow>
   int \<times> 's connection \<times> string option \<times> cache_fs \<times> 's" where
  "gftp_list_files fd os now cache_ttl c fs s =
    (let c = uncached c;
         (found, rq) = (if rq_use_cache (con_req c) then gftp_find_cache_entry now (con_req c) fs else (None, con_req c))
     in case found of
          Some file \<Rightarrow> (0, c \<lparr> con_req := rq \<lparr> rq_cachefd := fd, rq_cached := True \<rparr> \<rparr>, Some file, fs, s)
        | None \<Rightarrow>
            let (made, fs) = (if rq_use_cache rq then gftp_new_cache_entry os now cache_ttl rq fs else (None, fs));
                c = (if rq_use_cache rq
                     then on_req (\<lambda>rq. rq \<lparr> rq_cachefd := (if made = None then -1 else fd), rq_cached := False \<rparr>) c
                     else c);
                (ret, c, s) = dispatch (op_list_files (con_ops c)) c s
            in (ret, c, made, fs, s))"

text \<open>What \<open>gftp_get_next_file\<close> asks of its surroundings: the option \<open>show_hidden_files\<close>,
  \<open>g_utf8_validate\<close> and \<open>gftp_filename_to_utf8\<close>.\<close>

record name_env =
  ne_show_hidden :: bool
  ne_utf8_valid :: "string \<Rightarrow> bool"
  ne_to_utf8 :: "string \<Rightarrow> string option"

definition gftp_file_destroy :: "gftp_file \<Rightarrow> gftp_file" where
  "gftp_file_destroy fle = zero_file"

text \<open>The path in front of a name is dropped; a name that ends in a slash leaves the iteration
  (\<^term>\<open>Inl ()\<close>), and comparing the path with a missing directory is \<^term>\<open>None\<close>.\<close>

definition strip_path :: "string option \<Rightarrow> gftp_file \<Rightarrow> (unit + gftp_file) option" where
  "strip_path directory fle =
    (case gf_file fle of
       None \<Rightarrow> Some (Inr fle)
     | Some name \<Rightarrow>
         (case strrchr name (CHR ''/'') of
            None \<Rightarrow> Some (Inr fle)
          | Some slashpos \<Rightarrow>
              if tl slashpos = [] then Some (Inl ())
              else if directory = None then None
              else Some (Inr (fle \<lparr> gf_file := Some (tl slashpos) \<rparr>))))"

definition encode_name :: "name_env \<Rightarrow> int \<Rightarrow> gftp_file \<Rightarrow> gftp_file" where
  "encode_name env ret fle =
    (case gf_file fle of
       None \<Rightarrow> fle
     | Some name \<Rightarrow>
         if ret < 0 then fle
         else if ne_utf8_valid env name then fle \<lparr> gf_filename_utf8_encoded := True \<rparr>
         else (case ne_to_utf8 env name of
                 None \<Rightarrow> fle
               | Some utf8 \<Rightarrow> fle \<lparr> gf_file := Some utf8, gf_filename_utf8_encoded := True \<rparr>))"

text \<open>The line the entry came from goes to the cache file.\<close>

definition cache_entry_line :: "int \<Rightarrow> gftp_request \<Rightarrow> channel \<Rightarrow> gftp_request \<times> channel" where
  "cache_entry_line ret rq ch =
    (case rq_last_dir_entry rq of
       Some l \<Rightarrow>
         if 0 \<le> ret \<and> \<not> rq_cached rq \<and> 0 < rq_cachefd rq
         then let (w, ch) = gftp_fd_write (take (rq_last_dir_entry_len rq) l) ch
              in (if w < 0 then rq \<lparr> rq_cachefd := -1 \<rparr> else rq, ch)
         else (rq, ch)
     | None \<Rightarrow> (rq, ch))"

type_synonym 's next_file = "stuck + (int \<times> gftp_file) \<times> gftp_request \<times> 's \<times> channel"

fun next_file_loop ::
  "name_env \<Rightarrow> string option \<Rightarrow> (gftp_request \<Rightarrow> 's \<Rightarrow> (int \<times> gftp_file) \<times> gftp_request \<times> 's) \<Rightarrow> nat \<Rightarrow>
   gftp_request \<Rightarrow> 's \<Rightarrow> channel \<Rightarrow> 's next_file" where
  "next_file_loop env filespec get 0 rq s ch = Inl Out_of_fuel"
| "next_file_loop env filespec get (Suc fuel) rq s ch =
    (let ((ret, fle), rq, s) = get rq s
     in case strip_path (rq_directory rq) fle of
          None \<Rightarrow> Inl Out_of_bounds
        | Some stripped \<Rightarrow>
            let (fle, rq, ch) =
                  (case stripped of
                     Inl _ \<Rightarrow> (gftp_file_destroy fle, rq, ch)
                   | Inr fle \<Rightarrow> let (rq, ch) = cache_entry_line ret rq ch in (encode_name env ret fle, rq, ch))
            in if 0 < ret then
                 (case gftp_match_filespec (ne_show_hidden env) (gf_file fle) filespec of
                    None \<Rightarrow> Inl Out_of_bounds
                  | Some True \<Rightarrow> Inr ((ret, fle), rq, s, ch)
                  | Some False \<Rightarrow> next_file_loop env filespec get fuel rq s ch)
               else Inr ((ret, fle), rq, s, ch))"

definition gftp_get_next_file ::
  "name_env \<Rightarrow> nat \<Rightarrow> string option \<Rightarrow> 's connection \<Rightarrow> 's \<Rightarrow> channel \<Rightarrow>
   stuck + (int \<times> gftp_file) \<times> 's connection \<times> 's \<times> channel" where
  "gftp_get_next_file env fuel filespec c s ch =
    (case op_get_next_file (con_ops c) of
       None \<Rightarrow> Inr ((GFTP_EFATAL, zero_file), c, s, ch)
     | Some f \<Rightarrow>
         let rq = con_req c; fd = (if rq_cached rq \<and> 0 < rq_cachefd rq then rq_cachefd rq else rq_datafd rq)
         in (case next_file_loop env filespec (f fd) fuel rq s ch of
               Inl e \<Rightarrow> Inl e
             | Inr (r, rq, s, ch) \<Rightarrow> Inr (r, c \<lparr> con_req := rq \<rparr>, s, ch)))"

lemmas listing_step_simps = strip_path_def encode_name_def cache_entry_line_def gftp_file_destroy_def

section \<open>What the callers get\<close>

definition keeps_no_slash :: "name_env \<Rightarrow> bool" where
  "keeps_no_slash env \<longleftrightarrow>
     (\<forall>x y. ne_to_utf8 env x = Some y \<longrightarrow> CHR ''/'' \<notin> set x \<longrightarrow> CHR ''/'' \<notin> set y)"

lemma stripped_no_slash:
  "strip_path d fle = Some (Inr fle') \<Longrightarrow> gf_file fle' = Some n \<Longrightarrow> CHR ''/'' \<notin> set n"
  by (auto simp: strip_path_def split: option.splits if_splits dest: strrchr_SomeD)

lemma encoded_no_slash:
  assumes "keeps_no_slash env" "strip_path d fle = Some (Inr fle')" "gf_file (encode_name env ret fle') = Some n"
  shows "CHR ''/'' \<notin> set n"
  using assms stripped_no_slash [OF assms(2)]
  by (auto simp: encode_name_def keeps_no_slash_def split: option.splits if_splits)

lemma next_file_loop_result:
  assumes "keeps_no_slash env"
    and "next_file_loop env spec get fuel rq s ch = Inr ((ret, fle), rq', s', ch')" "0 < ret"
  shows "gftp_match_filespec (ne_show_hidden env) (gf_file fle) spec = Some True \<and>
    (\<forall>n. gf_file fle = Some n \<longrightarrow> CHR ''/'' \<notin> set n)"
  using assms(2)
proof (induction fuel arbitrary: rq s ch)
  case (Suc fuel)
  obtain ret1 fle1 rq1 s1 where get: "get rq s = ((ret1, fle1), rq1, s1)" by (metis prod.collapse)
  obtain st where st: "strip_path (rq_directory rq1) fle1 = Some st"
    using Suc.prems by (cases "strip_path (rq_directory rq1) fle1") (simp_all add: get)
  define e where "e = (case st of Inl _ \<Rightarrow> (gftp_file_destroy fle1, rq1, ch)
      | Inr fle \<Rightarrow> let (rq, ch) = cache_entry_line ret1 rq1 ch in (encode_name env ret1 fle, rq, ch))"
  obtain fle2 rq2 ch2 where e: "e = (fle2, rq2, ch2)" by (metis prod.collapse)
  have names: "\<forall>n. gf_file fle2 = Some n \<longrightarrow> CHR ''/'' \<notin> set n"
    using e st encoded_no_slash [OF assms(1), of "rq_directory rq1" fle1]
    by (auto simp: e_def gftp_file_destroy_def split: sum.splits prod.splits)
  have step: "next_file_loop env spec get (Suc fuel) rq s ch =
      (if 0 < ret1 then
         (case gftp_match_filespec (ne_show_hidden env) (gf_file fle2) spec of
            None \<Rightarrow> Inl Out_of_bounds
          | Some True \<Rightarrow> Inr ((ret1, fle2), rq2, s1, ch2)
          | Some False \<Rightarrow> next_file_loop env spec get fuel rq2 s1 ch2)
       else Inr ((ret1, fle2), rq2, s1, ch2))"
    by (simp add: get st e_def [symmetric] e)
  show ?case
  proof (cases "gftp_match_filespec (ne_show_hidden env) (gf_file fle2) spec = Some False \<and> 0 < ret1")
    case True
    then have "next_file_loop env spec get fuel rq2 s1 ch2 = Inr ((ret, fle), rq', s', ch')"
      using Suc.prems unfolding step by simp
    then show ?thesis by (rule Suc.IH)
  next
    case False
    then show ?thesis using Suc.prems names assms(3) unfolding step
      by (auto split: if_splits option.splits bool.splits)
  qed
qed simp


text \<open>A protocol that lists the names of a list, one by one, as regular files.\<close>

fun list_names :: "int \<Rightarrow> gftp_request \<Rightarrow> string list \<Rightarrow> (int \<times> gftp_file) \<times> gftp_request \<times> string list" where
  "list_names fd rq [] = ((0, zero_file), rq, [])"
| "list_names fd rq (n # ns) = ((1, zero_file \<lparr> gf_file := Some n, gf_st_mode := S_IFREG \<rparr>), rq, ns)"

definition names_connection :: "string list connection" where
  "names_connection = \<lparr> con_req = zero_request \<lparr> rq_directory := Some ''/'' \<rparr>,
     con_ops = no_ops \<lparr> op_get_next_file := Some list_names \<rparr> \<rparr>"

definition ascii_names :: name_env where
  "ascii_names = \<lparr> ne_show_hidden = False, ne_utf8_valid = (\<lambda>_. True), ne_to_utf8 = (\<lambda>_. None) \<rparr>"

lemma names_listing:
  "gftp_get_next_file ascii_names 3 (Some ''*.c'') names_connection [''.a.c'', ''/b.h'', ''/src/b.c''] (file_channel []) =
    Inr ((1, zero_file \<lparr> gf_file := Some ''b.c'', gf_st_mode := S_IFREG, gf_filename_utf8_encoded := True \<rparr>),
         names_connection, [], file_channel [])"
  by (simp add: gftp_get_next_file_def names_connection_def no_ops_def zero_request_def ascii_names_def
      numeral_3_eq_3 listing_step_simps gftp_match_filespec_def Let_def wildcard_def literal_after_def search_size_def)


text \<open>An entry whose name ends in a slash, as \<open>ls -F\<close> prints directories, is handed to the
  caller with a positive result, without a name and without any of its data, whatever the mask.\<close>

theorem trailing_slash_loses_name:
  assumes "op_get_next_file (con_ops c) = Some f" and "\<not> rq_cached (con_req c)"
    and "f (rq_datafd (con_req c)) (con_req c) s = ((ret, fle), rq', s')"
    and "0 < ret" "gf_file fle = Some (d @ ''/'')"
  shows "gftp_get_next_file env (Suc fuel) spec c s ch = Inr ((ret, zero_file), c \<lparr> con_req := rq' \<rparr>, s', ch)"
proof -
  have "strrchr (d @ ''/'') (CHR ''/'') = Some ''/''" using strrchr_append [of "CHR ''/''" "[]" d] by simp
  then show ?thesis
    using assms by (simp add: gftp_get_next_file_def strip_path_def gftp_file_destroy_def gftp_match_filespec_def)
qed

theorem trailing_slash_loses_name_witness:
  "gftp_get_next_file ascii_names 1 (Some ''*.c'') names_connection [''src/''] (file_channel []) =
    Inr ((1, zero_file), names_connection, [], file_channel [])"
  using trailing_slash_loses_name [of names_connection list_names "[''src/'']" 1
      "zero_file \<lparr> gf_file := Some ''src/'', gf_st_mode := S_IFREG \<rparr>" "con_req names_connection" "[]" "''src''"
      ascii_names 0 "Some ''*.c''" "file_channel []"]
  by (simp add: names_connection_def no_ops_def zero_request_def)

text \<open>When the source has answered but the target times out, the copy fails: the source is
  aborted (and closed when that fails), nothing is reconnected and nothing is sent again.\<close>

theorem put_timeout_is_final:
  assumes "rq_protonum (con_req fc) \<noteq> rq_protonum (con_req tc) \<or> op_transfer_file (con_ops fc) = None"
    and "gftp_get_file fromfile tosize (uncached fc) s = (sz, fc1, s1)" "0 \<le> sz"
    and "gftp_put_file tofile tosize sz (uncached tc) s1 = (ret, tc1, s2)" "ret \<noteq> 0"
    and "gftp_abort_transfer fc1 s2 = (a, fc2, s3)"
  shows "gftp_transfer_file (Suc fuel) fromfile fromsize tofile tosize fc tc s =
    Inr (ret, if a = 0 then fc2 else fst (snd (gftp_end_transfer fc2 s3)), tc1,
         if a = 0 then s3 else snd (snd (gftp_end_transfer fc2 s3)))"
  using assms by (auto simp: gftp_transfer_file_def split: prod.splits)

definition slow_connection :: "int \<Rightarrow> unit connection" where
  "slow_connection n = \<lparr> con_req = zero_request \<lparr> rq_protonum := n \<rparr>,
     con_ops = no_ops \<lparr> op_get_file := Some (\<lambda>f n r s. (10, r, s)),
       op_put_file := Some (\<lambda>f n t r s. (GFTP_ETIMEDOUT, r, s)), op_connect := Some (\<lambda>r s. (0, r, s)) \<rparr> \<rparr>"

theorem put_timeout_is_final_witness:
  "\<exists>fc'. gftp_transfer_file 1 ''a'' 0 ''b'' 0 (slow_connection 0) (slow_connection 1) () =
    Inr (GFTP_ETIMEDOUT, fc', slow_connection 1, ())"
  using put_timeout_is_final [of "slow_connection 0" "slow_connection 1" "''a''" 0 "()" 10 "slow_connection 0" "()" "''b''"
      GFTP_ETIMEDOUT "slow_connection 1" "()" GFTP_EFATAL "slow_connection 0" "()" 0 0]
  by (simp add: gftp_get_file_def gftp_put_file_def gftp_abort_transfer_def dispatch_def uncached_def
      slow_connection_def no_ops_def zero_request_def)

end
