(* ===== verification/Url_Parser.thy ===== *)
theory Url_Parser
  imports Requests
begin

text \<open>
  URLs and bookmarks: \<open>gftp_parse_url\<close> and \<open>gftp_parse_bookmark\<close> of \<open>lib/protocols.c\<close>, the protocol
  table of \<open>lib/options.h\<close> and the bookmark pseudo protocol of \<open>lib/bookmark.c\<close>. The \<open>init\<close> functions
  of the other protocols, the bookmarks and the values of the options \<open>default_protocol\<close> and
  \<open>email\<close> are arguments. \<^term>\<open>None\<close> is a read outside the copy of the URL, or of a missing string.
  A URL put together from its parts is shown to be taken apart again.
\<close>


section \<open>The protocol table\<close>

record 's protocol =
  pr_name :: string
  pr_init :: "'s effect"
  pr_url_prefix :: string
  pr_default_port :: nat
  pr_shown :: bool
  pr_use_threads :: bool

definition GFTP_FTP_NUM :: nat where [simp]: "GFTP_FTP_NUM = 0"
definition GFTP_BOOKMARK_NUM :: nat where [simp]: "GFTP_BOOKMARK_NUM = 6"

definition protocol_entry :: "string \<Rightarrow> 's effect \<Rightarrow> string \<Rightarrow> nat \<Rightarrow> bool \<Rightarrow> bool \<Rightarrow> 's protocol" where
  "protocol_entry name init prefix port shown threads =
     \<lparr> pr_name = name, pr_init = init, pr_url_prefix = prefix, pr_default_port = port, pr_shown = shown,
       pr_use_threads = threads \<rparr>"

text \<open>\<open>bookmark_init\<close> leaves the pointers it does not name as they are.\<close>

definition bookmark_init :: "'s effect" where
  "bookmark_init c s =
     gftp_set_config_options
       (c \<lparr> con_req := (con_req c) \<lparr> rq_protonum := int GFTP_BOOKMARK_NUM, rq_url_prefix := Some ''bookmark'',
               rq_need_hostport := False, rq_need_username := False, rq_need_password := False,
               rq_use_cache := False, rq_always_connected := False \<rparr>,
            con_ops := (con_ops c) \<lparr> op_read_function := None, op_write_function := None,
               op_destroy := None, op_connect := None, op_disconnect := None, op_get_file := None,
               op_put_file := None, op_transfer_file := None, op_get_next_file_chunk := None,
               op_put_next_file_chunk := None, op_end_transfer := None, op_list_files := None,
               op_get_next_file := None, op_get_file_size := None, op_chdir := None, op_rmdir := None,
               op_rmfile := None, op_mkdir := None, op_rename := None, op_chmod := None,
               op_set_file_time := None, op_site := None, op_parse_url := Some Bookmark_parse_url \<rparr> \<rparr>) s"

text \<open>The table, given whether SSL was compiled in and the \<open>init\<close> functions of the other modules
  by position.\<close>

definition gftp_protocols :: "bool \<Rightarrow> (nat \<Rightarrow> 's effect) \<Rightarrow> 's protocol list" where
  "gftp_protocols use_ssl init =
    [protocol_entry ''FTP'' (init 0) ''ftp'' 21 True True,
     protocol_entry ''FTPS'' (init 1) ''ftps'' 21 use_ssl True,
     protocol_entry ''HTTP'' (init 2) ''http'' 80 True True,
     protocol_entry ''HTTPS'' (init 3) ''https'' 443 use_ssl True,
     protocol_entry ''Local'' (init 4) ''file'' 0 True False,
     protocol_entry ''SSH2'' (init 5) ''ssh2'' 22 True True,
     protocol_entry ''Bookmark'' bookmark_init ''bookmark'' 0 False False,
     protocol_entry ''FSP'' (init 7) ''fsp'' 21 True True]"


section \<open>Bookmarks\<close>

record bookmark =
  bm_hostname :: "string option"
  bm_protocol :: "string option"
  bm_remote_dir :: "string option"
  bm_local_dir :: "string option"
  bm_user :: "string option"
  bm_pass :: "string option"
  bm_acct :: "string option"
  bm_port :: nat

text \<open>What the parsers look up: the protocol table, the bookmarks by path and the two options.\<close>

record 's url_env =
  env_protocols :: "'s protocol list"
  env_bookmarks :: "string \<Rightarrow> bookmark option"
  env_default_protocol :: "string option"
  env_email :: "string option"

type_synonym 's url_result = "(int \<times> 's connection \<times> 's) option"

definition init_protocol :: "'s protocol \<Rightarrow> 's effect" where
  "init_protocol pr c s =
    (let (ret, c, s) = pr_init pr c s
     in if ret < 0 then let (c, s) = gftp_request_destroy c s in (ret, c, s) else (ret, c, s))"

text \<open>The entry of the option \<open>default_protocol\<close>, by name.\<close>

definition named_protocol :: "string \<Rightarrow> 's protocol list \<Rightarrow> 's protocol option" where
  "named_protocol name ps = List.find (\<lambda>pr. pr_name pr = name) ps"

definition bookmark_fields :: "'s url_env \<Rightarrow> bookmark \<Rightarrow> string \<Rightarrow> gftp_request \<Rightarrow> gftp_request" where
  "bookmark_fields env b host rq =
    (let rq = (if bm_user b \<noteq> None then gftp_set_username (bm_user b) rq else rq);
         rq = (case bm_pass b of
                 None \<Rightarrow> rq
               | Some p \<Rightarrow> if p = ''@EMAIL@'' then gftp_set_password (env_email env) rq
                            else gftp_set_password (Some p) rq);
         rq = (case bm_acct b of None \<Rightarrow> rq | Some a \<Rightarrow> gftp_set_account a rq)
     in gftp_set_hostname host rq)"

text \<open>The entry of the protocol table for a bookmark whose protocol has no entry of that name.\<close>

definition fallback_protocol :: "'s url_env \<Rightarrow> 's protocol" where
  "fallback_protocol env =
    (case (if no_text (env_default_protocol env) then None
           else named_protocol (the (env_default_protocol env)) (env_protocols env)) of
       Some pr \<Rightarrow> pr | None \<Rightarrow> env_protocols env ! GFTP_FTP_NUM)"

text \<open>\<open>refresh_local\<close> is the second to last component. The entry found by name is initialised in
  the loop and once more after it.\<close>

definition gftp_parse_bookmark ::
  "'s url_env \<Rightarrow> 's connection option \<Rightarrow> string \<Rightarrow> 's connection \<Rightarrow> 's \<Rightarrow>
   (int \<times> 's connection \<times> 's connection option \<times> bool option \<times> 's) option" where
  "gftp_parse_bookmark env local name c s =
    (let (c, s) = gftp_request_destroy c s
     in case env_bookmarks env name of
          None \<Rightarrow> Some (GFTP_EFATAL, c, local, None, s)
        | Some b \<Rightarrow>
            if no_text (bm_hostname b) then Some (GFTP_EFATAL, c, local, None, s)
            else
              let c = on_req (bookmark_fields env b (the (bm_hostname b))) c;
                  (c, s) = (case bm_remote_dir b of
                              None \<Rightarrow> (c, s)
                            | Some d \<Rightarrow> let (ret, c, s) = gftp_set_directory d c s in (c, s));
                  c = on_req (gftp_set_port (bm_port b)) c;
                  (local, refresh_local, s) =
                    (case local of
                       Some lc \<Rightarrow> if no_text (bm_local_dir b) then (Some lc, False, s)
                                   else let (ret, lc, s) = gftp_set_directory (the (bm_local_dir b)) lc s
                                        in (Some lc, True, s)
                     | None \<Rightarrow> (None, False, s))
              in do { protocol \<leftarrow> bm_protocol b;
                      let first = named_protocol protocol (env_protocols env);
                      let (ret, c, s) = (case first of None \<Rightarrow> (0, c, s) | Some pr \<Rightarrow> init_protocol pr c s);
                      if ret < 0 then Some (ret, c, local, Some refresh_local, s)
                      else let (ret, c, s) =
                                 init_protocol (case first of Some pr \<Rightarrow> pr | None \<Rightarrow> fallback_protocol env) c s
                           in Some (if ret < 0 then ret else 0, c, local, Some refresh_local, s) })"

definition parse_bookmark_alone :: "'s url_env \<Rightarrow> string \<Rightarrow> 's connection \<Rightarrow> 's \<Rightarrow> 's url_result" where
  "parse_bookmark_alone env name c s =
     map_option (\<lambda>(ret, c, local, refresh_local, s). (ret, c, s)) (gftp_parse_bookmark env None name c s)"

definition bookmark_parse_url :: "'s url_env \<Rightarrow> string \<Rightarrow> 's connection \<Rightarrow> 's \<Rightarrow> 's url_result" where
  "bookmark_parse_url env url c s =
    (case strstr url ''://'' of
       Some p \<Rightarrow> if \<not> starts_with ''bookmark://'' url then Some (GFTP_EFATAL, c, s)
                 else parse_bookmark_alone env (drop 3 p) c s
     | None \<Rightarrow> parse_bookmark_alone env url c s)"


section \<open>URLs\<close>

text \<open>Blanks are cut off the end from the last byte on; the empty copy is read before its start.\<close>

fun trim_back :: "string \<Rightarrow> string option" where
  "trim_back s = (if s = [] then None else if is_blank (last s) then trim_back (butlast s) else Some s)"

declare trim_back.simps [simp del]

definition url_copy :: "string \<Rightarrow> string option" where
  "url_copy url = trim_back (dropWhile is_blank url)"

text \<open>The digits at the end, when a colon is before them. The scan stops at the slash of the
  protocol, and runs out of the copy when there is no protocol.\<close>

definition split_port :: "bool \<Rightarrow> string \<Rightarrow> (string \<times> int option) option" where
  "split_port has_protocol a =
    (let digits = rev (takeWhile is_digit (rev a)); rest = take (length a - length digits) a
     in if rest = [] then (if has_protocol then Some (a, None) else None)
        else if last rest = CHR '':'' \<and> digits \<noteq> [] then Some (butlast rest, Some (strtol10 digits))
        else Some (a, None))"

definition unsigned_int :: "int \<Rightarrow> nat" where
  "unsigned_int i = nat (i mod 2 ^ 32)"

definition set_authority :: "string \<Rightarrow> gftp_request \<Rightarrow> gftp_request" where
  "set_authority a rq =
    (case strrchr a (CHR ''@'') of
       None \<Rightarrow> gftp_set_hostname a rq
     | Some endpos \<Rightarrow>
         let rq = gftp_set_hostname (tl endpos) rq; userinfo = before a endpos
         in case strchr userinfo (CHR '':'') of
              Some colon \<Rightarrow> gftp_set_password (Some (tl colon)) (gftp_set_username (Some (before userinfo colon)) rq)
            | None \<Rightarrow> gftp_set_password (Some []) (gftp_set_username (Some userinfo) rq))"

text \<open>The part after the protocol was found: \<open>lead\<close> is the protocol with its separator.\<close>

definition parse_location ::
  "'s url_env \<Rightarrow> 's protocol \<Rightarrow> string \<Rightarrow> string \<Rightarrow> 's connection \<Rightarrow> 's \<Rightarrow> 's url_result" where
  "parse_location env pr lead pos c s =
    (let (ret, c, s) = init_protocol pr c s
     in if ret < 0 then Some (ret, c, s)
        else let (a, c, s) = (case strchr pos (CHR ''/'') of
                                None \<Rightarrow> (pos, c, s)
                              | Some d \<Rightarrow> let (ret, c, s) = gftp_set_directory d c s in (before pos d, c, s))
             in if op_parse_url (con_ops c) \<noteq> None then bookmark_parse_url env (lead @ a) c s
                else if a = [] then Some (0, c, s)
                else do { (host, port) \<leftarrow> split_port (lead \<noteq> []) a;
                          let c = (case port of None \<Rightarrow> c | Some p \<Rightarrow> on_req (gftp_set_port (unsigned_int p)) c);
                          Some (0, on_req (set_authority host) c, s) })"

definition gftp_parse_url :: "'s url_env \<Rightarrow> string \<Rightarrow> 's connection \<Rightarrow> 's \<Rightarrow> 's url_result" where
  "gftp_parse_url env url c s =
    (let (c, s) = gftp_request_destroy c s
     in do { new_url \<leftarrow> url_copy url;
             case strstr new_url ''://'' of
               Some p \<Rightarrow>
                 (case List.find (\<lambda>pr. pr_url_prefix pr = before new_url p) (env_protocols env) of
                    None \<Rightarrow> Some (GFTP_EFATAL, c, s)
                  | Some pr \<Rightarrow> parse_location env pr (before new_url p @ ''://'') (drop 3 p) c s)
             | None \<Rightarrow>
                 (case (if no_text (env_default_protocol env) then Some (env_protocols env ! GFTP_FTP_NUM)
                        else named_protocol (the (env_default_protocol env)) (env_protocols env)) of
                    None \<Rightarrow> Some (GFTP_EFATAL, c, s)
                  | Some pr \<Rightarrow> parse_location env pr [] new_url c s) })"

section \<open>URLs put together and taken apart\<close>

record url =
  url_protocol :: string
  url_user :: "(string \<times> string option) option"
  url_host :: string
  url_port :: "nat option"
  url_directory :: "string option"

definition authority_text :: "url \<Rightarrow> string" where
  "authority_text u =
     (case url_user u of
        None \<Rightarrow> []
      | Some (n, None) \<Rightarrow> n @ ''@''
      | Some (n, Some p) \<Rightarrow> n @ '':'' @ p @ ''@'') @
     url_host u @ (case url_port u of None \<Rightarrow> [] | Some p \<Rightarrow> '':'' @ show_nat p)"

definition url_text :: "url \<Rightarrow> string" where
  "url_text u = url_protocol u @ ''://'' @ authority_text u @ or_empty (url_directory u)"

definition url_ok :: "url \<Rightarrow> bool" where
  "url_ok u \<longleftrightarrow>
     CHR '':'' \<notin> set (url_protocol u) \<and> url_protocol u \<noteq> [] \<and> \<not> is_blank (hd (url_protocol u)) \<and>
     \<not> is_blank (last (url_text u)) \<and>
     url_host u \<noteq> [] \<and> CHR ''@'' \<notin> set (url_host u) \<and> CHR ''/'' \<notin> set (url_host u) \<and>
     (case url_user u of
        None \<Rightarrow> True
      | Some (n, p) \<Rightarrow> CHR '':'' \<notin> set n \<and> CHR ''/'' \<notin> set n \<and> CHR ''/'' \<notin> set (or_empty p)) \<and>
     (case url_port u of None \<Rightarrow> \<not> is_digit (last (url_host u)) \<or> CHR '':'' \<notin> set (url_host u)
                       | Some p \<Rightarrow> p < 2 ^ 32) \<and>
     (case url_directory u of None \<Rightarrow> True | Some d \<Rightarrow> d \<noteq> [] \<and> hd d = CHR ''/'')"

text \<open>The request such a URL describes.\<close>

definition url_fields :: "url \<Rightarrow> gftp_request \<Rightarrow> gftp_request" where
  "url_fields u rq =
     rq \<lparr> rq_hostname := Some (url_host u),
          rq_username := (case url_user u of None \<Rightarrow> rq_username rq | Some (n, p) \<Rightarrow> Some n),
          rq_password := (case url_user u of None \<Rightarrow> rq_password rq | Some (n, p) \<Rightarrow> Some (or_empty p)),
          rq_port := (case url_port u of None \<Rightarrow> rq_port rq | Some p \<Rightarrow> p),
          rq_directory := (case url_directory u of None \<Rightarrow> rq_directory rq | Some d \<Rightarrow> Some d) \<rparr>"

lemma trim_back_blanks:
  "s \<noteq> [] \<Longrightarrow> \<not> is_blank (last s) \<Longrightarrow> trim_back (s @ replicate n SPC) = Some s"
proof (induction n)
  case 0
  then show ?case by (simp add: trim_back.simps)
next
  case (Suc n)
  have "s @ replicate (Suc n) SPC = (s @ replicate n SPC) @ [SPC]"
    by (simp add: replicate_append_same)
  then show ?case using Suc by (subst trim_back.simps) (simp add: is_blank_def butlast_append)
qed

lemma url_copy_blanks:
  "s \<noteq> [] \<Longrightarrow> \<not> is_blank (hd s) \<Longrightarrow> \<not> is_blank (last s) \<Longrightarrow>
   url_copy (replicate m SPC @ s @ replicate n SPC) = Some s"
proof -
  assume s: "s \<noteq> []" "\<not> is_blank (hd s)" "\<not> is_blank (last s)"
  have "dropWhile is_blank (replicate m SPC @ s @ replicate n SPC) = s @ replicate n SPC"
    using s dropWhile_append2 [of "replicate m SPC" is_blank "s @ replicate n SPC"]
    by (cases s) (auto simp: is_blank_def)
  then show ?thesis by (simp add: url_copy_def trim_back_blanks s)
qed

lemma url_copy_None: "url_copy url = None \<longleftrightarrow> (\<forall>c \<in> set url. is_blank c)"
proof -
  have trim: "trim_back s = None \<longleftrightarrow> (\<forall>c \<in> set s. is_blank c)" for s
  proof (induction s rule: trim_back.induct)
    case (1 s)
    then show ?case by (cases s rule: rev_cases) (auto simp: trim_back.simps)
  qed
  have "(\<forall>c \<in> set (dropWhile is_blank url). is_blank c) \<longleftrightarrow> (\<forall>c \<in> set url. is_blank c)"
    by (metis dropWhile_eq_Nil_conv hd_dropWhile hd_in_set set_dropWhileD)
  then show ?thesis by (simp add: url_copy_def trim)
qed

lemma split_port_number:
  "h \<noteq> [] \<Longrightarrow> split_port p (h @ '':'' @ show_nat n) = Some (h, Some (strtol10 (show_nat n)))"
proof -
  have "\<forall>x \<in> set (rev (show_nat n)). is_digit x" by simp
  then have "takeWhile is_digit (rev (show_nat n) @ CHR '':'' # rev h) = rev (show_nat n)"
    by (subst takeWhile_append2) (auto simp: is_digit_def code_of_def)
  then show ?thesis by (simp add: split_port_def Let_def)
qed

definition plain_connection :: "'s connection \<Rightarrow> bool" where
  "plain_connection c \<longleftrightarrow> op_parse_url (con_ops c) = None \<and> rq_datafd (con_req c) \<le> 0 \<and>
     \<not> rq_always_connected (con_req c)"

lemma strstr_separator:
  assumes "CHR '':'' \<notin> set p"
  shows "strstr (p @ ''://'' @ r) ''://'' = Some (''://'' @ r)"
  using assms
proof (induction p)
  case Nil
  show ?case by simp
next
  case (Cons c p)
  then show ?case by (auto simp: starts_with_iff)
qed

lemma split_port_plain:
  assumes h: "h \<noteq> []" "\<not> is_digit (last h) \<or> CHR '':'' \<notin> set h" and ui: "ui = [] \<or> last ui = CHR ''@''"
  shows "split_port True (ui @ h) = Some (ui @ h, None)"
proof -
  let ?rev = "dropWhile is_digit (rev (ui @ h))"
  have at: "\<not> is_digit (CHR ''@'')" by (simp add: is_digit_def code_of_def)
  have hd: "hd ?rev \<noteq> CHR '':'' \<or> takeWhile is_digit (rev (ui @ h)) = []" if "?rev \<noteq> []"
  proof (cases "\<forall>c \<in> set h. is_digit c")
    case True
    then have rev: "?rev = dropWhile is_digit (rev ui)" by (simp add: dropWhile_append)
    with that have "ui \<noteq> []" by auto
    with ui obtain v where "ui = v @ [CHR ''@'']" by (metis append_butlast_last_id)
    with at rev show ?thesis by simp
  next
    case False
    then have ne: "dropWhile is_digit (rev h) \<noteq> []" by auto
    then have rev: "?rev = dropWhile is_digit (rev h) @ rev ui" using False by (auto simp: dropWhile_append)
    show ?thesis
    proof (cases "is_digit (last h)")
      case True
      with h(2) have "CHR '':'' \<notin> set h" by simp
      then have "hd (dropWhile is_digit (rev h)) \<noteq> CHR '':''"
        using ne by (metis hd_in_set set_dropWhileD set_rev)
      with ne rev show ?thesis by simp
    next
      case False
      then have "takeWhile is_digit (rev (ui @ h)) = []"
        using h(1) by (cases h rule: rev_cases) auto
      then show ?thesis by blast
    qed
  qed
  have rest: "take (length a - length (takeWhile is_digit (rev a))) a = rev (dropWhile is_digit (rev a))" for a
    by (metis dropWhile_eq_drop length_rev rev_drop rev_rev_ident)
  show ?thesis
    using hd unfolding split_port_def Let_def rest length_rev by (auto simp: last_rev)
qed

lemma split_authority:
  assumes "url_ok u"
  shows "\<exists>h. split_port True (authority_text u) = Some (h, map_option int (url_port u)) \<and>
    (\<forall>rq. set_authority h rq = rq \<lparr> rq_hostname := Some (url_host u),
          rq_username := (case url_user u of None \<Rightarrow> rq_username rq | Some (n, p) \<Rightarrow> Some n),
          rq_password := (case url_user u of None \<Rightarrow> rq_password rq | Some (n, p) \<Rightarrow> Some (or_empty p)) \<rparr>)"
proof -
  let ?ui = "case url_user u of None \<Rightarrow> [] | Some (n, None) \<Rightarrow> n @ ''@'' | Some (n, Some p) \<Rightarrow> n @ '':'' @ p @ ''@''"
  let ?h = "?ui @ url_host u"
  have host: "url_host u \<noteq> []" "CHR ''@'' \<notin> set (url_host u)" using assms by (auto simp: url_ok_def)
  have ui: "?ui = [] \<or> last ?ui = CHR ''@''" by (auto split: option.splits)
  have port: "strtol10 (show_nat p) = int p" if "url_port u = Some p" for p
    using assms that strtol_show_int [of "[]" "int p"] by (simp add: url_ok_def show_int_def)
  have "split_port True (authority_text u) = Some (?h, map_option int (url_port u))"
  proof (cases "url_port u")
    case None
    then have "\<not> is_digit (last (url_host u)) \<or> CHR '':'' \<notin> set (url_host u)"
      using assms by (simp add: url_ok_def)
    then show ?thesis
      using split_port_plain [OF host(1) _ ui] None by (simp add: authority_text_def)
  next
    case (Some p)
    then show ?thesis
      using split_port_number [of ?h True p] host port by (simp add: authority_text_def)
  qed
  moreover have "set_authority ?h rq = rq \<lparr> rq_hostname := Some (url_host u),
          rq_username := (case url_user u of None \<Rightarrow> rq_username rq | Some (n, p) \<Rightarrow> Some n),
          rq_password := (case url_user u of None \<Rightarrow> rq_password rq | Some (n, p) \<Rightarrow> Some (or_empty p)) \<rparr>" for rq
  proof (cases "url_user u")
    case None
    moreover have "strrchr (url_host u) (CHR ''@'') = None" using host(2) by simp
    ultimately show ?thesis
      by (simp add: set_authority_def gftp_set_hostname_def del: strrchr_None_iff)
  next
    case (Some np)
    obtain n p where np: "np = (n, p)" by (cases np)
    have n: "CHR '':'' \<notin> set n" using assms Some np by (simp add: url_ok_def)
    have at: "strrchr (x @ CHR ''@'' # url_host u) (CHR ''@'') = Some (CHR ''@'' # url_host u)" for x
      using host(2) by (rule strrchr_append)
    have before_at: "before (x @ CHR ''@'' # url_host u) (CHR ''@'' # url_host u) = x" for x
      by (rule before_append)
    show ?thesis
    proof (cases p)
      case None
      moreover have "strchr n (CHR '':'') = None" using n by simp
      ultimately show ?thesis using Some np at [of n] before_at [of n]
        by (simp del: strchr_None_iff add: set_authority_def gftp_set_hostname_def gftp_set_username_def
            gftp_set_password_def or_empty_def)
    next
      case (Some pw)
      have "strchr (n @ CHR '':'' # pw) (CHR '':'') = Some (CHR '':'' # pw)"
        using n by (rule strchr_append)
      then show ?thesis using \<open>url_user u = Some np\<close> Some np at [of "n @ CHR '':'' # pw"]
          before_at [of "n @ CHR '':'' # pw"] before_append [of n "CHR '':'' # pw"]
        by (simp add: set_authority_def gftp_set_hostname_def gftp_set_username_def
            gftp_set_password_def or_empty_def)
    qed
  qed
  ultimately show ?thesis by blast
qed

lemma destroyed_request: "\<exists>s'. gftp_request_destroy c s = (gftp_request_new, s')"
  by (auto simp: gftp_request_destroy_def Let_def split: prod.splits)

lemma authority_no_slash: "url_ok u \<Longrightarrow> CHR ''/'' \<notin> set (authority_text u)"
proof -
  assume u: "url_ok u"
  have "CHR ''/'' \<notin> set (show_nat p)" for p
    using show_nat_digits [of "CHR ''/''" p] by (auto simp: is_digit_def code_of_def)
  with u show ?thesis
    by (cases "url_user u") (auto simp: authority_text_def url_ok_def or_empty_def split: option.splits)
qed

lemma location_fields:
  assumes u: "url_ok u" and init: "pr_init pr c s1 = (ret, c1, s2)" "0 \<le> ret" "plain_connection c1"
    and lead: "lead \<noteq> []"
  shows "parse_location env pr lead (authority_text u @ or_empty (url_directory u)) c s1 =
    Some (0, on_req (url_fields u) c1, s2)"
proof -
  let ?a = "authority_text u"
  have a: "CHR ''/'' \<notin> set ?a" "?a \<noteq> []"
    using authority_no_slash [OF u] u by (auto simp: url_ok_def authority_text_def)
  have port: "unsigned_int (int p) = p" if "url_port u = Some p" for p
    using u that by (simp add: url_ok_def unsigned_int_def)
  obtain h where h: "split_port True ?a = Some (h, map_option int (url_port u))"
      "\<And>rq. set_authority h rq = rq \<lparr> rq_hostname := Some (url_host u),
          rq_username := (case url_user u of None \<Rightarrow> rq_username rq | Some (n, p) \<Rightarrow> Some n),
          rq_password := (case url_user u of None \<Rightarrow> rq_password rq | Some (n, p) \<Rightarrow> Some (or_empty p)) \<rparr>"
    using split_authority [OF u] by blast
  let ?c = "case url_directory u of None \<Rightarrow> c1 | Some d \<Rightarrow> on_req (\<lambda>rq. rq \<lparr> rq_directory := Some d \<rparr>) c1"
  have dirs: "(case strchr (?a @ or_empty (url_directory u)) (CHR ''/'') of
           None \<Rightarrow> (?a @ or_empty (url_directory u), c1, s2)
         | Some d \<Rightarrow> let (ret, c, s) = gftp_set_directory d c1 s2
                      in (before (?a @ or_empty (url_directory u)) d, c, s)) = (?a, ?c, s2)"
  proof (cases "url_directory u")
    case None
    moreover have "strchr ?a (CHR ''/'') = None" using a(1) by simp
    ultimately show ?thesis by (simp add: or_empty_def del: strchr_None_iff)
  next
    case (Some d)
    then obtain e where "d = CHR ''/'' # e" using u by (cases d) (auto simp: url_ok_def)
    then show ?thesis
      using Some strchr_append [OF a(1), of e] before_append [of ?a d] init(3)
      by (simp add: or_empty_def gftp_set_directory_def plain_connection_def)
  qed
  have "\<not> ret < 0" using init(2) by simp
  then have loc: "parse_location env pr lead (?a @ or_empty (url_directory u)) c s1 =
      (if op_parse_url (con_ops ?c) \<noteq> None then bookmark_parse_url env (lead @ ?a) ?c s2
       else if ?a = [] then Some (0, ?c, s2)
       else do { (host, port) \<leftarrow> split_port (lead \<noteq> []) ?a;
                 let c = (case port of None \<Rightarrow> ?c | Some p \<Rightarrow> on_req (gftp_set_port (unsigned_int p)) ?c);
                 Some (0, on_req (set_authority host) c, s2) })"
    unfolding parse_location_def init_protocol_def init(1)
    by (simp only: Let_def prod.case if_False dirs [unfolded Let_def])
  have "op_parse_url (con_ops ?c) = None"
    using init(3) by (auto simp: plain_connection_def on_req_def split: option.splits)
  then have "parse_location env pr lead (?a @ or_empty (url_directory u)) c s1 =
      Some (0, on_req (set_authority h) (case url_port u of None \<Rightarrow> ?c | Some p \<Rightarrow> on_req (gftp_set_port p) ?c), s2)"
    unfolding loc using a(2) lead h(1) port by (cases "url_port u") simp_all
  also have "on_req (set_authority h) (case url_port u of None \<Rightarrow> ?c | Some p \<Rightarrow> on_req (gftp_set_port p) ?c)
      = on_req (url_fields u) c1"
    by (cases "url_user u"; cases "url_port u"; cases "url_directory u")
      (auto simp: on_req_def h(2) gftp_set_port_def url_fields_def)
  finally show ?thesis .
qed

text \<open>C22: A URL made of its parts, with blanks around it, fills the request with those parts on top
  of what the protocol's \<open>init\<close> has set.\<close>


theorem parse_url_fields:
  assumes u: "url_ok u"
    and destroyed: "gftp_request_destroy c s = (gftp_request_new, s1)"
    and found: "List.find (\<lambda>pr. pr_url_prefix pr = url_protocol u) (env_protocols env) = Some pr"
    and init: "pr_init pr gftp_request_new s1 = (ret, c1, s2)" "0 \<le> ret" "plain_connection c1"
  shows "gftp_parse_url env (replicate m SPC @ url_text u @ replicate n SPC) c s =
    Some (0, on_req (url_fields u) c1, s2)"
proof -
  have nonempty: "url_text u \<noteq> []" and hd: "hd (url_text u) = hd (url_protocol u)"
    using u by (auto simp: url_ok_def url_text_def)
  have "url_copy (replicate m SPC @ url_text u @ replicate n SPC) = Some (url_text u)"
    using u nonempty hd by (intro url_copy_blanks) (auto simp: url_ok_def)
  moreover have "strstr (url_text u) ''://'' = Some (''://'' @ authority_text u @ or_empty (url_directory u))"
    using u strstr_separator [of "url_protocol u"] by (simp add: url_text_def url_ok_def)
  moreover have "before (url_text u) (''://'' @ authority_text u @ or_empty (url_directory u)) = url_protocol u"
    unfolding url_text_def by (rule before_append)
  ultimately show ?thesis
    using location_fields [OF u init, of "url_protocol u @ ''://''" env] destroyed found
    by (simp add: gftp_parse_url_def)
qed

definition example_url :: url where
  "example_url = \<lparr> url_protocol = ''ftp'', url_user = Some (''me@home'', Some ''p:w''), url_host = ''h1.org'',
     url_port = Some 2121, url_directory = Some ''/pub'' \<rparr>"

definition example_env :: "unit url_env" where
  "example_env = \<lparr> env_protocols = gftp_protocols True (\<lambda>n c s. (0, c, s)), env_bookmarks = (\<lambda>_. None),
     env_default_protocol = None, env_email = None \<rparr>"

theorem parse_url_fields_witness:
  "gftp_parse_url example_env ('' '' @ url_text example_url @ ''  '') gftp_request_new () =
    Some (0, on_req (url_fields example_url) gftp_request_new, ())"
proof -
  have ok: "url_ok example_url"
    by (simp add: url_ok_def example_url_def url_text_def authority_text_def or_empty_def is_blank_def)
  have blanks: "'' '' @ t @ ''  '' = replicate 1 SPC @ t @ replicate 2 SPC" for t
    by (simp add: numeral_2_eq_2)
  have d: "gftp_request_destroy gftp_request_new () = (gftp_request_new, ())"
    using destroyed_request [of gftp_request_new "()"] by simp
  show ?thesis
    unfolding blanks
    by (rule parse_url_fields [where pr = "protocol_entry ''FTP'' (\<lambda>c s. (0, c, s)) ''ftp'' 21 True True" and ret = 0, OF ok d])
      (simp_all add: example_env_def example_url_def gftp_protocols_def protocol_entry_def
        plain_connection_def gftp_request_new_def zero_request_def no_ops_def)
qed

section \<open>URLs that are not taken apart\<close>

lemma plain_request_new: "plain_connection gftp_request_new"
  by (simp add: plain_connection_def gftp_request_new_def zero_request_def no_ops_def)

lemma strstr_no_first: "nd = n # ns \<Longrightarrow> n \<notin> set h \<Longrightarrow> strstr h nd = None"
  by (induction h) (auto simp: starts_with_iff)

lemma digits_no_char: "\<forall>x \<in> set d. is_digit x \<Longrightarrow> \<not> is_digit y \<Longrightarrow> y \<notin> set d"
  by blast

text \<open>An empty or blank URL is read before the start of its copy, and so is one of digits only:
  the scan for the port number does not stop at the start of the text.\<close>

theorem parse_url_reads_before_copy:
  assumes digits: "\<forall>x \<in> set d. is_digit x" "d \<noteq> []"
    and default: "no_text (env_default_protocol env)"
    and destroyed: "gftp_request_destroy c s = (gftp_request_new, s1)"
    and init: "pr_init (env_protocols env ! 0) gftp_request_new s1 = (ret, c1, s2)" "0 \<le> ret" "plain_connection c1"
  shows "gftp_parse_url env d c s = None \<and> gftp_parse_url env (replicate n SPC) c s = None"
proof
  have nots: "\<not> is_digit (CHR '':'')" "\<not> is_digit (CHR ''/'')" by (simp_all add: is_digit_def code_of_def)
  have "\<not> is_blank (hd d)" "\<not> is_blank (last d)"
    using digits blank_not_digit by (metis hd_in_set last_in_set)+
  then have copy: "url_copy d = Some d"
    using url_copy_blanks [of d 0 0] digits(2) by simp
  have sep: "strstr d ''://'' = None"
    using digits_no_char [OF digits(1) nots(1)] by (intro strstr_no_first) simp_all
  have slash: "strchr d (CHR ''/'') = None"
    using digits_no_char [OF digits(1) nots(2)] by simp
  have tw: "takeWhile is_digit (rev d) = rev d" using digits(1) by simp
  have "split_port False d = None" unfolding split_port_def tw by simp
  then show "gftp_parse_url env d c s = None"
    using init digits(2) default
    by (simp add: gftp_parse_url_def destroyed copy sep parse_location_def init_protocol_def
        slash plain_connection_def del: strchr_None_iff)
  have "url_copy (replicate n SPC) = None" by (simp add: url_copy_None is_blank_def)
  then show "gftp_parse_url env (replicate n SPC) c s = None"
    by (simp add: gftp_parse_url_def destroyed)
qed

theorem parse_url_reads_before_copy_witness:
  "gftp_parse_url example_env ''10'' gftp_request_new () = None \<and>
   gftp_parse_url example_env ''  '' gftp_request_new () = None"
proof -
  have d: "gftp_request_destroy gftp_request_new () = (gftp_request_new, ())"
    using destroyed_request [of gftp_request_new "()"] by simp
  show ?thesis
    using parse_url_reads_before_copy [of "''10''" example_env gftp_request_new "()" "()" 0 gftp_request_new "()" 2]
    by (simp add: d plain_request_new example_env_def gftp_protocols_def protocol_entry_def no_text_def
        numeral_2_eq_2 is_digit_def code_of_def)
qed

lemma parse_bookmark_fresh:
  "op_disconnect (con_ops c) = None \<Longrightarrow> op_destroy (con_ops c) = None \<Longrightarrow>
   gftp_parse_bookmark env None f c s = gftp_parse_bookmark env None f gftp_request_new s"
  by (simp add: gftp_parse_bookmark_def gftp_request_destroy_def gftp_disconnect_def
      uncached_def gftp_request_new_def no_ops_def)

lemma bookmark_init_new:
  "\<exists>c. init_protocol (protocol_entry ''Bookmark'' bookmark_init ''bookmark'' 0 False False)
        gftp_request_new s = (0, c, s) \<and>
     op_parse_url (con_ops c) \<noteq> None \<and> op_disconnect (con_ops c) = None \<and> op_destroy (con_ops c) = None \<and>
     rq_datafd (con_req c) \<le> 0 \<and> \<not> rq_always_connected (con_req c)"
  by (simp add: init_protocol_def protocol_entry_def bookmark_init_def gftp_set_config_options_def
      gftp_request_new_def no_ops_def zero_request_def)

text \<open>The name of a bookmark is cut at its first slash when it is opened by its URL, so a
  bookmark inside a folder, whose path has a slash, is looked up under the name of the folder.\<close>

theorem bookmark_url_cut_at_slash:
  assumes env: "env_protocols env = gftp_protocols ssl init"
    and f: "CHR ''/'' \<notin> set f" and r: "r \<noteq> []" "\<not> is_blank (last r)"
    and destroyed: "gftp_request_destroy c s = (gftp_request_new, s1)"
  shows "gftp_parse_url env (''bookmark://'' @ f @ ''/'' @ r) c s = parse_bookmark_alone env f gftp_request_new s1"
proof -
  let ?u = "''bookmark://'' @ f @ ''/'' @ r"
  have "url_copy ?u = Some ?u"
    using url_copy_blanks [of ?u 0 0] r by (simp add: is_blank_def)
  moreover have sep: "strstr (''bookmark'' @ ''://'' @ x) ''://'' = Some (''://'' @ x)" for x
    by (rule strstr_separator) simp
  moreover have "before (''bookmark'' @ ''://'' @ x) (''://'' @ x) = ''bookmark''" for x
    by (rule before_append)
  moreover have "List.find (\<lambda>pr. pr_url_prefix pr = ''bookmark'') (env_protocols env) =
      Some (protocol_entry ''Bookmark'' bookmark_init ''bookmark'' 0 False False)"
    by (simp add: env gftp_protocols_def protocol_entry_def)
  ultimately have "gftp_parse_url env ?u c s =
      parse_location env (protocol_entry ''Bookmark'' bookmark_init ''bookmark'' 0 False False) ''bookmark://''
        (f @ ''/'' @ r) gftp_request_new s1"
    by (simp add: gftp_parse_url_def destroyed)
  also have "\<dots> = parse_bookmark_alone env f gftp_request_new s1"
  proof -
    obtain c1 where c1: "init_protocol (protocol_entry ''Bookmark'' bookmark_init ''bookmark'' 0 False False)
          gftp_request_new s1 = (0, c1, s1)"
        "op_parse_url (con_ops c1) \<noteq> None" "op_disconnect (con_ops c1) = None" "op_destroy (con_ops c1) = None"
        "rq_datafd (con_req c1) \<le> 0" "\<not> rq_always_connected (con_req c1)"
      using bookmark_init_new [of s1] by blast
    have "strchr (f @ ''/'' @ r) (CHR ''/'') = Some (''/'' @ r)"
      using strchr_append [OF f, of r] by simp
    then show ?thesis
      using sep [of f] before_append [of f "''/'' @ r"] c1
        parse_bookmark_fresh [of "on_req (\<lambda>rq. rq \<lparr> rq_directory := Some (''/'' @ r) \<rparr>) c1" env f s1]
      by (simp add: parse_location_def gftp_set_directory_def on_req_def bookmark_parse_url_def
          parse_bookmark_alone_def)
  qed
  finally show ?thesis .
qed

definition folder_env :: "unit url_env" where
  "folder_env = example_env \<lparr> env_bookmarks := [''Work/site'' \<mapsto>
     \<lparr> bm_hostname = Some ''h'', bm_protocol = Some ''FTP'', bm_remote_dir = None, bm_local_dir = None,
       bm_user = None, bm_pass = None, bm_acct = None, bm_port = 21 \<rparr>] \<rparr>"

theorem bookmark_url_cut_at_slash_witness:
  "gftp_parse_url folder_env ''bookmark://Work/site'' gftp_request_new () = Some (GFTP_EFATAL, gftp_request_new, ()) \<and>
   env_bookmarks folder_env ''Work/site'' \<noteq> None"
proof -
  have d: "gftp_request_destroy gftp_request_new () = (gftp_request_new, ())"
    using destroyed_request [of gftp_request_new "()"] by simp
  show ?thesis
    using bookmark_url_cut_at_slash [of folder_env True "\<lambda>n c s. (0, c, s)" "''Work''" "''site''" gftp_request_new "()" "()"]
    by (simp add: d folder_env_def example_env_def is_blank_def parse_bookmark_alone_def gftp_parse_bookmark_def)
qed

end
