(* ===== verification/Actions.thy ===== *)
theory Actions
  imports Line_Reader
begin

text \<open>
  The protocol modules as state transformers: an action runs on a module's state and gives a result
  and the next state, or gets stuck. \<^term>\<open>Out_of_bounds\<close> is an access outside an object or a read of
  uninitialised text, \<^term>\<open>Out_of_fuel\<close> a loop or recursion longer than its fuel.
\<close>

type_synonym ('s, 'a) action = "'s \<Rightarrow> stuck + 'a \<times> 's"

definition give :: "'a \<Rightarrow> ('s, 'a) action" where
  "give a s = Inr (a, s)"

definition and_then :: "('s, 'a) action \<Rightarrow> ('a \<Rightarrow> ('s, 'b) action) \<Rightarrow> ('s, 'b) action" where
  "and_then m k s = (case m s of Inl e \<Rightarrow> Inl e | Inr (a, s') \<Rightarrow> k a s')"

definition get_state :: "('s, 's) action" where "get_state s = Inr (s, s)"
definition change :: "('s \<Rightarrow> 's) \<Rightarrow> ('s, unit) action" where "change f s = Inr ((), f s)"
definition stop :: "stuck \<Rightarrow> ('s, 'a) action" where "stop e s = Inl e"

lemmas act_simps = give_def and_then_def get_state_def change_def stop_def

lemma and_then_Inr: "m s = Inr (a, s') \<Longrightarrow> and_then m k s = k a s'"
  by (simp add: and_then_def)

lemma and_then_Inl: "m s = Inl e \<Longrightarrow> and_then m k s = Inl e"
  by (simp add: and_then_def)

lemma and_then_eq_InrD:
  "and_then m k s = Inr (b, s'') \<Longrightarrow> \<exists>a s'. m s = Inr (a, s') \<and> k a s' = Inr (b, s'')"
  by (auto simp: and_then_def split: sum.splits prod.splits)

lemma and_then_give [simp]: "and_then (give a) k = k a"
  by (rule ext) (simp add: act_simps)

lemma and_then_give_right [simp]: "and_then m give = m"
  by (rule ext) (simp add: act_simps split: sum.split)

lemma and_then_assoc: "and_then (and_then m k) l = and_then m (\<lambda>a. and_then (k a) l)"
  by (rule ext) (simp add: and_then_def split: sum.split)

text \<open>A pointer that may be NULL or too short, as an action.\<close>

definition need :: "'a option \<Rightarrow> ('s, 'a) action" where
  "need m = (case m of None \<Rightarrow> stop Out_of_bounds | Some a \<Rightarrow> give a)"

lemma need_simps [simp]: "need (Some a) = give a" "need None = stop Out_of_bounds"
  by (simp_all add: need_def)

text \<open>Partial correctness: from a state with \<open>P\<close> an action that is not stuck ends with \<open>Q\<close>.\<close>

definition triple :: "('s \<Rightarrow> bool) \<Rightarrow> ('s, 'a) action \<Rightarrow> ('a \<Rightarrow> 's \<Rightarrow> bool) \<Rightarrow> bool" where
  "triple P m Q \<longleftrightarrow> (\<forall>s a s'. P s \<longrightarrow> m s = Inr (a, s') \<longrightarrow> Q a s')"

lemma tripleI: "(\<And>s a s'. P s \<Longrightarrow> m s = Inr (a, s') \<Longrightarrow> Q a s') \<Longrightarrow> triple P m Q"
  by (auto simp: triple_def)

lemma tripleD: "triple P m Q \<Longrightarrow> P s \<Longrightarrow> m s = Inr (a, s') \<Longrightarrow> Q a s'"
  by (auto simp: triple_def)

lemma triple_conseq:
  "triple P m Q \<Longrightarrow> (\<And>s. P' s \<Longrightarrow> P s) \<Longrightarrow> (\<And>a s. Q a s \<Longrightarrow> Q' a s) \<Longrightarrow> triple P' m Q'"
  unfolding triple_def by blast

lemma triple_give: "(\<And>s. P s \<Longrightarrow> Q a s) \<Longrightarrow> triple P (give a) Q"
  by (simp add: triple_def give_def)

lemma triple_stop: "triple P (stop e) Q"
  by (simp add: triple_def stop_def)

lemma triple_change: "(\<And>s. P s \<Longrightarrow> Q () (f s)) \<Longrightarrow> triple P (change f) Q"
  by (simp add: triple_def change_def)

lemma triple_need: "(\<And>a s. m = Some a \<Longrightarrow> P s \<Longrightarrow> Q a s) \<Longrightarrow> triple P (need m) Q"
  by (cases m) (auto intro: triple_give triple_stop)

lemma triple_and_then: "triple P m R \<Longrightarrow> (\<And>a. triple (R a) (k a) Q) \<Longrightarrow> triple P (and_then m k) Q"
  unfolding triple_def by (blast dest: and_then_eq_InrD)

lemma triple_get: "(\<And>s0. P s0 \<Longrightarrow> triple (\<lambda>s. s = s0) (k s0) Q) \<Longrightarrow> triple P (and_then get_state k) Q"
  by (auto simp: triple_def and_then_def get_state_def)

lemma triple_if:
  "(b \<Longrightarrow> triple P m Q) \<Longrightarrow> (\<not> b \<Longrightarrow> triple P n Q) \<Longrightarrow> triple P (if b then m else n) Q"
  by simp

lemma triple_option:
  "(x = None \<Longrightarrow> triple P m Q) \<Longrightarrow> (\<And>a. x = Some a \<Longrightarrow> triple P (k a) Q) \<Longrightarrow>
   triple P (case x of None \<Rightarrow> m | Some a \<Rightarrow> k a) Q"
  by (cases x) auto

lemma triple_sum:
  "(\<And>e. x = Inl e \<Longrightarrow> triple P (m e) Q) \<Longrightarrow> (\<And>a. x = Inr a \<Longrightarrow> triple P (k a) Q) \<Longrightarrow>
   triple P (case x of Inl e \<Rightarrow> m e | Inr a \<Rightarrow> k a) Q"
  by (cases x) auto

lemma triple_prod: "(\<And>a b. x = (a, b) \<Longrightarrow> triple P (k a b) Q) \<Longrightarrow> triple P (case x of (a, b) \<Rightarrow> k a b) Q"
  by (cases x) auto

lemma triple_pre_False: "triple (\<lambda>s. False) m Q"
  by (simp add: triple_def)

lemmas triple_rules = triple_if triple_option triple_sum triple_prod triple_stop triple_get triple_and_then

end
