(* ===== verification/Ftp_Control.thy ===== *)
theory Ftp_Control
  imports Requests Actions
begin

text \<open>
  The control connection of \<open>lib/rfc959.c\<close>: reading replies, sending commands with one reconnect,
  the proxy login string, PWD, CWD, SYST and the login in \<open>rfc959_connect\<close>.

  The state \<open>ftp\<close> is the request, its \<open>protocol_data\<close> (\<open>lib/ftpcommon.h\<close>), the options the module reads or
  sets, and what the peers will do: the control connection is a pair of channels (bytes in, bytes
  out), a list says how the next calls of \<open>gftp_connect_server\<close> end, others how the system calls of the
  data connection end. \<open>ctl_tls\<close> and \<open>data_tls\<close> say whether the read and write functions in use are those
  of TLS; a channel carries the plain text either way. Replies are read through \<open>gftp_get_line\<close> and \<open>gftp_fd_read\<close> and commands
  written through \<open>gftp_fd_write\<close>, as modelled in Line\_Reader; a channel that reports a disconnect
  has run \<open>gftp_disconnect\<close>. An operation is a state transformer that may get stuck: \<^term>\<open>Out_of_bounds\<close> is
  a read of uninitialised or missing text, \<^term>\<open>Out_of_fuel\<close> a recursion deeper than its fuel.
\<close>


section \<open>The state\<close>

record ftp_options =
  opt_passive_transfer :: bool
  opt_ignore_pasv_address :: bool
  opt_show_hidden_files :: bool
  opt_resolve_symlinks :: bool
  opt_ascii_transfers :: bool
  opt_email :: "string option"
  opt_proxy_host :: "string option"
  opt_proxy_port :: int
  opt_proxy_username :: "string option"
  opt_proxy_password :: "string option"
  opt_proxy_account :: "string option"
  opt_proxy_config :: string

text \<open>How a call of \<open>gftp_connect_server\<close> ends: its result, whether a proxy is used, the new
  control connection, and the port, family and address of the host it found.\<close>

record dial =
  dial_ret :: int
  dial_proxy :: bool
  dial_fd :: int
  dial_in :: channel
  dial_out :: channel
  dial_port :: nat
  dial_family :: int
  dial_addr :: string

record ftp =
  ftp_req :: gftp_request
  datafd_rbuf :: "getline_buffer option"
  dataconn_rbuf :: "getline_buffer option"
  data_connection :: int
  is_ascii_transfer :: bool
  is_fxp_transfer :: bool
  ctl_tls :: bool
  data_tls :: bool
  ftp_opts :: ftp_options
  ctl_in :: channel
  ctl_out :: channel
  dials :: "dial list"
  data_in :: channel
  data_out :: channel
  sys_calls :: "int list"
  data_channels :: "(channel \<times> channel) list"
  sock_name :: string
  data_peer :: string
  cache_in :: channel

type_synonym 'a act = "(ftp, 'a) action"

definition with_req :: "(gftp_request \<Rightarrow> gftp_request) \<Rightarrow> ftp \<Rightarrow> ftp" where
  "with_req f s = s \<lparr> ftp_req := f (ftp_req s) \<rparr>"

definition with_opts :: "(ftp_options \<Rightarrow> ftp_options) \<Rightarrow> ftp \<Rightarrow> ftp" where
  "with_opts f s = s \<lparr> ftp_opts := f (ftp_opts s) \<rparr>"

text \<open>What the module calls outside: the charset conversions of \<open>lib/charset-conv.c\<close>, the start of
  TLS that \<open>lib/ftps.c\<close> may install (which sends commands and so may connect again), what it does
  around \<open>rfc959_connect\<close>, and the TLS handshake, the \<open>init\<close> and \<open>connect\<close> of the HTTP module when the proxy is of that type; and the global list \<open>ext\<close> of file extensions with their transfer type;
  and \<open>inet_ntop\<close>.\<close>

record ftp_env =
  fe_from_utf8 :: "string \<Rightarrow> string option"
  fe_to_utf8 :: "string \<Rightarrow> string option"
  fe_auth_tls_start :: "(int act \<Rightarrow> int act) option"
  fe_connect :: "int act \<Rightarrow> int act"
  fe_http_init :: "int act"
  fe_http_connect :: "int act"
  fe_ssl_session_setup :: "int act"
  fe_ext :: "(string \<times> string) list"
  fe_ntop :: "string \<Rightarrow> string option"


section \<open>Disconnecting\<close>

definition rfc959_close_data_connection :: "ftp \<Rightarrow> ftp" where
  "rfc959_close_data_connection s =
     (if data_connection s \<noteq> -1 then s \<lparr> data_connection := -1 \<rparr> else s)"

definition rfc959_disconnect :: "ftp \<Rightarrow> ftp" where
  "rfc959_disconnect s =
    (let s = rfc959_close_data_connection s
     in if 0 < rq_datafd (ftp_req s) then with_req (\<lambda>rq. rq \<lparr> rq_datafd := -1 \<rparr>) s else s)"

text \<open>\<open>gftp_disconnect\<close> on a request of this module.\<close>

definition ftp_disconnect :: "ftp \<Rightarrow> ftp" where
  "ftp_disconnect s = rfc959_disconnect (with_req (\<lambda>rq. rq \<lparr> rq_cached := False \<rparr>) s)"

text \<open>A read or write that disconnected the request did so through the request's own \<open>disconnect\<close>.\<close>

definition after_io :: "channel \<Rightarrow> ftp \<Rightarrow> ftp" where
  "after_io ch s = (if disconnected ch then ftp_disconnect s else s)"


section \<open>Replies\<close>

definition ftp_get_line :: "nat \<Rightarrow> (int \<times> string option) act" where
  "ftp_get_line len s =
    (case gftp_get_line gftp_fd_read (datafd_rbuf s) len (ctl_in s) of
       Inl e \<Rightarrow> Inl e
     | Inr (ret, line, rbuf, ch) \<Rightarrow>
         Inr ((ret, line), after_io ch (s \<lparr> datafd_rbuf := rbuf, ctl_in := ch \<lparr> disconnected := False \<rparr> \<rparr>)))"

text \<open>The loop reads lines until one starts with the code seen last and a space. \<open>code\<close> and
  \<open>tempstr\<close> are the local variables; \<open>tempstr\<close> has no value before the first line.\<close>

fun response_loop :: "nat \<Rightarrow> string \<Rightarrow> string option \<Rightarrow> (int \<times> string option) act" where
  "response_loop 0 code tempstr = stop Out_of_fuel"
| "response_loop (Suc n) code tempstr =
     and_then (ftp_get_line 255) (\<lambda>(num_read, line).
       if num_read \<le> 0 \<or> line = None then give (num_read, tempstr)
       else let l = the line;
                code = (if 3 \<le> length l \<and> is_digit (l ! 0) \<and> is_digit (l ! 1) \<and> is_digit (l ! 2)
                        then take 3 l @ [SPC] else code)
            in if take 4 code = take 4 l then give (num_read, Some l)
               else response_loop n code (Some l))"

definition first_char :: "string \<Rightarrow> int" where
  "first_char l = (case l of [] \<Rightarrow> 0 | c # _ \<Rightarrow> char_int c)"

abbreviation DIGIT1 :: int where "DIGIT1 \<equiv> 49"
abbreviation DIGIT2 :: int where "DIGIT2 \<equiv> 50"
abbreviation DIGIT3 :: int where "DIGIT3 \<equiv> 51"
abbreviation DIGIT5 :: int where "DIGIT5 \<equiv> 53"

text \<open>Every line takes at least one byte, so the number of bytes to come bounds the turns.\<close>

definition line_fuel :: "ftp \<Rightarrow> nat" where
  "line_fuel s = length (case datafd_rbuf s of None \<Rightarrow> [] | Some rb \<Rightarrow> unread rb) +
     length (bytes_in (script (ctl_in s))) + 2"

definition rfc959_read_response :: "bool \<Rightarrow> int act" where
  "rfc959_read_response disconnect_on_42x =
     and_then get_state (\<lambda>s0.
       if rq_datafd (ftp_req s0) \<le> 0 then give GFTP_EFATAL
       else and_then (change (with_req (\<lambda>rq. rq \<lparr> rq_last_ftp_response := None \<rparr>))) (\<lambda>_.
         and_then (response_loop (line_fuel s0) [] None) (\<lambda>(num_read, tempstr).
           if num_read < 0 then give num_read
           else case tempstr of
             None \<Rightarrow> stop Out_of_bounds
           | Some t \<Rightarrow>
               and_then (change (with_req (\<lambda>rq. rq \<lparr> rq_last_ftp_response := Some t \<rparr>))) (\<lambda>_.
                 if starts_with ''42'' t \<and> disconnect_on_42x
                 then and_then (change ftp_disconnect) (\<lambda>_. give GFTP_ETIMEDOUT)
                 else give (first_char t)))))"


section \<open>Commands\<close>

definition ftp_write :: "string \<Rightarrow> int act" where
  "ftp_write p s =
    (let (ret, ch) = gftp_fd_write p (ctl_out s)
     in Inr (ret, after_io ch (s \<lparr> ctl_out := ch \<lparr> disconnected := False \<rparr> \<rparr>)))"

text \<open>Sending with \<open>dont_try_to_reconnect\<close>, and without: after a 42x reply the connection is opened
  again and the command sent once more.\<close>

definition send_once :: "string \<Rightarrow> bool \<Rightarrow> int act" where
  "send_once command read_response =
     and_then get_state (\<lambda>s.
       if rq_datafd (ftp_req s) \<le> 0 then give GFTP_EFATAL
       else and_then (ftp_write command) (\<lambda>ret.
         if ret < 0 then give ret
         else if read_response then rfc959_read_response True else give 0))"

definition rfc959_send_command :: "int act \<Rightarrow> string \<Rightarrow> bool \<Rightarrow> bool \<Rightarrow> int act" where
  "rfc959_send_command connect command read_response dont_try_to_reconnect =
     and_then (send_once command read_response) (\<lambda>ret.
       if read_response \<and> ret = GFTP_ETIMEDOUT \<and> \<not> dont_try_to_reconnect
       then and_then connect (\<lambda>ret. if ret < 0 then give ret else send_once command True)
       else give ret)"

definition crlf :: string where "crlf = [CR, LF]"

definition command_text :: "ftp_env \<Rightarrow> string \<Rightarrow> string option \<Rightarrow> string" where
  "command_text env command argument =
    (case argument of
       None \<Rightarrow> command @ crlf
     | Some a \<Rightarrow> command @ '' '' @ (case fe_from_utf8 env a of None \<Rightarrow> a | Some utf8 \<Rightarrow> utf8) @ crlf)"

definition rfc959_generate_and_send_command ::
  "ftp_env \<Rightarrow> int act \<Rightarrow> string \<Rightarrow> string option \<Rightarrow> bool \<Rightarrow> bool \<Rightarrow> int act" where
  "rfc959_generate_and_send_command env connect command argument read_response dont_try_to_reconnect =
     rfc959_send_command connect (command_text env command argument) read_response dont_try_to_reconnect"

section \<open>The proxy login\<close>

text \<open>The value a directive \<open>%\<close>\<open>xy\<close> stands for; the inner option is a NULL value, \<open>tempport\<close> has
  room for five digits.\<close>

definition port_text :: "int \<Rightarrow> string" where
  "port_text p = take 5 (show_int p)"

definition proxy_value :: "ftp \<Rightarrow> char \<Rightarrow> char \<Rightarrow> string option option" where
  "proxy_value s who what =
    (let rq = ftp_req s; o' = ftp_opts s
     in if to_lower who = CHR ''p'' then
          (if to_lower what = CHR ''u'' then Some (opt_proxy_username o')
           else if to_lower what = CHR ''p'' then Some (opt_proxy_password o')
           else if to_lower what = CHR ''h'' then Some (opt_proxy_host o')
           else if to_lower what = CHR ''o'' then Some (Some (port_text (opt_proxy_port o')))
           else if to_lower what = CHR ''a'' then Some (opt_proxy_account o')
           else None)
        else if to_lower who = CHR ''h'' then
          (if to_lower what = CHR ''u'' then Some (rq_username rq)
           else if to_lower what = CHR ''p'' then Some (rq_password rq)
           else if to_lower what = CHR ''h'' then Some (rq_hostname rq)
           else if to_lower what = CHR ''o'' then Some (Some (port_text (int32_wrap (int (rq_port rq)))))
           else if to_lower what = CHR ''a'' then Some (rq_account rq)
           else None)
        else None)"

definition converted :: "ftp_env \<Rightarrow> string option \<Rightarrow> string" where
  "converted env v =
    (case v of None \<Rightarrow> [] | Some t \<Rightarrow> (case fe_from_utf8 env t of None \<Rightarrow> t | Some utf8 \<Rightarrow> utf8))"

text \<open>\<open>piece\<close> is the text from \<open>startpos\<close> to \<open>endpos\<close>, \<open>newstr\<close> the result so far.\<close>

fun proxy_scan :: "ftp_env \<Rightarrow> ftp \<Rightarrow> string \<Rightarrow> string \<Rightarrow> string \<Rightarrow> string" where
  "proxy_scan env s newstr piece [] = newstr"
| "proxy_scan env s newstr piece [c] = newstr"
| "proxy_scan env s newstr piece [c, who] =
    (if c = CHR ''%'' \<and> to_lower who = CHR ''n'' then newstr @ piece @ crlf
     else proxy_scan env s newstr (piece @ [c]) [who])"
| "proxy_scan env s newstr piece (c # who # what # tail) =
    (if c = CHR ''%'' then
       (case proxy_value s who what of
          Some v \<Rightarrow> proxy_scan env s (newstr @ piece @ converted env v) [] tail
        | None \<Rightarrow>
            if to_lower who = CHR ''n'' then proxy_scan env s (newstr @ piece @ crlf) [] (what # tail)
            else proxy_scan env s newstr (piece @ [c]) (who # what # tail))
     else proxy_scan env s newstr (piece @ [c]) (who # what # tail))"

definition parse_ftp_proxy_string :: "ftp_env \<Rightarrow> ftp \<Rightarrow> string" where
  "parse_ftp_proxy_string env s = proxy_scan env s [] [] (opt_proxy_config (ftp_opts s))"

text \<open>The loop of \<open>rfc959_connect\<close> sends the string line by line, each with its newline, and what is
  behind the last newline as it is.\<close>

function proxy_lines :: "string \<Rightarrow> string list" where
  "proxy_lines t =
    (if t = [] then []
     else let l = takeWhile ((\<noteq>) LF) t
          in if l = t then [t] else (l @ [LF]) # proxy_lines (drop (length l + 1) t))"
  by pat_completeness auto
termination proxy_lines
  by (relation "measure length") auto

declare proxy_lines.simps [simp del]

fun send_lines :: "int act \<Rightarrow> string list \<Rightarrow> int \<Rightarrow> int act" where
  "send_lines connect [] resp = give resp"
| "send_lines connect (l # ls) resp =
    (if resp = DIGIT3 \<or> resp = DIGIT2
     then and_then (rfc959_send_command connect l True False) (\<lambda>resp.
            if resp < 0 then give resp else send_lines connect ls resp)
     else give resp)"


section \<open>The working directory and the system type\<close>

definition ftp_fail :: "int \<Rightarrow> int act" where
  "ftp_fail ret = and_then (change ftp_disconnect) (\<lambda>_. give ret)"

definition quoted :: "string \<Rightarrow> string option" where
  "quoted t =
    (case strchr t (CHR ''\"'') of
       None \<Rightarrow> None
     | Some pos \<Rightarrow>
         let dir = tl pos
         in map_option (before dir) (strchr dir (CHR ''\"'')))"

text \<open>The reply is in \<open>last_ftp_response\<close>; a command that got a reply has set it.\<close>

definition last_response :: "string act" where
  "last_response s = (case rq_last_ftp_response (ftp_req s) of None \<Rightarrow> Inl Out_of_bounds | Some t \<Rightarrow> Inr (t, s))"

text \<open>The closing quote is overwritten in place, so the reply is cut there.\<close>

definition rfc959_getcwd :: "ftp_env \<Rightarrow> int act \<Rightarrow> int act" where
  "rfc959_getcwd env connect =
     and_then (rfc959_send_command connect (''PWD'' @ crlf) True False) (\<lambda>ret.
       if ret < 0 then give ret
       else if ret \<noteq> DIGIT2 then ftp_fail GFTP_ERETRYABLE
       else and_then last_response (\<lambda>t.
         case quoted t of
           None \<Rightarrow> ftp_fail GFTP_EFATAL
         | Some dir \<Rightarrow>
             and_then (change (with_req (\<lambda>rq. rq \<lparr>
                 rq_last_ftp_response := Some (takeWhile ((\<noteq>) (CHR ''\"'')) t @ ''\"'' @ dir),
                 rq_directory := Some (case fe_to_utf8 env dir of None \<Rightarrow> dir | Some utf8 \<Rightarrow> utf8) \<rparr>)))
               (\<lambda>_. give 0)))"

definition rfc959_chdir :: "ftp_env \<Rightarrow> int act \<Rightarrow> string \<Rightarrow> int act" where
  "rfc959_chdir env connect directory =
     and_then (if directory = ''..'' then rfc959_send_command connect (''CDUP'' @ crlf) True False
               else rfc959_generate_and_send_command env connect ''CWD'' (Some directory) True False) (\<lambda>ret.
       if ret < 0 then give ret
       else if ret \<noteq> DIGIT2 then give GFTP_ERETRYABLE
       else and_then (rfc959_getcwd env connect) (\<lambda>ret. give (if ret < 0 then ret else 0)))"

definition system_name :: "string \<Rightarrow> string option" where
  "system_name t =
    (case strchr t SPC of
       None \<Rightarrow> None
     | Some pos \<Rightarrow> let stpos = tl pos in map_option (before stpos) (strchr stpos SPC))"

definition system_type :: "string \<Rightarrow> int" where
  "system_type n =
    (if n = ''UNIX'' then GFTP_DIRTYPE_UNIX
     else if n = ''VMS'' then GFTP_DIRTYPE_VMS
     else if n = ''MVS'' \<or> n = ''OS/MVS'' then GFTP_DIRTYPE_MVS
     else if n = ''NETWARE'' then GFTP_DIRTYPE_NOVELL
     else if n = ''CRAY'' then GFTP_DIRTYPE_CRAY
     else GFTP_DIRTYPE_OTHER)"

text \<open>The name is cut out of \<open>last_ftp_response\<close> in place, so the reply is cut behind it.\<close>

definition rfc959_syst :: "int act \<Rightarrow> int act" where
  "rfc959_syst connect =
     and_then (rfc959_send_command connect (''SYST'' @ crlf) True False) (\<lambda>ret.
       if ret < 0 then give ret
       else if ret \<noteq> DIGIT2 then give GFTP_ERETRYABLE
       else and_then last_response (\<lambda>t.
         case system_name t of
           None \<Rightarrow> give GFTP_ERETRYABLE
         | Some n \<Rightarrow>
             and_then (change (with_req (\<lambda>rq. rq \<lparr> rq_server_type := system_type n,
                 rq_last_ftp_response := Some (takeWhile ((\<noteq>) SPC) t @ '' '' @ n) \<rparr>))) (\<lambda>_.
             and_then (change (if n = ''VMS'' \<or> n = ''OS/400''
                 then with_opts (\<lambda>o'. o' \<lparr> opt_show_hidden_files := False, opt_resolve_symlinks := False \<rparr>)
                 else id)) (\<lambda>_. give 0))))"


section \<open>Logging in\<close>

definition dialled :: "dial \<Rightarrow> gftp_request \<Rightarrow> gftp_request" where
  "dialled d rq = rq \<lparr> rq_use_proxy := dial_proxy d, rq_datafd := dial_fd d,
     rq_port := (if dial_proxy d then rq_port rq else dial_port d),
     rq_ai_family := dial_family d, rq_remote_addr := Some (dial_addr d) \<rparr>"

lemma dialled_sel [simp]:
  "rq_use_proxy (dialled d rq) = dial_proxy d" "rq_datafd (dialled d rq) = dial_fd d"
  "rq_hostname (dialled d rq) = rq_hostname rq" "rq_username (dialled d rq) = rq_username rq"
  "rq_password (dialled d rq) = rq_password rq" "rq_directory (dialled d rq) = rq_directory rq"
  "rq_account (dialled d rq) = rq_account rq"
  by (simp_all add: dialled_def)

definition gftp_connect_server :: "int act" where
  "gftp_connect_server s =
    (case dials s of
       [] \<Rightarrow> Inr (GFTP_ERETRYABLE, s)
     | d # ds \<Rightarrow>
         Inr (dial_ret d,
              if dial_ret d < 0 then s \<lparr> dials := ds \<rparr>
              else with_req (dialled d)
                     (s \<lparr> dials := ds, ctl_in := dial_in d, ctl_out := dial_out d \<rparr>)))"

definition anonymous_login :: "ftp \<Rightarrow> ftp" where
  "anonymous_login s =
    (let s = (if no_text (rq_username (ftp_req s))
              then with_req (gftp_set_username (Some GFTP_ANONYMOUS_USER)) s else s);
         user = or_empty (rq_username (ftp_req s))
     in if strcasecmp user GFTP_ANONYMOUS_USER = 0 \<and> no_text (rq_password (ftp_req s))
        then with_req (gftp_set_password (opt_email (ftp_opts s))) s else s)"

definition plain_login :: "ftp_env \<Rightarrow> int act \<Rightarrow> int act" where
  "plain_login env connect =
     and_then get_state (\<lambda>s.
     and_then (rfc959_generate_and_send_command env connect ''USER'' (rq_username (ftp_req s)) True False) (\<lambda>resp.
       if resp < 0 \<or> resp \<noteq> DIGIT3 then give resp
       else and_then get_state (\<lambda>s.
         and_then (rfc959_generate_and_send_command env connect ''PASS'' (rq_password (ftp_req s)) True False) (\<lambda>resp.
           if resp < 0 \<or> resp \<noteq> DIGIT3 then give resp
           else and_then get_state (\<lambda>s.
             if rq_account (ftp_req s) = None then give resp
             else rfc959_generate_and_send_command env connect ''ACCT'' (rq_account (ftp_req s)) True False)))))"

definition proxy_login :: "ftp_env \<Rightarrow> int act \<Rightarrow> int act" where
  "proxy_login env connect =
     and_then get_state (\<lambda>s. send_lines connect (proxy_lines (parse_ftp_proxy_string env s)) DIGIT3)"

text \<open>After the login: system type, transfer type and working directory.\<close>

definition settle :: "ftp_env \<Rightarrow> int act \<Rightarrow> int act" where
  "settle env connect =
     and_then (rfc959_syst connect) (\<lambda>ret.
     and_then get_state (\<lambda>s.
       if ret < 0 \<and> rq_datafd (ftp_req s) < 0 then give ret
       else let ascii = opt_ascii_transfers (ftp_opts s) in
         and_then (change (\<lambda>s. s \<lparr> is_ascii_transfer := ascii \<rparr>)) (\<lambda>_.
         and_then (rfc959_send_command connect ((if ascii then ''TYPE A'' else ''TYPE I'') @ crlf) True False) (\<lambda>ret.
           if ret < 0 then give ret
           else and_then get_state (\<lambda>s.
             and_then (case rq_directory (ftp_req s) of
                         None \<Rightarrow> give (-1)
                       | Some d \<Rightarrow> if d = [] then give (-1) else rfc959_chdir env connect d) (\<lambda>ret.
             and_then get_state (\<lambda>s'.
               if \<not> no_text (rq_directory (ftp_req s)) \<and> rq_datafd (ftp_req s') < 0 then give ret
               else and_then (if ret \<noteq> 0 then rfc959_getcwd env connect else give 0) (\<lambda>ret.
                 if ret < 0 then give ret
                 else and_then get_state (\<lambda>s.
                   give (if rq_datafd (ftp_req s) < 0 then GFTP_EFATAL else 0))))))))))"

text \<open>\<open>gftp_connect\<close> for this module: \<open>rfc959_set_config_options\<close> may hand the request to the HTTP
  module, whose \<open>connect\<close> is called then. \<open>rfc959_connect\<close> sends commands that may connect again, so it
  carries fuel.\<close>

definition rfc959_set_config_options :: "ftp_env \<Rightarrow> int act" where
  "rfc959_set_config_options env =
     and_then get_state (\<lambda>s.
       if opt_proxy_config (ftp_opts s) = ''http''
       then and_then (fe_http_init env) (\<lambda>ret.
              if ret < 0 then give ret
              else and_then (change (with_opts (\<lambda>o'. o' \<lparr> opt_proxy_config := ''ftp'' \<rparr>))) (\<lambda>_. give 0))
       else give 0)"

definition ftp_reconnect :: "ftp_env \<Rightarrow> int act \<Rightarrow> int act" where
  "ftp_reconnect env connect =
     and_then get_state (\<lambda>s.
     and_then (rfc959_set_config_options env) (\<lambda>ret.
       if ret < 0 then give ret
       else if opt_proxy_config (ftp_opts s) = ''http'' then fe_http_connect env
       else connect))"

fun rfc959_connect :: "ftp_env \<Rightarrow> nat \<Rightarrow> int act" where
  "rfc959_connect env 0 = stop Out_of_fuel"
| "rfc959_connect env (Suc n) =
     (let connect = ftp_reconnect env (fe_connect env (rfc959_connect env n)) in
      and_then get_state (\<lambda>s.
        if rq_hostname (ftp_req s) = None then give GFTP_EFATAL
        else if 0 < rq_datafd (ftp_req s) then give 0
        else
          and_then (change anonymous_login) (\<lambda>_.
          and_then gftp_connect_server (\<lambda>ret.
            if ret < 0 then give ret
            else and_then (rfc959_read_response True) (\<lambda>ret.
              if ret \<noteq> DIGIT2 then ftp_fail (if ret < 0 then ret else GFTP_ERETRYABLE)
              else and_then (case fe_auth_tls_start env of None \<Rightarrow> give 0 | Some f \<Rightarrow> f connect) (\<lambda>ret.
                if ret < 0 then ftp_fail ret
                else and_then get_state (\<lambda>s.
                  and_then (if rq_use_proxy (ftp_req s) then proxy_login env connect
                            else plain_login env connect) (\<lambda>resp.
                    if resp < 0 then give resp
                    else if resp \<noteq> DIGIT2 then ftp_fail (if resp = DIGIT5 then GFTP_EFATAL else GFTP_ERETRYABLE)
                    else settle env connect))))))))"

declare rfc959_connect.simps(2) [simp del]

text \<open>The connect action a command falls back on, once the request is connected.\<close>

definition ftp_connect :: "ftp_env \<Rightarrow> nat \<Rightarrow> int act" where
  "ftp_connect env n = ftp_reconnect env (fe_connect env (rfc959_connect env n))"

section \<open>A peer that answers\<close>

lemma loop_preserves:
  assumes "\<And>n s. P s \<Longrightarrow> P (snd (rd n s))" and "P s"
    and "get_line_loop rd fuel rb len s = Inr (ret, line, rbuf, s')"
  shows "P s'"
  using assms(2,3)
proof (induction fuel arbitrary: rb s)
  case (Suc fuel)
  have t: "P t" if "rd n s = (r, t)" for n r t using assms(1) [OF Suc.prems(1), of n] that by simp
  have ih: "get_line_loop rd fuel rb len t = Inr (ret, line, rbuf, s') \<Longrightarrow> P t \<Longrightarrow> P s'" for rb t
    using Suc.IH by blast
  show ?case using Suc.prems
    by (auto simp: Let_def deliver_line_def dest: t ih split: option.splits if_splits prod.splits sum.splits)
qed (simp add: assms)

lemma get_line_preserves:
  assumes "\<And>n s. P s \<Longrightarrow> P (snd (rd n s))" and "P s"
    and "gftp_get_line rd rbuf len s = Inr (ret, line, rbuf', s')"
  shows "P s'"
proof -
  have t: "P t" if "rd n s = (r, t)" for n r t using assms(1) [OF assms(2), of n] that by simp
  have loop: "get_line_loop rd fuel rb len t = Inr (ret, line, rbuf', s') \<Longrightarrow> P t \<Longrightarrow> P s'" for fuel rb t
    using loop_preserves [of P rd, OF assms(1)] by blast
  show ?thesis
    using assms(2,3)
    by (auto simp: gftp_get_line_def dest: t loop split: option.splits prod.splits sum.splits list.splits)
qed

text \<open>A channel that only delivers data and is not disconnected.\<close>

definition open_data :: "channel \<Rightarrow> bool" where
  "open_data ch \<longleftrightarrow> all_data ch \<and> \<not> disconnected ch"

lemma open_data_read: "open_data ch \<Longrightarrow> open_data (snd (gftp_fd_read n ch))"
  by (cases "script ch") (auto simp: open_data_def all_data_def gftp_fd_read_def split: if_splits)

interpretation ctl: reliable_source gftp_fd_read "bytes_in \<circ> script" open_data
proof unfold_locales
  fix ch ch' n d e
  assume ch: "open_data ch"
  then have all: "all_data ch" by (simp add: open_data_def)
  show "gftp_fd_read n ch = (Inr d, ch') \<Longrightarrow>
      (bytes_in \<circ> script) ch = d @ (bytes_in \<circ> script) ch' \<and> length d \<le> n \<and> open_data ch'"
    using fdata.rd_data [OF all, of n d ch'] open_data_read [OF ch, of n] by simp
  show "0 < n \<Longrightarrow> gftp_fd_read n ch = (Inr [], ch') \<Longrightarrow> (bytes_in \<circ> script) ch = []"
    by (rule fdata.rd_end [OF all])
  show "gftp_fd_read n ch = (Inl e, ch') \<Longrightarrow> e < 0"
    by (rule fdata.rd_error [OF all])
  show "isl (fst (gftp_fd_read n ch)) \<Longrightarrow> False"
    by (rule fdata.rd_succeeds [OF all])
qed

text \<open>What the control connection has still to say, in the buffer and behind it.\<close>

definition ctl_stream :: "ftp \<Rightarrow> string" where
  "ctl_stream s = (case datafd_rbuf s of None \<Rightarrow> [] | Some rb \<Rightarrow> unread rb) @ bytes_in (script (ctl_in s))"

definition ctl_ready :: "ftp \<Rightarrow> bool" where
  "ctl_ready s \<longleftrightarrow> open_data (ctl_in s) \<and> NUL \<notin> set (bytes_in (script (ctl_in s))) \<and>
     (case datafd_rbuf s of None \<Rightarrow> True | Some rb \<Rightarrow> ctl.reader_inv rb (ctl_in s) \<and> max_bufsize rb = 255 \<and> \<not> eof rb)"

lemma line_fuel_stream: "line_fuel s = length (ctl_stream s) + 2"
  by (simp add: line_fuel_def ctl_stream_def split: option.splits)

lemma ctl_line_cut:
  assumes "ctl_ready s" "stream_line 255 (ctl_stream s) = Some (l, n)" "LF \<in> set (take 255 (ctl_stream s))"
  shows "\<exists>s'. ftp_get_line 255 s = Inr ((int n, Some (take 254 l)), s') \<and>
    s' = s \<lparr> datafd_rbuf := datafd_rbuf s', ctl_in := ctl_in s' \<rparr> \<and> ctl_ready s' \<and> ctl_stream s' = drop n (ctl_stream s)"
proof -
  have "ctl.call_ok 255 255 (ctl_stream s) (gftp_get_line gftp_fd_read (datafd_rbuf s) 255 (ctl_in s))"
    using assms(1) by (intro ctl.get_line_refines)
      (auto simp: ctl_ready_def ctl_stream_def ctl.stream_def split: option.splits)
  from ctl.call_ok_reliable [OF this] obtain rb ch where
    r: "gftp_get_line gftp_fd_read (datafd_rbuf s) 255 (ctl_in s) = Inr (int n, Some (take 254 l), Some rb, ch)"
      "max_bufsize rb = 255" "ctl.reader_inv rb ch" "ctl.stream rb ch = drop n (ctl_stream s)"
    using assms(2) by auto
  have "\<not> eof rb"
    using ctl.get_line_no_eof [OF _ assms(3) r(1)] assms(1)
    by (auto simp: ctl_ready_def ctl_stream_def ctl.stream_def split: option.splits)
  moreover have "open_data ch" "NUL \<notin> set (bytes_in (script ch))" using r(3) by (auto simp: ctl.reader_inv_def)
  ultimately show ?thesis using r
    by (intro exI [of _ "s \<lparr> datafd_rbuf := Some rb, ctl_in := ch \<rparr>"])
      (auto simp: ftp_get_line_def after_io_def ctl_ready_def ctl_stream_def ctl.stream_def open_data_def)
qed

definition wire :: "string \<Rightarrow> string" where "wire l = l @ crlf"

definition line_ok :: "string \<Rightarrow> bool" where
  "line_ok l \<longleftrightarrow> LF \<notin> set l \<and> length l \<le> 253"

lemma ctl_line:
  assumes "ctl_ready s" "ctl_stream s = wire l @ rest" "line_ok l"
  shows "\<exists>s'. ftp_get_line 255 s = Inr ((int (length l + 2), Some l), s') \<and>
    s' = s \<lparr> datafd_rbuf := datafd_rbuf s', ctl_in := ctl_in s' \<rparr> \<and> ctl_ready s' \<and> ctl_stream s' = rest"
proof -
  have l: "LF \<notin> set l" "length l \<le> 253" using assms(3) by (simp_all add: line_ok_def)
  then have "255 - length l = Suc (Suc (253 - length l))" by simp
  then have lf: "LF \<in> set (take 255 (ctl_stream s))"
    by (simp add: assms(2) wire_def crlf_def)
  moreover have "takeWhile ((\<noteq>) LF) (ctl_stream s) = l @ [CR]"
    using l by (auto simp: assms(2) wire_def crlf_def takeWhile_append takeWhile_eq_all_conv)
  ultimately have "stream_line 255 (ctl_stream s) = Some (l, length l + 2)"
    by (auto simp: stream_line_def chop_cr_def Let_def)
  from ctl_line_cut [OF assms(1) this lf] l show ?thesis
    by (simp add: assms(2) wire_def crlf_def)
qed

section \<open>Replies are read as they are framed\<close>

definition coded :: "string \<Rightarrow> bool" where
  "coded l \<longleftrightarrow> 3 \<le> length l \<and> is_digit (l ! 0) \<and> is_digit (l ! 1) \<and> is_digit (l ! 2)"

definition final_line :: "string \<Rightarrow> bool" where
  "final_line l \<longleftrightarrow> coded l \<and> 4 \<le> length l \<and> l ! 3 = SPC"

text \<open>A reply as servers frame it: one line with a code and a space, preceded in a longer reply by
  lines that are none, the first of which has the code.\<close>

definition is_reply :: "string list \<Rightarrow> string \<Rightarrow> bool" where
  "is_reply ms l \<longleftrightarrow> final_line l \<and> line_ok l \<and> (\<forall>m \<in> set ms. \<not> final_line m \<and> line_ok m) \<and>
     (case ms of [] \<Rightarrow> True | m # _ \<Rightarrow> coded m)"

definition wires :: "string list \<Rightarrow> string" where "wires ls = concat (map wire ls)"

lemma wires_simps [simp]: "wires [] = []" "wires (l # ls) = wire l @ wires ls" "wires (xs @ ys) = wires xs @ wires ys"
  by (simp_all add: wires_def)

lemma take4: "4 \<le> length l \<Longrightarrow> take 4 l = take 3 l @ [l ! 3]"
  using take_Suc_conv_app_nth [of 3 l] by (simp add: eval_nat_numeral)

lemma take4_final: "coded l \<Longrightarrow> take 4 (take 3 l @ [SPC]) = take 4 l \<longleftrightarrow> final_line l"
proof (cases "4 \<le> length l")
  case True
  assume "coded l"
  with True show ?thesis using take4 [OF True] by (auto simp: final_line_def coded_def)
next
  case False
  assume c: "coded l"
  with False have "length l = 3" by (simp add: coded_def)
  then have "length (take 4 (take 3 l @ [SPC])) \<noteq> length (take 4 l)" by simp
  with False show ?thesis by (auto simp: final_line_def)
qed

lemma coded_take4: "take 4 l = take 4 k \<Longrightarrow> coded k \<Longrightarrow> coded l"
proof -
  assume eq: "take 4 l = take 4 k" and k: "coded k"
  have len: "3 \<le> length l" using arg_cong [OF eq, of length] k by (simp add: coded_def min_def split: if_splits)
  have "l ! i = k ! i" if "i < 3" for i
    using that len k arg_cong [OF eq, of "\<lambda>x. x ! i"] by (simp add: coded_def)
  with len k show ?thesis by (simp add: coded_def)
qed

definition code_state :: "string \<Rightarrow> string list \<Rightarrow> bool" where
  "code_state code ms \<longleftrightarrow>
     code = [] \<and> (case ms of [] \<Rightarrow> True | m # _ \<Rightarrow> coded m) \<or> length code = 4 \<and> coded code"

lemma code_state_step:
  assumes "code_state code (m # ms)" "\<not> final_line m"
  shows "take 4 (if coded m then take 3 m @ [SPC] else code) \<noteq> take 4 m \<and>
    code_state (if coded m then take 3 m @ [SPC] else code) ms"
proof (cases "coded m")
  case True
  then have "coded (take 3 m @ [SPC])" "length (take 3 m @ [SPC]) = 4"
    by (auto simp: coded_def nth_append)
  with True assms(2) take4_final [OF True] show ?thesis by (simp add: code_state_def)
next
  case False
  then have c: "coded code" "length code = 4" using assms(1) by (auto simp: code_state_def)
  with False coded_take4 [of m code] have "take 4 code \<noteq> take 4 m" by metis
  with False c show ?thesis by (simp add: code_state_def)
qed

lemma response_loop_reply:
  assumes "ctl_ready s" "ctl_stream s = wires (ms @ [l]) @ rest" "length ms < n" "code_state code ms"
    and "final_line l" "line_ok l" "\<forall>m \<in> set ms. \<not> final_line m \<and> line_ok m"
  shows "\<exists>k s'. response_loop n code t s = Inr ((int k, Some l), s') \<and> ctl_ready s' \<and> ctl_stream s' = rest \<and>
    s' = s \<lparr> datafd_rbuf := datafd_rbuf s', ctl_in := ctl_in s' \<rparr>"
  using assms
proof (induction ms arbitrary: s n code t)
  case Nil
  then obtain n' where n: "n = Suc n'" by (cases n) auto
  obtain s' where s': "ftp_get_line 255 s = Inr ((int (length l + 2), Some l), s')" "ctl_ready s'"
      "ctl_stream s' = rest" "s' = s \<lparr> datafd_rbuf := datafd_rbuf s', ctl_in := ctl_in s' \<rparr>"
    using ctl_line [of s l rest] Nil.prems by auto
  have "coded l" using Nil.prems(5) by (simp add: final_line_def)
  then have "take 4 (take 3 l @ [SPC]) = take 4 l" using Nil.prems(5) take4_final by blast
  with s' n \<open>coded l\<close> show ?case
    by (auto simp: act_simps coded_def intro!: exI [of _ "length l + 2"])
next
  case (Cons m ms)
  then obtain n' where n: "n = Suc n'" by (cases n) auto
  have m: "line_ok m" "\<not> final_line m" using Cons.prems(7) by simp_all
  obtain s1 where s1: "ftp_get_line 255 s = Inr ((int (length m + 2), Some m), s1)" "ctl_ready s1"
      "ctl_stream s1 = wires (ms @ [l]) @ rest" "s1 = s \<lparr> datafd_rbuf := datafd_rbuf s1, ctl_in := ctl_in s1 \<rparr>"
    using ctl_line [of s m "wires (ms @ [l]) @ rest"] Cons.prems(1,2) m(1) by auto
  define code' where "code' = (if coded m then take 3 m @ [SPC] else code)"
  have "take 4 code' \<noteq> take 4 m \<and> code_state code' ms"
    unfolding code'_def by (rule code_state_step [OF Cons.prems(4) m(2)])
  then have step: "response_loop n code t s = response_loop n' code' (Some m) s1" and cs: "code_state code' ms"
    using s1(1) by (simp_all add: n act_simps coded_def code'_def)
  obtain k s' where s': "response_loop n' code' (Some m) s1 = Inr ((int k, Some l), s')" "ctl_ready s'"
      "ctl_stream s' = rest" "s' = s1 \<lparr> datafd_rbuf := datafd_rbuf s', ctl_in := ctl_in s' \<rparr>"
    using Cons.IH [OF s1(2,3) _ cs Cons.prems(5,6), of n' "Some m"] Cons.prems(3,7) n by auto
  have "s' = s \<lparr> datafd_rbuf := datafd_rbuf s', ctl_in := ctl_in s' \<rparr>"
    by (subst s'(4), subst s1(4)) simp
  with s' step show ?case by auto
qed

text \<open>The state after a reply was read: its last line is kept, and only the input has moved.\<close>

definition heard :: "string \<Rightarrow> string \<Rightarrow> ftp \<Rightarrow> ftp \<Rightarrow> bool" where
  "heard l rest s s' \<longleftrightarrow> ctl_ready s' \<and> ctl_stream s' = rest \<and>
     s' = s \<lparr> ftp_req := (ftp_req s) \<lparr> rq_last_ftp_response := Some l \<rparr>,
              datafd_rbuf := datafd_rbuf s', ctl_in := ctl_in s' \<rparr>"

lemma length_wires: "length ls \<le> length (wires ls)"
  by (induction ls) (simp_all add: wire_def crlf_def)

lemma ctl_ready_req: "ctl_ready (with_req f s) = ctl_ready s" "ctl_stream (with_req f s) = ctl_stream s"
  by (simp_all add: ctl_ready_def ctl_stream_def with_req_def cong: option.case_cong)

lemma reply_heard:
  assumes "ctl_ready s" "0 < rq_datafd (ftp_req s)" "is_reply ms l" "ctl_stream s = wires (ms @ [l]) @ rest"
  shows "\<exists>s'. rfc959_read_response d s =
      Inr (if starts_with ''42'' l \<and> d then (GFTP_ETIMEDOUT, ftp_disconnect s') else (first_char l, s')) \<and>
    heard l rest s s'"
proof -
  let ?s = "with_req (\<lambda>rq. rq \<lparr> rq_last_ftp_response := None \<rparr>) s"
  have "length ms < line_fuel s"
    using length_wires [of ms] by (simp add: line_fuel_stream assms(4))
  moreover have "code_state [] ms" using assms(3) by (simp add: code_state_def is_reply_def)
  ultimately obtain k s1 where s1: "response_loop (line_fuel s) [] None ?s = Inr ((int k, Some l), s1)"
      "ctl_ready s1" "ctl_stream s1 = rest" "s1 = ?s \<lparr> datafd_rbuf := datafd_rbuf s1, ctl_in := ctl_in s1 \<rparr>"
    using response_loop_reply [of ?s ms l rest "line_fuel s" "[]" None] assms(1,3,4)
    by (auto simp: ctl_ready_req is_reply_def)
  let ?s' = "with_req (\<lambda>rq. rq \<lparr> rq_last_ftp_response := Some l \<rparr>) s1"
  have "rfc959_read_response d s =
      Inr (if starts_with ''42'' l \<and> d then (GFTP_ETIMEDOUT, ftp_disconnect ?s') else (first_char l, ?s'))"
    using assms(2) s1(1) by (simp add: rfc959_read_response_def act_simps)
  moreover have "heard l rest s ?s'"
    unfolding heard_def using s1(2,3)
    by (simp add: ctl_ready_req) (subst s1(4), simp add: with_req_def)
  ultimately show ?thesis by blast
qed

lemma heard_sel:
  assumes "heard l rest s s'"
  shows "ftp_req s' = (ftp_req s) \<lparr> rq_last_ftp_response := Some l \<rparr>" "ctl_out s' = ctl_out s"
    "ctl_stream s' = rest" "ctl_ready s'"
proof -
  have e: "s' = s \<lparr> ftp_req := (ftp_req s) \<lparr> rq_last_ftp_response := Some l \<rparr>,
              datafd_rbuf := datafd_rbuf s', ctl_in := ctl_in s' \<rparr>"
    using assms by (simp add: heard_def)
  show "ftp_req s' = (ftp_req s) \<lparr> rq_last_ftp_response := Some l \<rparr>" "ctl_out s' = ctl_out s"
    by (subst e, simp)+
qed (use assms in \<open>simp_all add: heard_def\<close>)

text \<open>C19: A reply on the control connection, however it is split into reads and however many lines it
  has, is consumed exactly: the result is the first digit of its last line, that line is kept as the
  last response, and the next read starts at the byte behind it. A 42x reply to a command
  disconnects and is reported as a timeout.\<close>

theorem read_response_reply:
  assumes "ctl_ready s" "0 < rq_datafd (ftp_req s)" "is_reply ms l" "ctl_stream s = wires (ms @ [l]) @ rest"
  shows "\<exists>s'. rfc959_read_response d s =
      Inr (if starts_with ''42'' l \<and> d then (GFTP_ETIMEDOUT, ftp_disconnect s') else (first_char l, s')) \<and>
    ctl_stream s' = rest \<and> ctl_ready s' \<and> rq_last_ftp_response (ftp_req s') = Some l"
proof -
  obtain s' where s': "rfc959_read_response d s =
      Inr (if starts_with ''42'' l \<and> d then (GFTP_ETIMEDOUT, ftp_disconnect s') else (first_char l, s'))"
    "heard l rest s s'"
    using reply_heard [OF assms, of d] by blast
  then show ?thesis using heard_sel [OF s'(2)] by (intro exI [of _ s']) simp
qed

definition quiet :: "channel \<Rightarrow> bool" where
  "quiet ch \<longleftrightarrow> script ch = [] \<and> \<not> disconnected ch"

definition talking :: "ftp \<Rightarrow> bool" where
  "talking s \<longleftrightarrow> ctl_ready s \<and> 0 < rq_datafd (ftp_req s) \<and> quiet (ctl_out s)"

text \<open>The state after a command was sent and its reply read.\<close>

definition said :: "string \<Rightarrow> string \<Rightarrow> string \<Rightarrow> ftp \<Rightarrow> ftp \<Rightarrow> bool" where
  "said cmd l rest s s' \<longleftrightarrow> talking s' \<and> ctl_stream s' = rest \<and>
     s' = s \<lparr> ftp_req := (ftp_req s) \<lparr> rq_last_ftp_response := Some l \<rparr>,
              ctl_out := (ctl_out s) \<lparr> written := written (ctl_out s) @ cmd \<rparr>,
              datafd_rbuf := datafd_rbuf s', ctl_in := ctl_in s' \<rparr>"

lemma write_quiet:
  "quiet (ctl_out s) \<Longrightarrow> ftp_write p s =
     Inr (int (length p), s \<lparr> ctl_out := (ctl_out s) \<lparr> written := written (ctl_out s) @ p \<rparr> \<rparr>)"
  by (cases "ctl_out s") (simp add: ftp_write_def quiet_def gftp_fd_write_def after_io_def)

lemma exchange:
  assumes "talking s" "is_reply ms l" "ctl_stream s = wires (ms @ [l]) @ rest" "\<not> starts_with ''42'' l"
  shows "\<exists>s'. rfc959_send_command c cmd True d s = Inr (first_char l, s') \<and> said cmd l rest s s'"
proof -
  let ?s = "s \<lparr> ctl_out := (ctl_out s) \<lparr> written := written (ctl_out s) @ cmd \<rparr> \<rparr>"
  have s: "ctl_ready s" "0 < rq_datafd (ftp_req s)" "quiet (ctl_out s)" using assms(1) by (simp_all add: talking_def)
  then have "ctl_ready ?s" "ctl_stream ?s = wires (ms @ [l]) @ rest"
    using assms(3) by (simp_all add: ctl_ready_def ctl_stream_def cong: option.case_cong)
  then obtain s' where s': "rfc959_read_response True ?s = Inr (first_char l, s')" "heard l rest ?s s'"
    using reply_heard [of ?s ms l rest True] assms(2,4) s(2) by auto
  then have "send_once cmd True s = Inr (first_char l, s')"
    using s write_quiet [OF s(3), of cmd] by (simp add: send_once_def act_simps)
  moreover have "first_char l \<noteq> GFTP_ETIMEDOUT"
    using assms(2) by (auto simp: is_reply_def final_line_def coded_def first_char_def char_int_def is_digit_def
        split: list.splits)
  moreover have "said cmd l rest s s'"
  proof -
    have "s' = s \<lparr> ftp_req := (ftp_req s) \<lparr> rq_last_ftp_response := Some l \<rparr>,
              ctl_out := (ctl_out s) \<lparr> written := written (ctl_out s) @ cmd \<rparr>,
              datafd_rbuf := datafd_rbuf s', ctl_in := ctl_in s' \<rparr>"
      using s'(2) by (cases s) (simp add: heard_def)
    then show ?thesis
      using heard_sel [OF s'(2)] s unfolding said_def talking_def by (simp add: quiet_def)
  qed
  ultimately show ?thesis by (auto simp: rfc959_send_command_def act_simps)
qed

lemma said_sel:
  assumes "said cmd l rest s s'"
  shows "ftp_req s' = (ftp_req s) \<lparr> rq_last_ftp_response := Some l \<rparr>"
    "written (ctl_out s') = written (ctl_out s) @ cmd" "ctl_stream s' = rest" "talking s'"
    "ftp_opts s' = ftp_opts s" "data_connection s' = data_connection s"
    "is_ascii_transfer s' = is_ascii_transfer s" "is_fxp_transfer s' = is_fxp_transfer s"
    "dataconn_rbuf s' = dataconn_rbuf s" "data_in s' = data_in s" "data_out s' = data_out s"
    "sys_calls s' = sys_calls s" "data_channels s' = data_channels s" "sock_name s' = sock_name s"
    "data_peer s' = data_peer s" "ctl_tls s' = ctl_tls s" "data_tls s' = data_tls s" "dials s' = dials s" "cache_in s' = cache_in s"
proof -
  have e: "s' = s \<lparr> ftp_req := (ftp_req s) \<lparr> rq_last_ftp_response := Some l \<rparr>,
              ctl_out := (ctl_out s) \<lparr> written := written (ctl_out s) @ cmd \<rparr>,
              datafd_rbuf := datafd_rbuf s', ctl_in := ctl_in s' \<rparr>"
    using assms by (simp add: said_def)
  show "ftp_req s' = (ftp_req s) \<lparr> rq_last_ftp_response := Some l \<rparr>"
    "written (ctl_out s') = written (ctl_out s) @ cmd" 
    "ftp_opts s' = ftp_opts s" "data_connection s' = data_connection s"
    "is_ascii_transfer s' = is_ascii_transfer s" "is_fxp_transfer s' = is_fxp_transfer s"
    "dataconn_rbuf s' = dataconn_rbuf s" "data_in s' = data_in s" "data_out s' = data_out s"
    "sys_calls s' = sys_calls s" "data_channels s' = data_channels s" "sock_name s' = sock_name s"
    "data_peer s' = data_peer s" "ctl_tls s' = ctl_tls s" "data_tls s' = data_tls s" "dials s' = dials s" "cache_in s' = cache_in s"
    by (subst e, simp)+
qed (use assms in \<open>simp_all add: said_def\<close>)

text \<open>A request as it is while connected, for the examples.\<close>

definition quiet_channel :: channel where
  "quiet_channel = \<lparr> script = [], cancel_flag = Some False, disconnected = False, written = [] \<rparr>"

definition default_options :: ftp_options where
  "default_options = \<lparr> opt_passive_transfer = True, opt_ignore_pasv_address = False, opt_show_hidden_files = True,
     opt_resolve_symlinks = True, opt_ascii_transfers = False, opt_email = Some ''me@home'', opt_proxy_host = Some [],
     opt_proxy_port = 21, opt_proxy_username = Some [], opt_proxy_password = Some [], opt_proxy_account = Some [],
     opt_proxy_config = [] \<rparr>"

definition example_ftp :: "string \<Rightarrow> ftp" where
  "example_ftp input = \<lparr> ftp_req = zero_request \<lparr> rq_datafd := 5, rq_hostname := Some ''h'' \<rparr>, datafd_rbuf = None,
     dataconn_rbuf = None, data_connection = -1, is_ascii_transfer = False, is_fxp_transfer = False,
     ctl_tls = False, data_tls = False, ftp_opts = default_options,
     ctl_in = quiet_channel \<lparr> script := (if input = [] then [] else [Bytes_in input]) \<rparr>, ctl_out = quiet_channel,
     dials = [], data_in = quiet_channel, data_out = quiet_channel, sys_calls = [], data_channels = [],
     sock_name = [], data_peer = [], cache_in = quiet_channel \<rparr>"

lemma example_ftp_ready:
  "NUL \<notin> set input \<Longrightarrow> ctl_ready (example_ftp input) \<and> ctl_stream (example_ftp input) = input \<and>
   0 < rq_datafd (ftp_req (example_ftp input)) \<and> talking (example_ftp input)"
  by (simp add: talking_def quiet_def ctl_ready_def ctl_stream_def example_ftp_def quiet_channel_def
      open_data_def all_data_def)

lemmas reply_simps = is_reply_def final_line_def coded_def line_ok_def is_digit_def code_of_def

theorem read_response_reply_witness:
  "\<exists>s'. rfc959_read_response True (example_ftp (wires [''230-Hello'', '' there'', ''230 ok''] @ ''2'')) = Inr (DIGIT2, s') \<and>
    ctl_stream s' = ''2''"
proof -
  let ?i = "wires [''230-Hello'', '' there'', ''230 ok''] @ ''2''"
  have "NUL \<notin> set ?i" by (simp add: wire_def crlf_def)
  note r = example_ftp_ready [OF this]
  have "is_reply [''230-Hello'', '' there''] ''230 ok''" by (simp add: reply_simps)
  from read_response_reply [OF _ _ this, of "example_ftp ?i" "''2''" True] r show ?thesis
    by (auto simp: first_char_def char_int_def code_of_def)
qed

text \<open>RFC 959 ends a reply of several lines at the code it began with. The loop ends it at any line with
  three digits and a space, takes that line for the result, and leaves the rest of the reply to be
  read as the answer to the next command.\<close>

theorem foreign_code_ends_reply:
  assumes "ctl_ready s" "0 < rq_datafd (ftp_req s)"
    and "coded a" "\<not> final_line a" "line_ok a" "final_line b" "line_ok b" "\<not> starts_with ''42'' b"
    and "take 3 b \<noteq> take 3 a"
    and "ctl_stream s = wires [a, b, take 3 a @ '' '' @ u] @ rest"
  shows "\<exists>s'. rfc959_read_response d s = Inr (first_char b, s') \<and>
    rq_last_ftp_response (ftp_req s') = Some b \<and> ctl_stream s' = wire (take 3 a @ '' '' @ u) @ rest"
proof -
  have "is_reply [a] b" using assms by (simp add: is_reply_def)
  then obtain s' where "rfc959_read_response d s = Inr (first_char b, s')"
      "heard b (wire (take 3 a @ '' '' @ u) @ rest) s s'"
    using reply_heard [OF assms(1,2), of "[a]" b "wire (take 3 a @ '' '' @ u) @ rest" d] assms(8,10) by auto
  then show ?thesis using heard_sel by fastforce
qed

theorem foreign_code_ends_reply_witness:
  "\<exists>s'. rfc959_read_response True (example_ftp (wires [''230-News:'', ''550 files moved'', ''230 ok''])) = Inr (DIGIT5, s') \<and>
    ctl_stream s' = wire ''230 ok''"
proof -
  let ?i = "wires [''230-News:'', ''550 files moved'', ''230 ok'']"
  have "NUL \<notin> set ?i" by (simp add: wire_def crlf_def)
  note r = example_ftp_ready [OF this]
  show ?thesis
    using foreign_code_ends_reply [of "example_ftp ?i" "''230-News:''" "''550 files moved''" "''ok''" "[]" True] r
    by (auto simp: reply_simps first_char_def char_int_def)
qed

lemma ctl_line_end:
  assumes "ctl_ready s" "ctl_stream s = []"
  shows "\<exists>s'. ftp_get_line 255 s = Inr ((0, None), s') \<and> s' = s \<lparr> datafd_rbuf := None, ctl_in := ctl_in s' \<rparr>"
proof -
  have "ctl.call_ok 255 255 (ctl_stream s) (gftp_get_line gftp_fd_read (datafd_rbuf s) 255 (ctl_in s))"
    using assms(1) by (intro ctl.get_line_refines)
      (auto simp: ctl_ready_def ctl_stream_def ctl.stream_def split: option.splits)
  from ctl.call_ok_reliable [OF this] obtain ch where
    r: "gftp_get_line gftp_fd_read (datafd_rbuf s) 255 (ctl_in s) = Inr (0, None, None, ch)"
    using assms(2) by (auto simp: stream_line_def)
  have "open_data (ctl_in s)" using assms(1) by (simp add: ctl_ready_def)
  from get_line_preserves [of open_data, OF open_data_read this r] have "\<not> disconnected ch"
    by (simp add: open_data_def)
  with r show ?thesis
    by (intro exI [of _ "s \<lparr> datafd_rbuf := None, ctl_in := ch \<rparr>"]) (simp add: ftp_get_line_def after_io_def)
qed

lemma response_loop_eof:
  assumes "ctl_ready s" "ctl_stream s = wires ms" "length ms < n" "code_state code ms"
    and "\<forall>m \<in> set ms. \<not> final_line m \<and> line_ok m"
  shows "\<exists>s'. response_loop n code t s = Inr ((0, if ms = [] then t else Some (last ms)), s') \<and>
    s' = s \<lparr> datafd_rbuf := datafd_rbuf s', ctl_in := ctl_in s' \<rparr>"
  using assms
proof (induction ms arbitrary: s n code t)
  case Nil
  then obtain n' where n: "n = Suc n'" by (cases n) auto
  obtain s' where s': "ftp_get_line 255 s = Inr ((0, None), s')" "s' = s \<lparr> datafd_rbuf := None, ctl_in := ctl_in s' \<rparr>"
    using ctl_line_end [of s] Nil.prems by auto
  have "datafd_rbuf s' = None" by (subst s'(2)) simp
  with s' n show ?case by (intro exI [of _ s']) (simp add: act_simps)
next
  case (Cons m ms)
  then obtain n' where n: "n = Suc n'" by (cases n) auto
  have m: "line_ok m" "\<not> final_line m" using Cons.prems(5) by simp_all
  obtain s1 where s1: "ftp_get_line 255 s = Inr ((int (length m + 2), Some m), s1)" "ctl_ready s1"
      "ctl_stream s1 = wires ms" "s1 = s \<lparr> datafd_rbuf := datafd_rbuf s1, ctl_in := ctl_in s1 \<rparr>"
    using ctl_line [of s m "wires ms"] Cons.prems(1,2) m(1) by auto
  define code' where "code' = (if coded m then take 3 m @ [SPC] else code)"
  have "take 4 code' \<noteq> take 4 m \<and> code_state code' ms"
    unfolding code'_def by (rule code_state_step [OF Cons.prems(4) m(2)])
  then have step: "response_loop n code t s = response_loop n' code' (Some m) s1" and cs: "code_state code' ms"
    using s1(1) by (simp_all add: n act_simps coded_def code'_def)
  obtain s' where s': "response_loop n' code' (Some m) s1 = Inr ((0, if ms = [] then Some m else Some (last ms)), s')"
      "s' = s1 \<lparr> datafd_rbuf := datafd_rbuf s', ctl_in := ctl_in s' \<rparr>"
    using Cons.IH [OF s1(2,3) _ cs, of n' "Some m"] Cons.prems(3,5) n by auto
  have "s' = s \<lparr> datafd_rbuf := datafd_rbuf s', ctl_in := ctl_in s' \<rparr>"
    by (subst s'(2), subst s1(4)) simp
  with s' step show ?case by auto
qed

text \<open>When the server closes the connection in the middle of a reply, the first digit of the last line that
  came counts as the answer, so a cut-off positive reply is a success; when it closes before any
  line, the uninitialised buffer is copied.\<close>

theorem truncated_reply_accepted:
  assumes "ctl_ready s" "0 < rq_datafd (ftp_req s)" "ctl_stream s = wires ms"
    and "\<forall>m \<in> set ms. \<not> final_line m \<and> line_ok m" "ms \<noteq> [] \<longrightarrow> coded (hd ms) \<and> \<not> starts_with ''42'' (last ms)"
  shows "if ms = [] then rfc959_read_response d s = Inl Out_of_bounds
    else \<exists>s'. rfc959_read_response d s = Inr (first_char (last ms), s')"
proof -
  let ?s = "with_req (\<lambda>rq. rq \<lparr> rq_last_ftp_response := None \<rparr>) s"
  have "code_state [] ms" using assms(5) by (auto simp: code_state_def split: list.splits)
  moreover have "length ms < line_fuel s"
    using length_wires [of ms] by (simp add: line_fuel_stream assms(3))
  ultimately obtain s1 where
    "response_loop (line_fuel s) [] None ?s = Inr ((0, if ms = [] then None else Some (last ms)), s1)"
    using response_loop_eof [of ?s ms "line_fuel s" "[]" None] assms(1,3,4) by (auto simp: ctl_ready_req)
  then show ?thesis using assms(2,5) by (simp add: rfc959_read_response_def act_simps)
qed

theorem truncated_reply_accepted_witness:
  "(\<exists>s'. rfc959_read_response True (example_ftp (wires [''230-Welcome''])) = Inr (DIGIT2, s')) \<and>
   rfc959_read_response True (example_ftp []) = Inl Out_of_bounds"
proof -
  have "NUL \<notin> set (wires [''230-Welcome''])" "NUL \<notin> set (wires [])" by (simp_all add: wire_def crlf_def)
  then show ?thesis
    using truncated_reply_accepted [of "example_ftp (wires [''230-Welcome''])" "[''230-Welcome'']" True]
      truncated_reply_accepted [of "example_ftp []" "[]" True]
      example_ftp_ready [of "wires [''230-Welcome'']"] example_ftp_ready [of "[]"]
    by (simp add: reply_simps first_char_def char_int_def)
qed

section \<open>The login\<close>

lemma talking_req:
  "rq_datafd (f (ftp_req s)) = rq_datafd (ftp_req s) \<Longrightarrow> talking (with_req f s) = talking s"
  by (simp add: talking_def ctl_ready_req) (simp add: with_req_def)

lemma talking_other [simp]:
  "talking (s \<lparr> is_ascii_transfer := a \<rparr>) = talking s" "talking (with_opts g s) = talking s"
  "ctl_stream (s \<lparr> is_ascii_transfer := a \<rparr>) = ctl_stream s" "ctl_stream (with_opts g s) = ctl_stream s"
  by (simp_all add: talking_def ctl_ready_def ctl_stream_def with_opts_def cong: option.case_cong)

lemma with_req_sel [simp]:
  "ftp_req (with_req f s) = f (ftp_req s)" "ctl_out (with_req f s) = ctl_out s" "ftp_opts (with_req f s) = ftp_opts s"
  "is_ascii_transfer (with_req f s) = is_ascii_transfer s" "ftp_req (with_opts g s) = ftp_req s"
  "ctl_out (with_opts g s) = ctl_out s" "ftp_opts (with_opts g s) = g (ftp_opts s)"
  "is_ascii_transfer (with_opts g s) = is_ascii_transfer s" "data_connection (with_req f s) = data_connection s"
  "dials (with_req f s) = dials s"
  by (simp_all add: with_req_def with_opts_def)

lemma final_first_char: "final_line l \<Longrightarrow> 48 \<le> first_char l"
  by (auto simp: final_line_def coded_def first_char_def char_int_def is_digit_def split: list.splits)

lemma digit2_not_42: "first_char l = DIGIT2 \<or> first_char l = DIGIT3 \<Longrightarrow> \<not> starts_with ''42'' l"
  by (auto simp: starts_with_iff first_char_def char_int_def code_of_def)

lemma quoted_found:
  "CHR ''\"'' \<notin> set x \<Longrightarrow> CHR ''\"'' \<notin> set dir \<Longrightarrow> quoted (x @ ''\"'' @ dir @ ''\"'' @ y) = Some dir"
  using strchr_append [of "CHR ''\"''" x "dir @ ''\"'' @ y"] strchr_append [of "CHR ''\"''" dir y]
    before_append [of dir "''\"'' @ y"]
  by (simp add: quoted_def)

lemma getcwd_step:
  assumes "talking s" "is_reply ms l" "ctl_stream s = wires (ms @ [l]) @ rest" "first_char l = DIGIT2"
    and "l = x @ ''\"'' @ dir @ ''\"'' @ y" "CHR ''\"'' \<notin> set x" "CHR ''\"'' \<notin> set dir"
  shows "\<exists>s' t. rfc959_getcwd env c s = Inr (0, s') \<and> talking s' \<and> ctl_stream s' = rest \<and>
    written (ctl_out s') = written (ctl_out s) @ ''PWD'' @ crlf \<and>
    is_ascii_transfer s' = is_ascii_transfer s \<and>
    ftp_req s' = (ftp_req s) \<lparr> rq_last_ftp_response := Some t,
      rq_directory := Some (case fe_to_utf8 env dir of None \<Rightarrow> dir | Some utf8 \<Rightarrow> utf8) \<rparr>"
proof -
  obtain s1 where s1: "rfc959_send_command c (''PWD'' @ crlf) True False s = Inr (DIGIT2, s1)"
      "said (''PWD'' @ crlf) l rest s s1"
    using exchange [OF assms(1-3)] digit2_not_42 assms(4) by metis
  note sel = said_sel [OF s1(2)]
  have q: "quoted l = Some dir" using quoted_found [OF assms(6,7)] assms(5) by simp
  show ?thesis
    by (intro exI [of _ "with_req (\<lambda>rq. rq \<lparr>
                 rq_last_ftp_response := Some (takeWhile ((\<noteq>) (CHR ''\"'')) l @ ''\"'' @ dir),
                 rq_directory := Some (case fe_to_utf8 env dir of None \<Rightarrow> dir | Some utf8 \<Rightarrow> utf8) \<rparr>) s1"]
          exI [of _ "takeWhile ((\<noteq>) (CHR ''\"'')) l @ ''\"'' @ dir"])
      (use s1(1) sel q in \<open>simp add: rfc959_getcwd_def act_simps last_response_def talking_req ctl_ready_req crlf_def\<close>)
qed

lemma syst_step:
  assumes "talking s" "is_reply ms l" "ctl_stream s = wires (ms @ [l]) @ rest" "first_char l = DIGIT2"
    and "l = x @ '' '' @ n @ '' '' @ y" "SPC \<notin> set x" "SPC \<notin> set n"
  shows "\<exists>s' t. rfc959_syst c s = Inr (0, s') \<and> talking s' \<and> ctl_stream s' = rest \<and>
    written (ctl_out s') = written (ctl_out s) @ ''SYST'' @ crlf \<and>
    opt_ascii_transfers (ftp_opts s') = opt_ascii_transfers (ftp_opts s) \<and>
    ftp_req s' = (ftp_req s) \<lparr> rq_last_ftp_response := Some t, rq_server_type := system_type n \<rparr>"
proof -
  obtain s1 where s1: "rfc959_send_command c (''SYST'' @ crlf) True False s = Inr (DIGIT2, s1)"
      "said (''SYST'' @ crlf) l rest s s1"
    using exchange [OF assms(1-3)] digit2_not_42 assms(4) by metis
  note sel = said_sel [OF s1(2)]
  have q: "system_name l = Some n"
    using strchr_append [OF assms(6), of "n @ '' '' @ y"] strchr_append [OF assms(7), of y]
      before_append [of n "'' '' @ y"] by (simp add: system_name_def assms(5))
  let ?s = "with_req (\<lambda>rq. rq \<lparr> rq_server_type := system_type n,
                 rq_last_ftp_response := Some (takeWhile ((\<noteq>) SPC) l @ '' '' @ n) \<rparr>) s1"
  have t: "talking ?s" "ctl_stream ?s = rest" using sel by (simp_all add: talking_req ctl_ready_req)
  show ?thesis
  proof (cases "n = ''VMS'' \<or> n = ''OS/400''")
    case True
    then show ?thesis
      by (intro exI [of _ "with_opts (\<lambda>o'. o' \<lparr> opt_show_hidden_files := False, opt_resolve_symlinks := False \<rparr>) ?s"]
            exI [of _ "takeWhile ((\<noteq>) SPC) l @ '' '' @ n"])
        (use s1(1) sel q t in \<open>auto simp: rfc959_syst_def act_simps last_response_def crlf_def\<close>)
  next
    case False
    then show ?thesis
      by (intro exI [of _ ?s] exI [of _ "takeWhile ((\<noteq>) SPC) l @ '' '' @ n"])
        (use s1(1) sel q t in \<open>auto simp: rfc959_syst_def act_simps last_response_def crlf_def\<close>)
  qed
qed

lemma plain_login_step:
  assumes "talking s" "ctl_stream s = wires (ms1 @ [l1]) @ wires (ms2 @ [l2]) @ rest"
    and "is_reply ms1 l1" "first_char l1 = DIGIT3" "is_reply ms2 l2" "first_char l2 = DIGIT2"
  shows "\<exists>s' t. plain_login env c s = Inr (DIGIT2, s') \<and> talking s' \<and> ctl_stream s' = rest \<and>
    written (ctl_out s') = written (ctl_out s) @ command_text env ''USER'' (rq_username (ftp_req s)) @
      command_text env ''PASS'' (rq_password (ftp_req s)) \<and>
    ftp_opts s' = ftp_opts s \<and> ftp_req s' = (ftp_req s) \<lparr> rq_last_ftp_response := Some t \<rparr>"
proof -
  let ?u = "command_text env ''USER'' (rq_username (ftp_req s))"
  let ?p = "command_text env ''PASS'' (rq_password (ftp_req s))"
  obtain s1 where s1: "rfc959_send_command c ?u True False s = Inr (DIGIT3, s1)"
      "said ?u l1 (wires (ms2 @ [l2]) @ rest) s s1"
    using exchange [OF assms(1,3,2)] digit2_not_42 assms(4) by metis
  note sel1 = said_sel [OF s1(2)]
  obtain s2 where s2: "rfc959_send_command c ?p True False s1 = Inr (DIGIT2, s2)" "said ?p l2 rest s1 s2"
    using exchange [OF sel1(4) assms(5) sel1(3)] digit2_not_42 assms(6) by metis
  note sel2 = said_sel [OF s2(2)]
  show ?thesis
    by (intro exI [of _ s2] exI [of _ l2])
      (use s1(1) s2(1) sel1 sel2 in \<open>simp add: plain_login_def rfc959_generate_and_send_command_def act_simps\<close>)
qed

text \<open>The answers of a server to a login: greeting, USER, PASS, SYST, TYPE, PWD, and (6) CWD, which is sent
  before PWD when there is a start directory.\<close>

record server_script =
  sc_lines :: "nat \<Rightarrow> string list"
  sc_last :: "nat \<Rightarrow> string"
  sc_system :: string
  sc_directory :: string

definition server_text :: "server_script \<Rightarrow> nat list \<Rightarrow> string" where
  "server_text sc is = concat (map (\<lambda>i. wires (sc_lines sc i @ [sc_last sc i])) is)"

definition welcoming :: "server_script \<Rightarrow> bool" where
  "welcoming sc \<longleftrightarrow> (\<forall>i < 7. is_reply (sc_lines sc i) (sc_last sc i)) \<and>
     map (\<lambda>i. first_char (sc_last sc i)) [0, 1, 2, 3, 5, 6] = [DIGIT2, DIGIT3, DIGIT2, DIGIT2, DIGIT2, DIGIT2] \<and>
     \<not> starts_with ''42'' (sc_last sc 4) \<and>
     (\<exists>x y. sc_last sc 3 = x @ '' '' @ sc_system sc @ '' '' @ y \<and> SPC \<notin> set x \<and> SPC \<notin> set (sc_system sc)) \<and>
     (\<exists>x y. sc_last sc 5 = x @ ''\"'' @ sc_directory sc @ ''\"'' @ y \<and> CHR ''\"'' \<notin> set x \<and>
        CHR ''\"'' \<notin> set (sc_directory sc))"

text \<open>What is asked and answered about the directory.\<close>

definition directory_replies :: "string option \<Rightarrow> nat list" where
  "directory_replies d = (if no_text d then [5] else [6, 5])"

definition directory_commands :: "ftp_env \<Rightarrow> string option \<Rightarrow> string" where
  "directory_commands env d = (if no_text d then [] else command_text env ''CWD'' d) @ ''PWD'' @ crlf"

text \<open>The directory in the reply to PWD, in UTF-8.\<close>

definition named_directory :: "ftp_env \<Rightarrow> server_script \<Rightarrow> string option" where
  "named_directory env sc =
     Some (case fe_to_utf8 env (sc_directory sc) of None \<Rightarrow> sc_directory sc | Some utf8 \<Rightarrow> utf8)"

lemma welcoming_replies:
  assumes "welcoming sc"
  shows "i < 7 \<Longrightarrow> is_reply (sc_lines sc i) (sc_last sc i)"
    "first_char (sc_last sc 0) = DIGIT2" "first_char (sc_last sc 1) = DIGIT3" "first_char (sc_last sc 2) = DIGIT2"
    "first_char (sc_last sc 3) = DIGIT2" "first_char (sc_last sc 5) = DIGIT2" "first_char (sc_last sc 6) = DIGIT2"
    "\<not> starts_with ''42'' (sc_last sc 4)"
  using assms by (simp_all add: welcoming_def)

lemma server_text_Cons [simp]:
  "server_text sc [] = []" "server_text sc (i # is) = wires (sc_lines sc i @ [sc_last sc i]) @ server_text sc is"
  by (simp_all add: server_text_def)

lemma pwd_step:
  assumes "talking s" "ctl_stream s = server_text sc [5] @ rest" "welcoming sc"
  shows "\<exists>s' t. rfc959_getcwd env c s = Inr (0, s') \<and> talking s' \<and> ctl_stream s' = rest \<and>
    written (ctl_out s') = written (ctl_out s) @ ''PWD'' @ crlf \<and> is_ascii_transfer s' = is_ascii_transfer s \<and>
    ftp_req s' = (ftp_req s) \<lparr> rq_last_ftp_response := Some t, rq_directory := named_directory env sc \<rparr>"
proof -
  obtain v w where vw: "sc_last sc 5 = v @ ''\"'' @ sc_directory sc @ ''\"'' @ w" "CHR ''\"'' \<notin> set v"
      "CHR ''\"'' \<notin> set (sc_directory sc)"
    using assms(3) by (auto simp: welcoming_def)
  have 5: "is_reply (sc_lines sc 5) (sc_last sc 5)" by (rule welcoming_replies [OF assms(3)]) simp
  have "ctl_stream s = wires (sc_lines sc 5 @ [sc_last sc 5]) @ rest" using assms(2) by simp
  from getcwd_step [OF assms(1) 5 this welcoming_replies(6) [OF assms(3)] vw, of env c]
  show ?thesis by (simp add: named_directory_def)
qed

lemma directory_step:
  assumes "talking s" "ctl_stream s = server_text sc (directory_replies d) @ rest" "welcoming sc" "d \<noteq> Some ''..''"
  shows "\<exists>s' t. and_then (case d of None \<Rightarrow> give (-1) | Some d \<Rightarrow> if d = [] then give (-1) else rfc959_chdir env c d) (\<lambda>ret.
      and_then get_state (\<lambda>s'.
        if \<not> no_text d \<and> rq_datafd (ftp_req s') < 0 then give ret
        else and_then (if ret \<noteq> 0 then rfc959_getcwd env c else give 0) (\<lambda>ret.
          if ret < 0 then give ret
          else and_then get_state (\<lambda>s. give (if rq_datafd (ftp_req s) < 0 then GFTP_EFATAL else 0))))) s = Inr (0, s') \<and>
    talking s' \<and> ctl_stream s' = rest \<and> written (ctl_out s') = written (ctl_out s) @ directory_commands env d \<and>
    is_ascii_transfer s' = is_ascii_transfer s \<and>
    ftp_req s' = (ftp_req s) \<lparr> rq_last_ftp_response := Some t, rq_directory := named_directory env sc \<rparr>"
proof (cases "no_text d")
  case True
  have "ctl_stream s = server_text sc [5] @ rest" using assms(2) True by (simp add: directory_replies_def)
  from pwd_step [OF assms(1) this assms(3), of env c] obtain s' t where
    s': "rfc959_getcwd env c s = Inr (0, s')" "talking s'" "ctl_stream s' = rest"
      "written (ctl_out s') = written (ctl_out s) @ ''PWD'' @ crlf" "is_ascii_transfer s' = is_ascii_transfer s"
      "ftp_req s' = (ftp_req s) \<lparr> rq_last_ftp_response := Some t, rq_directory := named_directory env sc \<rparr>" by blast
  have "(case d of None \<Rightarrow> give (-1) | Some d \<Rightarrow> if d = [] then give (-1) else rfc959_chdir env c d) = give (-1)"
    using True by (auto simp: no_text_def split: option.splits)
  moreover have "\<not> rq_datafd (ftp_req s') < 0" using s'(2) by (simp add: talking_def)
  ultimately show ?thesis using s' True
    by (intro exI [of _ s'] exI [of _ t]) (simp add: and_then_def get_state_def give_def directory_commands_def)
next
  case False
  then obtain e where d: "d = Some e" "e \<noteq> []" by (auto simp: no_text_def)
  let ?cmd = "command_text env ''CWD'' (Some e)"
  have 6: "is_reply (sc_lines sc 6) (sc_last sc 6)" by (rule welcoming_replies [OF assms(3)]) simp
  have stream: "ctl_stream s = wires (sc_lines sc 6 @ [sc_last sc 6]) @ server_text sc [5] @ rest"
    using assms(2) False by (simp add: directory_replies_def)
  have 2: "first_char (sc_last sc 6) = DIGIT2" "\<not> starts_with ''42'' (sc_last sc 6)"
    using welcoming_replies(7) [OF assms(3)] digit2_not_42 by blast+
  obtain s1 where s1: "rfc959_send_command c ?cmd True False s = Inr (DIGIT2, s1)"
      "said ?cmd (sc_last sc 6) (server_text sc [5] @ rest) s s1"
    using exchange [OF assms(1) 6 stream 2(2)] 2(1) by metis
  note sel = said_sel [OF s1(2)]
  from pwd_step [OF sel(4,3) assms(3), of env c] obtain s' t where
    s': "rfc959_getcwd env c s1 = Inr (0, s')" "talking s'" "ctl_stream s' = rest"
      "written (ctl_out s') = written (ctl_out s1) @ ''PWD'' @ crlf" "is_ascii_transfer s' = is_ascii_transfer s1"
      "ftp_req s' = (ftp_req s1) \<lparr> rq_last_ftp_response := Some t, rq_directory := named_directory env sc \<rparr>" by blast
  have "rfc959_chdir env c e s = Inr (0, s')"
    using s1(1) s'(1) d assms(4) by (simp add: rfc959_chdir_def rfc959_generate_and_send_command_def act_simps)
  moreover have "\<not> rq_datafd (ftp_req s') < 0" using s'(2) by (simp add: talking_def)
  ultimately show ?thesis using s' sel d False
    by (intro exI [of _ s'] exI [of _ t]) (simp add: and_then_def get_state_def give_def directory_commands_def)
qed

lemma settle_step:
  assumes "talking s" "ctl_stream s = server_text sc (3 # 4 # directory_replies (rq_directory (ftp_req s))) @ rest"
    and "welcoming sc" "rq_directory (ftp_req s) \<noteq> Some ''..''"
  shows "\<exists>s'. settle env c s = Inr (0, s') \<and> talking s' \<and> ctl_stream s' = rest \<and>
    written (ctl_out s') = written (ctl_out s) @ ''SYST'' @ crlf @
      (if opt_ascii_transfers (ftp_opts s) then ''TYPE A'' else ''TYPE I'') @ crlf @
      directory_commands env (rq_directory (ftp_req s)) \<and>
    is_ascii_transfer s' = opt_ascii_transfers (ftp_opts s) \<and>
    rq_server_type (ftp_req s') = system_type (sc_system sc) \<and> rq_directory (ftp_req s') = named_directory env sc"
proof -
  let ?d = "rq_directory (ftp_req s)"
  note w = welcoming_replies [OF assms(3)]
  have r: "is_reply (sc_lines sc 3) (sc_last sc 3)" "is_reply (sc_lines sc 4) (sc_last sc 4)" by (rule w; simp)+
  obtain x y where xy: "sc_last sc 3 = x @ '' '' @ sc_system sc @ '' '' @ y" "SPC \<notin> set x" "SPC \<notin> set (sc_system sc)"
    using assms(3) by (auto simp: welcoming_def)
  let ?T = "(if opt_ascii_transfers (ftp_opts s) then ''TYPE A'' else ''TYPE I'') @ crlf"
  have st: "ctl_stream s = wires (sc_lines sc 3 @ [sc_last sc 3]) @ server_text sc (4 # directory_replies ?d) @ rest"
    using assms(2) by simp
  obtain s1 t where s1: "rfc959_syst c s = Inr (0, s1)" "talking s1"
      "ctl_stream s1 = server_text sc (4 # directory_replies ?d) @ rest"
      "written (ctl_out s1) = written (ctl_out s) @ ''SYST'' @ crlf"
      "opt_ascii_transfers (ftp_opts s1) = opt_ascii_transfers (ftp_opts s)"
      "ftp_req s1 = (ftp_req s) \<lparr> rq_last_ftp_response := Some t, rq_server_type := system_type (sc_system sc) \<rparr>"
    using syst_step [OF assms(1) r(1) st w(5) xy, of c] by blast
  let ?s1 = "s1 \<lparr> is_ascii_transfer := opt_ascii_transfers (ftp_opts s) \<rparr>"
  have t1: "talking ?s1" "ctl_stream ?s1 = wires (sc_lines sc 4 @ [sc_last sc 4]) @ server_text sc (directory_replies ?d) @ rest"
    using s1(2,3) by simp_all
  obtain s2 where s2: "rfc959_send_command c ?T True False ?s1 = Inr (first_char (sc_last sc 4), s2)"
      "said ?T (sc_last sc 4) (server_text sc (directory_replies ?d) @ rest) ?s1 s2"
    using exchange [OF t1(1) r(2) t1(2) w(8)] by blast
  note sel2 = said_sel [OF s2(2)]
  have pos: "\<not> first_char (sc_last sc 4) < 0"
    using final_first_char [of "sc_last sc 4"] r(2) by (simp add: is_reply_def)
  have d2: "rq_directory (ftp_req s2) = ?d" "\<not> rq_datafd (ftp_req s1) < 0"
    using sel2(1) s1(2,6) by (simp_all add: talking_def)
  obtain s3 u where s3: "and_then (case ?d of None \<Rightarrow> give (-1) | Some d \<Rightarrow> if d = [] then give (-1) else rfc959_chdir env c d)
      (\<lambda>ret. and_then get_state (\<lambda>s'.
        if \<not> no_text ?d \<and> rq_datafd (ftp_req s') < 0 then give ret
        else and_then (if ret \<noteq> 0 then rfc959_getcwd env c else give 0) (\<lambda>ret.
          if ret < 0 then give ret
          else and_then get_state (\<lambda>s. give (if rq_datafd (ftp_req s) < 0 then GFTP_EFATAL else 0))))) s2 = Inr (0, s3)"
      "talking s3" "ctl_stream s3 = rest" "written (ctl_out s3) = written (ctl_out s2) @ directory_commands env ?d"
      "is_ascii_transfer s3 = is_ascii_transfer s2"
      "ftp_req s3 = (ftp_req s2) \<lparr> rq_last_ftp_response := Some u, rq_directory := named_directory env sc \<rparr>"
    using directory_step [OF sel2(4,3) assms(3,4), of env c] by blast
  have "settle env c s = Inr (0, s3)"
    using s1(1,5) s2(1) s3(1) pos d2
    by (simp add: settle_def and_then_def get_state_def change_def Let_def give_def)
  then show ?thesis using s1 sel2 s3 by (intro exI [of _ s3]) simp
qed

text \<open>A first connection, without a proxy and TLS: nothing is unread, the name and a password are known.\<close>

definition fresh_login :: "ftp_env \<Rightarrow> dial \<Rightarrow> ftp \<Rightarrow> bool" where
  "fresh_login env d s \<longleftrightarrow>
     rq_hostname (ftp_req s) \<noteq> None \<and> rq_datafd (ftp_req s) \<le> 0 \<and>
     (case datafd_rbuf s of None \<Rightarrow> True
      | Some rb \<Rightarrow> buffer_inv rb \<and> unread rb = [] \<and> max_bufsize rb = 255 \<and> \<not> eof rb) \<and>
     rq_directory (ftp_req s) \<noteq> Some ''..'' \<and> \<not> no_text (rq_username (ftp_req s)) \<and> \<not> no_text (rq_password (ftp_req s)) \<and>
     fe_auth_tls_start env = None \<and> dials s \<noteq> [] \<and> hd (dials s) = d \<and> 0 \<le> dial_ret d \<and> \<not> dial_proxy d \<and>
     0 < dial_fd d \<and> open_data (dial_in d) \<and> NUL \<notin> set (bytes_in (script (dial_in d))) \<and> quiet (dial_out d)"

definition login_replies :: "ftp \<Rightarrow> nat list" where
  "login_replies s = 0 # 1 # 2 # 3 # 4 # directory_replies (rq_directory (ftp_req s))"

definition login_commands :: "ftp_env \<Rightarrow> ftp \<Rightarrow> string" where
  "login_commands env s = command_text env ''USER'' (rq_username (ftp_req s)) @
     command_text env ''PASS'' (rq_password (ftp_req s)) @ ''SYST'' @ crlf @
     (if opt_ascii_transfers (ftp_opts s) then ''TYPE A'' else ''TYPE I'') @ crlf @
     directory_commands env (rq_directory (ftp_req s))"

lemma fresh_dial:
  assumes "fresh_login env d s" "dials s = d # ds"
  shows "\<exists>s1. gftp_connect_server s = Inr (dial_ret d, s1) \<and> talking s1 \<and> ctl_stream s1 = bytes_in (script (dial_in d)) \<and>
    ftp_opts s1 = ftp_opts s \<and> ctl_out s1 = dial_out d \<and> ftp_req s1 = dialled d (ftp_req s) \<and> dials s1 = ds"
proof -
  let ?s1 = "with_req (dialled d) (s \<lparr> dials := ds, ctl_in := dial_in d, ctl_out := dial_out d \<rparr>)"
  have "talking ?s1" "ctl_stream ?s1 = bytes_in (script (dial_in d))"
    using assms
    by (auto simp: talking_def ctl_ready_def ctl_stream_def with_req_def fresh_login_def ctl.reader_inv_def split: option.splits)
  then show ?thesis
    using assms by (intro exI [of _ ?s1]) (auto simp: gftp_connect_server_def fresh_login_def with_req_def)
qed

lemma connect_login:
  assumes "fresh_login env d s" "welcoming sc"
    and "bytes_in (script (dial_in d)) = server_text sc (login_replies s) @ rest"
  shows "\<exists>s'. rfc959_connect env (Suc n) s = Inr (0, s') \<and> talking s' \<and> ctl_stream s' = rest \<and>
    written (ctl_out s') = written (dial_out d) @ login_commands env s \<and>
    is_ascii_transfer s' = opt_ascii_transfers (ftp_opts s) \<and>
    rq_server_type (ftp_req s') = system_type (sc_system sc) \<and> rq_directory (ftp_req s') = named_directory env sc"
proof -
  let ?c = "ftp_reconnect env (fe_connect env (rfc959_connect env n))"
  let ?d = "rq_directory (ftp_req s)"
  note w = welcoming_replies [OF assms(2)]
  have r: "is_reply (sc_lines sc 0) (sc_last sc 0)" "is_reply (sc_lines sc 1) (sc_last sc 1)"
      "is_reply (sc_lines sc 2) (sc_last sc 2)" by (rule w; simp)+
  obtain ds where ds: "dials s = d # ds" using assms(1) by (cases "dials s") (auto simp: fresh_login_def)
  have anon: "anonymous_login s = s"
    using assms(1) by (simp add: anonymous_login_def fresh_login_def)
  obtain s1 where s1: "gftp_connect_server s = Inr (dial_ret d, s1)" "talking s1"
      "ctl_stream s1 = wires (sc_lines sc 0 @ [sc_last sc 0]) @ server_text sc (tl (login_replies s)) @ rest"
      "ftp_opts s1 = ftp_opts s" "ctl_out s1 = dial_out d" "ftp_req s1 = dialled d (ftp_req s)"
    using fresh_dial [OF assms(1) ds] assms(3) by (auto simp: login_replies_def)
  have "ctl_ready s1" "0 < rq_datafd (ftp_req s1)" "0 \<le> dial_ret d" "\<not> dial_proxy d"
    using s1(2) assms(1) by (simp_all add: talking_def fresh_login_def)
  note s1' = this
  obtain s2 where s2: "rfc959_read_response True s1 = Inr (DIGIT2, s2)"
      "heard (sc_last sc 0) (server_text sc (tl (login_replies s)) @ rest) s1 s2"
    using reply_heard [OF s1'(1,2) r(1) s1(3), of True] w(2) digit2_not_42 by auto
  have e: "s2 = s1 \<lparr> ftp_req := (ftp_req s1) \<lparr> rq_last_ftp_response := Some (sc_last sc 0) \<rparr>,
              datafd_rbuf := datafd_rbuf s2, ctl_in := ctl_in s2 \<rparr>"
    using s2(2) by (simp add: heard_def)
  have o2: "ftp_opts s2 = ftp_opts s" by (subst e, simp add: s1)
  have t2: "talking s2" "ctl_stream s2 = wires (sc_lines sc 1 @ [sc_last sc 1]) @ wires (sc_lines sc 2 @ [sc_last sc 2])
      @ server_text sc (3 # 4 # directory_replies ?d) @ rest" "written (ctl_out s2) = written (dial_out d)"
      "rq_username (ftp_req s2) = rq_username (ftp_req s)" "rq_password (ftp_req s2) = rq_password (ftp_req s)"
      "rq_directory (ftp_req s2) = ?d" "\<not> rq_use_proxy (ftp_req s2)"
    using heard_sel [OF s2(2)] s1 s1' by (simp_all add: talking_def login_replies_def)
  obtain s3 t where s3: "plain_login env ?c s2 = Inr (DIGIT2, s3)" "talking s3"
      "ctl_stream s3 = server_text sc (3 # 4 # directory_replies ?d) @ rest"
      "written (ctl_out s3) = written (ctl_out s2) @ command_text env ''USER'' (rq_username (ftp_req s2)) @
        command_text env ''PASS'' (rq_password (ftp_req s2))"
      "ftp_opts s3 = ftp_opts s2" "ftp_req s3 = (ftp_req s2) \<lparr> rq_last_ftp_response := Some t \<rparr>"
    using plain_login_step [OF t2(1,2) r(2) w(3) r(3) w(4), of env ?c] by blast
  have d3: "rq_directory (ftp_req s3) = ?d" "?d \<noteq> Some ''..''"
    using s3(6) t2(6) assms(1) by (simp_all add: fresh_login_def)
  obtain s4 where s4: "settle env ?c s3 = Inr (0, s4)" "talking s4" "ctl_stream s4 = rest"
      "written (ctl_out s4) = written (ctl_out s3) @ ''SYST'' @ crlf @
        (if opt_ascii_transfers (ftp_opts s3) then ''TYPE A'' else ''TYPE I'') @ crlf @ directory_commands env ?d"
      "is_ascii_transfer s4 = opt_ascii_transfers (ftp_opts s3)"
      "rq_server_type (ftp_req s4) = system_type (sc_system sc)" "rq_directory (ftp_req s4) = named_directory env sc"
    using settle_step [of s3 sc rest env ?c] s3(2,3) d3 assms(2) by auto
  have "rfc959_connect env (Suc n) s = Inr (0, s4)"
    using assms(1) anon s1(1) s1' s2(1) t2(7) s3(1) s4(1)
    by (simp add: rfc959_connect.simps Let_def fresh_login_def and_then_def get_state_def change_def give_def)
  then show ?thesis using s4 s3(4,5) t2 o2 by (intro exI [of _ s4]) (simp add: login_commands_def)
qed

text \<open>C5: A whole login, from bytes to bytes: whatever the lines of the replies and however they are
  split into reads, the client sends USER, PASS, SYST, TYPE, CWD when it has a start directory, and PWD in this order and nothing else, and
  ends up connected with the system type and the directory the server gave, at the end of the last reply.\<close>

theorem login_session:
  assumes "fresh_login env d s" "welcoming sc"
    and "bytes_in (script (dial_in d)) = server_text sc (login_replies s) @ rest"
  shows "\<exists>s'. rfc959_connect env (Suc n) s = Inr (0, s') \<and> talking s' \<and> ctl_stream s' = rest \<and>
    written (ctl_out s') = written (dial_out d) @ command_text env ''USER'' (rq_username (ftp_req s)) @
      command_text env ''PASS'' (rq_password (ftp_req s)) @ ''SYST'' @ crlf @
      (if opt_ascii_transfers (ftp_opts s) then ''TYPE A'' else ''TYPE I'') @ crlf @
      directory_commands env (rq_directory (ftp_req s)) \<and>
    is_ascii_transfer s' = opt_ascii_transfers (ftp_opts s) \<and>
    rq_server_type (ftp_req s') = system_type (sc_system sc) \<and> rq_directory (ftp_req s') = named_directory env sc"
  using connect_login [OF assms, of n] by (simp add: login_commands_def)

definition plain_env :: ftp_env where
  "plain_env = \<lparr> fe_from_utf8 = (\<lambda>_. None), fe_to_utf8 = (\<lambda>_. None), fe_auth_tls_start = None, fe_connect = id,
     fe_http_init = give GFTP_EFATAL, fe_http_connect = give GFTP_EFATAL, fe_ssl_session_setup = give 0, fe_ext = [], fe_ntop = (\<lambda>_. None) \<rparr>"

definition example_server :: server_script where
  "example_server = \<lparr> sc_lines = (\<lambda>i. if i = 2 then [''230-Hello'', '' you''] else []),
     sc_last = (!) [''220 ready'', ''331 password'', ''230 ok'', ''215 UNIX Type: L8'', ''200 ok'',
                    ''257 '' @ ''\"'' @ ''/home'' @ ''\"'' @ '' is it'', ''250 there''],
     sc_system = ''UNIX'', sc_directory = ''/home'' \<rparr>"

definition example_dial :: "string \<Rightarrow> dial" where
  "example_dial input = \<lparr> dial_ret = 0, dial_proxy = False, dial_fd = 7,
     dial_in = quiet_channel \<lparr> script := (if input = [] then [] else [Bytes_in input]) \<rparr>, dial_out = quiet_channel,
     dial_port = 21, dial_family = 2, dial_addr = replicate 16 NUL \<rparr>"

definition login_ftp :: "dial list \<Rightarrow> ftp" where
  "login_ftp ds = (example_ftp []) \<lparr> ftp_req := zero_request \<lparr> rq_hostname := Some ''h'', rq_username := Some ''me'',
     rq_password := Some ''pw'' \<rparr>, dials := ds \<rparr>"

lemma below_seven: "i < 7 \<longleftrightarrow> i = 0 \<or> i = 1 \<or> i = 2 \<or> i = 3 \<or> i = 4 \<or> i = 5 \<or> i = (6 :: nat)" by auto

lemma example_server_welcoming: "welcoming example_server"
proof -
  have "\<exists>x y. ''215 UNIX Type: L8'' = x @ '' '' @ ''UNIX'' @ '' '' @ y \<and> SPC \<notin> set x"
    by (rule exI [of _ "''215''"], rule exI [of _ "''Type: L8''"]) simp
  moreover have "\<exists>x y. ''257 '' @ ''\"'' @ ''/home'' @ ''\"'' @ '' is it'' = x @ ''\"'' @ ''/home'' @ ''\"'' @ y \<and>
      CHR ''\"'' \<notin> set x"
    by (rule exI [of _ "''257 ''"], rule exI [of _ "'' is it''"]) simp
  ultimately show ?thesis
    unfolding welcoming_def below_seven
    by (simp add: example_server_def reply_simps first_char_def char_int_def eval_nat_numeral)
qed

definition example_greeting :: string where
  "example_greeting = server_text example_server [0, 1, 2, 3, 4, 6, 5]"

lemma example_greeting_plain: "NUL \<notin> set example_greeting" "example_greeting \<noteq> []"
  by (simp_all add: example_greeting_def example_server_def wire_def crlf_def eval_nat_numeral)

definition starting_ftp :: ftp where
  "starting_ftp = with_req (\<lambda>rq. rq \<lparr> rq_directory := Some ''d'' \<rparr>) (login_ftp [example_dial example_greeting])"

lemma starting_ftp_sel:
  "rq_hostname (ftp_req starting_ftp) = Some ''h''" "rq_username (ftp_req starting_ftp) = Some ''me''"
  "rq_password (ftp_req starting_ftp) = Some ''pw''" "rq_directory (ftp_req starting_ftp) = Some ''d''"
  "rq_datafd (ftp_req starting_ftp) = 0" "datafd_rbuf starting_ftp = None"
  "dials starting_ftp = [example_dial example_greeting]" "ftp_opts starting_ftp = default_options"
  by (simp_all add: starting_ftp_def login_ftp_def with_req_def zero_request_def) (simp_all add: example_ftp_def)

lemma example_dial_good:
  "NUL \<notin> set t \<Longrightarrow> t \<noteq> [] \<Longrightarrow> 0 \<le> dial_ret (example_dial t) \<and> \<not> dial_proxy (example_dial t) \<and> 0 < dial_fd (example_dial t) \<and>
     open_data (dial_in (example_dial t)) \<and> bytes_in (script (dial_in (example_dial t))) = t \<and> quiet (dial_out (example_dial t)) \<and>
     written (dial_out (example_dial t)) = []"
  by (simp add: example_dial_def quiet_channel_def open_data_def all_data_def quiet_def)

theorem login_session_witness:
  "\<exists>s'. rfc959_connect plain_env 1 starting_ftp = Inr (0, s') \<and>
    rq_directory (ftp_req s') = Some ''/home'' \<and> rq_server_type (ftp_req s') = GFTP_DIRTYPE_UNIX \<and>
    written (ctl_out s') = ''USER me'' @ crlf @ ''PASS pw'' @ crlf @ ''SYST'' @ crlf @ ''TYPE I'' @ crlf @
      ''CWD d'' @ crlf @ ''PWD'' @ crlf"
proof -
  note d = example_dial_good [OF example_greeting_plain]
  have fresh: "fresh_login plain_env (example_dial example_greeting) starting_ftp"
    unfolding fresh_login_def starting_ftp_sel
    using d example_greeting_plain by (simp add: plain_env_def no_text_def)
  have "bytes_in (script (dial_in (example_dial example_greeting))) = server_text example_server (login_replies starting_ftp) @ []"
    using d by (simp add: login_replies_def directory_replies_def starting_ftp_sel no_text_def example_greeting_def del: server_text_Cons)
  from login_session [OF fresh example_server_welcoming this, of 0] show ?thesis
    unfolding starting_ftp_sel using d
    by (auto simp: plain_env_def directory_commands_def no_text_def command_text_def default_options_def example_server_def
        system_type_def named_directory_def)
qed

section \<open>Connecting again\<close>

lemma disconnect_sel [simp]:
  "datafd_rbuf (ftp_disconnect s) = datafd_rbuf s" "dials (ftp_disconnect s) = dials s"
  "ftp_opts (ftp_disconnect s) = ftp_opts s" "rq_hostname (ftp_req (ftp_disconnect s)) = rq_hostname (ftp_req s)"
  "rq_username (ftp_req (ftp_disconnect s)) = rq_username (ftp_req s)"
  "rq_password (ftp_req (ftp_disconnect s)) = rq_password (ftp_req s)"
  "rq_datafd (ftp_req (ftp_disconnect s)) \<le> 0" "data_connection (ftp_disconnect s) = -1"
  by (simp_all add: ftp_disconnect_def rfc959_disconnect_def rfc959_close_data_connection_def with_req_def Let_def)

text \<open>A dial that succeeds on a plain connection.\<close>

definition good_dial :: "dial \<Rightarrow> bool" where
  "good_dial d \<longleftrightarrow> 0 \<le> dial_ret d \<and> \<not> dial_proxy d \<and> 0 < dial_fd d \<and> open_data (dial_in d) \<and>
     NUL \<notin> set (bytes_in (script (dial_in d))) \<and> quiet (dial_out d)"

lemma dial_stream:
  assumes "ctl_ready s" "dials s = d # ds" "good_dial d"
  shows "\<exists>s'. gftp_connect_server (ftp_disconnect s) = Inr (dial_ret d, s') \<and> talking s' \<and>
    ctl_stream s' = (case datafd_rbuf s of None \<Rightarrow> [] | Some rb \<Rightarrow> unread rb) @ bytes_in (script (dial_in d))"
proof -
  let ?s = "with_req (dialled d)
                     (ftp_disconnect s \<lparr> dials := ds, ctl_in := dial_in d, ctl_out := dial_out d \<rparr>)"
  have "talking ?s"
    using assms by (auto simp: talking_def ctl_ready_def with_req_def good_dial_def ctl.reader_inv_def split: option.splits)
  then show ?thesis
    using assms(2,3) by (intro exI [of _ ?s])
      (auto simp: gftp_connect_server_def good_dial_def ctl_stream_def with_req_def)
qed

text \<open>C31: \<open>rfc959_disconnect\<close> keeps the line buffer of the control connection, so what the old server had
  still said is read first on the next connection: a left-over reply is taken for the greeting of the
  new server, whose own greeting answers the first command.\<close>

theorem stale_reply_greets:
  assumes "ctl_ready s" "dials s = d # ds" "good_dial d" "datafd_rbuf s = Some rb"
    and "unread rb = wires (ms @ [l])" "is_reply ms l" "\<not> starts_with ''42'' l"
  shows "\<exists>s1 s2. gftp_connect_server (ftp_disconnect s) = Inr (dial_ret d, s1) \<and>
    rfc959_read_response True s1 = Inr (first_char l, s2) \<and> ctl_stream s2 = bytes_in (script (dial_in d))"
proof -
  obtain s1 where s1: "gftp_connect_server (ftp_disconnect s) = Inr (dial_ret d, s1)" "talking s1"
      "ctl_stream s1 = wires (ms @ [l]) @ bytes_in (script (dial_in d))"
    using dial_stream [OF assms(1-3)] assms(4,5) by auto
  then obtain s2 where "rfc959_read_response True s1 = Inr (first_char l, s2)" "heard l (bytes_in (script (dial_in d))) s1 s2"
    using reply_heard [of s1 ms l _ True] assms(6,7) by (auto simp: talking_def)
  with s1 heard_sel show ?thesis by blast
qed

definition left_over :: "string \<Rightarrow> getline_buffer" where
  "left_over t = \<lparr> buffer = t @ replicate (256 - length t) NUL, curpos = 0, max_bufsize = 255,
     cur_bufsize = length t, eof = False \<rparr>"

lemma left_over_inv:
  "NUL \<notin> set t \<Longrightarrow> length t \<le> 255 \<Longrightarrow> buffer_inv (left_over t) \<and> unread (left_over t) = t"
proof -
  assume t: "NUL \<notin> set t" "length t \<le> 255"
  then have "256 - length t = Suc (255 - length t)" by simp
  then have "buffer (left_over t) = [] @ t @ NUL # replicate (255 - length t) NUL"
    by (simp add: left_over_def)
  then show ?thesis using buffer_invI [of "left_over t" "[]" t "replicate (255 - length t) NUL"] t
    by (simp add: left_over_def)
qed

theorem stale_reply_greets_witness:
  "\<exists>s1 s2. gftp_connect_server (ftp_disconnect ((login_ftp [example_dial ''220 new'']) \<lparr> datafd_rbuf := Some (left_over (wire ''550 old'')) \<rparr>))
      = Inr (0, s1) \<and>
    rfc959_read_response True s1 = Inr (DIGIT5, s2) \<and> ctl_stream s2 = ''220 new''"
proof -
  let ?s = "(login_ftp [example_dial ''220 new'']) \<lparr> datafd_rbuf := Some (left_over (wire ''550 old'')) \<rparr>"
  have inv: "buffer_inv (left_over (wire ''550 old''))" "unread (left_over (wire ''550 old'')) = wire ''550 old''"
    using left_over_inv [of "wire ''550 old''"] by (simp_all add: wire_def crlf_def)
  have "ctl_ready ?s"
    using inv by (simp add: ctl_ready_def ctl.reader_inv_def login_ftp_def example_ftp_def quiet_channel_def open_data_def
        all_data_def) (simp add: left_over_def)
  then show ?thesis
    using stale_reply_greets [of ?s "example_dial ''220 new''" "[]" "left_over (wire ''550 old'')" "[]" "''550 old''"] inv
    by (simp add: login_ftp_def good_dial_def example_dial_def quiet_channel_def open_data_def all_data_def quiet_def
        reply_simps first_char_def char_int_def)
qed

text \<open>A server that greets and then answers the first command with 421.\<close>

definition refusing :: "dial \<Rightarrow> bool" where
  "refusing d \<longleftrightarrow> good_dial d \<and> (\<exists>g t. is_reply [] g \<and> first_char g = DIGIT2 \<and> is_reply [] t \<and> starts_with ''421'' t \<and>
     bytes_in (script (dial_in d)) = wire g @ wire t)"

text \<open>Nothing buffered, and a login that will send the user name.\<close>

definition idle :: "ftp_env \<Rightarrow> ftp \<Rightarrow> bool" where
  "idle env s \<longleftrightarrow>
     (case datafd_rbuf s of None \<Rightarrow> True
      | Some rb \<Rightarrow> buffer_inv rb \<and> unread rb = [] \<and> max_bufsize rb = 255 \<and> \<not> eof rb) \<and>
     rq_hostname (ftp_req s) \<noteq> None \<and> rq_datafd (ftp_req s) \<le> 0 \<and> \<not> no_text (rq_username (ftp_req s)) \<and>
     \<not> no_text (rq_password (ftp_req s)) \<and> fe_auth_tls_start env = None \<and>
     fe_connect env = id \<and> opt_proxy_config (ftp_opts s) \<noteq> ''http''"

lemma idle_dial:
  assumes "idle env s" "dials s = d # ds" "good_dial d"
  shows "\<exists>s'. gftp_connect_server s = Inr (dial_ret d, s') \<and> talking s' \<and> \<not> rq_use_proxy (ftp_req s') \<and>
    ctl_stream s' = bytes_in (script (dial_in d)) \<and> dials s' = ds \<and> ftp_opts s' = ftp_opts s \<and>
    ftp_req s' = dialled d (ftp_req s)"
proof -
  let ?s = "with_req (dialled d)
                     (s \<lparr> dials := ds, ctl_in := dial_in d, ctl_out := dial_out d \<rparr>)"
  have "talking ?s"
    using assms by (auto simp: talking_def ctl_ready_def with_req_def good_dial_def idle_def ctl.reader_inv_def split: option.splits)
  then show ?thesis
    using assms by (intro exI [of _ ?s])
      (auto simp: gftp_connect_server_def good_dial_def ctl_stream_def with_req_def idle_def split: option.splits)
qed

lemma heard_dials: "heard l rest s s' \<Longrightarrow> dials s' = dials s \<and> ftp_opts s' = ftp_opts s"
proof -
  assume "heard l rest s s'"
  then have e: "s' = s \<lparr> ftp_req := (ftp_req s) \<lparr> rq_last_ftp_response := Some l \<rparr>,
              datafd_rbuf := datafd_rbuf s', ctl_in := ctl_in s' \<rparr>" by (simp add: heard_def)
  show ?thesis by (subst (1 2) e) simp
qed

lemma first_command_refused:
  assumes "talking s" "ctl_stream s = wire t" "is_reply [] t" "starts_with ''421'' t"
  shows "\<exists>s'. send_once cmd True s = Inr (GFTP_ETIMEDOUT, ftp_disconnect s') \<and> ctl_ready s' \<and> ctl_stream s' = [] \<and>
    dials s' = dials s \<and> ftp_opts s' = ftp_opts s \<and> ftp_req s' = (ftp_req s) \<lparr> rq_last_ftp_response := Some t \<rparr>"
proof -
  let ?s = "s \<lparr> ctl_out := (ctl_out s) \<lparr> written := written (ctl_out s) @ cmd \<rparr> \<rparr>"
  have s: "ctl_ready s" "0 < rq_datafd (ftp_req s)" "quiet (ctl_out s)" using assms(1) by (simp_all add: talking_def)
  then have "ctl_ready ?s" "ctl_stream ?s = wires ([] @ [t]) @ []"
    using assms(2) by (simp_all add: ctl_ready_def ctl_stream_def cong: option.case_cong)
  moreover have "starts_with ''42'' t" using assms(4) by (auto simp: starts_with_iff)
  ultimately obtain s' where s': "rfc959_read_response True ?s = Inr (GFTP_ETIMEDOUT, ftp_disconnect s')" "heard t [] ?s s'"
    using reply_heard [of ?s "[]" t "[]" True] assms(3) s(2) by auto
  then have "send_once cmd True s = Inr (GFTP_ETIMEDOUT, ftp_disconnect s')"
    using s write_quiet [OF s(3), of cmd] by (simp add: send_once_def act_simps)
  then show ?thesis using heard_sel [OF s'(2)] heard_dials [OF s'(2)] by auto
qed

lemma refused_connect:
  "idle env s \<Longrightarrow> n \<le> length (dials s) \<Longrightarrow> \<forall>d \<in> set (dials s). refusing d \<Longrightarrow>
   rfc959_connect env n s = Inl Out_of_fuel"
proof (induction n arbitrary: s)
  case 0
  show ?case by (simp add: stop_def)
next
  case (Suc n)
  let ?c = "ftp_reconnect env (fe_connect env (rfc959_connect env n))"
  obtain d ds where ds: "dials s = d # ds" using Suc.prems(2) by (cases "dials s") auto
  obtain g t where d: "good_dial d" "is_reply [] g" "first_char g = DIGIT2" "is_reply [] t" "starts_with ''421'' t"
      "bytes_in (script (dial_in d)) = wire g @ wire t"
    using Suc.prems(3) ds by (auto simp: refusing_def)
  obtain s1 where s1: "gftp_connect_server s = Inr (dial_ret d, s1)" "talking s1" "\<not> rq_use_proxy (ftp_req s1)"
      "ctl_stream s1 = wire g @ wire t" "dials s1 = ds" "ftp_opts s1 = ftp_opts s"
      "ftp_req s1 = dialled d (ftp_req s)"
    using idle_dial [OF Suc.prems(1) ds d(1)] d(6) by auto
  obtain s2 where s2: "rfc959_read_response True s1 = Inr (DIGIT2, s2)" "heard g (wire t) s1 s2"
    using reply_heard [of s1 "[]" g "wire t" True] s1(2,4) d(2,3) digit2_not_42 by (auto simp: talking_def)
  note sel2 = heard_sel [OF s2(2)] heard_dials [OF s2(2)]
  have t2: "talking s2" using sel2 s1(2) by (simp add: talking_def)
  let ?cmd = "command_text env ''USER'' (rq_username (ftp_req s2))"
  obtain s3 where s3: "send_once ?cmd True s2 = Inr (GFTP_ETIMEDOUT, ftp_disconnect s3)" "ctl_ready s3" "ctl_stream s3 = []"
      "dials s3 = dials s2" "ftp_opts s3 = ftp_opts s2" "ftp_req s3 = (ftp_req s2) \<lparr> rq_last_ftp_response := Some t \<rparr>"
    using first_command_refused [OF t2 sel2(3) d(4,5), of ?cmd] by blast
  have "idle env (ftp_disconnect s3)"
    using Suc.prems(1) s3 sel2 s1(6,7)
    by (auto simp: idle_def ctl_ready_def ctl_stream_def ctl.reader_inv_def split: option.splits)
  then have "rfc959_connect env n (ftp_disconnect s3) = Inl Out_of_fuel"
    using Suc.IH [of "ftp_disconnect s3"] Suc.prems(2,3) ds s3(4) sel2(5) s1(5) by simp
  then have "?c (ftp_disconnect s3) = Inl Out_of_fuel"
    using Suc.prems(1) s3(5) sel2(5) s1(6)
    by (simp add: ftp_reconnect_def rfc959_set_config_options_def act_simps idle_def)
  then have "plain_login env ?c s2 = Inl Out_of_fuel"
    using s3(1) by (simp add: plain_login_def rfc959_generate_and_send_command_def rfc959_send_command_def act_simps)
  moreover have "anonymous_login s = s" using Suc.prems(1) by (simp add: anonymous_login_def idle_def)
  ultimately show ?case
    using Suc.prems(1) s1(1,3) s2(1) sel2(1) d(1)
    by (simp add: rfc959_connect.simps Let_def idle_def good_dial_def and_then_def get_state_def change_def give_def s1(7))
qed

text \<open>C32: Against a server that accepts connections, greets, and answers the user name with 421, connecting
  calls itself once more for every answer: no depth of recursion is enough, however often the server
  is willing to do it.\<close>

theorem refused_login_recurses:
  assumes "idle env s" "n \<le> length (dials s)" "\<forall>d \<in> set (dials s). refusing d"
  shows "rfc959_connect env n s = Inl Out_of_fuel"
  using assms by (rule refused_connect)

theorem refused_login_recurses_witness:
  "rfc959_connect plain_env 1000 (login_ftp (replicate 1000 (example_dial (wire ''220 hi'' @ wire ''421 busy'')))) = Inl Out_of_fuel"
proof -
  have "refusing (example_dial (wire ''220 hi'' @ wire ''421 busy''))"
    unfolding refusing_def
    by (intro conjI exI [of _ "''220 hi''"] exI [of _ "''421 busy''"])
      (simp_all add: good_dial_def example_dial_def wire_def crlf_def quiet_channel_def open_data_def all_data_def quiet_def
        reply_simps first_char_def char_int_def)
  then show ?thesis
    by (intro refused_login_recurses)
      (simp_all add: login_ftp_def idle_def example_ftp_def zero_request_def no_text_def plain_env_def default_options_def)
qed

section \<open>The proxy login string\<close>

text \<open>A login template: text, values, and line ends.\<close>

datatype piece = Plain string | Value char char | Line_end char

fun piece_text :: "piece \<Rightarrow> string" where
  "piece_text (Plain l) = l"
| "piece_text (Value who what) = [CHR ''%'', who, what]"
| "piece_text (Line_end c) = [CHR ''%'', c]"

fun piece_value :: "ftp_env \<Rightarrow> ftp \<Rightarrow> piece \<Rightarrow> string" where
  "piece_value env s (Plain l) = l"
| "piece_value env s (Value who what) = (case proxy_value s who what of None \<Rightarrow> [] | Some v \<Rightarrow> converted env v)"
| "piece_value env s (Line_end c) = crlf"

fun piece_ok :: "ftp \<Rightarrow> piece \<Rightarrow> bool" where
  "piece_ok s (Plain l) \<longleftrightarrow> CHR ''%'' \<notin> set l"
| "piece_ok s (Value who what) \<longleftrightarrow> proxy_value s who what \<noteq> None"
| "piece_ok s (Line_end c) \<longleftrightarrow> to_lower c = CHR ''n''"

fun is_plain :: "piece \<Rightarrow> bool" where
  "is_plain (Plain l) = True" | "is_plain p = False"

lemma scan_plain: "CHR ''%'' \<notin> set l \<Longrightarrow> proxy_scan env s n p (l @ r) = proxy_scan env s n (p @ l) r"
proof (induction l arbitrary: p)
  case (Cons c l)
  have "proxy_scan env s n p (c # x) = proxy_scan env s n (p @ [c]) x" if "c \<noteq> CHR ''%''" for x
    using that by (cases "(env, s, n, p, c # x)" rule: proxy_scan.cases) auto
  from this [of "l @ r"] Cons show ?case by auto
qed simp

lemma scan_line_end:
  assumes "to_lower w = CHR ''n''"
  shows "proxy_scan env s n p (CHR ''%'' # w # r) = proxy_scan env s (n @ p @ crlf) [] r"
proof (cases r)
  case (Cons x y)
  have "proxy_value s w x = None" using assms by (simp add: proxy_value_def Let_def)
  then show ?thesis using Cons assms by simp
qed (use assms in simp)

lemma scan_pieces:
  "list_all (piece_ok s) ps \<Longrightarrow> CHR ''%'' \<notin> set t \<Longrightarrow> ps = [] \<or> \<not> is_plain (last ps) \<Longrightarrow>
   proxy_scan env s n p (concat (map piece_text ps) @ t) =
     (if ps = [] then n else n @ p @ concat (map (piece_value env s) ps))"
proof (induction ps arbitrary: n p)
  case Nil
  then show ?case using scan_plain [of t env s n p "[]"] by simp
next
  case (Cons q ps)
  have last: "ps = [] \<or> \<not> is_plain (last ps)" using Cons.prems(3) by auto
  note ih = Cons.IH [OF _ Cons.prems(2) last]
  show ?case
  proof (cases q)
    case (Plain l)
    then show ?thesis using Cons.prems ih by (auto simp: scan_plain)
  next
    case (Value who what)
    then show ?thesis using Cons.prems ih by auto
  next
    case (Line_end c)
    then show ?thesis using Cons.prems ih by (auto simp: scan_line_end)
  qed
qed

text \<open>The proxy login string is the template with its values put in, up to the last value or line end:
  text behind it is dropped. So the newline at the end of every predefined template is lost, and the last command
  of a proxy login is sent without a line end.\<close>

theorem proxy_string_drops_tail:
  assumes "opt_proxy_config (ftp_opts s) = concat (map piece_text ps) @ t"
    and "list_all (piece_ok s) ps" "CHR ''%'' \<notin> set t" "ps = [] \<or> \<not> is_plain (last ps)"
  shows "parse_ftp_proxy_string env s = concat (map (piece_value env s) ps)"
  using scan_pieces [OF assms(2-4), of env "[]" "[]"] assms(1) by (simp add: parse_ftp_proxy_string_def)

text \<open>The predefined template for \<open>user@host:port\<close>.\<close>

definition user_host_port :: string where
  "user_host_port = ''USER %hu@%hh:%ho'' @ [LF] @ ''PASS %hp'' @ [LF]"

definition proxied_ftp :: ftp where
  "proxied_ftp = with_opts (\<lambda>o'. o' \<lparr> opt_proxy_config := user_host_port \<rparr>) (login_ftp [])"

lemma proxied_values:
  "proxy_value proxied_ftp (CHR ''h'') (CHR ''u'') = Some (Some ''me'')"
  "proxy_value proxied_ftp (CHR ''h'') (CHR ''h'') = Some (Some ''h'')"
  "proxy_value proxied_ftp (CHR ''h'') (CHR ''o'') = Some (Some ''0'')"
  "proxy_value proxied_ftp (CHR ''h'') (CHR ''p'') = Some (Some ''pw'')"
proof -
  have rq: "ftp_req proxied_ftp = zero_request \<lparr> rq_hostname := Some ''h'', rq_username := Some ''me'', rq_password := Some ''pw'' \<rparr>"
    by (simp add: proxied_ftp_def login_ftp_def)
  have "show_int 0 = ''0''" by (simp add: show_int_def show_nat.simps [of 0])
  then show "proxy_value proxied_ftp (CHR ''h'') (CHR ''u'') = Some (Some ''me'')"
    "proxy_value proxied_ftp (CHR ''h'') (CHR ''h'') = Some (Some ''h'')"
    "proxy_value proxied_ftp (CHR ''h'') (CHR ''o'') = Some (Some ''0'')"
    "proxy_value proxied_ftp (CHR ''h'') (CHR ''p'') = Some (Some ''pw'')"
    by (simp_all only: proxy_value_def Let_def rq)
      (simp_all add: to_lower_def zero_request_def port_text_def code_of_def)
qed

theorem proxy_string_drops_tail_witness:
  "proxy_lines (parse_ftp_proxy_string plain_env proxied_ftp) = [''USER me@h:0'' @ [LF], ''PASS pw'']"
proof -
  let ?ps = "[Plain ''USER '', Value (CHR ''h'') (CHR ''u''), Plain ''@'', Value (CHR ''h'') (CHR ''h''), Plain '':'',
     Value (CHR ''h'') (CHR ''o''), Plain ([LF] @ ''PASS ''), Value (CHR ''h'') (CHR ''p'')]"
  have "opt_proxy_config (ftp_opts proxied_ftp) = concat (map piece_text ?ps) @ [LF]"
    by (simp add: proxied_ftp_def user_host_port_def)
  then have "parse_ftp_proxy_string plain_env proxied_ftp = concat (map (piece_value plain_env proxied_ftp) ?ps)"
    by (rule proxy_string_drops_tail) (simp_all add: proxied_values)
  also have "\<dots> = ''USER me@h:0'' @ [LF] @ ''PASS pw''"
    by (simp add: proxied_values converted_def plain_env_def)
  finally show ?thesis by (simp add: proxy_lines.simps)
qed

end
