(* ===== verification/Ftp_Data.thy ===== *)
theory Ftp_Data
  imports Ftp_Control Dir_Listing Url_Parser
begin

text \<open>
  The data connection of \<open>lib/rfc959.c\<close>: PASV, EPSV, PORT and EPRT, transfers in both directions and
  between two servers, listings, and the one-line commands on files and directories.

  The system calls on the data connection answer the numbers in \<open>sys_calls\<close>, in the order the code
  makes them; a connection that is made (by \<open>connect\<close> or \<open>accept\<close>) takes the next pair of channels from
  \<open>data_channels\<close>. Socket addresses are the bytes of \<open>struct sockaddr_in\<close> and \<open>sockaddr_in6\<close>: two bytes
  of family, two of port, then the address; \<open>data_peer\<close> is the address connected to. \<open>cache_in\<close> is the
  cached listing that \<open>cachefd\<close> reads.
\<close>


section \<open>System calls\<close>

definition sys_call :: "int act" where
  "sys_call s =
    (case sys_calls s of [] \<Rightarrow> Inr (-1, s) | r # rs \<Rightarrow> Inr (r, s \<lparr> sys_calls := rs \<rparr>))"

definition open_channel :: "unit act" where
  "open_channel s =
    (case data_channels s of
       [] \<Rightarrow> Inr ((), s)
     | (i, out') # cs \<Rightarrow> Inr ((), s \<lparr> data_in := i, data_out := out', data_channels := cs \<rparr>))"

definition gftp_fd_set_sockblocking :: "int \<Rightarrow> int act" where
  "gftp_fd_set_sockblocking fd =
    (if fd < 0 then give GFTP_EFATAL
     else and_then sys_call (\<lambda>flags.
       if flags < 0 then ftp_fail GFTP_ERETRYABLE
       else and_then sys_call (\<lambda>r. if r < 0 then ftp_fail GFTP_ERETRYABLE else give 0)))"

definition SOCKADDR_IN :: nat where [simp]: "SOCKADDR_IN = 16"
definition SOCKADDR_IN6 :: nat where [simp]: "SOCKADDR_IN6 = 28"
definition AF_INET :: nat where [simp]: "AF_INET = 2"
definition AF_INET6 :: nat where [simp]: "AF_INET6 = 10"

definition zero_addr :: "nat \<Rightarrow> nat \<Rightarrow> string" where
  "zero_addr n family = char_of family # replicate (n - 1) NUL"

definition port_bytes :: "nat \<Rightarrow> string" where
  "port_bytes p = [char_of (p div 256 mod 256), char_of (p mod 256)]"

definition port_number :: "string \<Rightarrow> nat" where
  "port_number a = 256 * code_of (a ! 2) + code_of (a ! 3)"


section \<open>Numbers in replies\<close>

text \<open>\<open>%u\<close> of \<open>sscanf\<close>: blanks, a sign, digits; the value as an \<open>unsigned int\<close>.\<close>

definition scan_uint :: "string \<Rightarrow> (nat \<times> string) option" where
  "scan_uint t =
    (let (neg, ds) = strtol_sign (dropWhile is_space t)
     in if ds = [] \<or> \<not> is_digit (hd ds) then None
        else let v = min (read_nat ds) (2 ^ 64 - 1);
                 v = (if neg then (2 ^ 64 - v) mod 2 ^ 64 else v)
             in Some (v mod 2 ^ 32, dropWhile is_digit ds))"

fun scan_uints :: "nat \<Rightarrow> string \<Rightarrow> nat list" where
  "scan_uints 0 t = []"
| "scan_uints (Suc n) t =
    (case scan_uint t of
       None \<Rightarrow> []
     | Some (v, r) \<Rightarrow> v # (case r of c # r' \<Rightarrow> if c = CHR '','' then scan_uints n r' else [] | [] \<Rightarrow> []))"

text \<open>\<open>last_ftp_response + 4\<close>, then on to a character for which \<open>p\<close> holds, or to the end.\<close>

definition response_from :: "(char \<Rightarrow> bool) \<Rightarrow> string \<Rightarrow> string option" where
  "response_from p t = (if length t < 4 then None else Some (dropWhile (\<lambda>c. \<not> p c) (drop 4 t)))"

definition low_byte :: "nat \<Rightarrow> char" where
  "low_byte v = char_of (v mod 256)"


section \<open>Opening the data connection\<close>

definition set_passive :: "bool \<Rightarrow> unit act" where
  "set_passive b = change (with_opts (\<lambda>o'. o' \<lparr> opt_passive_transfer := b \<rparr>))"

text \<open>The socket of a data connection: \<open>socket\<close>, then \<open>fcntl\<close>.\<close>

definition data_socket :: "(int \<Rightarrow> bool) \<Rightarrow> int act \<Rightarrow> int act" where
  "data_socket failed k =
     and_then sys_call (\<lambda>fd.
     and_then (change (\<lambda>s. s \<lparr> data_connection := fd \<rparr>)) (\<lambda>_.
       if failed fd then ftp_fail GFTP_ERETRYABLE
       else and_then sys_call (\<lambda>r. if r = -1 then give GFTP_ERETRYABLE else k)))"

definition connect_data :: "string \<Rightarrow> int act" where
  "connect_data addr =
     and_then sys_call (\<lambda>r.
       if r = -1 then ftp_fail GFTP_ERETRYABLE
       else and_then (change (\<lambda>s. s \<lparr> data_peer := addr \<rparr>)) (\<lambda>_.
            and_then open_channel (\<lambda>_. give 0)))"

definition pasv_addr :: "nat list \<Rightarrow> string option \<Rightarrow> string option" where
  "pasv_addr temp remote_addr =
    (let ad = map low_byte temp
     in Option.bind (overwrite 2 (drop 4 ad) (zero_addr SOCKADDR_IN AF_INET))
          (overwrite 4 (case remote_addr of Some a \<Rightarrow> a | None \<Rightarrow> take 4 ad)))"

definition ipv4_passive :: "int act \<Rightarrow> int act \<Rightarrow> int act" where
  "ipv4_passive connect again =
     and_then (rfc959_send_command connect (''PASV'' @ crlf) True True) (\<lambda>resp.
       if resp < 0 then give resp
       else if resp \<noteq> DIGIT2 then and_then (set_passive False) (\<lambda>_. again)
       else and_then last_response (\<lambda>t.
            and_then (need (response_from is_digit t)) (\<lambda>pos.
              if pos = [] \<or> length (scan_uints 6 pos) \<noteq> 6 then ftp_fail GFTP_EFATAL
              else and_then get_state (\<lambda>s.
                   and_then (if opt_ignore_pasv_address (ftp_opts s)
                             then and_then (need (rq_remote_addr (ftp_req s)))
                                    (\<lambda>a. need (pasv_addr (scan_uints 6 pos) (Some a)))
                             else need (pasv_addr (scan_uints 6 pos) None)) connect_data))))"

definition comma_bytes :: "string \<Rightarrow> string" where
  "comma_bytes bs = concat (map (\<lambda>c. '','' @ show_nat (code_of c)) bs)"

definition port_command :: "string \<Rightarrow> string" where
  "port_command addr = ''PORT '' @ tl (comma_bytes (take 4 (drop 4 addr) @ take 2 (drop 2 addr))) @ crlf"

text \<open>\<open>getsockname\<close> of the control connection, \<open>bind\<close>, \<open>getsockname\<close> of the new socket, \<open>listen\<close>; a step that
  fails disconnects.\<close>

fun each_succeeds :: "nat \<Rightarrow> int act \<Rightarrow> int act" where
  "each_succeeds 0 k = k"
| "each_succeeds (Suc n) k =
     and_then sys_call (\<lambda>r. if r = -1 then ftp_fail GFTP_ERETRYABLE else each_succeeds n k)"

definition ipv4_active :: "int act \<Rightarrow> int act" where
  "ipv4_active connect =
     each_succeeds 4 (
     and_then get_state (\<lambda>s.
     and_then (rfc959_send_command connect (port_command (sock_name s)) True True) (\<lambda>resp.
       if resp < 0 then give resp
       else if resp \<noteq> DIGIT2 then ftp_fail GFTP_ERETRYABLE
       else give 0)))"

definition rfc959_ipv4_data_connection_new :: "int act \<Rightarrow> int act" where
  "rfc959_ipv4_data_connection_new connect =
    (let again = data_socket (\<lambda>fd. fd = -1) (ipv4_active connect)
     in data_socket (\<lambda>fd. fd = -1)
         (and_then get_state (\<lambda>s.
            if opt_passive_transfer (ftp_opts s) then ipv4_passive connect again else ipv4_active connect)))"

text \<open>IPv6. The port in a reply to EPSV is between the bars of \<open>(|||port|)\<close>; \<open>inet_ntop\<close> is an argument.\<close>

definition epsv_port :: "string \<Rightarrow> nat option" where
  "epsv_port t = (if starts_with ''|||'' t then map_option fst (scan_uint (drop 3 t)) else None)"

definition ipv6_passive :: "int act \<Rightarrow> int act \<Rightarrow> int act" where
  "ipv6_passive connect again =
     and_then (rfc959_send_command connect (''EPSV'' @ crlf) True True) (\<lambda>resp.
       if resp < 0 then give resp
       else if resp \<noteq> DIGIT2 then and_then (set_passive False) (\<lambda>_. again)
       else and_then last_response (\<lambda>t.
            and_then (need (response_from (\<lambda>c. c = CHR ''('') t)) (\<lambda>pos.
              if length pos \<le> 1 then ftp_fail GFTP_EFATAL
              else case epsv_port (tl pos) of
                     None \<Rightarrow> ftp_fail GFTP_EFATAL
                   | Some port \<Rightarrow>
                       and_then get_state (\<lambda>s.
                       and_then (need (rq_remote_addr (ftp_req s))) (\<lambda>a.
                       and_then (need (overwrite 2 (port_bytes port) a)) connect_data)))))"

definition eprt_command :: "(string \<Rightarrow> string option) \<Rightarrow> string \<Rightarrow> string option" where
  "eprt_command ntop addr =
     map_option (\<lambda>b. ''EPRT |2|'' @ b @ ''|'' @ show_nat (port_number addr) @ ''|'' @ [LF]) (ntop (take 16 (drop 8 addr)))"

definition ipv6_active :: "(string \<Rightarrow> string option) \<Rightarrow> int act \<Rightarrow> int act" where
  "ipv6_active ntop connect =
     each_succeeds 3 (
     and_then get_state (\<lambda>s.
       case eprt_command ntop (sock_name s) of
         None \<Rightarrow> ftp_fail GFTP_ERETRYABLE
       | Some command \<Rightarrow>
           and_then (rfc959_send_command connect command True True) (\<lambda>resp.
             if resp < 0 then give resp
             else if resp \<noteq> DIGIT2 then ftp_fail GFTP_ERETRYABLE
             else give 0)))"

definition rfc959_ipv6_data_connection_new :: "(string \<Rightarrow> string option) \<Rightarrow> int act \<Rightarrow> int act" where
  "rfc959_ipv6_data_connection_new ntop connect =
    (let guarded = (\<lambda>k. data_socket (\<lambda>fd. fd < 0)
           (and_then get_state (\<lambda>s.
              if length (or_empty (rq_remote_addr (ftp_req s))) \<noteq> SOCKADDR_IN6 then ftp_fail GFTP_EFATAL else k)));
         again = guarded (ipv6_active ntop connect)
     in guarded (and_then get_state (\<lambda>s.
            if opt_passive_transfer (ftp_opts s) then ipv6_passive connect again else ipv6_active ntop connect)))"

definition data_connection_once :: "ftp_env \<Rightarrow> int act \<Rightarrow> int act" where
  "data_connection_once env connect =
     and_then get_state (\<lambda>s.
       if rq_datafd (ftp_req s) \<le> 0 then give GFTP_EFATAL
       else if rq_ai_family (ftp_req s) = int AF_INET6 then rfc959_ipv6_data_connection_new (fe_ntop env) connect
       else rfc959_ipv4_data_connection_new connect)"

definition rfc959_data_connection_new :: "ftp_env \<Rightarrow> int act \<Rightarrow> bool \<Rightarrow> int act" where
  "rfc959_data_connection_new env connect dont_try_to_reconnect =
     and_then (data_connection_once env connect) (\<lambda>ret.
       if ret = GFTP_ETIMEDOUT \<and> \<not> dont_try_to_reconnect
       then and_then connect (\<lambda>ret. if ret < 0 then give ret else data_connection_once env connect)
       else give ret)"

definition rfc959_accept_active_connection :: "int act" where
  "rfc959_accept_active_connection =
     and_then get_state (\<lambda>s.
       if data_connection s \<le> 0 \<or> opt_passive_transfer (ftp_opts s) then give GFTP_EFATAL
       else and_then (gftp_fd_set_sockblocking (data_connection s)) (\<lambda>ret.
         if ret < 0 then give ret
         else and_then sys_call (\<lambda>infd.
           if infd = -1 then ftp_fail GFTP_ERETRYABLE
           else and_then (change (\<lambda>s. s \<lparr> data_connection := infd \<rparr>)) (\<lambda>_.
                and_then open_channel (\<lambda>_.
                and_then (gftp_fd_set_sockblocking infd) (\<lambda>ret. give (if ret < 0 then ret else 0)))))))"

section \<open>Transfers\<close>

text \<open>The first extension in the list that ends the name decides. \<open>toupper\<close> is applied to the result of the
  comparison, so only the capital letters count.\<close>

fun extension_type :: "(string \<times> string) list \<Rightarrow> string \<Rightarrow> bool \<Rightarrow> bool" where
  "extension_type [] filename ascii = ascii"
| "extension_type ((ext, ascii_binary) # es) filename ascii =
    (if length ext \<le> length filename \<and> drop (length filename - length ext) filename = ext
     then (if ascii_binary \<noteq> [] \<and> hd ascii_binary = CHR ''A'' then True
           else if ascii_binary \<noteq> [] \<and> hd ascii_binary = CHR ''B'' then False
           else ascii)
     else extension_type es filename ascii)"

definition rfc959_is_ascii_transfer :: "ftp_env \<Rightarrow> string \<Rightarrow> ftp \<Rightarrow> bool" where
  "rfc959_is_ascii_transfer env filename s =
     extension_type (fe_ext env) filename (opt_ascii_transfers (ftp_opts s))"

definition rfc959_set_data_type :: "ftp_env \<Rightarrow> int act \<Rightarrow> string \<Rightarrow> int act" where
  "rfc959_set_data_type env connect filename =
     and_then get_state (\<lambda>s.
       let new_ascii = rfc959_is_ascii_transfer env filename s
       in if 0 < rq_datafd (ftp_req s) \<and> new_ascii \<noteq> is_ascii_transfer s
          then and_then (change (\<lambda>s. s \<lparr> is_ascii_transfer := new_ascii \<rparr>)) (\<lambda>_.
               and_then (rfc959_send_command connect ((if new_ascii then ''TYPE A'' else ''TYPE I'') @ crlf) True False)
                 (\<lambda>ret. give (if ret < 0 then ret else 0)))
          else give 0)"

definition open_data_connection :: "ftp_env \<Rightarrow> int act \<Rightarrow> int act" where
  "open_data_connection env connect =
     and_then get_state (\<lambda>s.
       if data_connection s < 0 then rfc959_data_connection_new env connect False else give 0)"

definition close_data :: "int \<Rightarrow> int act" where
  "close_data ret = and_then (change rfc959_close_data_connection) (\<lambda>_. give ret)"

definition restart_at :: "int act \<Rightarrow> int \<Rightarrow> int act" where
  "restart_at connect startsize =
    (if 0 < startsize
     then and_then (rfc959_send_command connect (''REST '' @ show_int startsize @ crlf) True False) (\<lambda>ret.
            if ret < 0 then give ret
            else if ret \<noteq> DIGIT3 then close_data GFTP_ERETRYABLE
            else give 0)
     else give 0)"

definition rfc959_setup_file_transfer :: "ftp_env \<Rightarrow> int act \<Rightarrow> string \<Rightarrow> int \<Rightarrow> string \<Rightarrow> int act" where
  "rfc959_setup_file_transfer env connect filename startsize transfer_command =
     and_then (rfc959_set_data_type env connect filename) (\<lambda>ret.
     if ret < 0 then give ret else
     and_then (open_data_connection env connect) (\<lambda>ret.
     if ret < 0 then give ret else
     and_then get_state (\<lambda>s.
     and_then (gftp_fd_set_sockblocking (data_connection s)) (\<lambda>ret.
     if ret < 0 then give ret else
     and_then (restart_at connect startsize) (\<lambda>ret.
     if ret < 0 then give ret else
     and_then (rfc959_generate_and_send_command env connect transfer_command (Some filename) True False) (\<lambda>ret.
     if ret < 0 then give ret
     else if ret \<noteq> DIGIT1 then close_data (if ret = DIGIT5 then GFTP_EFATAL else GFTP_ERETRYABLE)
     else and_then get_state (\<lambda>s.
          if opt_passive_transfer (ftp_opts s) then give 0
          else and_then rfc959_accept_active_connection (\<lambda>ret. give (if ret < 0 then ret else 0)))))))))"

text \<open>The size is read behind the last parenthesis of the reply, or at its first digit.\<close>

definition reply_size :: "string \<Rightarrow> string option" where
  "reply_size t =
    (case strrchr t (CHR ''('') of Some p \<Rightarrow> Some (tl p) | None \<Rightarrow> response_from is_digit t)"

definition if_connected :: "int \<Rightarrow> int act \<Rightarrow> int act" where
  "if_connected e k = and_then get_state (\<lambda>s. if rq_datafd (ftp_req s) \<le> 0 then give e else k)"

definition rfc959_get_file :: "ftp_env \<Rightarrow> int act \<Rightarrow> string \<Rightarrow> int \<Rightarrow> int act" where
  "rfc959_get_file env connect filename startsize =
     if_connected GFTP_EFATAL (
     and_then (rfc959_setup_file_transfer env connect filename startsize ''RETR'') (\<lambda>ret.
       if ret < 0 then give ret
       else and_then last_response (\<lambda>t.
            and_then (need (reply_size t)) (\<lambda>p. give (off_wrap (strtol10 p + startsize))))))"

definition rfc959_put_file :: "ftp_env \<Rightarrow> int act \<Rightarrow> string \<Rightarrow> int \<Rightarrow> int \<Rightarrow> int act" where
  "rfc959_put_file env connect filename startsize totalsize =
     if_connected GFTP_EFATAL (
     and_then (rfc959_set_data_type env connect filename) (\<lambda>ret.
     if ret < 0 then give ret else
     and_then (open_data_connection env connect) (\<lambda>ret.
     if ret < 0 then give ret
     else rfc959_setup_file_transfer env connect filename startsize ''STOR'')))"

definition rfc959_end_transfer :: "int act" where
  "rfc959_end_transfer =
     if_connected GFTP_EFATAL (
     and_then (change (\<lambda>s. s \<lparr> is_fxp_transfer := False \<rparr>)) (\<lambda>_.
     and_then (change rfc959_close_data_connection) (\<lambda>_.
     and_then (rfc959_read_response True) (\<lambda>ret.
       give (if ret < 0 then ret else if ret = DIGIT2 then 0 else GFTP_ERETRYABLE)))))"

definition rfc959_abort_transfer :: "int act \<Rightarrow> int act" where
  "rfc959_abort_transfer connect =
     if_connected GFTP_EFATAL (
     and_then (rfc959_send_command connect (''ABOR'' @ crlf) False False) (\<lambda>ret.
       if ret < 0 then give ret
       else and_then (change rfc959_close_data_connection) (\<lambda>_.
            and_then get_state (\<lambda>s.
              if 0 < rq_datafd (ftp_req s)
              then and_then (rfc959_read_response False) (\<lambda>ret. if ret < 0 then ftp_fail 0 else give 0)
              else give 0))))"

definition list_command :: "bool \<Rightarrow> bool \<Rightarrow> string" where
  "list_command show_hidden_files resolve_symlinks =
    (let parms = (if show_hidden_files then ''a'' else []) @ (if resolve_symlinks then ''L'' else [])
     in ''LIST'' @ (if parms \<noteq> [] then '' -'' else []) @ parms @ crlf)"

definition rfc959_list_files :: "ftp_env \<Rightarrow> int act \<Rightarrow> int act" where
  "rfc959_list_files env connect =
     if_connected GFTP_EFATAL (
     and_then (rfc959_data_connection_new env connect False) (\<lambda>ret.
       if ret < 0 then give ret
       else and_then get_state (\<lambda>s.
         let passive_transfer = opt_passive_transfer (ftp_opts s)
         in and_then (rfc959_send_command connect
              (list_command (opt_show_hidden_files (ftp_opts s)) (opt_resolve_symlinks (ftp_opts s))) True False) (\<lambda>ret.
            if ret < 0 then give ret
            else if ret \<noteq> DIGIT1 then give GFTP_ERETRYABLE
            else if \<not> passive_transfer then rfc959_accept_active_connection
            else give 0))))"


section \<open>Data\<close>

text \<open>Reading and writing the data connection, through \<open>data_conn_read\<close> and \<open>data_conn_write\<close>. The TLS
  variants use \<open>request->ssl\<close>, the session of the control connection, whatever descriptor they are given
  (\<open>lib/sslcommon.c\<close>); \<open>SSL_read\<close> and \<open>SSL_write\<close> answer from the channel of that connection.\<close>

datatype source = Control | Data | Cache

definition read_source :: "bool \<Rightarrow> ftp \<Rightarrow> source" where
  "read_source from_cache s = (if data_tls s then Control else if from_cache then Cache else Data)"

fun source_channel :: "source \<Rightarrow> ftp \<Rightarrow> channel" where
  "source_channel Control s = ctl_in s"
| "source_channel Data s = data_in s"
| "source_channel Cache s = cache_in s"

fun put_source :: "source \<Rightarrow> channel \<Rightarrow> ftp \<Rightarrow> ftp" where
  "put_source Control ch s = s \<lparr> ctl_in := ch \<rparr>"
| "put_source Data ch s = s \<lparr> data_in := ch \<rparr>"
| "put_source Cache ch s = s \<lparr> cache_in := ch \<rparr>"

text \<open>The state after a read: the channel has moved, and a disconnect has run.\<close>

definition read_done :: "source \<Rightarrow> channel \<Rightarrow> ftp \<Rightarrow> ftp" where
  "read_done src ch s = after_io ch (put_source src (ch \<lparr> disconnected := False \<rparr>) s)"

definition data_read :: "nat \<Rightarrow> (int + string) act" where
  "data_read n s =
    (let src = read_source False s; (r, ch) = gftp_fd_read n (source_channel src s)
     in Inr (r, read_done src ch s))"

definition data_write :: "string \<Rightarrow> int act" where
  "data_write p s =
    (if data_tls s then ftp_write p s
     else let (ret, ch) = gftp_fd_write p (data_out s)
          in Inr (ret, after_io ch (s \<lparr> data_out := ch \<lparr> disconnected := False \<rparr> \<rparr>)))"

definition strip_cr :: "string \<Rightarrow> string" where
  "strip_cr buf = filter (\<lambda>c. c \<noteq> CR) buf"

definition rfc959_get_next_file_chunk :: "nat \<Rightarrow> (int + string) act" where
  "rfc959_get_next_file_chunk size' =
     and_then get_state (\<lambda>s.
       if is_fxp_transfer s then give (Inl GFTP_ENOTRANS)
       else and_then (data_read size') (\<lambda>r.
         case r of
           Inl e \<Rightarrow> give (Inl e)
         | Inr buf \<Rightarrow> give (Inr (if is_ascii_transfer s then strip_cr buf else buf))))"

text \<open>\<open>prev\<close> is the character before, in the same chunk.\<close>

fun add_cr_after :: "char \<Rightarrow> string \<Rightarrow> string" where
  "add_cr_after prev [] = []"
| "add_cr_after prev (c # cs) =
    (if c = LF \<and> prev \<noteq> CR then [CR, LF] else [c]) @ add_cr_after c cs"

definition add_cr :: "string \<Rightarrow> string" where
  "add_cr buf = (case buf of [] \<Rightarrow> [] | c # cs \<Rightarrow> c # add_cr_after c cs)"

text \<open>Every turn writes at least a byte.\<close>

fun write_loop :: "nat \<Rightarrow> string \<Rightarrow> int \<Rightarrow> int act" where
  "write_loop fuel [] ret = give ret"
| "write_loop 0 p ret = stop Out_of_fuel"
| "write_loop (Suc fuel) p ret =
     and_then (data_write p) (\<lambda>num_wrote.
       if num_wrote < 0 then give num_wrote else write_loop fuel (drop (nat num_wrote) p) ret)"

definition rfc959_put_next_file_chunk :: "string \<Rightarrow> int act" where
  "rfc959_put_next_file_chunk buf =
     and_then get_state (\<lambda>s.
       if is_fxp_transfer s then give GFTP_ENOTRANS
       else let tempstr = (if is_ascii_transfer s then add_cr buf else buf)
            in write_loop (length tempstr) tempstr (int (length tempstr)))"


section \<open>Listings\<close>

text \<open>A line of the listing, from the data connection or from the cached copy; both share \<open>dataconn_rbuf\<close>.\<close>

definition rfc959_get_next_dirlist_line :: "bool \<Rightarrow> nat \<Rightarrow> (int \<times> string option) act" where
  "rfc959_get_next_dirlist_line from_cache buflen s =
    (let src = read_source from_cache s
     in case gftp_get_line gftp_fd_read (dataconn_rbuf s) buflen (source_channel src s) of
          Inl e \<Rightarrow> Inl e
        | Inr (len, line, rbuf, ch) \<Rightarrow> Inr ((len, line), read_done src ch (s \<lparr> dataconn_rbuf := rbuf \<rparr>)))"

text \<open>\<open>gftp_parse_ls\<close> asks for one more line when the name of a VMS entry stands alone on its line.\<close>

definition asks_next_line :: "int \<Rightarrow> string \<Rightarrow> bool" where
  "asks_next_line server_type line \<longleftrightarrow>
     server_type = GFTP_DIRTYPE_VMS \<and> CHR '';'' \<in> set line \<and> SPC \<notin> set line"

definition parse_line :: "bool \<Rightarrow> time_env \<Rightarrow> string \<Rightarrow> (int \<times> gftp_file) act" where
  "parse_line from_cache tenv line =
     and_then get_state (\<lambda>s.
       let server_type = rq_server_type (ftp_req s)
       in if asks_next_line server_type line
          then and_then (rfc959_get_next_dirlist_line from_cache 1024) (\<lambda>(len, next).
                 need (gftp_parse_ls server_type (Some (\<lambda>_. (len, or_empty next @ [NUL]))) tenv line))
          else need (gftp_parse_ls server_type (Some (\<lambda>_. (0, []))) tenv line))"

fun next_entry_loop :: "nat \<Rightarrow> bool \<Rightarrow> time_env \<Rightarrow> (int \<times> gftp_file \<times> string) act" where
  "next_entry_loop 0 from_cache tenv = stop Out_of_fuel"
| "next_entry_loop (Suc fuel) from_cache tenv =
     and_then (rfc959_get_next_dirlist_line from_cache 1024) (\<lambda>(len, line).
       if len \<le> 0 then give (len, zero_file, [])
       else and_then (need line) (\<lambda>l.
            and_then (parse_line from_cache tenv l) (\<lambda>(ret, fle).
              if ret = 0 then give (len, fle, l)
              else next_entry_loop fuel from_cache tenv)))"

text \<open>Every turn takes at least a byte of the listing.\<close>

definition listing_fuel :: "bool \<Rightarrow> ftp \<Rightarrow> nat" where
  "listing_fuel from_cache s = length (case dataconn_rbuf s of None \<Rightarrow> [] | Some rb \<Rightarrow> unread rb) +
     length (bytes_in (script (source_channel (read_source from_cache s) s))) + 2"

definition rfc959_get_next_file :: "time_env \<Rightarrow> int \<Rightarrow> (int \<times> gftp_file) act" where
  "rfc959_get_next_file tenv fd =
    (if fd \<le> 0 then give (GFTP_EFATAL, zero_file)
     else
     and_then (change (with_req (\<lambda>rq. rq \<lparr> rq_last_dir_entry := None \<rparr>))) (\<lambda>_.
     and_then get_state (\<lambda>s.
     and_then (next_entry_loop (listing_fuel (fd \<noteq> rq_datafd (ftp_req s)) s) (fd \<noteq> rq_datafd (ftp_req s)) tenv)
       (\<lambda>(len, fle, line).
       if len \<le> 0 then give (len, fle)
       else and_then (change (with_req (\<lambda>rq. if rq_cached rq then rq
                     else rq \<lparr> rq_last_dir_entry := Some (line @ [LF]), rq_last_dir_entry_len := length line + 1 \<rparr>)))
              (\<lambda>_. give (len, fle))))))"


section \<open>Files and directories\<close>

definition plain_command :: "int act \<Rightarrow> int act" where
  "plain_command send =
     if_connected GFTP_EFATAL (and_then send (\<lambda>ret. give (if ret < 0 then ret else if ret = DIGIT2 then 0 else GFTP_ERETRYABLE)))"

definition rfc959_get_file_size :: "ftp_env \<Rightarrow> int act \<Rightarrow> string \<Rightarrow> int act" where
  "rfc959_get_file_size env connect filename =
     if_connected 0 (
     and_then (rfc959_generate_and_send_command env connect ''SIZE'' (Some filename) True False) (\<lambda>ret.
       if ret < 0 then give ret
       else and_then last_response (\<lambda>t.
            if t = [] \<or> hd t \<noteq> CHR ''2'' then give 0
            else if length t < 4 then stop Out_of_bounds
            else give (strtol10 (drop 4 t)))))"

definition rfc959_rmdir :: "ftp_env \<Rightarrow> int act \<Rightarrow> string \<Rightarrow> int act" where
  "rfc959_rmdir env connect directory =
     plain_command (rfc959_generate_and_send_command env connect ''RMD'' (Some directory) True False)"

definition rfc959_rmfile :: "ftp_env \<Rightarrow> int act \<Rightarrow> string \<Rightarrow> int act" where
  "rfc959_rmfile env connect file' =
     plain_command (rfc959_generate_and_send_command env connect ''DELE'' (Some file') True False)"

definition rfc959_mkdir :: "ftp_env \<Rightarrow> int act \<Rightarrow> string \<Rightarrow> int act" where
  "rfc959_mkdir env connect directory =
     plain_command (rfc959_generate_and_send_command env connect ''MKD'' (Some directory) True False)"

definition rfc959_rename :: "ftp_env \<Rightarrow> int act \<Rightarrow> string \<Rightarrow> string \<Rightarrow> int act" where
  "rfc959_rename env connect oldname newname =
     if_connected GFTP_EFATAL (
     and_then (rfc959_generate_and_send_command env connect ''RNFR'' (Some oldname) True False) (\<lambda>ret.
       if ret < 0 then give ret
       else if ret \<noteq> DIGIT3 then give GFTP_ERETRYABLE
       else and_then (rfc959_generate_and_send_command env connect ''RNTO'' (Some newname) True False) (\<lambda>ret.
            give (if ret < 0 then ret else if ret = DIGIT2 then 0 else GFTP_ERETRYABLE))))"

fun show_oct :: "nat \<Rightarrow> string" where
  "show_oct n = (if n < 8 then [digit_char n] else show_oct (n div 8) @ [digit_char (n mod 8)])"

declare show_oct.simps [simp del]

definition rfc959_chmod :: "ftp_env \<Rightarrow> int act \<Rightarrow> string \<Rightarrow> mode_t \<Rightarrow> int act" where
  "rfc959_chmod env connect file' mode =
     plain_command (rfc959_send_command connect
       (''SITE CHMOD '' @ show_oct (unat mode) @ '' '' @ converted env (Some file') @ crlf) True False)"

definition rfc959_site :: "ftp_env \<Rightarrow> int act \<Rightarrow> bool \<Rightarrow> string \<Rightarrow> int act" where
  "rfc959_site env connect specify_site command =
     plain_command (rfc959_send_command connect
       ((if specify_site then ''SITE '' else []) @ converted env (Some command) @ crlf) True False)"



section \<open>Transfers between two servers\<close>

text \<open>\<open>rfc959_transfer_file\<close> works on the states of both connections.\<close>

type_synonym 'a act2 = "(ftp \<times> ftp, 'a) action"

definition on_from :: "'a act \<Rightarrow> 'a act2" where
  "on_from m fs = (case m (fst fs) of Inl e \<Rightarrow> Inl e | Inr (a, f) \<Rightarrow> Inr (a, (f, snd fs)))"

definition on_to :: "'a act \<Rightarrow> 'a act2" where
  "on_to m fs = (case m (snd fs) of Inl e \<Rightarrow> Inl e | Inr (a, t) \<Rightarrow> Inr (a, (fst fs, t)))"

text \<open>The address in the reply to PASV, which is cut behind it in place.\<close>

definition fxp_address :: "string act" where
  "fxp_address =
     and_then last_response (\<lambda>t.
     and_then (need (response_from is_digit t)) (\<lambda>pos.
       let addr = takeWhile (\<lambda>c. c \<noteq> CHR '')'') pos
       in and_then (change (with_req (\<lambda>rq. rq \<lparr> rq_last_ftp_response := Some (before t pos @ addr) \<rparr>)))
            (\<lambda>_. give addr)))"

definition rfc959_transfer_file ::
  "ftp_env \<Rightarrow> int act \<Rightarrow> string \<Rightarrow> int \<Rightarrow> string \<Rightarrow> int \<Rightarrow> int act2" where
  "rfc959_transfer_file env connect fromfile fromsize tofile tosize =
     and_then get_state (\<lambda>(f, t).
     if rq_datafd (ftp_req f) \<le> 0 \<or> rq_datafd (ftp_req t) \<le> 0 then give GFTP_EFATAL else
     and_then (on_from (rfc959_send_command connect (''PASV'' @ crlf) True False)) (\<lambda>ret.
     if ret < 0 then give ret
     else if ret \<noteq> DIGIT2 then give GFTP_ERETRYABLE else
     and_then (on_from fxp_address) (\<lambda>addr.
     if addr = [] then give GFTP_EFATAL else
     and_then (on_to (rfc959_send_command connect (''PORT '' @ addr @ crlf) True False)) (\<lambda>ret.
     if ret < 0 then give ret
     else if ret \<noteq> DIGIT2 then give GFTP_ERETRYABLE else
     and_then (on_from (rfc959_generate_and_send_command env connect ''RETR'' (Some fromfile) False False)) (\<lambda>ret.
     if ret < 0 then give ret else
     and_then (on_to (rfc959_generate_and_send_command env connect ''STOR'' (Some tofile) False False)) (\<lambda>ret.
     if ret < 0 then give ret else
     and_then (on_from (rfc959_read_response True)) (\<lambda>ret.
     if ret < 0 then give ret else
     and_then (on_to (rfc959_read_response True)) (\<lambda>ret.
     if ret < 0 then give ret else
     and_then (change (\<lambda>(f, t). (f \<lparr> is_fxp_transfer := True \<rparr>, t \<lparr> is_fxp_transfer := True \<rparr>)))
       (\<lambda>_. give 0)))))))))"


section \<open>FTP over TLS\<close>

text \<open>\<open>lib/ftps.c\<close>. The handshake leaves \<open>datafd_rbuf\<close> as it is.\<close>

definition ftps_auth_tls_start :: "ftp_env \<Rightarrow> int act \<Rightarrow> int act" where
  "ftps_auth_tls_start env connect =
     and_then (rfc959_send_command connect (''AUTH TLS'' @ crlf) True False) (\<lambda>ret.
     if ret < 0 then give ret
     else if ret \<noteq> DIGIT2 then give GFTP_EFATAL else
     and_then (fe_ssl_session_setup env) (\<lambda>ret.
     if ret < 0 then give ret else
     and_then (change (\<lambda>s. s \<lparr> ctl_tls := True \<rparr>)) (\<lambda>_.
     and_then (rfc959_send_command connect (''PBSZ 0'' @ crlf) True False) (\<lambda>ret.
     if ret < 0 then give ret else
     and_then (rfc959_send_command connect (''PROT P'' @ crlf) True False) (\<lambda>ret.
     if ret < 0 then give ret
     else if ret = DIGIT2 then and_then (change (\<lambda>s. s \<lparr> data_tls := True \<rparr>)) (\<lambda>_. give 0) else
     and_then (rfc959_send_command connect (''PROT C'' @ crlf) True False) (\<lambda>ret.
     if ret < 0 then give ret
     else if ret \<noteq> DIGIT2 then ftp_fail GFTP_ERETRYABLE
     else and_then (change (\<lambda>s. s \<lparr> data_tls := False \<rparr>)) (\<lambda>_. give 0)))))))"

text \<open>\<open>ftps_connect\<close>, given \<open>rfc959_connect\<close>.\<close>

definition ftps_connect :: "int act \<Rightarrow> int act" where
  "ftps_connect connect =
     and_then get_state (\<lambda>s.
       if 0 < rq_datafd (ftp_req s) then give 0
       else and_then (change (\<lambda>s. s \<lparr> ctl_tls := False \<rparr>)) (\<lambda>_. connect))"

definition ftps_env :: "ftp_env \<Rightarrow> ftp_env" where
  "ftps_env env = env \<lparr> fe_auth_tls_start := Some (ftps_auth_tls_start env), fe_connect := ftps_connect \<rparr>"

text \<open>The read function is switched for a cached listing, but \<open>rfc959_get_next_file\<close> reads through
  \<open>data_conn_read\<close>.\<close>

definition ftps_get_next_file :: "time_env \<Rightarrow> int \<Rightarrow> (int \<times> gftp_file) act" where
  "ftps_get_next_file tenv fd =
     and_then get_state (\<lambda>s.
       let resetptr = rq_cached (ftp_req s)
       in and_then (change (\<lambda>s. if resetptr then s \<lparr> ctl_tls := False \<rparr> else s)) (\<lambda>_.
          and_then (rfc959_get_next_file tenv fd) (\<lambda>r.
          and_then (change (\<lambda>s. if resetptr then s \<lparr> ctl_tls := True \<rparr> else s)) (\<lambda>_. give r))))"

section \<open>The module\<close>

definition rfc959_request_destroy :: "ftp \<Rightarrow> ftp" where
  "rfc959_request_destroy s = s \<lparr> datafd_rbuf := None, dataconn_rbuf := None \<rparr>"

text \<open>The data of the module; \<open>auth_tls_start\<close> is part of \<open>ftp_env\<close>, \<open>ctl_tls\<close> and \<open>data_tls\<close> stand for the
  read and write functions.\<close>

definition rfc959_copy_param_options :: "ftp \<Rightarrow> ftp \<Rightarrow> ftp" where
  "rfc959_copy_param_options dest src =
     dest \<lparr> data_connection := -1, is_ascii_transfer := is_ascii_transfer src,
            is_fxp_transfer := is_fxp_transfer src, data_tls := data_tls src, ctl_tls := ctl_tls src \<rparr>"

text \<open>The functions of the module in the table of the request. They act on an \<open>ftp\<close> whose request is the
  one of the connection; a module that got stuck stays so. \<open>fxp\<close> stands for \<open>rfc959_transfer_file\<close>,
  which needs the module data of both requests.\<close>

type_synonym ftp_world = "stuck + ftp"

definition on_world :: "'a \<Rightarrow> 'a act \<Rightarrow> gftp_request \<Rightarrow> ftp_world \<Rightarrow> 'a \<times> gftp_request \<times> ftp_world" where
  "on_world none m rq w =
    (case w of
       Inl e \<Rightarrow> (none, rq, Inl e)
     | Inr s \<Rightarrow> (case m (s \<lparr> ftp_req := rq \<rparr>) of
                  Inl e \<Rightarrow> (none, rq, Inl e)
                | Inr (a, s') \<Rightarrow> (a, ftp_req s', Inr s')))"

definition call :: "int act \<Rightarrow> ftp_world call" where
  "call = on_world GFTP_EFATAL"

definition silently :: "(ftp \<Rightarrow> ftp) \<Rightarrow> gftp_request \<Rightarrow> ftp_world \<Rightarrow> gftp_request \<times> ftp_world" where
  "silently f rq w = snd (on_world () (change f) rq w)"

text \<open>\<open>gftp_fd_read\<close> and \<open>gftp_fd_write\<close> on a descriptor of the request.\<close>

definition fd_source :: "int \<Rightarrow> ftp \<Rightarrow> source" where
  "fd_source fd s =
    (if fd = rq_datafd (ftp_req s) then Control else if fd = data_connection s then Data else Cache)"

definition ftp_fd_read :: "nat \<Rightarrow> int \<Rightarrow> (int + string) act" where
  "ftp_fd_read n fd s =
    (let src = fd_source fd s; (r, ch) = gftp_fd_read n (source_channel src s)
     in Inr (r, read_done src ch s))"

definition ftp_fd_write :: "string \<Rightarrow> int \<Rightarrow> int act" where
  "ftp_fd_write p fd s =
    (if fd = data_connection s
     then let (ret, ch) = gftp_fd_write p (data_out s)
          in Inr (ret, after_io ch (s \<lparr> data_out := ch \<lparr> disconnected := False \<rparr> \<rparr>))
     else ftp_write p s)"

type_synonym fxp = "string \<Rightarrow> int \<Rightarrow> gftp_request \<Rightarrow> string \<Rightarrow> int \<Rightarrow> gftp_request \<Rightarrow> ftp_world \<Rightarrow>
  int \<times> gftp_request \<times> gftp_request \<times> ftp_world"

definition rfc959_ops :: "ftp_env \<Rightarrow> time_env \<Rightarrow> nat \<Rightarrow> fxp \<Rightarrow> ftp_world proto_ops" where
  "rfc959_ops env tenv n fxp =
    (let connect = ftp_connect env n in
     no_ops \<lparr>
       op_copy_param_options := Some (\<lambda>dest src. dest),
       op_destroy := Some (silently rfc959_request_destroy),
       op_read_function := Some (\<lambda>k fd. on_world (Inl GFTP_EFATAL) (ftp_fd_read k fd)),
       op_write_function := Some (\<lambda>p fd. call (ftp_fd_write p fd)),
       op_connect := Some (call (fe_connect env (rfc959_connect env n))),
       op_disconnect := Some (silently rfc959_disconnect),
       op_get_file := Some (\<lambda>f k. call (rfc959_get_file env connect f k)),
       op_put_file := Some (\<lambda>f k t. call (rfc959_put_file env connect f k t)),
       op_transfer_file := Some fxp,
       op_get_next_file_chunk := Some (\<lambda>k. on_world (Inl GFTP_EFATAL) (rfc959_get_next_file_chunk k)),
       op_put_next_file_chunk := Some (\<lambda>p. call (rfc959_put_next_file_chunk p)),
       op_end_transfer := Some (call rfc959_end_transfer),
       op_abort_transfer := Some (call (rfc959_abort_transfer connect)),
       op_list_files := Some (call (rfc959_list_files env connect)),
       op_get_next_file := Some (\<lambda>fd. on_world (GFTP_EFATAL, zero_file) (rfc959_get_next_file tenv fd)),
       op_get_file_size := Some (\<lambda>f. call (rfc959_get_file_size env connect f)),
       op_chdir := Some (\<lambda>d. call (rfc959_chdir env connect d)),
       op_rmdir := Some (\<lambda>d. call (rfc959_rmdir env connect d)),
       op_rmfile := Some (\<lambda>f. call (rfc959_rmfile env connect f)),
       op_mkdir := Some (\<lambda>d. call (rfc959_mkdir env connect d)),
       op_rename := Some (\<lambda>a b. call (rfc959_rename env connect a b)),
       op_chmod := Some (\<lambda>f m. call (rfc959_chmod env connect f m)),
       op_site := Some (\<lambda>b c. call (rfc959_site env connect b c)),
       op_set_config_options := Some (call (rfc959_set_config_options env)) \<rparr>)"

text \<open>What \<open>uname\<close>, \<open>getpwuid\<close> and \<open>gethostbyname\<close> say of the user.\<close>

record identity =
  id_user :: string
  id_node :: string
  id_host :: "string option"

definition default_email :: "identity \<Rightarrow> string" where
  "default_email i =
    (case id_host i of
       Some h \<Rightarrow> if CHR ''.'' \<notin> set (id_node i) then id_user i @ ''@'' @ h else id_user i @ ''@'' @ id_node i
     | None \<Rightarrow> id_user i @ ''@'' @ id_node i)"

definition init_request :: "gftp_request \<Rightarrow> gftp_request" where
  "init_request rq = rq \<lparr> rq_protonum := int GFTP_FTP_NUM, rq_url_prefix := Some ''ftp'', rq_need_hostport := True,
     rq_need_username := True, rq_need_password := True, rq_use_cache := True, rq_always_connected := False,
     rq_use_local_encoding := False \<rparr>"

definition init_data :: "identity \<Rightarrow> ftp \<Rightarrow> ftp" where
  "init_data i s = with_opts (\<lambda>o'. if no_text (opt_email o') then o' \<lparr> opt_email := Some (default_email i) \<rparr> else o')
     (s \<lparr> datafd_rbuf := None, dataconn_rbuf := None, data_connection := -1, is_ascii_transfer := False,
          is_fxp_transfer := False, ctl_tls := False, data_tls := False \<rparr>)"

definition rfc959_init ::
  "ftp_env \<Rightarrow> time_env \<Rightarrow> nat \<Rightarrow> fxp \<Rightarrow> identity \<Rightarrow> ftp_world connection \<Rightarrow> ftp_world \<Rightarrow>
   int \<times> ftp_world connection \<times> ftp_world" where
  "rfc959_init env tenv n fxp i c w =
     Requests.gftp_set_config_options
       \<lparr> con_req = init_request (con_req c), con_ops = rfc959_ops env tenv n fxp \<rparr> (map_sum id (init_data i) w)"

definition GFTP_FTPS_NUM :: nat where [simp]: "GFTP_FTPS_NUM = 1"

text \<open>\<open>ftps_init\<close>; \<open>startup\<close> is the result of \<open>gftp_ssl_startup\<close>.\<close>

definition ftps_init ::
  "ftp_env \<Rightarrow> time_env \<Rightarrow> nat \<Rightarrow> fxp \<Rightarrow> identity \<Rightarrow> int \<Rightarrow> ftp_world connection \<Rightarrow> ftp_world \<Rightarrow>
   int \<times> ftp_world connection \<times> ftp_world" where
  "ftps_init env tenv n fxp i startup c w =
    (let (ret, c, w) = rfc959_init (ftps_env env) tenv n fxp i c w
     in if ret < 0 then (ret, c, w)
        else let c = \<lparr> con_req = (con_req c) \<lparr> rq_protonum := int GFTP_FTPS_NUM, rq_url_prefix := Some ''ftps'' \<rparr>,
                       con_ops = (con_ops c) \<lparr> op_get_next_file := Some (\<lambda>fd. on_world (GFTP_EFATAL, zero_file) (ftps_get_next_file tenv fd)) \<rparr> \<rparr>
             in (if startup < 0 then startup else 0, c, w))"

end
