(* ===== verification/Ftp_Safety.thy ===== *)
theory Ftp_Safety
  imports Ftp_Data
begin

text \<open>
  What every operation of the FTP module keeps: a request without a control connection has no data
  connection, and the module's operations leave the request connected unless they report an error.
\<close>

definition calm :: "channel \<Rightarrow> bool" where "calm ch \<longleftrightarrow> \<not> disconnected ch"

definition calm_channels :: "ftp \<Rightarrow> bool" where
  "calm_channels s \<longleftrightarrow> calm (ctl_in s) \<and> calm (ctl_out s) \<and> calm (data_in s) \<and> calm (data_out s) \<and> calm (cache_in s) \<and>
     (\<forall>d \<in> set (dials s). calm (dial_in d) \<and> calm (dial_out d)) \<and> (\<forall>(i, j) \<in> set (data_channels s). calm i \<and> calm j)"

definition linked :: "ftp \<Rightarrow> bool" where "linked s \<longleftrightarrow> 0 < rq_datafd (ftp_req s)"

definition no_orphan :: "ftp \<Rightarrow> bool" where
  "no_orphan s \<longleftrightarrow> calm_channels s \<and> (linked s \<or> data_connection s = -1)"

text \<open>What a call that is not an error promises besides.\<close>

definition ok_linked :: "int \<Rightarrow> ftp \<Rightarrow> bool" where
  "ok_linked ret s \<longleftrightarrow> no_orphan s \<and> (0 \<le> ret \<longrightarrow> linked s)"

definition sound :: "int act \<Rightarrow> bool" where
  "sound m \<longleftrightarrow> triple no_orphan m ok_linked"

lemma fd_read_calm: "gftp_fd_read n ch = (r, ch') \<Longrightarrow> calm ch \<Longrightarrow> (\<exists>e. r = Inl e \<and> e < 0) \<or> calm ch'"
proof -
  have "fd_read_loop n evs ch = (r, ch') \<Longrightarrow> calm ch \<Longrightarrow> (\<exists>e. r = Inl e \<and> e < 0) \<or> calm ch'" for evs
    by (induction n evs ch arbitrary: r ch' rule: fd_read_loop.induct)
      (auto simp: calm_def drop_connection_def Let_def split: if_splits)
  then show "gftp_fd_read n ch = (r, ch') \<Longrightarrow> calm ch \<Longrightarrow> (\<exists>e. r = Inl e \<and> e < 0) \<or> calm ch'"
    by (simp add: gftp_fd_read_def)
qed

lemma fd_write_calm: "gftp_fd_write p ch = (ret, ch') \<Longrightarrow> calm ch \<Longrightarrow> ret < 0 \<or> calm ch'"
proof -
  have "fd_write_loop p r evs ch = (ret, ch') \<Longrightarrow> calm ch \<Longrightarrow> ret < 0 \<or> calm ch'" for r evs
    by (induction p r evs ch arbitrary: ret ch' rule: fd_write_loop.induct)
      (auto simp: calm_def drop_connection_def Let_def split: if_splits)
  then show "gftp_fd_write p ch = (ret, ch') \<Longrightarrow> calm ch \<Longrightarrow> ret < 0 \<or> calm ch'"
    by (simp add: gftp_fd_write_def)
qed

lemma get_line_calm:
  assumes "gftp_get_line gftp_fd_read rb len ch = Inr (ret, line, rb', ch')" "calm ch"
  shows "ret < 0 \<or> calm ch'"
proof -
  have loop: "get_line_loop gftp_fd_read fuel rb len ch = Inr (ret, line, rb', ch') \<Longrightarrow> calm ch \<Longrightarrow> ret < 0 \<or> calm ch'"
    for fuel rb ch
  proof (induction fuel arbitrary: rb ch)
    case (Suc fuel)
    have t: "(\<exists>e. r = Inl e \<and> e < 0) \<or> calm t" if "gftp_fd_read n ch = (r, t)" for n r t
      using fd_read_calm [OF that Suc.prems(2)] .
    have ih: "get_line_loop gftp_fd_read fuel rb len t = Inr (ret, line, rb', ch') \<Longrightarrow> calm t \<Longrightarrow> ret < 0 \<or> calm ch'" for rb t
      using Suc.IH by blast
    show ?case using Suc.prems
      by (auto simp: Let_def deliver_line_def dest: t ih split: option.splits if_splits prod.splits sum.splits)
  qed simp
  have t: "(\<exists>e. r = Inl e \<and> e < 0) \<or> calm t" if "gftp_fd_read n ch = (r, t)" for n r t
    using fd_read_calm [OF that assms(2)] .
  show ?thesis
    using assms
    by (auto simp: gftp_get_line_def dest: t loop split: option.splits prod.splits sum.splits list.splits)
qed

text \<open>\<open>good\<close> is \<open>sound\<close> for an action that starts connected.\<close>

definition good :: "int act \<Rightarrow> bool" where
  "good m \<longleftrightarrow> triple (\<lambda>s. no_orphan s \<and> linked s) m ok_linked"

lemma sound_good: "sound m \<Longrightarrow> good m"
  by (auto simp: sound_def good_def triple_def)

lemma calm_channels_cong:
  "ctl_in s' = ctl_in s \<Longrightarrow> ctl_out s' = ctl_out s \<Longrightarrow> data_in s' = data_in s \<Longrightarrow> data_out s' = data_out s \<Longrightarrow>
   cache_in s' = cache_in s \<Longrightarrow> dials s' = dials s \<Longrightarrow> data_channels s' = data_channels s \<Longrightarrow>
   calm_channels s' = calm_channels s"
  by (simp add: calm_channels_def)

lemma calm_channels_other [simp]:
  "calm_channels (with_req f s) = calm_channels s" "calm_channels (with_opts g s) = calm_channels s"
  "calm_channels (s \<lparr> ftp_req := rq \<rparr>) = calm_channels s" "calm_channels (s \<lparr> datafd_rbuf := b \<rparr>) = calm_channels s"
  "calm_channels (s \<lparr> dataconn_rbuf := b \<rparr>) = calm_channels s" "calm_channels (s \<lparr> data_connection := i \<rparr>) = calm_channels s"
  "calm_channels (s \<lparr> is_ascii_transfer := c \<rparr>) = calm_channels s" "calm_channels (s \<lparr> is_fxp_transfer := c \<rparr>) = calm_channels s"
  "calm_channels (s \<lparr> ctl_tls := c \<rparr>) = calm_channels s" "calm_channels (s \<lparr> data_tls := c \<rparr>) = calm_channels s"
  "calm_channels (s \<lparr> ftp_opts := os \<rparr>) = calm_channels s" "calm_channels (s \<lparr> sys_calls := rs \<rparr>) = calm_channels s" "calm_channels (s \<lparr> data_peer := p \<rparr>) = calm_channels s"
  by (simp_all add: with_req_def with_opts_def calm_channels_def)

lemmas safe_simps = no_orphan_def linked_def calm_channels_def calm_def with_req_def with_opts_def
lemmas state_simps = no_orphan_def linked_def with_req_def with_opts_def

lemma disconnect_calm [simp]: "calm_channels (ftp_disconnect s) = calm_channels s"
  by (simp add: ftp_disconnect_def rfc959_disconnect_def rfc959_close_data_connection_def safe_simps Let_def)

lemma disconnect_closes [simp]: "data_connection (ftp_disconnect s) = -1"
  by (simp add: ftp_disconnect_def rfc959_disconnect_def rfc959_close_data_connection_def safe_simps Let_def)

lemma disconnect_no_orphan: "calm_channels s \<Longrightarrow> no_orphan (ftp_disconnect s)"
  by (simp add: no_orphan_def)

lemma after_io_no_orphan: "no_orphan s \<Longrightarrow> no_orphan (after_io ch s)"
  by (simp add: after_io_def no_orphan_def)

lemma after_io_calm [simp]: "calm ch \<Longrightarrow> after_io ch s = s"
  by (simp add: after_io_def calm_def)

lemma good_give: "good (give r)"
  by (auto simp: good_def ok_linked_def intro!: triple_give)

lemma sound_give: "r < 0 \<Longrightarrow> sound (give r)"
  by (auto simp: sound_def ok_linked_def intro!: triple_give)

lemma good_stop: "good (stop e)"
  by (simp add: good_def triple_stop)

lemma sound_fail: "e < 0 \<Longrightarrow> sound (ftp_fail e)"
  unfolding ftp_fail_def sound_def
  by (rule triple_and_then [where R = "\<lambda>_. no_orphan"], rule triple_change)
    (auto simp: no_orphan_def ok_linked_def disconnect_no_orphan [unfolded no_orphan_def] intro!: triple_give)

lemma after_result:
  assumes "0 \<le> a \<Longrightarrow> good m" "a < 0 \<Longrightarrow> sound m"
  shows "triple (ok_linked a) m ok_linked"
proof (cases "0 \<le> a")
  case True
  then show ?thesis using assms(1) unfolding good_def by (blast intro: triple_conseq dest: ok_linked_def [THEN iffD1])
next
  case False
  then show ?thesis using assms(2) unfolding sound_def by (auto intro: triple_conseq dest: ok_linked_def [THEN iffD1])
qed

lemma sound_then:
  assumes "sound m" "\<And>r. 0 \<le> r \<Longrightarrow> good (k r)" "\<And>r. r < 0 \<Longrightarrow> sound (k r)"
  shows "sound (and_then m k)"
  using assms(1) unfolding sound_def by (rule triple_and_then) (use assms in \<open>blast intro: after_result\<close>)

lemma good_then:
  assumes "good m" "\<And>r. 0 \<le> r \<Longrightarrow> good (k r)" "\<And>r. r < 0 \<Longrightarrow> sound (k r)"
  shows "good (and_then m k)"
  using assms(1) unfolding good_def by (rule triple_and_then) (use assms in \<open>blast intro: after_result\<close>)

text \<open>The usual shape: an error is handed on.\<close>

lemma sound_step:
  "sound m \<Longrightarrow> (\<And>r. 0 \<le> r \<Longrightarrow> good (k r)) \<Longrightarrow> sound (and_then m (\<lambda>r. if r < 0 then give r else k r))"
  by (rule sound_then) (simp_all add: sound_give)

lemma good_step:
  "good m \<Longrightarrow> (\<And>r. 0 \<le> r \<Longrightarrow> good (k r)) \<Longrightarrow> good (and_then m (\<lambda>r. if r < 0 then give r else k r))"
  by (rule good_then) (simp_all add: sound_give)

lemma good_give_step: "good m \<Longrightarrow> (\<And>r. r < 0 \<Longrightarrow> g r < 0) \<Longrightarrow> good (and_then m (\<lambda>r. give (g r)))"
  by (rule good_then) (simp_all add: sound_give good_give)

lemma sound_give_step: "sound m \<Longrightarrow> (\<And>r. r < 0 \<Longrightarrow> g r < 0) \<Longrightarrow> sound (and_then m (\<lambda>r. give (g r)))"
  by (rule sound_then) (simp_all add: sound_give good_give)

lemma good_get: "(\<And>s. good (k s)) \<Longrightarrow> good (and_then get_state k)"
  by (auto simp: good_def triple_def and_then_def get_state_def)

lemma sound_get: "(\<And>s. sound (k s)) \<Longrightarrow> sound (and_then get_state k)"
  by (auto simp: sound_def triple_def and_then_def get_state_def)

lemma good_if: "(b \<Longrightarrow> good m) \<Longrightarrow> (\<not> b \<Longrightarrow> good n) \<Longrightarrow> good (if b then m else n)"
  by simp

lemma good_unit:
  assumes "triple (\<lambda>s. no_orphan s \<and> linked s) m (\<lambda>_ s. no_orphan s \<and> linked s)" "\<And>a. good (k a)"
  shows "good (and_then m k)"
  using assms unfolding good_def by (rule triple_and_then)

lemma good_change:
  "(\<And>s. no_orphan s \<Longrightarrow> linked s \<Longrightarrow> no_orphan (f s) \<and> linked (f s)) \<Longrightarrow> good (k ()) \<Longrightarrow> good (and_then (change f) k)"
  by (rule good_unit, rule triple_change) auto

lemma good_need: "(\<And>a. good (k a)) \<Longrightarrow> good (and_then (need m) k)"
  by (cases m) (simp_all add: and_then_def stop_def good_def triple_def)

lemma good_last: "(\<And>t. good (k t)) \<Longrightarrow> good (and_then last_response k)"
  by (auto simp: good_def triple_def and_then_def last_response_def split: option.splits)

lemma if_connected_cases:
  "if_connected e k s = (if linked s then k s else Inr (e, s))"
  by (simp add: if_connected_def and_then_def get_state_def give_def linked_def)

lemma sound_guarded:
  assumes "e < 0" "good k"
  shows "sound (if_connected e k)"
  unfolding sound_def
proof (rule tripleI)
  fix s a s'
  assume s: "no_orphan s" "if_connected e k s = Inr (a, s')"
  show "ok_linked a s'"
  proof (cases "linked s")
    case True
    then show ?thesis using s assms(2) by (simp add: if_connected_cases good_def triple_def)
  next
    case False
    then show ?thesis using s assms(1) by (simp add: if_connected_cases ok_linked_def)
  qed
qed

lemma good_guarded: "good k \<Longrightarrow> good (if_connected e k)"
  by (simp add: good_def triple_def if_connected_cases)

section \<open>Replies and commands\<close>

lemma get_line_linked:
  assumes "no_orphan s" "linked s" "ftp_get_line len s = Inr ((ret, line), s')"
  shows "ok_linked ret s'"
proof -
  obtain rb ch where r: "gftp_get_line gftp_fd_read (datafd_rbuf s) len (ctl_in s) = Inr (ret, line, rb, ch)"
      "s' = after_io ch (s \<lparr> datafd_rbuf := rb, ctl_in := ch \<lparr> disconnected := False \<rparr> \<rparr>)"
    using assms(3) by (auto simp: ftp_get_line_def split: sum.splits)
  have "no_orphan (s \<lparr> datafd_rbuf := rb, ctl_in := ch \<lparr> disconnected := False \<rparr> \<rparr>)"
    using assms(1) by (simp add: safe_simps)
  moreover have "ret < 0 \<or> calm ch" using get_line_calm [OF r(1)] assms(1) by (simp add: no_orphan_def calm_channels_def)
  ultimately show ?thesis
    using r(2) assms(2) after_io_no_orphan by (auto simp: ok_linked_def linked_def)
qed

lemma response_loop_linked:
  "no_orphan s \<Longrightarrow> linked s \<Longrightarrow> response_loop n code t s = Inr ((ret, line), s') \<Longrightarrow> ok_linked ret s'"
proof (induction n arbitrary: code t s)
  case (Suc n)
  obtain num l s1 where l: "ftp_get_line 255 s = Inr ((num, l), s1)"
      "(if num \<le> 0 \<or> l = None then give (num, t)
        else let l = the l; code = (if 3 \<le> length l \<and> is_digit (l ! 0) \<and> is_digit (l ! 1) \<and> is_digit (l ! 2)
                        then take 3 l @ [SPC] else code)
             in if take 4 code = take 4 l then give (num, Some l) else response_loop n code (Some l)) s1 =
       Inr ((ret, line), s')"
    using Suc.prems(3) by (auto simp: and_then_def split: sum.splits prod.splits)
  have s1: "ok_linked num s1" by (rule get_line_linked [OF Suc.prems(1,2) l(1)])
  show ?case
    using l(2) s1 Suc.IH [of s1] by (auto simp: give_def Let_def ok_linked_def split: if_splits)
qed (simp add: stop_def)

lemma sound_read_response: "sound (rfc959_read_response d)"
proof -
  have "ok_linked r s'" if no: "no_orphan s" and r: "rfc959_read_response d s = Inr (r, s')" for s r s'
  proof (cases "linked s")
    case False
    then show ?thesis using no r
      by (auto simp: rfc959_read_response_def act_simps linked_def ok_linked_def)
  next
    case True
    let ?s = "with_req (\<lambda>rq. rq \<lparr> rq_last_ftp_response := None \<rparr>) s"
    obtain num t s1 where l: "response_loop (line_fuel s) [] None ?s = Inr ((num, t), s1)"
        "(if num < 0 then give num
          else case t of
             None \<Rightarrow> stop Out_of_bounds
           | Some t \<Rightarrow>
               and_then (change (with_req (\<lambda>rq. rq \<lparr> rq_last_ftp_response := Some t \<rparr>))) (\<lambda>_.
                 if starts_with ''42'' t \<and> d
                 then and_then (change ftp_disconnect) (\<lambda>_. give GFTP_ETIMEDOUT)
                 else give (first_char t))) s1 = Inr (r, s')"
      using r True
      by (auto simp: rfc959_read_response_def and_then_def get_state_def change_def linked_def split: sum.splits prod.splits)
    have "ok_linked num s1"
      by (rule response_loop_linked [OF _ _ l(1)]) (use no True in \<open>simp_all add: state_simps\<close>)
    then show ?thesis using l(2) disconnect_no_orphan
      by (auto simp: act_simps ok_linked_def state_simps split: if_splits option.splits)
  qed
  then show ?thesis by (auto simp: sound_def intro: tripleI)
qed

lemma good_write: "good (ftp_write p)"
proof -
  have "ok_linked ret s'" if s: "no_orphan s" "linked s" and w: "ftp_write p s = Inr (ret, s')" for s ret s'
  proof -
    obtain ch where r: "gftp_fd_write p (ctl_out s) = (ret, ch)"
        "s' = after_io ch (s \<lparr> ctl_out := ch \<lparr> disconnected := False \<rparr> \<rparr>)"
      using w by (auto simp: ftp_write_def split: prod.splits)
    have "no_orphan (s \<lparr> ctl_out := ch \<lparr> disconnected := False \<rparr> \<rparr>)" using s(1) by (simp add: safe_simps)
    moreover have "ret < 0 \<or> calm ch" using fd_write_calm [OF r(1)] s(1) by (simp add: no_orphan_def calm_channels_def)
    ultimately show ?thesis using r(2) s(2) after_io_no_orphan by (auto simp: ok_linked_def linked_def)
  qed
  then show ?thesis by (auto simp: good_def intro: tripleI)
qed

lemma sound_send_once: "sound (send_once command read_response)"
proof -
  have "good (and_then (ftp_write command) (\<lambda>ret. if ret < 0 then give ret
          else if read_response then rfc959_read_response True else give 0))"
    by (intro good_step good_write good_if good_give sound_good [OF sound_read_response])
  from sound_guarded [OF _ this, of GFTP_EFATAL] show ?thesis
    unfolding send_once_def if_connected_def by simp
qed

lemma sound_if: "(b \<Longrightarrow> sound m) \<Longrightarrow> (\<not> b \<Longrightarrow> sound n) \<Longrightarrow> sound (if b then m else n)"
  by simp

lemma sound_send_command:
  assumes "sound connect"
  shows "sound (rfc959_send_command connect command read_response dont)"
proof -
  have "sound (and_then connect (\<lambda>ret. if ret < 0 then give ret else send_once command True))"
    by (intro sound_step assms sound_good [OF sound_send_once])
  then show ?thesis
    unfolding rfc959_send_command_def
    by (intro sound_then [OF sound_send_once] good_if sound_if sound_give good_give; simp add: sound_good)
qed

lemma sound_generate: "sound connect \<Longrightarrow> sound (rfc959_generate_and_send_command env connect command a rr d)"
  by (simp add: rfc959_generate_and_send_command_def sound_send_command)

lemma good_fail: "e < 0 \<Longrightarrow> good (ftp_fail e)"
  by (intro sound_good sound_fail)

lemmas good_rules = good_step good_if good_give good_fail good_get good_need good_last good_guarded good_stop
lemmas sent = sound_send_command sound_generate sound_good [OF sound_send_command] sound_good [OF sound_generate]

lemma good_option:
  "(x = None \<Longrightarrow> good m) \<Longrightarrow> (\<And>a. x = Some a \<Longrightarrow> good (k a)) \<Longrightarrow> good (case x of None \<Rightarrow> m | Some a \<Rightarrow> k a)"
  by (cases x) auto

lemma good_set_req: "(\<And>rq. rq_datafd (f rq) = rq_datafd rq) \<Longrightarrow> good (k ()) \<Longrightarrow> good (and_then (change (with_req f)) k)"
  by (rule good_change) (simp_all add: state_simps)

lemma good_set_opts: "good (k ()) \<Longrightarrow> good (and_then (change (with_opts f)) k)"
  by (rule good_change) (simp_all add: state_simps)

lemma sound_getcwd: "sound connect \<Longrightarrow> sound (rfc959_getcwd env connect)"
  unfolding rfc959_getcwd_def
  by (intro sound_step sent good_if good_fail good_last good_option good_set_req good_give) simp_all

lemma sound_chdir: "sound connect \<Longrightarrow> sound (rfc959_chdir env connect directory)"
  unfolding rfc959_chdir_def
  by (intro sound_step sound_if sent good_if good_give good_give_step sound_good [OF sound_getcwd]) simp_all

lemma sound_syst: "sound connect \<Longrightarrow> sound (rfc959_syst connect)"
  unfolding rfc959_syst_def
  by (intro sound_step sent good_if good_give good_last good_option good_set_req good_change) (simp_all add: state_simps)

section \<open>Connecting\<close>

text \<open>What the parts outside the module must keep, too.\<close>

definition env_sound :: "ftp_env \<Rightarrow> bool" where
  "env_sound env \<longleftrightarrow> (\<forall>f c. fe_auth_tls_start env = Some f \<longrightarrow> sound c \<longrightarrow> good (f c)) \<and>
     (\<forall>c. sound c \<longrightarrow> sound (fe_connect env c)) \<and> triple no_orphan (fe_http_init env) (\<lambda>_. no_orphan) \<and>
     sound (fe_http_connect env) \<and> good (fe_ssl_session_setup env)"

lemma sound_after: "triple no_orphan m (\<lambda>_. no_orphan) \<Longrightarrow> (\<And>r. sound (k r)) \<Longrightarrow> sound (and_then m k)"
  unfolding sound_def by (rule triple_and_then)

lemma set_config_keeps:
  assumes "env_sound env"
  shows "triple no_orphan (rfc959_set_config_options env) (\<lambda>_. no_orphan)"
proof -
  have "triple (\<lambda>s. s = s0) (fe_http_init env) (\<lambda>_. no_orphan)" if "no_orphan s0" for s0
    using assms that by (auto simp: env_sound_def triple_def)
  then show ?thesis
    unfolding rfc959_set_config_options_def
    by (intro triple_get triple_if triple_give triple_and_then [where R = "\<lambda>_. no_orphan"] triple_change)
      (simp_all add: state_simps)
qed

lemma sound_reconnect: "env_sound env \<Longrightarrow> sound connect \<Longrightarrow> sound (ftp_reconnect env connect)"
  unfolding ftp_reconnect_def
  by (intro sound_get sound_after set_config_keeps sound_if sound_give) (auto simp: env_sound_def)

lemma good_send: "sound connect \<Longrightarrow> good (rfc959_generate_and_send_command env connect c a rr d)"
  by (intro sound_good sound_generate)

lemma good_plain_login: "sound connect \<Longrightarrow> good (plain_login env connect)"
  unfolding plain_login_def
  by (intro good_get good_then good_send good_if good_give) (auto intro: sound_give)

lemma good_send_lines: "sound connect \<Longrightarrow> good (send_lines connect ls resp)"
proof (induction ls arbitrary: resp)
  case (Cons l ls)
  show ?case
    unfolding send_lines.simps
    by (intro good_if good_step good_give sound_good [OF sound_send_command] Cons)
qed (simp add: good_give)

lemma good_proxy_login: "sound connect \<Longrightarrow> good (proxy_login env connect)"
  unfolding proxy_login_def by (intro good_get good_send_lines)

lemma start_directory_sound:
  assumes "sound connect"
  shows "sound (case d of None \<Rightarrow> give (-1) | Some d \<Rightarrow> if d = [] then give (-1) else rfc959_chdir env connect d)"
  using assms by (cases d) (simp_all add: sound_give sound_chdir)

lemma good_settle:
  assumes "sound connect"
  shows "good (settle env connect)"
proof -
  let ?fin = "\<lambda>ret. if ret < 0 then give ret
        else and_then get_state (\<lambda>s. give (if rq_datafd (ftp_req s) < 0 then GFTP_EFATAL else 0))"
  let ?cwd = "\<lambda>ret. and_then (if ret \<noteq> 0 then rfc959_getcwd env connect else give 0) ?fin"
  have cwd: "triple (ok_linked ret) (?cwd ret) ok_linked" for ret
  proof (rule after_result)
    assume "0 \<le> ret"
    show "good (?cwd ret)"
      by (intro good_step good_if good_give good_get sound_good [OF sound_getcwd] assms)
  next
    assume "ret < 0"
    then show "sound (?cwd ret)"
      by (intro sound_step sound_if good_give good_get sound_getcwd assms) simp_all
  qed
  have dir: "triple (ok_linked ret) (and_then get_state (\<lambda>s'.
       if b \<and> rq_datafd (ftp_req s') < 0 then give ret else ?cwd ret)) ok_linked" for ret b
    by (intro triple_get triple_if triple_conseq [OF cwd] triple_give) auto
  have type': "sound (and_then (rfc959_send_command connect t True False) (\<lambda>ret.
           if ret < 0 then give ret
           else and_then get_state (\<lambda>s.
             and_then (case rq_directory (ftp_req s) of
                         None \<Rightarrow> give (-1)
                       | Some d \<Rightarrow> if d = [] then give (-1) else rfc959_chdir env connect d) (\<lambda>ret.
             and_then get_state (\<lambda>s'.
               if \<not> no_text (rq_directory (ftp_req s)) \<and> rq_datafd (ftp_req s') < 0 then give ret
               else ?cwd ret)))))" for t
  proof (intro sound_step sound_send_command assms good_get)
    fix s
    show "good (and_then (case rq_directory (ftp_req s) of
                         None \<Rightarrow> give (-1)
                       | Some d \<Rightarrow> if d = [] then give (-1) else rfc959_chdir env connect d) (\<lambda>ret.
             and_then get_state (\<lambda>s'.
               if \<not> no_text (rq_directory (ftp_req s)) \<and> rq_datafd (ftp_req s') < 0 then give ret
               else ?cwd ret)))"
      unfolding good_def
      by (rule triple_and_then [where R = ok_linked])
        (use sound_good [OF start_directory_sound [OF assms]] dir in \<open>simp_all add: good_def\<close>)
  qed
  have ascii: "triple no_orphan (change (\<lambda>s. s \<lparr> is_ascii_transfer := a \<rparr>)) (\<lambda>_. no_orphan)" for a
    by (rule triple_change) (simp add: state_simps)
  have rest: "triple (ok_linked ret) (and_then get_state (\<lambda>s.
       if ret < 0 \<and> rq_datafd (ftp_req s) < 0 then give ret
       else let ascii = opt_ascii_transfers (ftp_opts s) in
         and_then (change (\<lambda>s. s \<lparr> is_ascii_transfer := ascii \<rparr>)) (\<lambda>_.
         and_then (rfc959_send_command connect ((if ascii then ''TYPE A'' else ''TYPE I'') @ crlf) True False) (\<lambda>ret.
           if ret < 0 then give ret
           else and_then get_state (\<lambda>s.
             and_then (case rq_directory (ftp_req s) of
                         None \<Rightarrow> give (-1)
                       | Some d \<Rightarrow> if d = [] then give (-1) else rfc959_chdir env connect d) (\<lambda>ret.
             and_then get_state (\<lambda>s'.
               if \<not> no_text (rq_directory (ftp_req s)) \<and> rq_datafd (ftp_req s') < 0 then give ret
               else ?cwd ret)))))) ) ok_linked" (is "triple _ ?m _") for ret
  proof -
    have "sound ?m"
      unfolding Let_def
      by (intro sound_get sound_if sound_give sound_after [OF ascii] type') simp
    then show ?thesis unfolding sound_def by (rule triple_conseq) (simp_all add: ok_linked_def)
  qed
  show ?thesis
    unfolding settle_def good_def
    by (rule triple_and_then [OF sound_good [OF sound_syst [OF assms], unfolded good_def] rest])
qed

lemma dial_keeps:
  "triple (\<lambda>s. no_orphan s \<and> \<not> linked s) gftp_connect_server (\<lambda>_. no_orphan)"
  by (rule tripleI)
    (auto simp: gftp_connect_server_def no_orphan_def linked_def with_req_def calm_channels_def split: list.splits if_splits)

lemma anonymous_keeps:
  "triple (\<lambda>s. no_orphan s \<and> \<not> linked s) (change anonymous_login) (\<lambda>_ s. no_orphan s \<and> \<not> linked s)"
  by (rule triple_change)
    (auto simp: anonymous_login_def Let_def state_simps gftp_set_username_def gftp_set_password_def)

lemma sound_connect:
  assumes "env_sound env"
  shows "sound (rfc959_connect env n)"
proof (induction n)
  case 0
  show ?case by (simp add: sound_def triple_stop)
next
  case (Suc n)
  let ?c = "ftp_reconnect env (fe_connect env (rfc959_connect env n))"
  have c: "sound ?c" using Suc assms by (intro sound_reconnect) (auto simp: env_sound_def)
  let ?in = "and_then (case fe_auth_tls_start env of None \<Rightarrow> give 0 | Some f \<Rightarrow> f ?c) (\<lambda>ret.
                if ret < 0 then ftp_fail ret
                else and_then get_state (\<lambda>s.
                  and_then (if rq_use_proxy (ftp_req s) then proxy_login env ?c
                            else plain_login env ?c) (\<lambda>resp.
                    if resp < 0 then give resp
                    else if resp \<noteq> DIGIT2 then ftp_fail (if resp = DIGIT5 then GFTP_EFATAL else GFTP_ERETRYABLE)
                    else settle env ?c)))"
  have tls: "good (case fe_auth_tls_start env of None \<Rightarrow> give 0 | Some f \<Rightarrow> f ?c)"
    using assms c by (intro good_option good_give) (auto simp: env_sound_def)
  have "good ?in"
    by (intro good_then [OF tls] good_if good_get good_step good_proxy_login good_plain_login good_settle good_fail c)
      (auto intro: sound_fail)
  then have banner: "sound (and_then (rfc959_read_response True) (\<lambda>ret.
              if ret \<noteq> DIGIT2 then ftp_fail (if ret < 0 then ret else GFTP_ERETRYABLE) else ?in))"
    by (intro sound_then sound_read_response good_if good_fail sound_if sound_fail) auto
  have dial: "triple (\<lambda>s. no_orphan s \<and> \<not> linked s) (and_then gftp_connect_server (\<lambda>ret.
            if ret < 0 then give ret
            else and_then (rfc959_read_response True) (\<lambda>ret.
              if ret \<noteq> DIGIT2 then ftp_fail (if ret < 0 then ret else GFTP_ERETRYABLE) else ?in))) ok_linked"
    by (rule triple_and_then [OF dial_keeps])
      (use banner in \<open>auto simp: sound_def ok_linked_def intro: triple_give\<close>)
  have "triple (\<lambda>s. no_orphan s \<and> \<not> linked s) (and_then (change anonymous_login) (\<lambda>_.
          and_then gftp_connect_server (\<lambda>ret.
            if ret < 0 then give ret
            else and_then (rfc959_read_response True) (\<lambda>ret.
              if ret \<noteq> DIGIT2 then ftp_fail (if ret < 0 then ret else GFTP_ERETRYABLE) else ?in)))) ok_linked"
    by (rule triple_and_then [OF anonymous_keeps dial])
  then show ?case
    unfolding sound_def rfc959_connect.simps(2) Let_def
    by (intro triple_get triple_if triple_give) (auto simp: ok_linked_def linked_def elim: triple_conseq)
qed

lemma sound_ftp_connect: "env_sound env \<Longrightarrow> sound (ftp_connect env n)"
  unfolding ftp_connect_def by (intro sound_reconnect) (auto simp: env_sound_def sound_connect)

section \<open>The data connection\<close>

lemma sys_call_keeps: "triple (\<lambda>s. no_orphan s \<and> linked s) sys_call (\<lambda>_ s. no_orphan s \<and> linked s)"
  by (rule tripleI) (auto simp: sys_call_def state_simps split: list.splits)

lemma open_channel_keeps: "triple (\<lambda>s. no_orphan s \<and> linked s) open_channel (\<lambda>_ s. no_orphan s \<and> linked s)"
  by (rule tripleI) (auto simp: open_channel_def no_orphan_def linked_def calm_channels_def split: list.splits)

lemmas good_sys_call = good_unit [OF sys_call_keeps]
lemmas good_open_channel = good_unit [OF open_channel_keeps]

lemma good_sockblocking: "good (gftp_fd_set_sockblocking fd)"
  unfolding gftp_fd_set_sockblocking_def by (intro good_if good_give good_sys_call good_fail) simp_all

lemma good_set_passive: "good (k ()) \<Longrightarrow> good (and_then (set_passive b) k)"
  unfolding set_passive_def by (rule good_set_opts)

lemma good_data_socket: "good k \<Longrightarrow> good (data_socket failed k)"
  unfolding data_socket_def
  by (intro good_sys_call good_change good_if good_fail good_give) (simp_all add: state_simps)

lemma good_connect_data: "good (connect_data addr)"
  unfolding connect_data_def
  by (intro good_sys_call good_if good_fail good_change good_open_channel good_give) (simp_all add: state_simps)

lemma good_need_k: "(\<And>a. m = Some a \<Longrightarrow> good (k a)) \<Longrightarrow> good (and_then (need m) k)"
  by (cases m) (simp_all add: and_then_def stop_def good_def triple_def)

lemma good_needed:
  "(\<And>s. good (k s)) \<Longrightarrow> good (and_then (if b then and_then (need x) (\<lambda>a. need (y a)) else need z) k)"
  by (cases x; cases z; cases "y (the x)")
    (auto simp: good_def triple_def and_then_def stop_def give_def)

lemma good_ipv4_passive:
  assumes "sound connect" "good again"
  shows "good (ipv4_passive connect again)"
  unfolding ipv4_passive_def
  by (intro good_step good_if good_last good_need good_get good_fail good_set_passive good_needed good_connect_data assms
      sound_good [OF sound_send_command]) simp_all

lemma good_each_succeeds: "good k \<Longrightarrow> good (each_succeeds n k)"
  by (induction n) (auto intro!: good_sys_call good_fail)

lemma good_ipv4_active: "sound connect \<Longrightarrow> good (ipv4_active connect)"
  unfolding ipv4_active_def
  by (intro good_each_succeeds good_get good_step good_if good_fail good_give sound_good [OF sound_send_command]) simp_all

lemma good_ipv4: "sound connect \<Longrightarrow> good (rfc959_ipv4_data_connection_new connect)"
  unfolding rfc959_ipv4_data_connection_new_def Let_def
  by (intro good_data_socket good_get good_if good_ipv4_passive good_ipv4_active)

lemma good_ipv6_passive:
  assumes "sound connect" "good again"
  shows "good (ipv6_passive connect again)"
  unfolding ipv6_passive_def
  by (intro good_step good_if good_last good_need good_get good_fail good_set_passive good_option good_connect_data assms
      sound_good [OF sound_send_command]) simp_all

lemma good_ipv6_active: "sound connect \<Longrightarrow> good (ipv6_active ntop connect)"
  unfolding ipv6_active_def
  by (intro good_each_succeeds good_get good_step good_if good_fail good_option good_give
      sound_good [OF sound_send_command]) simp_all

lemma good_ipv6: "sound connect \<Longrightarrow> good (rfc959_ipv6_data_connection_new ntop connect)"
  unfolding rfc959_ipv6_data_connection_new_def Let_def
  by (intro good_data_socket good_get good_if good_fail good_ipv6_passive good_ipv6_active) simp_all

lemma sound_data_once: "sound connect \<Longrightarrow> sound (data_connection_once env connect)"
proof -
  assume c: "sound connect"
  have "sound (if_connected GFTP_EFATAL (and_then get_state (\<lambda>s.
     if rq_ai_family (ftp_req s) = int AF_INET6 then rfc959_ipv6_data_connection_new (fe_ntop env) connect
     else rfc959_ipv4_data_connection_new connect)))"
    by (intro sound_guarded good_get good_if good_ipv6 good_ipv4 c) simp
  moreover have "data_connection_once env connect = if_connected GFTP_EFATAL (and_then get_state (\<lambda>s.
     if rq_ai_family (ftp_req s) = int AF_INET6 then rfc959_ipv6_data_connection_new (fe_ntop env) connect
     else rfc959_ipv4_data_connection_new connect))"
    by (rule ext) (simp add: data_connection_once_def if_connected_def and_then_def get_state_def)
  ultimately show ?thesis by simp
qed

lemma sound_data_new: "sound connect \<Longrightarrow> sound (rfc959_data_connection_new env connect dont)"
  unfolding rfc959_data_connection_new_def
  by (rule sound_then [OF sound_data_once])
    (auto intro!: good_give sound_give sound_step sound_good [OF sound_data_once])

lemma good_accept: "good rfc959_accept_active_connection"
  unfolding rfc959_accept_active_connection_def
  by (intro good_get good_if good_give good_step good_sockblocking good_sys_call good_fail good_change good_open_channel
      good_give_step) (simp_all add: state_simps)

section \<open>Transfers and listings\<close>

lemma good_set_data_type: "sound connect \<Longrightarrow> good (rfc959_set_data_type env connect filename)"
  unfolding rfc959_set_data_type_def Let_def
  by (intro good_get good_if good_give good_change good_give_step sound_good [OF sound_send_command])
    (simp_all add: state_simps)

lemma good_open_data: "sound connect \<Longrightarrow> good (open_data_connection env connect)"
  unfolding open_data_connection_def
  by (intro good_get good_if good_give sound_good [OF sound_data_new])

lemma close_keeps: "no_orphan s \<Longrightarrow> linked s \<Longrightarrow> no_orphan (rfc959_close_data_connection s) \<and> linked (rfc959_close_data_connection s)"
  by (simp add: rfc959_close_data_connection_def state_simps)

lemma good_close: "good (close_data r)"
  unfolding close_data_def by (intro good_change good_give close_keeps)

lemma good_restart: "sound connect \<Longrightarrow> good (restart_at connect n)"
  unfolding restart_at_def by (intro good_if good_step good_give good_close sound_good [OF sound_send_command])

lemma good_setup: "sound connect \<Longrightarrow> good (rfc959_setup_file_transfer env connect filename startsize command)"
  unfolding rfc959_setup_file_transfer_def
  by (intro good_step good_set_data_type good_open_data good_get good_sockblocking good_restart good_send good_if good_close
      good_give good_give_step good_accept) simp_all

lemma sound_get_file: "sound connect \<Longrightarrow> sound (rfc959_get_file env connect filename startsize)"
  unfolding rfc959_get_file_def
  by (intro sound_guarded good_step good_setup good_last good_need good_give) simp_all

lemma sound_put_file: "sound connect \<Longrightarrow> sound (rfc959_put_file env connect filename startsize totalsize)"
  unfolding rfc959_put_file_def
  by (intro sound_guarded good_step good_set_data_type good_open_data good_setup) simp_all

lemma sound_end_transfer: "sound rfc959_end_transfer"
  unfolding rfc959_end_transfer_def
  by (intro sound_guarded good_change close_keeps good_give_step sound_good [OF sound_read_response])
    (simp_all add: state_simps)

text \<open>\<open>rfc959_abort_transfer\<close> reports success when it disconnects.\<close>

definition safe :: "'a act \<Rightarrow> bool" where "safe m \<longleftrightarrow> triple no_orphan m (\<lambda>_. no_orphan)"

lemma sound_safe: "sound m \<Longrightarrow> safe m"
  by (auto simp: sound_def safe_def triple_def ok_linked_def)

lemma safe_give: "safe (give a)"
  by (simp add: safe_def triple_give)

lemma safe_then: "safe m \<Longrightarrow> (\<And>a. safe (k a)) \<Longrightarrow> safe (and_then m k)"
  unfolding safe_def by (rule triple_and_then)

lemma safe_get: "(\<And>s. safe (k s)) \<Longrightarrow> safe (and_then get_state k)"
  by (auto simp: safe_def triple_def and_then_def get_state_def)

lemma safe_if: "(b \<Longrightarrow> safe m) \<Longrightarrow> (\<not> b \<Longrightarrow> safe n) \<Longrightarrow> safe (if b then m else n)"
  by simp

lemma safe_need: "safe (need m)"
  by (cases m) (simp_all add: safe_give, simp add: safe_def triple_stop)

lemma safe_change: "(\<And>s. no_orphan s \<Longrightarrow> no_orphan (f s)) \<Longrightarrow> safe (change f)"
  by (simp add: safe_def triple_change)

lemma safe_fail: "safe (ftp_fail e)"
  unfolding ftp_fail_def by (intro safe_then safe_change safe_give) (simp add: no_orphan_def)

lemma safe_abort_transfer: "sound connect \<Longrightarrow> safe (rfc959_abort_transfer connect)"
  unfolding rfc959_abort_transfer_def if_connected_def
  by (intro safe_get safe_if safe_give safe_then sound_safe [OF sound_send_command] safe_change
      sound_safe [OF sound_read_response] safe_fail)
    (auto simp: rfc959_close_data_connection_def state_simps)

lemma sound_list_files: "sound connect \<Longrightarrow> sound (rfc959_list_files env connect)"
  unfolding rfc959_list_files_def Let_def
  by (intro sound_guarded good_step sound_good [OF sound_data_new] good_get sound_good [OF sound_send_command] good_if
      good_give good_accept) simp_all

lemma put_source_no_orphan: "no_orphan s \<Longrightarrow> no_orphan (put_source src (ch \<lparr> disconnected := False \<rparr>) s)"
  by (cases src) (auto simp: no_orphan_def calm_channels_def calm_def linked_def)

lemma read_done_no_orphan: "no_orphan s \<Longrightarrow> no_orphan (read_done src ch s)"
  by (simp add: read_done_def after_io_no_orphan put_source_no_orphan)

lemma safe_data_read: "safe (data_read n)"
  unfolding safe_def
  by (rule tripleI) (auto simp: data_read_def Let_def read_done_no_orphan split: prod.splits)

lemma write_no_orphan: "no_orphan s \<Longrightarrow> no_orphan (s \<lparr> data_out := ch \<lparr> disconnected := False \<rparr> \<rparr>)"
    "no_orphan s \<Longrightarrow> no_orphan (s \<lparr> ctl_out := ch \<lparr> disconnected := False \<rparr> \<rparr>)"
  by (auto simp: no_orphan_def calm_channels_def calm_def linked_def)

lemma safe_data_write: "safe (data_write p)"
  unfolding safe_def
  by (rule tripleI)
    (auto simp: data_write_def ftp_write_def after_io_no_orphan write_no_orphan split: prod.splits if_splits)

lemma safe_get_chunk: "safe (rfc959_get_next_file_chunk n)"
proof -
  have "safe (case r of Inl e \<Rightarrow> give (Inl e) | Inr buf \<Rightarrow> give (Inr (f buf)))" for r :: "int + string" and f :: "string \<Rightarrow> string"
    by (cases r) (simp_all add: safe_give)
  then show ?thesis
    unfolding rfc959_get_next_file_chunk_def by (intro safe_get safe_if safe_give safe_then safe_data_read)
qed

lemma safe_write_loop: "safe (write_loop fuel p ret)"
proof (induction fuel p ret rule: write_loop.induct)
  case (3 fuel c p ret)
  show ?case unfolding write_loop.simps
    by (intro safe_then safe_data_write safe_if safe_give 3)
qed (simp_all add: safe_give, simp add: safe_def triple_stop)

lemma safe_put_chunk: "safe (rfc959_put_next_file_chunk buf)"
  unfolding rfc959_put_next_file_chunk_def Let_def by (intro safe_get safe_if safe_give safe_write_loop)

lemma safe_dirlist_line: "safe (rfc959_get_next_dirlist_line c n)"
  unfolding safe_def
  by (rule tripleI)
    (auto simp: rfc959_get_next_dirlist_line_def Let_def intro!: read_done_no_orphan
      split: sum.splits prod.splits, simp add: state_simps)

lemma safe_split: "(\<And>a b. safe (k a b)) \<Longrightarrow> safe (case x of (a, b) \<Rightarrow> k a b)"
  by (cases x) simp

lemma safe_parse_line: "safe (parse_line c tenv l)"
  unfolding parse_line_def Let_def
  by (intro safe_get safe_if safe_then safe_dirlist_line safe_split safe_need)

lemma safe_entry_loop: "safe (next_entry_loop fuel c tenv)"
proof (induction fuel)
  case (Suc fuel)
  show ?case unfolding next_entry_loop.simps
    by (intro safe_then safe_dirlist_line safe_split safe_if safe_give safe_need safe_parse_line Suc)
qed (simp add: safe_def triple_stop)

lemma safe_get_next_file: "safe (rfc959_get_next_file tenv fd)"
  unfolding rfc959_get_next_file_def
  by (intro safe_if safe_give safe_then safe_change safe_get safe_entry_loop safe_split) (auto simp: state_simps)

section \<open>Every operation\<close>

lemma sound_plain_command:
  assumes "good send"
  shows "sound (plain_command send)"
proof -
  have "good (and_then send (\<lambda>ret. give (if ret < 0 then ret else if ret = DIGIT2 then 0 else GFTP_ERETRYABLE)))"
    by (rule good_give_step [OF assms]) simp
  then show ?thesis unfolding plain_command_def by (rule sound_guarded [rotated]) simp
qed

lemma good_guarded_safe:
  assumes "good k"
  shows "safe (if_connected e k)"
  unfolding safe_def
proof (rule tripleI)
  fix s a s'
  assume s: "no_orphan s" "if_connected e k s = Inr (a, s')"
  show "no_orphan s'"
    using s assms by (cases "linked s") (auto simp: if_connected_cases good_def ok_linked_def dest: tripleD)
qed

lemma sound_get_file_size: "sound connect \<Longrightarrow> safe (rfc959_get_file_size env connect f)"
proof -
  assume c: "sound connect"
  have "good (and_then (rfc959_generate_and_send_command env connect ''SIZE'' (Some f) True False) (\<lambda>ret.
       if ret < 0 then give ret
       else and_then last_response (\<lambda>t.
            if t = [] \<or> hd t \<noteq> CHR ''2'' then give 0
            else if length t < 4 then stop Out_of_bounds
            else give (strtol10 (drop 4 t)))))"
    by (intro good_step good_send c good_last good_if good_give good_stop)
  then show ?thesis
    unfolding rfc959_get_file_size_def by (rule good_guarded_safe)
qed

lemma sound_rename: "sound connect \<Longrightarrow> sound (rfc959_rename env connect a b)"
  unfolding rfc959_rename_def by (intro sound_guarded good_step good_send good_if good_give good_give_step) simp_all

lemmas sound_commands = sound_plain_command [OF good_send] sound_plain_command [OF sound_good [OF sound_send_command]]

text \<open>The operations as data, and what they do to the state.\<close>

datatype ftp_operation =
    Op_connect | Op_disconnect | Op_chdir string | Op_get_file string int | Op_put_file string int int
  | Op_get_chunk nat | Op_put_chunk string | Op_end_transfer | Op_abort_transfer | Op_list_files | Op_next_file int
  | Op_file_size string | Op_rmdir string | Op_rmfile string | Op_mkdir string | Op_rename string string
  | Op_chmod string mode_t | Op_site bool string

definition result_state :: "stuck + 'a \<times> ftp \<Rightarrow> ftp option" where
  "result_state r = (case r of Inl e \<Rightarrow> None | Inr (a, s) \<Rightarrow> Some s)"

fun run_operation :: "ftp_env \<Rightarrow> time_env \<Rightarrow> nat \<Rightarrow> ftp_operation \<Rightarrow> ftp \<Rightarrow> ftp option" where
  "run_operation env tenv n Op_connect s = result_state (ftp_connect env n s)"
| "run_operation env tenv n Op_disconnect s = Some (ftp_disconnect s)"
| "run_operation env tenv n (Op_chdir d) s = result_state (rfc959_chdir env (ftp_connect env n) d s)"
| "run_operation env tenv n (Op_get_file f k) s = result_state (rfc959_get_file env (ftp_connect env n) f k s)"
| "run_operation env tenv n (Op_put_file f k t) s = result_state (rfc959_put_file env (ftp_connect env n) f k t s)"
| "run_operation env tenv n (Op_get_chunk k) s = result_state (rfc959_get_next_file_chunk k s)"
| "run_operation env tenv n (Op_put_chunk p) s = result_state (rfc959_put_next_file_chunk p s)"
| "run_operation env tenv n Op_end_transfer s = result_state (rfc959_end_transfer s)"
| "run_operation env tenv n Op_abort_transfer s = result_state (rfc959_abort_transfer (ftp_connect env n) s)"
| "run_operation env tenv n Op_list_files s = result_state (rfc959_list_files env (ftp_connect env n) s)"
| "run_operation env tenv n (Op_next_file fd) s = result_state (rfc959_get_next_file tenv fd s)"
| "run_operation env tenv n (Op_file_size f) s = result_state (rfc959_get_file_size env (ftp_connect env n) f s)"
| "run_operation env tenv n (Op_rmdir d) s = result_state (rfc959_rmdir env (ftp_connect env n) d s)"
| "run_operation env tenv n (Op_rmfile f) s = result_state (rfc959_rmfile env (ftp_connect env n) f s)"
| "run_operation env tenv n (Op_mkdir d) s = result_state (rfc959_mkdir env (ftp_connect env n) d s)"
| "run_operation env tenv n (Op_rename a b) s = result_state (rfc959_rename env (ftp_connect env n) a b s)"
| "run_operation env tenv n (Op_chmod f m) s = result_state (rfc959_chmod env (ftp_connect env n) f m s)"
| "run_operation env tenv n (Op_site b c) s = result_state (rfc959_site env (ftp_connect env n) b c s)"

inductive ftp_reachable :: "ftp_env \<Rightarrow> time_env \<Rightarrow> nat \<Rightarrow> ftp \<Rightarrow> ftp \<Rightarrow> bool"
  for env tenv n s0 where
  Start: "ftp_reachable env tenv n s0 s0"
| Step: "ftp_reachable env tenv n s0 s \<Longrightarrow> run_operation env tenv n oper s = Some s' \<Longrightarrow> ftp_reachable env tenv n s0 s'"

lemma result_state_safe: "safe m \<Longrightarrow> no_orphan s \<Longrightarrow> result_state (m s) = Some s' \<Longrightarrow> no_orphan s'"
  by (auto simp: result_state_def safe_def triple_def split: sum.splits)

lemma safe_plain_commands:
  assumes "sound connect"
  shows "safe (rfc959_rmdir env connect d)" "safe (rfc959_rmfile env connect f)" "safe (rfc959_mkdir env connect d)"
    "safe (rfc959_chmod env connect f m)" "safe (rfc959_site env connect b t)"
  unfolding rfc959_rmdir_def rfc959_rmfile_def rfc959_mkdir_def rfc959_chmod_def rfc959_site_def
  by (intro sound_safe sound_commands assms)+

lemma operation_safe:
  assumes "env_sound env" "no_orphan s" "run_operation env tenv n oper s = Some s'"
  shows "no_orphan s'"
proof -
  have c: "sound (ftp_connect env n)" by (rule sound_ftp_connect [OF assms(1)])
  note ops = sound_safe [OF c] sound_safe [OF sound_chdir [OF c]] sound_safe [OF sound_get_file [OF c]]
    sound_safe [OF sound_put_file [OF c]] safe_get_chunk safe_put_chunk sound_safe [OF sound_end_transfer]
    safe_abort_transfer [OF c] sound_safe [OF sound_list_files [OF c]] safe_get_next_file sound_get_file_size [OF c]
    sound_safe [OF sound_rename [OF c]] safe_plain_commands [OF c]
  note kept = ops [THEN result_state_safe, OF assms(2)]
  have "no_orphan (ftp_disconnect s)" using assms(2) by (simp add: no_orphan_def)
  then show ?thesis
    using assms(3) by (cases oper; simp only: run_operation.simps option.inject) (erule kept | simp)+
qed

text \<open>C4: Whatever operations are called in whatever order, and whatever servers, sockets and the system answer
  (split reads, failures, timeouts, reconnects): when the control connection of a request is gone, so
  is its data connection.\<close>

theorem no_orphaned_data_connection:
  assumes "ftp_reachable env tenv n s0 s" "env_sound env" "no_orphan s0" "rq_datafd (ftp_req s) \<le> 0"
  shows "data_connection s = -1"
proof -
  have "no_orphan s" using assms(1,3) by induction (auto intro: operation_safe [OF assms(2)])
  then show ?thesis using assms(4) by (auto simp: no_orphan_def linked_def)
qed

lemma plain_env_sound: "env_sound plain_env"
  by (auto simp: env_sound_def plain_env_def sound_give good_give intro: triple_give)

theorem no_orphaned_data_connection_witness:
  "data_connection (ftp_disconnect ((example_ftp []) \<lparr> data_connection := 9 \<rparr>)) = -1"
proof (rule no_orphaned_data_connection)
  let ?s = "(example_ftp []) \<lparr> data_connection := 9 \<rparr>"
  show "ftp_reachable plain_env tenv 1 ?s (ftp_disconnect ?s)"
    by (rule Step [OF Start, where oper = Op_disconnect]) simp
  show "env_sound plain_env" by (rule plain_env_sound)
  show "no_orphan ?s"
    by (simp add: no_orphan_def calm_channels_def calm_def linked_def example_ftp_def quiet_channel_def)
  show "rq_datafd (ftp_req (ftp_disconnect ?s)) \<le> 0"
    by (simp add: ftp_disconnect_def rfc959_disconnect_def rfc959_close_data_connection_def with_req_def example_ftp_def)
qed

end
