(* ===== verification/Ftp_Sessions.thy ===== *)
theory Ftp_Sessions
  imports Ftp_Data
begin

text \<open>
  Sessions over the data connection: what a download, a listing or an upload does from the bytes of the
  server's replies to the bytes on the data connection, and what FTP over TLS and transfers between two
  servers do with their replies.
\<close>


section \<open>Addresses in PASV and PORT\<close>

lemma scan_uint_number:
  assumes "v < 2 ^ 32" "r = [] \<or> \<not> is_digit (hd r)"
  shows "scan_uint (show_nat v @ r) = Some (v, r)"
proof -
  obtain c cs where c: "show_nat v = c # cs" "is_digit c" using show_nat_Cons by blast
  have sp: "\<not> is_space c" "c \<noteq> CHR ''-''" "c \<noteq> CHR ''+''" using c(2) space_not_digit by (auto simp: is_digit_def code_of_def)
  have d: "dropWhile is_digit (show_nat v @ r) = r"
    using assms(2) by (subst dropWhile_append2) (auto intro: dropWhile_eq_self_iff [THEN iffD2])
  have t: "takeWhile is_digit (show_nat v @ r) = show_nat v"
    using takeWhile_show_nat [of r v] assms(2) by (cases r) auto
  have "read_nat (show_nat v @ r) = v"
    using read_show_nat [of r v] assms(2) by (cases r) auto
  then show ?thesis
    using c sp d assms(1) by (simp add: scan_uint_def strtol_sign.simps)
qed

lemma comma_bytes_Cons [simp]: "comma_bytes (b # bs) = '','' @ show_nat (code_of b) @ comma_bytes bs"
  by (simp add: comma_bytes_def)

lemma comma_bytes_Nil [simp]: "comma_bytes [] = []"
  by (simp add: comma_bytes_def)

lemma comma_not_digit [simp]: "\<not> is_digit (CHR '','')"
  by (simp add: is_digit_def code_of_def)

lemma scan_address:
  assumes "r = [] \<or> \<not> is_digit (hd r)"
  shows "scan_uints (Suc (length bs)) (show_nat (code_of b) @ comma_bytes bs @ r) = map code_of (b # bs)"
  using assms
proof (induction bs arbitrary: b)
  case Nil
  then show ?case using scan_uint_number [of "code_of b" r] code_of_less [of b] by (simp split: list.split)
next
  case (Cons c bs)
  have "scan_uint (show_nat (code_of b) @ comma_bytes (c # bs) @ r) = Some (code_of b, comma_bytes (c # bs) @ r)"
    using scan_uint_number [of "code_of b" "comma_bytes (c # bs) @ r"] code_of_less [of b] by simp
  with Cons show ?case by (simp add: scan_uints.simps(2))
qed


lemma low_byte_code [simp]: "low_byte (code_of c) = c"
  by (simp add: low_byte_def)

text \<open>The numbers of a PORT command; the text of a socket address in a reply to PASV.\<close>

definition address_text :: "string \<Rightarrow> string" where
  "address_text addr = tl (comma_bytes (take 4 (drop 4 addr) @ take 2 (drop 2 addr)))"

lemma port_command_text: "port_command addr = ''PORT '' @ address_text addr @ crlf"
  by (simp add: port_command_def address_text_def)

definition ipv4_address :: "string \<Rightarrow> bool" where
  "ipv4_address addr \<longleftrightarrow> (\<exists>p q a b c d. addr = [char_of AF_INET, NUL, p, q, a, b, c, d] @ replicate 8 NUL)"

lemma address_scanned:
  assumes "ipv4_address addr" "r = [] \<or> \<not> is_digit (hd r)"
  shows "length (scan_uints 6 (address_text addr @ r)) = 6 \<and> pasv_addr (scan_uints 6 (address_text addr @ r)) None = Some addr"
proof -
  obtain p q a b c d where addr: "addr = [char_of AF_INET, NUL, p, q, a, b, c, d] @ replicate 8 NUL"
    using assms(1) by (auto simp: ipv4_address_def)
  have "scan_uints (Suc (length [b, c, d, p, q])) (address_text addr @ r) = map code_of [a, b, c, d, p, q]"
    using scan_address [OF assms(2), of "[b, c, d, p, q]" a] by (simp add: addr address_text_def del: scan_uints.simps)
  then have "scan_uints 6 (address_text addr @ r) = map code_of [a, b, c, d, p, q]"
    by (simp add: eval_nat_numeral del: scan_uints.simps)
  then show ?thesis
    by (simp add: addr pasv_addr_def zero_addr_def overwrite_def eval_nat_numeral)
qed

lemma address_text_digit: "ipv4_address addr \<Longrightarrow> \<exists>c cs. address_text addr = c # cs \<and> is_digit c"
  using show_nat_Cons by (auto simp: ipv4_address_def address_text_def) (metis append_Cons)

text \<open>C18: The address in a PORT command of this client is the one its own reading of a PASV reply finds
  when a server sends the same numbers, whatever text without digits stands in front of them and behind.\<close>

theorem pasv_reads_port:
  assumes "ipv4_address addr" "\<forall>c \<in> set x. \<not> is_digit c" "r = [] \<or> \<not> is_digit (hd r)" "length code = 4"
  shows "port_command addr = ''PORT '' @ address_text addr @ crlf \<and>
    response_from is_digit (code @ x @ address_text addr @ r) = Some (address_text addr @ r) \<and>
    pasv_addr (scan_uints 6 (address_text addr @ r)) None = Some addr"
proof -
  obtain c cs where "address_text addr = c # cs" "is_digit c" using address_text_digit [OF assms(1)] by blast
  then have "response_from is_digit (code @ x @ address_text addr @ r) = Some (address_text addr @ r)"
    using assms(2,4) by (simp add: response_from_def dropWhile_append2)
  then show ?thesis using address_scanned [OF assms(1,3)] by (simp add: port_command_text)
qed

definition example_addr :: string where
  "example_addr = [char_of AF_INET, NUL, CHR 0x04, CHR ''x'', CHR ''a'', CHR ''b'', CHR ''c'', CHR ''d''] @ replicate 8 NUL"

lemma example_addr_ok: "ipv4_address example_addr"
  unfolding ipv4_address_def example_addr_def by blast

theorem pasv_reads_port_witness:
  "pasv_addr (scan_uints 6 (address_text example_addr @ '')'')) None = Some example_addr"
  using pasv_reads_port [OF example_addr_ok, of "''Entering Passive Mode (''" "'')''" "''227 ''"]
  by (simp add: is_digit_def code_of_def)

section \<open>A passive data connection\<close>

lemma talking_data [simp]:
  "talking (s \<lparr> data_connection := i \<rparr>) = talking s" "talking (s \<lparr> sys_calls := rs \<rparr>) = talking s"
  "talking (s \<lparr> data_peer := a \<rparr>) = talking s" "talking (s \<lparr> data_in := ch \<rparr>) = talking s"
  "talking (s \<lparr> data_out := ch \<rparr>) = talking s" "talking (s \<lparr> data_channels := cs \<rparr>) = talking s"
  "talking (s \<lparr> dataconn_rbuf := rb \<rparr>) = talking s" "talking (s \<lparr> is_fxp_transfer := b \<rparr>) = talking s"
  "talking (s \<lparr> ctl_tls := b \<rparr>) = talking s" "talking (s \<lparr> data_tls := b \<rparr>) = talking s"
  "ctl_stream (s \<lparr> data_connection := i \<rparr>) = ctl_stream s" "ctl_stream (s \<lparr> sys_calls := rs \<rparr>) = ctl_stream s"
  "ctl_stream (s \<lparr> data_peer := a \<rparr>) = ctl_stream s" "ctl_stream (s \<lparr> data_in := ch \<rparr>) = ctl_stream s"
  "ctl_stream (s \<lparr> data_out := ch \<rparr>) = ctl_stream s" "ctl_stream (s \<lparr> data_channels := cs \<rparr>) = ctl_stream s"
  "ctl_stream (s \<lparr> dataconn_rbuf := rb \<rparr>) = ctl_stream s" "ctl_stream (s \<lparr> is_fxp_transfer := b \<rparr>) = ctl_stream s"
  "ctl_stream (s \<lparr> ctl_tls := b \<rparr>) = ctl_stream s" "ctl_stream (s \<lparr> data_tls := b \<rparr>) = ctl_stream s"
  by (simp_all add: talking_def ctl_ready_def ctl_stream_def cong: option.case_cong)

lemma sys_call_Cons: "sys_calls s = r # rs \<Longrightarrow> sys_call s = Inr (r, s \<lparr> sys_calls := rs \<rparr>)"
  by (simp add: sys_call_def)

lemma open_channel_Cons:
  "data_channels s = (i, out') # cs \<Longrightarrow> open_channel s = Inr ((), s \<lparr> data_in := i, data_out := out', data_channels := cs \<rparr>)"
  by (simp add: open_channel_def)

text \<open>A reply to a command: its lines, and the whole on the wire.\<close>

type_synonym reply = "string list \<times> string"

definition reply_text :: "reply \<Rightarrow> string" where
  "reply_text r = wires (fst r @ [snd r])"

definition reply_is :: "int \<Rightarrow> reply \<Rightarrow> bool" where
  "reply_is d r \<longleftrightarrow> is_reply (fst r) (snd r) \<and> first_char (snd r) = d \<and> \<not> starts_with ''42'' (snd r)"

lemma exchange_reply:
  assumes "talking s" "reply_is d r" "ctl_stream s = reply_text r @ rest"
  shows "\<exists>s'. rfc959_send_command c cmd True dont s = Inr (d, s') \<and> said cmd (snd r) rest s s'"
  using exchange [OF assms(1), of "fst r" "snd r" rest c cmd dont] assms(2,3) by (simp add: reply_is_def reply_text_def)

text \<open>The reply to PASV names an address, in text that has no digits around it.\<close>

definition pasv_reply :: "string \<Rightarrow> reply \<Rightarrow> bool" where
  "pasv_reply addr r \<longleftrightarrow> reply_is DIGIT2 r \<and>
     (\<exists>x y. snd r = take 4 (snd r) @ x @ address_text addr @ y \<and> 4 \<le> length (snd r) \<and> (\<forall>c \<in> set x. \<not> is_digit c) \<and>
        (y = [] \<or> \<not> is_digit (hd y)))"

lemma pasv_reply_address:
  assumes "pasv_reply addr r" "ipv4_address addr"
  shows "\<exists>pos. response_from is_digit (snd r) = Some pos \<and> pos \<noteq> [] \<and> length (scan_uints 6 pos) = 6 \<and>
    pasv_addr (scan_uints 6 pos) None = Some addr"
proof -
  obtain x y where l: "snd r = take 4 (snd r) @ x @ address_text addr @ y" "4 \<le> length (snd r)"
      "\<forall>c \<in> set x. \<not> is_digit c" "y = [] \<or> \<not> is_digit (hd y)"
    using assms(1) by (auto simp: pasv_reply_def)
  have "response_from is_digit (snd r) = Some (address_text addr @ y)"
    using pasv_reads_port [OF assms(2) l(3,4), of "take 4 (snd r)"] l(1,2) by simp
  moreover have "address_text addr \<noteq> []" using address_text_digit [OF assms(2)] by auto
  ultimately show ?thesis using address_scanned [OF assms(2) l(4)] by simp
qed

lemma passive_step:
  assumes "talking s" "sys_calls s = fd # r # q # rs" "fd \<noteq> -1" "r \<noteq> -1" "q \<noteq> -1"
    and "opt_passive_transfer (ftp_opts s)" "\<not> opt_ignore_pasv_address (ftp_opts s)"
    and "pasv_reply addr p" "ipv4_address addr" "ctl_stream s = reply_text p @ rest" "data_channels s = (i, out') # cs"
  shows "\<exists>s'. rfc959_ipv4_data_connection_new c s = Inr (0, s') \<and> talking s' \<and> ctl_stream s' = rest \<and>
    written (ctl_out s') = written (ctl_out s) @ ''PASV'' @ crlf \<and> data_connection s' = fd \<and> data_peer s' = addr \<and>
    data_in s' = i \<and> data_out s' = out' \<and> data_channels s' = cs \<and> sys_calls s' = rs \<and> ftp_opts s' = ftp_opts s \<and>
    is_ascii_transfer s' = is_ascii_transfer s \<and> is_fxp_transfer s' = is_fxp_transfer s \<and> data_tls s' = data_tls s \<and>
    dataconn_rbuf s' = dataconn_rbuf s \<and> ftp_req s' = (ftp_req s) \<lparr> rq_last_ftp_response := Some (snd p) \<rparr>"
proof -
  let ?s1 = "s \<lparr> data_connection := fd, sys_calls := q # rs \<rparr>"
  have p: "talking ?s1" "reply_is DIGIT2 p" "ctl_stream ?s1 = reply_text p @ rest"
    using assms(1,8,10) by (simp_all add: pasv_reply_def)
  obtain s2 where s2: "rfc959_send_command c (''PASV'' @ crlf) True True ?s1 = Inr (DIGIT2, s2)"
      "said (''PASV'' @ crlf) (snd p) rest ?s1 s2"
    using exchange_reply [OF p] by blast
  note sel = said_sel [OF s2(2)]
  obtain pos where pos: "response_from is_digit (snd p) = Some pos" "pos \<noteq> []" "length (scan_uints 6 pos) = 6"
      "pasv_addr (scan_uints 6 pos) None = Some addr"
    using pasv_reply_address [OF assms(8,9)] by blast
  let ?s' = "s2 \<lparr> sys_calls := rs, data_peer := addr, data_in := i, data_out := out', data_channels := cs \<rparr>"
  have "rfc959_ipv4_data_connection_new c s = Inr (0, ?s')"
    using assms(2-7,11) s2(1) sel pos
    by (simp add: rfc959_ipv4_data_connection_new_def data_socket_def ipv4_passive_def connect_data_def act_simps
        sys_call_def open_channel_def last_response_def Let_def need_def)
  then show ?thesis using sel by (intro exI [of _ ?s']) simp
qed

text \<open>A download: PASV, REST when resuming, RETR. \<open>transfer_ready\<close> is what the state and the system must be like.\<close>

definition transfer_ready :: "ftp_env \<Rightarrow> string \<Rightarrow> int \<Rightarrow> channel \<Rightarrow> channel \<Rightarrow> ftp \<Rightarrow> bool" where
  "transfer_ready env filename fd i out' s \<longleftrightarrow> talking s \<and> data_connection s < 0 \<and> 0 \<le> fd \<and>
     rq_ai_family (ftp_req s) \<noteq> int AF_INET6 \<and> opt_passive_transfer (ftp_opts s) \<and>
     \<not> opt_ignore_pasv_address (ftp_opts s) \<and> is_ascii_transfer s = rfc959_is_ascii_transfer env filename s \<and>
     (\<exists>r q a b rs. sys_calls s = fd # r # q # a # b # rs \<and> r \<noteq> -1 \<and> q \<noteq> -1 \<and> 0 \<le> a \<and> 0 \<le> b) \<and>
     (\<exists>cs. data_channels s = (i, out') # cs)"

lemma sockblocking_step:
  "0 \<le> fd \<Longrightarrow> sys_calls s = a # b # rs \<Longrightarrow> 0 \<le> a \<Longrightarrow> 0 \<le> b \<Longrightarrow>
   gftp_fd_set_sockblocking fd s = Inr (0, s \<lparr> sys_calls := rs \<rparr>)"
  by (simp add: gftp_fd_set_sockblocking_def act_simps sys_call_def)

lemma restart_step:
  assumes "talking s" "0 < k \<Longrightarrow> reply_is DIGIT3 r" "ctl_stream s = (if 0 < k then reply_text r else []) @ rest"
  shows "\<exists>s' t. restart_at c k s = Inr (0, s') \<and> talking s' \<and> ctl_stream s' = rest \<and>
    written (ctl_out s') = written (ctl_out s) @ (if 0 < k then ''REST '' @ show_int k @ crlf else []) \<and>
    s' = s \<lparr> ftp_req := (ftp_req s) \<lparr> rq_last_ftp_response := t \<rparr>, ctl_out := ctl_out s',
            datafd_rbuf := datafd_rbuf s', ctl_in := ctl_in s' \<rparr>"
proof (cases "0 < k")
  case False
  then show ?thesis using assms
    by (intro exI [of _ s] exI [of _ "rq_last_ftp_response (ftp_req s)"]) (simp add: restart_at_def act_simps)
next
  case True
  let ?cmd = "''REST '' @ show_int k @ crlf"
  obtain s1 where s1: "rfc959_send_command c ?cmd True False s = Inr (DIGIT3, s1)" "said ?cmd (snd r) rest s s1"
    using exchange_reply [OF assms(1) assms(2) [OF True], of rest c ?cmd False] assms(3) True by auto
  have e: "s1 = s \<lparr> ftp_req := (ftp_req s) \<lparr> rq_last_ftp_response := Some (snd r) \<rparr>, ctl_out := ctl_out s1,
            datafd_rbuf := datafd_rbuf s1, ctl_in := ctl_in s1 \<rparr>"
  proof -
    have e: "s1 = s \<lparr> ftp_req := (ftp_req s) \<lparr> rq_last_ftp_response := Some (snd r) \<rparr>,
              ctl_out := (ctl_out s) \<lparr> written := written (ctl_out s) @ ?cmd \<rparr>,
              datafd_rbuf := datafd_rbuf s1, ctl_in := ctl_in s1 \<rparr>"
      using s1(2) by (simp add: said_def)
    show ?thesis by (subst (1) e, subst (2) e) simp
  qed
  have "restart_at c k s = Inr (0, s1)"
    using s1(1) True by (simp add: restart_at_def act_simps)
  then show ?thesis
    using said_sel [OF s1(2)] e True by (intro exI [of _ s1] exI [of _ "Some (snd r)"]) simp
qed

lemma set_type_idle:
  "is_ascii_transfer s = rfc959_is_ascii_transfer env f s \<Longrightarrow> rfc959_set_data_type env c f s = Inr (0, s)"
  by (simp add: rfc959_set_data_type_def act_simps)

lemma setup_step:
  assumes "transfer_ready env f fd i out' s" "pasv_reply addr p" "ipv4_address addr" "0 < k \<Longrightarrow> reply_is DIGIT3 r"
    and "reply_is DIGIT1 t" "ctl_stream s = reply_text p @ (if 0 < k then reply_text r else []) @ reply_text t @ rest"
  shows "\<exists>s'. rfc959_setup_file_transfer env c f k cmd s = Inr (0, s') \<and> talking s' \<and> ctl_stream s' = rest \<and>
    written (ctl_out s') = written (ctl_out s) @ ''PASV'' @ crlf @
      (if 0 < k then ''REST '' @ show_int k @ crlf else []) @ command_text env cmd (Some f) \<and>
    data_connection s' = fd \<and> data_peer s' = addr \<and> data_in s' = i \<and> data_out s' = out' \<and>
    is_ascii_transfer s' = is_ascii_transfer s \<and> is_fxp_transfer s' = is_fxp_transfer s \<and> data_tls s' = data_tls s \<and>
    ftp_req s' = (ftp_req s) \<lparr> rq_last_ftp_response := Some (snd t) \<rparr>"
proof -
  obtain r1 q a b rs cs where sys: "talking s" "data_connection s < 0" "0 \<le> fd" "sys_calls s = fd # r1 # q # a # b # rs"
      "r1 \<noteq> -1" "q \<noteq> -1" "0 \<le> a" "0 \<le> b" "rq_ai_family (ftp_req s) \<noteq> int AF_INET6"
      "opt_passive_transfer (ftp_opts s)" "\<not> opt_ignore_pasv_address (ftp_opts s)"
      "data_channels s = (i, out') # cs" "is_ascii_transfer s = rfc959_is_ascii_transfer env f s"
    using assms(1) by (auto simp: transfer_ready_def)
  have fd: "fd \<noteq> -1" using sys(3) by simp
  obtain s1 where s1: "rfc959_ipv4_data_connection_new c s = Inr (0, s1)" "talking s1"
      "ctl_stream s1 = (if 0 < k then reply_text r else []) @ reply_text t @ rest"
      "written (ctl_out s1) = written (ctl_out s) @ ''PASV'' @ crlf" "data_connection s1 = fd" "data_peer s1 = addr"
      "data_in s1 = i" "data_out s1 = out'" "sys_calls s1 = a # b # rs" "ftp_opts s1 = ftp_opts s"
      "is_ascii_transfer s1 = is_ascii_transfer s" "is_fxp_transfer s1 = is_fxp_transfer s" "data_tls s1 = data_tls s"
      "ftp_req s1 = (ftp_req s) \<lparr> rq_last_ftp_response := Some (snd p) \<rparr>"
    using passive_step [OF sys(1,4) fd sys(5,6,10,11) assms(2,3) assms(6) sys(12), of c] by blast
  let ?s2 = "s1 \<lparr> sys_calls := rs \<rparr>"
  have t2: "talking ?s2" "ctl_stream ?s2 = (if 0 < k then reply_text r else []) @ reply_text t @ rest"
    using s1(2,3) by simp_all
  obtain s3 u where s3: "restart_at c k ?s2 = Inr (0, s3)" "talking s3" "ctl_stream s3 = reply_text t @ rest"
      "written (ctl_out s3) = written (ctl_out ?s2) @ (if 0 < k then ''REST '' @ show_int k @ crlf else [])"
      "s3 = ?s2 \<lparr> ftp_req := (ftp_req ?s2) \<lparr> rq_last_ftp_response := u \<rparr>, ctl_out := ctl_out s3,
            datafd_rbuf := datafd_rbuf s3, ctl_in := ctl_in s3 \<rparr>"
    using restart_step [OF t2(1) assms(4) t2(2), of c] by blast
  have s3': "data_connection s3 = fd" "data_peer s3 = addr" "data_in s3 = i" "data_out s3 = out'"
      "ftp_opts s3 = ftp_opts s" "is_ascii_transfer s3 = is_ascii_transfer s" "is_fxp_transfer s3 = is_fxp_transfer s"
      "data_tls s3 = data_tls s" "ftp_req s3 = (ftp_req s) \<lparr> rq_last_ftp_response := u \<rparr>"
    by (subst s3(5), use s1 in simp)+
  let ?cmd = "command_text env cmd (Some f)"
  obtain s4 where s4: "rfc959_send_command c ?cmd True False s3 = Inr (DIGIT1, s4)" "said ?cmd (snd t) rest s3 s4"
    using exchange_reply [OF s3(2) assms(5) s3(3)] by blast
  note sel = said_sel [OF s4(2)]
  have open': "open_data_connection env c s = Inr (0, s1)"
    using sys(1,2,9) s1(1)
    by (simp add: open_data_connection_def rfc959_data_connection_new_def data_connection_once_def act_simps talking_def)
  have "rfc959_setup_file_transfer env c f k cmd s = Inr (0, s4)"
    using set_type_idle [OF sys(13), of c] open' sockblocking_step [OF sys(3) s1(9) sys(7,8)] s3(1) s4(1) s1(5) sel s3' sys(10)
    by (simp add: rfc959_setup_file_transfer_def rfc959_generate_and_send_command_def act_simps)
  then show ?thesis
    using sel s3(4) s3' s1(4) by (intro exI [of _ s4]) simp
qed


definition example_pasv :: reply where
  "example_pasv = ([], ''227 Entering Passive Mode ('' @ address_text example_addr @ '')'')"

lemma example_address_text: "address_text example_addr = ''97,98,99,100,4,120''"
  by (simp add: address_text_def example_addr_def show_nat.simps code_of_def)

lemma example_pasv_ok: "pasv_reply example_addr example_pasv"
  unfolding pasv_reply_def
  by (intro conjI exI [of _ "''Entering Passive Mode (''"] exI [of _ "'')''"])
    (simp_all add: reply_is_def example_pasv_def example_address_text reply_simps first_char_def char_int_def)

definition transferring_ftp :: "string \<Rightarrow> channel \<Rightarrow> ftp" where
  "transferring_ftp input i = (example_ftp input) \<lparr> sys_calls := [9, 0, 0, 2, 0], data_channels := [(i, quiet_channel)] \<rparr>"

lemma transferring_ready:
  assumes "NUL \<notin> set input"
  shows "transfer_ready plain_env ''f'' 9 i quiet_channel (transferring_ftp input i) \<and> ctl_stream (transferring_ftp input i) = input"
  using example_ftp_ready [OF assms]
  by (simp add: transfer_ready_def transferring_ftp_def)
    (simp add: example_ftp_def zero_request_def default_options_def rfc959_is_ascii_transfer_def plain_env_def)

definition example_replies :: string where
  "example_replies = reply_text example_pasv @ wire ''350 go'' @ wire (''150 Opening ('' @ show_nat 1234 @ '' bytes)'')"



section \<open>Listings\<close>

text \<open>A listing that is read without failures, from the data connection or the cached copy.\<close>

definition listing_ready :: "bool \<Rightarrow> ftp \<Rightarrow> bool" where
  "listing_ready c s \<longleftrightarrow> \<not> data_tls s \<and>
     (let ch = source_channel (read_source c s) s in open_data ch \<and> NUL \<notin> set (bytes_in (script ch)) \<and>
      (case dataconn_rbuf s of None \<Rightarrow> True | Some rb \<Rightarrow> ctl.reader_inv rb ch \<and> max_bufsize rb = 1024))"

definition listing_stream :: "bool \<Rightarrow> ftp \<Rightarrow> string" where
  "listing_stream c s = (case dataconn_rbuf s of None \<Rightarrow> [] | Some rb \<Rightarrow> unread rb) @
     bytes_in (script (source_channel (read_source c s) s))"

lemma source_put [simp]:
  "source_channel src (put_source src ch s) = ch" "dataconn_rbuf (put_source src ch s) = dataconn_rbuf s"
  "data_tls (put_source src ch s) = data_tls s" "ftp_req (put_source src ch s) = ftp_req s"
  "read_source c (put_source src ch s) = read_source c s"
  by (cases src; simp add: read_source_def)+

lemma source_rbuf [simp]:
  "source_channel src (s \<lparr> dataconn_rbuf := rb \<rparr>) = source_channel src s" "read_source c (s \<lparr> dataconn_rbuf := rb \<rparr>) = read_source c s"
  by (cases src; simp add: read_source_def)+

lemma dirlist_line:
  assumes "listing_ready c s"
  shows "case stream_line 1024 (listing_stream c s) of
      None \<Rightarrow> \<exists>s'. rfc959_get_next_dirlist_line c 1024 s = Inr ((0, None), s')
    | Some (l, n) \<Rightarrow> \<exists>s'. rfc959_get_next_dirlist_line c 1024 s = Inr ((int n, Some (take 1023 l)), s') \<and> listing_ready c s' \<and>
        listing_stream c s' = drop n (listing_stream c s) \<and> ftp_req s' = ftp_req s"
proof -
  let ?ch = "source_channel (read_source c s) s"
  have ok: "ctl.call_ok 1024 1024 (listing_stream c s) (gftp_get_line gftp_fd_read (dataconn_rbuf s) 1024 ?ch)"
    using assms by (intro ctl.get_line_refines)
      (auto simp: listing_ready_def listing_stream_def ctl.stream_def Let_def split: option.splits)
  have calm: "open_data ch" if "gftp_get_line gftp_fd_read (dataconn_rbuf s) 1024 ?ch = Inr (r, l, rb, ch)" for r l rb ch
    using get_line_preserves [of open_data, OF open_data_read _ that] assms by (auto simp: listing_ready_def Let_def)
  show ?thesis
  proof (cases "stream_line 1024 (listing_stream c s)")
    case None
    with ctl.call_ok_reliable [OF ok] obtain ch where
      r: "gftp_get_line gftp_fd_read (dataconn_rbuf s) 1024 ?ch = Inr (0, None, None, ch)" by auto
    then have "rfc959_get_next_dirlist_line c 1024 s =
        Inr ((0, None), read_done (read_source c s) ch (s \<lparr> dataconn_rbuf := None \<rparr>))"
      by (simp add: rfc959_get_next_dirlist_line_def Let_def)
    then show ?thesis using None by (simp del: stream_line_None)
  next
    case (Some ln)
    obtain l n where ln: "stream_line 1024 (listing_stream c s) = Some (l, n)" using Some by (cases ln) auto
    with ctl.call_ok_reliable [OF ok] obtain rb ch where
      r: "gftp_get_line gftp_fd_read (dataconn_rbuf s) 1024 ?ch = Inr (int n, Some (take 1023 l), Some rb, ch)"
        "max_bufsize rb = 1024" "ctl.reader_inv rb ch" "ctl.stream rb ch = drop n (listing_stream c s)" by auto
    have ch: "open_data ch" "NUL \<notin> set (bytes_in (script ch))" "ch \<lparr> disconnected := False \<rparr> = ch"
      using r(3) calm [OF r(1)] by (auto simp: ctl.reader_inv_def open_data_def)
    let ?s' = "put_source (read_source c s) ch (s \<lparr> dataconn_rbuf := Some rb \<rparr>)"
    have "rfc959_get_next_dirlist_line c 1024 s = Inr ((int n, Some (take 1023 l)), ?s')"
      using r(1) ch(1) by (simp add: rfc959_get_next_dirlist_line_def read_done_def after_io_def ch(3) open_data_def)
    moreover have "listing_ready c ?s'" "listing_stream c ?s' = drop n (listing_stream c s)"
      using assms ch r(2-4) by (simp_all add: listing_ready_def listing_stream_def ctl.stream_def Let_def)
    ultimately show ?thesis using ln by auto
  qed
qed

text \<open>What the parser makes of a line, and the lines that are entries.\<close>

definition entry_of :: "int \<Rightarrow> time_env \<Rightarrow> string \<Rightarrow> gftp_file option" where
  "entry_of st tenv l = (case gftp_parse_ls st (Some (\<lambda>_. (0, []))) tenv l of
     None \<Rightarrow> None | Some (r, f) \<Rightarrow> if r = 0 then Some f else None)"

definition listing_lines :: "string \<Rightarrow> string list" where
  "listing_lines d = map (take 1023) (stream_lines 1024 d)"

fun entry_lines :: "int \<Rightarrow> time_env \<Rightarrow> string list \<Rightarrow> (gftp_file \<times> string) list" where
  "entry_lines st tenv [] = []"
| "entry_lines st tenv (l # ls) =
    (case entry_of st tenv l of None \<Rightarrow> entry_lines st tenv ls | Some f \<Rightarrow> (f, l) # entry_lines st tenv ls)"

lemma stream_line_parts: "stream_line 1024 d = Some (l, n) \<Longrightarrow> 0 < n \<and> d \<noteq> []"
  using stream_line_pos [of 1024 d l n] by (auto simp: stream_line_def split: if_splits)

lemma listing_lines_step:
  "stream_line 1024 d = Some (l, n) \<Longrightarrow> listing_lines d = take 1023 l # listing_lines (drop n d)"
  using stream_lines.simps [of 1024 d] by (simp add: listing_lines_def)

lemma listing_lines_end: "stream_line 1024 d = None \<Longrightarrow> listing_lines d = []"
  using stream_lines.simps [of 1024 d] by (simp add: listing_lines_def del: stream_line_None)

lemma entry_loop_next:
  assumes "listing_ready c s" "rq_server_type (ftp_req s) = st" "st \<noteq> GFTP_DIRTYPE_VMS"
    and "\<forall>l \<in> set (listing_lines (listing_stream c s)). gftp_parse_ls st (Some (\<lambda>_. (0, []))) tenv l \<noteq> None"
    and "length (listing_stream c s) < fuel"
  shows "case entry_lines st tenv (listing_lines (listing_stream c s)) of
      [] \<Rightarrow> \<exists>s'. next_entry_loop fuel c tenv s = Inr ((0, zero_file, []), s')
    | (f, l) # es \<Rightarrow> \<exists>n s'. next_entry_loop fuel c tenv s = Inr ((n, f, l), s') \<and> 0 < n \<and> listing_ready c s' \<and>
        entry_lines st tenv (listing_lines (listing_stream c s')) = es \<and> ftp_req s' = ftp_req s \<and>
        set (listing_lines (listing_stream c s')) \<subseteq> set (listing_lines (listing_stream c s))"
  using assms
proof (induction fuel arbitrary: s)
  case (Suc fuel)
  let ?d = "listing_stream c s"
  show ?case
  proof (cases "stream_line 1024 ?d")
    case None
    with dirlist_line [OF Suc.prems(1)] obtain s' where "rfc959_get_next_dirlist_line c 1024 s = Inr ((0, None), s')"
      by (auto simp del: stream_line_None)
    then show ?thesis using None by (simp add: listing_lines_end act_simps del: stream_line_None)
  next
    case (Some ln)
    obtain l n where ln: "stream_line 1024 ?d = Some (l, n)" using Some by (cases ln) auto
    note pos = stream_line_parts [OF ln]
    let ?l = "take 1023 l"
    have lines: "listing_lines ?d = ?l # listing_lines (drop n ?d)" by (rule listing_lines_step [OF ln])
    obtain s1 where s1: "rfc959_get_next_dirlist_line c 1024 s = Inr ((int n, Some ?l), s1)" "listing_ready c s1"
        "listing_stream c s1 = drop n ?d" "ftp_req s1 = ftp_req s"
      using dirlist_line [OF Suc.prems(1)] ln by auto
    obtain r f where p: "gftp_parse_ls st (Some (\<lambda>_. (0, []))) tenv ?l = Some (r, f)"
      using Suc.prems(4) lines by fastforce
    have parse: "parse_line c tenv ?l s1 = Inr ((r, f), s1)"
      using s1(4) Suc.prems(2,3) p by (simp add: parse_line_def asks_next_line_def act_simps)
    show ?thesis
    proof (cases "r = 0")
      case True
      then have "next_entry_loop (Suc fuel) c tenv s = Inr ((int n, f, ?l), s1)"
        using s1(1) parse pos by (simp add: act_simps)
      moreover have "entry_lines st tenv (listing_lines ?d) = (f, ?l) # entry_lines st tenv (listing_lines (drop n ?d))"
        using True p by (simp add: lines entry_of_def)
      ultimately show ?thesis using s1 lines pos by auto
    next
      case False
      have "next_entry_loop (Suc fuel) c tenv s = next_entry_loop fuel c tenv s1"
        using s1(1) parse pos False by (simp add: act_simps)
      moreover have "entry_lines st tenv (listing_lines ?d) = entry_lines st tenv (listing_lines (listing_stream c s1))"
        using False p s1(3) by (simp add: lines entry_of_def)
      moreover have len: "length (listing_stream c s1) < fuel"
        using s1(3) pos Suc.prems(5) by (cases ?d) auto
      moreover have sub: "set (listing_lines (listing_stream c s1)) \<subseteq> set (listing_lines ?d)" using lines s1(3) by auto
      moreover have "\<forall>l \<in> set (listing_lines (listing_stream c s1)). gftp_parse_ls st (Some (\<lambda>_. (0, []))) tenv l \<noteq> None"
        using sub Suc.prems(4) by blast
      note ih = Suc.IH [OF s1(2) _ Suc.prems(3) this len]
      have st: "rq_server_type (ftp_req s1) = st" using s1(4) Suc.prems(2) by simp
      ultimately show ?thesis
        using ih [OF st] s1(4) sub
        by (cases "entry_lines st tenv (listing_lines (listing_stream c s1))")
          (auto dest: subset_trans [OF _ sub])
    qed
  qed
qed simp

text \<open>A caller that reads a listing to its end, and keeps what \<open>last_dir_entry\<close> offers for the cache.\<close>

fun read_listing :: "nat \<Rightarrow> time_env \<Rightarrow> int \<Rightarrow> (gftp_file \<times> string option) list act" where
  "read_listing 0 tenv fd = stop Out_of_fuel"
| "read_listing (Suc fuel) tenv fd =
     and_then (rfc959_get_next_file tenv fd) (\<lambda>(len, fle).
       if len \<le> 0 then give []
       else and_then get_state (\<lambda>s.
            and_then (read_listing fuel tenv fd) (\<lambda>es. give ((fle, rq_last_dir_entry (ftp_req s)) # es))))"

definition kept_line :: "bool \<Rightarrow> string \<Rightarrow> string option" where
  "kept_line cached l = (if cached then None else Some (l @ [LF]))"

lemma read_listing_entries:
  assumes "listing_ready (fd \<noteq> rq_datafd (ftp_req s)) s" "0 < fd" "rq_server_type (ftp_req s) = st" "st \<noteq> GFTP_DIRTYPE_VMS"
    and "\<forall>l \<in> set (listing_lines (listing_stream (fd \<noteq> rq_datafd (ftp_req s)) s)).
      gftp_parse_ls st (Some (\<lambda>_. (0, []))) tenv l \<noteq> None"
    and "length (entry_lines st tenv (listing_lines (listing_stream (fd \<noteq> rq_datafd (ftp_req s)) s))) < fuel"
  shows "\<exists>s'. read_listing fuel tenv fd s =
    Inr (map (\<lambda>(f, l). (f, kept_line (rq_cached (ftp_req s)) l))
           (entry_lines st tenv (listing_lines (listing_stream (fd \<noteq> rq_datafd (ftp_req s)) s))), s')"
  using assms
proof (induction fuel arbitrary: s)
  case (Suc fuel)
  let ?c = "fd \<noteq> rq_datafd (ftp_req s)"
  let ?s0 = "with_req (\<lambda>rq. rq \<lparr> rq_last_dir_entry := None \<rparr>) s"
  have src: "read_source c (with_req g t) = read_source c t" "source_channel src (with_req g t) = source_channel src t"
      "data_tls (with_req g t) = data_tls t" "dataconn_rbuf (with_req g t) = dataconn_rbuf t" for c g t src
    by (simp_all add: with_req_def read_source_def) (cases src; simp add: with_req_def)
  have req: "listing_ready c (with_req g t) = listing_ready c t" "listing_stream c (with_req g t) = listing_stream c t" for c g t
    by (simp_all add: listing_ready_def listing_stream_def src)
  have fuel: "listing_fuel ?c ?s0 = length (listing_stream ?c s) + 2"
    by (simp add: listing_fuel_def listing_stream_def src split: option.split)
  have ready: "listing_ready ?c ?s0" "rq_server_type (ftp_req ?s0) = st"
      "\<forall>l \<in> set (listing_lines (listing_stream ?c ?s0)). gftp_parse_ls st (Some (\<lambda>_. (0, []))) tenv l \<noteq> None"
      "length (listing_stream ?c ?s0) < listing_fuel ?c ?s0"
    using Suc.prems fuel by (simp_all add: req)
  note next' = entry_loop_next [OF ready(1,2) Suc.prems(4) ready(3,4)]
  show ?case
  proof (cases "entry_lines st tenv (listing_lines (listing_stream ?c s))")
    case Nil
    then obtain s' where "next_entry_loop (listing_fuel ?c ?s0) ?c tenv ?s0 = Inr ((0, zero_file, []), s')"
      using next' by (auto simp: req)
    then show ?thesis using Suc.prems(2) Nil by (simp add: rfc959_get_next_file_def act_simps)
  next
    case (Cons e es)
    obtain f l where e: "e = (f, l)" by (cases e)
    obtain n s1 where s1: "next_entry_loop (listing_fuel ?c ?s0) ?c tenv ?s0 = Inr ((n, f, l), s1)" "0 < n"
        "listing_ready ?c s1" "entry_lines st tenv (listing_lines (listing_stream ?c s1)) = es" "ftp_req s1 = ftp_req ?s0"
        "set (listing_lines (listing_stream ?c s1)) \<subseteq> set (listing_lines (listing_stream ?c s))"
      using next' Cons e by (auto simp: req)
    define s2 where "s2 = with_req (\<lambda>rq. if rq_cached rq then rq
                     else rq \<lparr> rq_last_dir_entry := Some (l @ [LF]), rq_last_dir_entry_len := length l + 1 \<rparr>) s1"
    have s2: "rfc959_get_next_file tenv fd s = Inr ((n, f), s2)"
      using Suc.prems(2) s1(1,2) by (simp add: rfc959_get_next_file_def act_simps s2_def)
    have r2: "rq_datafd (ftp_req s2) = rq_datafd (ftp_req s)" "rq_server_type (ftp_req s2) = st"
        "rq_cached (ftp_req s2) = rq_cached (ftp_req s)"
        "rq_last_dir_entry (ftp_req s2) = kept_line (rq_cached (ftp_req s)) l"
      using s1(5) Suc.prems(3) by (simp_all add: s2_def kept_line_def)
    have l2: "listing_ready ?c s2" "listing_stream ?c s2 = listing_stream ?c s1" using s1(3) by (simp_all add: s2_def req)
    have "\<exists>s'. read_listing fuel tenv fd s2 = Inr (map (\<lambda>(f, l). (f, kept_line (rq_cached (ftp_req s)) l)) es, s')"
      using Suc.IH [of s2] Suc.prems(2,4,5,6) r2 l2 s1(4,6) Cons by (auto simp: subset_iff)
    then obtain s3 where "read_listing fuel tenv fd s2 = Inr (map (\<lambda>(f, l). (f, kept_line (rq_cached (ftp_req s)) l)) es, s3)"
      by blast
    then show ?thesis using s2 s1(2) r2(4) Cons e by (simp add: act_simps)
  qed
qed simp

lemma stream_line_plain: "stream_line m d = Some (l, n) \<Longrightarrow> LF \<notin> set l"
  by (auto simp: stream_line_def Let_def chop_cr_def split: if_splits dest: in_set_takeD in_set_butlastD set_takeWhileD)

lemma listing_lines_plain: "l \<in> set (listing_lines d) \<Longrightarrow> LF \<notin> set l \<and> length l \<le> 1023"
proof (induction "length d" arbitrary: d rule: less_induct)
  case less
  show ?case
  proof (cases "stream_line 1024 d")
    case None
    then show ?thesis using less.prems by (simp add: listing_lines_end del: stream_line_None)
  next
    case (Some ln)
    obtain k n where ln: "stream_line 1024 d = Some (k, n)" using Some by (cases ln) auto
    note pos = stream_line_parts [OF ln]
    have "length (drop n d) < length d" using pos by (cases d) auto
    then show ?thesis
      using less.hyps [of "drop n d"] less.prems stream_line_plain [OF ln]
      by (auto simp: listing_lines_step [OF ln] dest: in_set_takeD)
  qed
qed

lemma listing_lines_kept:
  assumes "\<forall>l \<in> set ls. LF \<notin> set l \<and> length l \<le> 1023 \<and> (l = [] \<or> last l \<noteq> CR)"
  shows "listing_lines (concat (map (\<lambda>l. l @ [LF]) ls)) = ls"
  using assms
proof (induction ls)
  case Nil
  show ?case by (rule listing_lines_end) simp
next
  case (Cons l ls)
  let ?d = "concat (map (\<lambda>l. l @ [LF]) (l # ls))"
  have l: "LF \<notin> set l" "length l \<le> 1023" "l = [] \<or> last l \<noteq> CR" using Cons.prems by simp_all
  have "LF \<in> set (take 1024 ?d)" using l(2) by (simp add: take_Cons')
  moreover have "takeWhile ((\<noteq>) LF) ?d = l" using l(1) by (simp add: takeWhile_append)
  moreover have "chop_cr l = l" using l(3) by (auto simp: chop_cr_def)
  ultimately have "stream_line 1024 ?d = Some (l, length l + 1)" by (auto simp: stream_line_def)
  from listing_lines_step [OF this] show ?case using Cons l(2) by simp
qed

lemma entry_lines_of: "entry_lines st tenv ls = [(the (entry_of st tenv l), l). l \<leftarrow> ls, entry_of st tenv l \<noteq> None]"
  by (induction ls) (auto split: option.split)

lemma entry_lines_again:
  "entry_lines st tenv (map snd (entry_lines st tenv ls)) = entry_lines st tenv ls"
  by (induction ls) (auto split: option.split)

text \<open>C17: A listing read to its end gives one entry for every line of the stream that the parser accepts, in order,
  however the bytes arrive. The lines offered for the cache, read back through the cached copy
  (again in any pieces), give the same entries, unless a line ended in two carriage returns.\<close>

theorem cached_listing_same:
  assumes "listing_ready False s" "0 < rq_datafd (ftp_req s)" "rq_server_type (ftp_req s) = st" "st \<noteq> GFTP_DIRTYPE_VMS"
    and "\<not> rq_cached (ftp_req s)" "lines = listing_lines (listing_stream False s)"
    and "\<forall>l \<in> set lines. gftp_parse_ls st (Some (\<lambda>_. (0, []))) tenv l \<noteq> None \<and> (l = [] \<or> last l \<noteq> CR)"
    and "length lines < fuel"
    and "listing_ready True t" "rq_server_type (ftp_req t) = st" "rq_cached (ftp_req t)" "0 < fd" "fd \<noteq> rq_datafd (ftp_req t)"
    and "listing_stream True t = concat (map (\<lambda>e. snd e @ [LF]) (entry_lines st tenv lines))"
  shows "(\<exists>s'. read_listing fuel tenv (rq_datafd (ftp_req s)) s =
      Inr (map (\<lambda>(f, l). (f, Some (l @ [LF]))) (entry_lines st tenv lines), s')) \<and>
    (\<exists>t'. read_listing fuel tenv fd t = Inr (map (\<lambda>(f, l). (f, None)) (entry_lines st tenv lines), t'))"
proof -
  let ?es = "entry_lines st tenv lines"
  have len: "length (entry_lines st tenv ls) \<le> length ls" for ls
    by (induction ls) (auto split: option.split)
  have sub: "set (map snd ?es) \<subseteq> set lines"
    by (auto simp: entry_lines_of)
  have kept: "listing_lines (listing_stream True t) = map snd ?es"
  proof -
    have "listing_lines (concat (map (\<lambda>l. l @ [LF]) (map snd ?es))) = map snd ?es"
      by (rule listing_lines_kept) (use sub assms(6,7) listing_lines_plain in blast)
    then show ?thesis by (simp add: assms(14) comp_def)
  qed
  have "\<exists>s'. read_listing fuel tenv (rq_datafd (ftp_req s)) s =
      Inr (map (\<lambda>(f, l). (f, kept_line (rq_cached (ftp_req s)) l)) ?es, s')"
    using read_listing_entries [of "rq_datafd (ftp_req s)" s st tenv fuel] assms(1-4,6-8) len [of lines] by auto
  moreover have "\<exists>t'. read_listing fuel tenv fd t =
      Inr (map (\<lambda>(f, l). (f, kept_line (rq_cached (ftp_req t)) l)) (entry_lines st tenv (map snd ?es)), t')"
    using read_listing_entries [of fd t st tenv fuel] assms(4,7-13) kept sub len [of lines] len [of "map snd ?es"]
    by (auto simp: entry_lines_again subset_iff)
  ultimately show ?thesis using assms(5,11) by (simp add: kept_line_def entry_lines_again)
qed

definition example_listing :: string where
  "example_listing = ''+/,'' @ [TAB] @ ''sub'' @ crlf @ ''no entry'' @ crlf @ ''+s5,'' @ [TAB] @ ''file'' @ crlf"

definition example_tenv :: time_env where
  "example_tenv = \<lparr> mktime = tm_hour, loctime = zero_tm \<rparr>"

definition listing_ftp :: ftp where
  "listing_ftp = (example_ftp []) \<lparr> ftp_req := zero_request \<lparr> rq_datafd := 5, rq_server_type := GFTP_DIRTYPE_EPLF \<rparr>,
     data_in := quiet_channel \<lparr> script := [Bytes_in (take 9 example_listing), Bytes_in (drop 9 example_listing)] \<rparr> \<rparr>"

definition cached_ftp :: ftp where
  "cached_ftp = (example_ftp []) \<lparr> ftp_req := zero_request \<lparr> rq_datafd := -1, rq_server_type := GFTP_DIRTYPE_EPLF, rq_cached := True \<rparr>,
     cache_in := quiet_channel \<lparr> script := [Bytes_in (''+/,'' @ [TAB] @ ''sub'' @ [LF] @ ''+s5,'' @ [TAB] @ ''file'' @ [LF])] \<rparr> \<rparr>"

lemma example_listing_lines:
  "listing_lines example_listing = [''+/,'' @ [TAB] @ ''sub'', ''no entry'', ''+s5,'' @ [TAB] @ ''file'']"
  by code_simp

lemma example_parsed:
  "gftp_parse_ls GFTP_DIRTYPE_EPLF next_line example_tenv (''+/,'' @ [TAB] @ ''sub'') =
     Some (0, zero_file \<lparr> gf_st_mode := directory_mode, gf_file := Some ''sub'', gf_user := Some ''unknown'', gf_group := Some ''unknown'' \<rparr>)"
  "gftp_parse_ls GFTP_DIRTYPE_EPLF next_line example_tenv ''no entry'' = Some (GFTP_EFATAL, zero_file)"
  "gftp_parse_ls GFTP_DIRTYPE_EPLF next_line example_tenv (''+s5,'' @ [TAB] @ ''file'') =
     Some (0, zero_file \<lparr> gf_st_mode := plain_file_mode, gf_file := Some ''file'', gf_size := 5, gf_user := Some ''unknown'',
       gf_group := Some ''unknown'' \<rparr>)"
  by code_simp+

theorem cached_listing_same_witness:
  "\<exists>es s' t'. read_listing 4 example_tenv 5 listing_ftp = Inr (es, s') \<and>
     map (gf_file \<circ> fst) es = [Some ''sub'', Some ''file''] \<and>
     read_listing 4 example_tenv 9 cached_ftp = Inr (map (\<lambda>(f, l). (f, None)) es, t')"
proof -
  let ?lines = "listing_lines example_listing"
  have e: "entry_lines GFTP_DIRTYPE_EPLF example_tenv ?lines =
     [(zero_file \<lparr> gf_st_mode := directory_mode, gf_file := Some ''sub'', gf_user := Some ''unknown'', gf_group := Some ''unknown'' \<rparr>,
        ''+/,'' @ [TAB] @ ''sub''),
      (zero_file \<lparr> gf_st_mode := plain_file_mode, gf_file := Some ''file'', gf_size := 5, gf_user := Some ''unknown'',
         gf_group := Some ''unknown'' \<rparr>, ''+s5,'' @ [TAB] @ ''file'')]"
    using example_parsed [of "Some (\<lambda>_. (0, []))"]
    by (simp add: example_listing_lines entry_of_def)
  have d: "listing_stream False listing_ftp = example_listing"
    by (simp add: listing_stream_def listing_ftp_def example_ftp_def read_source_def quiet_channel_def)
  have c: "listing_stream True cached_ftp = ''+/,'' @ [TAB] @ ''sub'' @ [LF] @ ''+s5,'' @ [TAB] @ ''file'' @ [LF]"
    by (simp add: listing_stream_def cached_ftp_def example_ftp_def read_source_def quiet_channel_def)
  have r: "listing_ready False listing_ftp" "listing_ready True cached_ftp"
    by (simp_all add: listing_ready_def listing_ftp_def cached_ftp_def example_ftp_def read_source_def quiet_channel_def
        open_data_def all_data_def example_listing_def crlf_def Let_def)
  have "\<forall>l \<in> set ?lines. gftp_parse_ls GFTP_DIRTYPE_EPLF (Some (\<lambda>_. (0, []))) example_tenv l \<noteq> None \<and> (l = [] \<or> last l \<noteq> CR)"
    using example_parsed [of "Some (\<lambda>_. (0, []))"] by (simp add: example_listing_lines)
  note lines = this
  have q: "rq_datafd (ftp_req listing_ftp) = 5" "rq_server_type (ftp_req listing_ftp) = GFTP_DIRTYPE_EPLF"
      "\<not> rq_cached (ftp_req listing_ftp)" "rq_server_type (ftp_req cached_ftp) = GFTP_DIRTYPE_EPLF"
      "rq_cached (ftp_req cached_ftp)" "9 \<noteq> rq_datafd (ftp_req cached_ftp)" "0 < rq_datafd (ftp_req listing_ftp)"
      "length ?lines < 4"
    by (simp_all add: listing_ftp_def cached_ftp_def zero_request_def example_listing_lines)
  have "listing_stream True cached_ftp = concat (map (\<lambda>e. snd e @ [LF]) (entry_lines GFTP_DIRTYPE_EPLF example_tenv ?lines))"
    unfolding c e by simp
  from cached_listing_same [OF r(1) q(7,2) _ q(3) d [THEN arg_cong, symmetric] lines q(8) r(2) q(4,5) _ q(6) this]
  show ?thesis unfolding q(1) e by fastforce
qed

end
