(* ===== verification/Ftp_Hazards.thy ===== *)
theory Ftp_Hazards
  imports Ftp_Sessions
begin

text \<open>
  ASCII transfers, and what reconnecting, transfers between two servers and FTP over TLS do with replies
  they do not expect.
\<close>


section \<open>ASCII transfers\<close>

text \<open>A caller that downloads until a chunk is empty, and one that uploads chunk by chunk.\<close>

fun download :: "nat \<Rightarrow> nat \<Rightarrow> (int + string) act" where
  "download 0 n = stop Out_of_fuel"
| "download (Suc fuel) n =
     and_then (rfc959_get_next_file_chunk n) (\<lambda>r.
       case r of
         Inl e \<Rightarrow> give (Inl e)
       | Inr d \<Rightarrow> if d = [] then give (Inr [])
                  else and_then (download fuel n) (\<lambda>r. give (map_sum id ((@) d) r)))"

fun upload :: "string list \<Rightarrow> int act" where
  "upload [] = give 0"
| "upload (b # bs) =
     and_then (rfc959_put_next_file_chunk b) (\<lambda>ret. if ret < 0 then give ret else upload bs)"

definition receiving :: "string list \<Rightarrow> ftp \<Rightarrow> bool" where
  "receiving pieces s \<longleftrightarrow> is_ascii_transfer s \<and> \<not> is_fxp_transfer s \<and> \<not> data_tls s \<and>
     script (data_in s) = map Bytes_in pieces \<and> \<not> disconnected (data_in s)"

lemma chunk_received:
  assumes "receiving (p # ps) s" "p \<noteq> []" "length p \<le> n"
  shows "\<exists>s'. rfc959_get_next_file_chunk n s = Inr (Inr (strip_cr p), s') \<and> receiving ps s'"
proof -
  let ?s' = "s \<lparr> data_in := (data_in s) \<lparr> script := map Bytes_in ps \<rparr> \<rparr>"
  have "gftp_fd_read n (data_in s) = (Inr p, (data_in s) \<lparr> script := map Bytes_in ps \<rparr>)"
    using assms by (simp add: receiving_def gftp_fd_read_def)
  moreover have "(data_in s) \<lparr> script := map Bytes_in ps, disconnected := False \<rparr> = (data_in s) \<lparr> script := map Bytes_in ps \<rparr>"
    using assms(1) by (cases "data_in s") (simp add: receiving_def)
  ultimately have "rfc959_get_next_file_chunk n s = Inr (Inr (strip_cr p), ?s')"
    using assms(1) by (simp add: rfc959_get_next_file_chunk_def act_simps data_read_def read_source_def read_done_def
        after_io_def receiving_def)
  then show ?thesis using assms(1) by (intro exI [of _ ?s']) (simp add: receiving_def)
qed

lemma chunk_end:
  assumes "receiving [] s"
  shows "\<exists>s'. rfc959_get_next_file_chunk n s = Inr (Inr [], s')"
  using assms
  by (simp add: rfc959_get_next_file_chunk_def act_simps data_read_def read_source_def read_done_def
        after_io_def receiving_def gftp_fd_read_def strip_cr_def)

text \<open>In ASCII mode a download gives the bytes of the data connection without their carriage returns, up to
  the first piece that consists of carriage returns only: that piece is handed out as an empty chunk, which the callers
  take for the end of the file.\<close>

theorem lone_cr_ends_download:
  assumes "receiving pieces s" "\<forall>p \<in> set pieces. p \<noteq> [] \<and> length p \<le> n" "length pieces < fuel"
  shows "\<exists>s'. download fuel n s = Inr (Inr (strip_cr (concat (takeWhile (\<lambda>p. strip_cr p \<noteq> []) pieces))), s')"
  using assms
proof (induction pieces arbitrary: s fuel)
  case Nil
  then obtain f where f: "fuel = Suc f" by (cases fuel) auto
  show ?case using chunk_end [OF Nil.prems(1), of n] by (auto simp: f act_simps strip_cr_def)
next
  case (Cons p ps)
  then obtain f where f: "fuel = Suc f" by (cases fuel) auto
  obtain s1 where s1: "rfc959_get_next_file_chunk n s = Inr (Inr (strip_cr p), s1)" "receiving ps s1"
    using chunk_received [OF Cons.prems(1)] Cons.prems(2) by auto
  show ?case
  proof (cases "strip_cr p = []")
    case True
    then show ?thesis using s1(1) by (simp add: f act_simps strip_cr_def)
  next
    case False
    obtain s2 where "download f n s1 = Inr (Inr (strip_cr (concat (takeWhile (\<lambda>p. strip_cr p \<noteq> []) ps))), s2)"
      using Cons.IH [OF s1(2), of f] Cons.prems(2,3) f by auto
    then show ?thesis using s1(1) False by (simp add: f act_simps strip_cr_def)
  qed
qed

definition receiving_ftp :: "string list \<Rightarrow> ftp" where
  "receiving_ftp pieces = (example_ftp []) \<lparr> is_ascii_transfer := True,
     data_in := quiet_channel \<lparr> script := map Bytes_in pieces \<rparr> \<rparr>"

lemma receiving_ftp_ok: "receiving pieces (receiving_ftp pieces)"
  by (simp add: receiving_def receiving_ftp_def example_ftp_def quiet_channel_def)

theorem lone_cr_ends_download_witness:
  "\<exists>s'. download 5 100 (receiving_ftp [''one'', [CR], [LF] @ ''two'' @ crlf]) = Inr (Inr ''one'', s')"
  using lone_cr_ends_download [OF receiving_ftp_ok, of "[''one'', [CR], [LF] @ ''two'' @ crlf]" 100 5]
  by (simp add: strip_cr_def crlf_def)

text \<open>Uploading.\<close>

definition sending :: "ftp \<Rightarrow> bool" where
  "sending s \<longleftrightarrow> is_ascii_transfer s \<and> \<not> is_fxp_transfer s \<and> \<not> data_tls s \<and> quiet (data_out s)"

lemma add_cr_length: "buf \<noteq> [] \<Longrightarrow> add_cr buf \<noteq> []"
  by (cases buf) (simp_all add: add_cr_def)

lemma chunk_sent:
  assumes "sending s"
  shows "\<exists>s'. rfc959_put_next_file_chunk buf s = Inr (int (length (add_cr buf)), s') \<and> sending s' \<and>
    written (data_out s') = written (data_out s) @ add_cr buf"
proof (cases "add_cr buf")
  case Nil
  then show ?thesis using assms
    by (intro exI [of _ s]) (simp add: rfc959_put_next_file_chunk_def act_simps sending_def Let_def)
next
  case (Cons c cs)
  let ?s' = "s \<lparr> data_out := (data_out s) \<lparr> written := written (data_out s) @ add_cr buf \<rparr> \<rparr>"
  have q: "script (data_out s) = []" "\<not> disconnected (data_out s)" using assms by (simp_all add: sending_def quiet_def)
  have "gftp_fd_write (c # cs) (data_out s) = (int (length (c # cs)), (data_out s) \<lparr> script := [], written := written (data_out s) @ c # cs \<rparr>)"
    using q(1) by (simp add: gftp_fd_write_def)
  moreover have "(data_out s) \<lparr> script := [], written := w, disconnected := False \<rparr> = (data_out s) \<lparr> written := w \<rparr>" for w
    using q by (cases "data_out s") simp
  moreover have "(data_out s) \<lparr> script := [], disconnected := False, written := w \<rparr> = (data_out s) \<lparr> written := w \<rparr>" for w
    using q by (cases "data_out s") simp
  ultimately have "rfc959_put_next_file_chunk buf s = Inr (int (length (add_cr buf)), ?s')"
    using assms q Cons
    by (simp add: rfc959_put_next_file_chunk_def act_simps sending_def Let_def data_write_def after_io_def)
  then show ?thesis using assms by (intro exI [of _ ?s']) (simp add: sending_def quiet_def)
qed

lemma upload_sent:
  "sending s \<Longrightarrow> \<exists>ret s'. upload bufs s = Inr (ret, s') \<and> 0 \<le> ret \<and>
     written (data_out s') = written (data_out s) @ concat (map add_cr bufs)"
proof (induction bufs arbitrary: s)
  case Nil
  then show ?case by (simp add: give_def)
next
  case (Cons b bs)
  obtain s1 where s1: "rfc959_put_next_file_chunk b s = Inr (int (length (add_cr b)), s1)" "sending s1"
      "written (data_out s1) = written (data_out s) @ add_cr b"
    using chunk_sent [OF Cons.prems] by blast
  obtain ret s2 where "upload bs s1 = Inr (ret, s2)" "0 \<le> ret"
      "written (data_out s2) = written (data_out s1) @ concat (map add_cr bs)"
    using Cons.IH [OF s1(2)] by blast
  then show ?case using s1 by (simp add: act_simps)
qed

lemma add_cr_after_append:
  "add_cr_after c (xs @ ys) = add_cr_after c xs @ add_cr_after (if xs = [] then c else last xs) ys"
  by (induction xs arbitrary: c) auto

lemma add_cr_append:
  assumes "xs \<noteq> []" "ys = [] \<or> hd ys \<noteq> LF \<or> last xs = CR"
  shows "add_cr (xs @ ys) = add_cr xs @ add_cr ys"
proof -
  obtain c cs where xs: "xs = c # cs" using assms(1) by (cases xs) auto
  have "add_cr_after (last xs) ys = add_cr ys"
    using assms(2) by (cases ys) (auto simp: add_cr_def)
  then show ?thesis by (auto simp: xs add_cr_def add_cr_after_append)
qed

text \<open>No chunk begins with a newline, unless the one before ends in a carriage return.\<close>

fun cut_between_lines :: "string list \<Rightarrow> bool" where
  "cut_between_lines [] = True"
| "cut_between_lines (b # bs) \<longleftrightarrow> b \<noteq> [] \<and>
     (case concat bs of [] \<Rightarrow> True | c # _ \<Rightarrow> c \<noteq> LF \<or> last b = CR) \<and> cut_between_lines bs"

lemma add_cr_concat: "cut_between_lines bufs \<Longrightarrow> concat (map add_cr bufs) = add_cr (concat bufs)"
proof (induction bufs)
  case (Cons b bs)
  then have "add_cr (b @ concat bs) = add_cr b @ add_cr (concat bs)"
    by (intro add_cr_append) (auto split: list.splits)
  with Cons show ?case by simp
qed (simp add: add_cr_def)


lemma strip_cr_after: "CR \<notin> set t \<Longrightarrow> strip_cr (add_cr_after c t) = t"
  by (induction t arbitrary: c) (auto simp: strip_cr_def)

lemma strip_add_cr: "CR \<notin> set t \<Longrightarrow> strip_cr (add_cr t) = t"
  using strip_cr_after [of "tl t" "hd t"] by (cases t) (auto simp: add_cr_def strip_cr_def)

lemma strip_cr_append: "strip_cr (concat ts) = concat (map strip_cr ts)"
  by (induction ts) (simp_all add: strip_cr_def)


definition sending_ftp :: ftp where
  "sending_ftp = (example_ftp []) \<lparr> is_ascii_transfer := True \<rparr>"

lemma sending_ftp_ok: "sending sending_ftp \<and> written (data_out sending_ftp) = []"
  by (simp add: sending_def sending_ftp_def example_ftp_def quiet_channel_def quiet_def)



section \<open>Reconnecting\<close>

lemma exchange_once:
  assumes "talking s" "reply_is d r" "ctl_stream s = reply_text r @ rest"
  shows "\<exists>s'. send_once cmd True s = Inr (d, s') \<and> said cmd (snd r) rest s s'"
  using exchange_reply [OF assms, of "give 0" cmd True] by (simp add: rfc959_send_command_def)

text \<open>What logging in again needs, of a connected state.\<close>

definition can_login_again :: "ftp_env \<Rightarrow> dial \<Rightarrow> ftp \<Rightarrow> bool" where
  "can_login_again env d s \<longleftrightarrow> fe_connect env = id \<and> opt_proxy_config (ftp_opts s) \<noteq> ''http'' \<and>
     fresh_login env d (s \<lparr> ftp_req := (ftp_req s) \<lparr> rq_datafd := -1 \<rparr>, datafd_rbuf := None \<rparr>)"

lemma disconnect_directory [simp]: "rq_directory (ftp_req (ftp_disconnect s)) = rq_directory (ftp_req s)"
  by (simp add: ftp_disconnect_def rfc959_disconnect_def rfc959_close_data_connection_def with_req_def Let_def)

text \<open>When the server answers the TYPE command of a transfer with 421, the client logs in again, which sets the
  type of the new connection and its own note of it to the default, and sends the TYPE command once more. The note stays
  at the default: client and server disagree on the type, and the next transfer converts line ends on one side only.\<close>

theorem type_lost_on_reconnect:
  assumes "talking s" "rfc959_is_ascii_transfer env f s" "\<not> is_ascii_transfer s" "\<not> opt_ascii_transfers (ftp_opts s)"
    and "ctl_stream s = wire t" "is_reply [] t" "starts_with ''421'' t"
    and "can_login_again env d s" "welcoming sc"
    and "bytes_in (script (dial_in d)) = server_text sc (login_replies s) @ reply_text r" "reply_is DIGIT2 r"
  shows "\<exists>s'. rfc959_set_data_type env (ftp_connect env (Suc n)) f s = Inr (0, s') \<and> talking s' \<and>
    written (ctl_out s') = written (dial_out d) @ login_commands env s @ ''TYPE A'' @ crlf \<and> \<not> is_ascii_transfer s'"
proof -
  let ?s = "s \<lparr> is_ascii_transfer := True \<rparr>"
  let ?cmd = "''TYPE A'' @ crlf"
  have s: "talking ?s" "ctl_stream ?s = wire t" using assms(1,5) by simp_all
  obtain s1 where s1: "send_once ?cmd True ?s = Inr (GFTP_ETIMEDOUT, ftp_disconnect s1)" "ctl_ready s1" "ctl_stream s1 = []"
      "dials s1 = dials ?s" "ftp_opts s1 = ftp_opts ?s" "ftp_req s1 = (ftp_req ?s) \<lparr> rq_last_ftp_response := Some t \<rparr>"
    using first_command_refused [OF s assms(6,7), of ?cmd] by blast
  let ?d = "ftp_disconnect s1"
  have rb: "case datafd_rbuf ?d of None \<Rightarrow> True
      | Some rb \<Rightarrow> buffer_inv rb \<and> unread rb = [] \<and> max_bufsize rb = 255 \<and> \<not> eof rb"
    using s1(2,3) by (auto simp: ctl_ready_def ctl_stream_def ctl.reader_inv_def split: option.splits)
  have fresh: "fresh_login env d ?d"
    using assms(8) s1(4-6) rb unfolding can_login_again_def fresh_login_def by simp
  have same: "login_replies ?d = login_replies s" "login_commands env ?d = login_commands env s"
    using s1(5,6) by (simp_all add: login_replies_def login_commands_def)
  obtain s2 where s2: "rfc959_connect env (Suc n) ?d = Inr (0, s2)" "talking s2" "ctl_stream s2 = reply_text r"
      "written (ctl_out s2) = written (dial_out d) @ login_commands env ?d"
      "is_ascii_transfer s2 = opt_ascii_transfers (ftp_opts ?d)"
    using connect_login [OF fresh assms(9), of "reply_text r" n] assms(10) same by auto
  have "ftp_connect env (Suc n) ?d = Inr (0, s2)"
    using assms(8) s1(5) s2(1)
    by (simp add: ftp_connect_def ftp_reconnect_def rfc959_set_config_options_def can_login_again_def act_simps)
  moreover obtain s3 where s3: "send_once ?cmd True s2 = Inr (DIGIT2, s3)" "said ?cmd (snd r) [] s2 s3"
    using exchange_once [OF s2(2) assms(11), of "[]" ?cmd] s2(3) by auto
  ultimately have "rfc959_set_data_type env (ftp_connect env (Suc n)) f s = Inr (0, s3)"
    using assms(1-3) s1(1)
    by (simp add: rfc959_set_data_type_def rfc959_send_command_def act_simps Let_def talking_def)
  then show ?thesis using said_sel [OF s3(2)] s2(4,5) same(2) s1(5) assms(4) by (intro exI [of _ s3]) simp
qed

definition busy_ftp :: ftp where
  "busy_ftp = (example_ftp (wire ''421 timeout'')) \<lparr> ftp_req := (ftp_req starting_ftp) \<lparr> rq_datafd := 5 \<rparr>,
     dials := [example_dial (example_greeting @ wire ''200 ascii'')] \<rparr>"

definition text_env :: ftp_env where
  "text_env = plain_env \<lparr> fe_ext := [(''.txt'', ''A'')] \<rparr>"

theorem type_lost_on_reconnect_witness:
  "\<exists>s'. rfc959_set_data_type text_env (ftp_connect text_env 1) ''a.txt'' busy_ftp = Inr (0, s') \<and> \<not> is_ascii_transfer s' \<and>
    (\<exists>cmds. written (ctl_out s') = cmds @ ''TYPE A'' @ crlf)"
proof -
  let ?t = "example_greeting @ wire ''200 ascii''"
  let ?d = "example_dial ?t"
  have nul: "NUL \<notin> set ?t" "?t \<noteq> []" using example_greeting_plain by (simp_all add: wire_def crlf_def)
  note d = example_dial_good [OF nul]
  have sel: "ftp_req busy_ftp = (ftp_req starting_ftp) \<lparr> rq_datafd := 5 \<rparr>" "dials busy_ftp = [?d]"
      "ftp_opts busy_ftp = default_options" "\<not> is_ascii_transfer busy_ftp"
    by (simp_all add: busy_ftp_def example_ftp_def)
  have w: "NUL \<notin> set (wire ''421 timeout'')" by (simp add: wire_def crlf_def)
  have talk: "talking busy_ftp" "ctl_stream busy_ftp = wire ''421 timeout''"
    using example_ftp_ready [OF w] by (simp_all add: busy_ftp_def talking_def ctl_ready_def ctl_stream_def cong: option.case_cong)
  have again: "can_login_again text_env ?d busy_ftp"
    unfolding can_login_again_def fresh_login_def
    using d nul by (simp add: sel starting_ftp_sel text_env_def plain_env_def default_options_def no_text_def)
  have ascii: "rfc959_is_ascii_transfer text_env ''a.txt'' busy_ftp" by (simp add: rfc959_is_ascii_transfer_def text_env_def)
  have r: "is_reply [] ''421 timeout''" "starts_with ''421'' ''421 timeout''" "reply_is DIGIT2 ([], ''200 ascii'')"
    by (simp_all add: reply_is_def reply_simps first_char_def char_int_def)
  have login: "bytes_in (script (dial_in ?d)) = server_text example_server (login_replies busy_ftp) @ reply_text ([], ''200 ascii'')"
    using d by (simp add: login_replies_def directory_replies_def sel starting_ftp_sel no_text_def example_greeting_def
        reply_text_def del: server_text_Cons)
  have o: "\<not> opt_ascii_transfers (ftp_opts busy_ftp)" by (simp add: sel default_options_def)
  show ?thesis
    using type_lost_on_reconnect [OF talk(1) ascii sel(4) o talk(2) r(1,2) again example_server_welcoming login r(3), of 0]
    by auto
qed


section \<open>Transfers between two servers\<close>

lemma send_silent:
  assumes "talking s"
  shows "rfc959_send_command c cmd False d s = Inr (0, s \<lparr> ctl_out := (ctl_out s) \<lparr> written := written (ctl_out s) @ cmd \<rparr> \<rparr>)"
  using assms write_quiet [of s cmd]
  by (simp add: rfc959_send_command_def send_once_def act_simps talking_def)

lemma talking_out:
  "talking s \<Longrightarrow> talking (s \<lparr> ctl_out := (ctl_out s) \<lparr> written := w \<rparr> \<rparr>) \<and>
     ctl_stream (s \<lparr> ctl_out := (ctl_out s) \<lparr> written := w \<rparr> \<rparr>) = ctl_stream s"
  by (simp add: talking_def ctl_ready_def ctl_stream_def quiet_def cong: option.case_cong)

lemma reply_read:
  assumes "talking s" "reply_is d r" "ctl_stream s = reply_text r @ rest"
  shows "\<exists>s'. rfc959_read_response b s = Inr (d, s') \<and> ctl_out s' = ctl_out s \<and> ctl_stream s' = rest"
  using reply_heard [of s "fst r" "snd r" rest b] assms heard_sel
  by (fastforce simp: reply_is_def reply_text_def talking_def)

text \<open>The reply to PASV, with its address closed by a parenthesis.\<close>

definition closed_pasv_reply :: "string \<Rightarrow> reply \<Rightarrow> bool" where
  "closed_pasv_reply addr r \<longleftrightarrow> reply_is DIGIT2 r \<and>
     (\<exists>x y. snd r = take 4 (snd r) @ x @ address_text addr @ '')'' @ y \<and> 4 \<le> length (snd r) \<and> (\<forall>c \<in> set x. \<not> is_digit c))"

lemma address_text_chars: "ipv4_address addr \<Longrightarrow> CHR '')'' \<notin> set (address_text addr)"
proof -
  assume "ipv4_address addr"
  moreover have "CHR '')'' \<notin> set (show_nat n)" for n
    using show_nat_digits [of "CHR '')''" n] by (auto simp: is_digit_def code_of_def)
  ultimately show ?thesis by (auto simp: ipv4_address_def address_text_def)
qed

lemma fxp_address_step:
  assumes "closed_pasv_reply addr r" "ipv4_address addr" "rq_last_ftp_response (ftp_req s) = Some (snd r)" "talking s"
  shows "\<exists>s'. fxp_address s = Inr (address_text addr, s') \<and> talking s' \<and> ctl_stream s' = ctl_stream s \<and> ctl_out s' = ctl_out s"
proof -
  obtain x y where l: "snd r = take 4 (snd r) @ x @ address_text addr @ '')'' @ y" "4 \<le> length (snd r)"
      "\<forall>c \<in> set x. \<not> is_digit c"
    using assms(1) by (auto simp: closed_pasv_reply_def)
  have p: "response_from is_digit (snd r) = Some (address_text addr @ '')'' @ y)"
    using pasv_reads_port [OF assms(2) l(3), of "'')'' @ y" "take 4 (snd r)"] l(1,2) by (simp add: is_digit_def code_of_def)
  have t: "takeWhile (\<lambda>c. c \<noteq> CHR '')'') (address_text addr @ '')'' @ y) = address_text addr"
    using address_text_chars [OF assms(2)] by (subst takeWhile_append2) auto
  show ?thesis
    using assms(3,4) p t by (simp add: fxp_address_def act_simps last_response_def need_def Let_def talking_req ctl_ready_req)
qed

text \<open>A transfer between two servers is reported as started whatever they answer to RETR and STOR: only the
  absence of an answer is an error. After a refusal both requests are marked as transferring, and the end
  of the transfer waits for replies that do not come.\<close>

theorem fxp_ignores_refusal:
  assumes "talking f" "talking t" "closed_pasv_reply addr p" "ipv4_address addr"
    and "ctl_stream f = reply_text p @ reply_text rf @ restf" "reply_is df rf"
    and "ctl_stream t = reply_text q @ reply_text rt @ restt" "reply_is DIGIT2 q" "reply_is dt rt"
  shows "\<exists>f' t'. rfc959_transfer_file env c fromfile fromsize tofile tosize (f, t) = Inr (0, (f', t')) \<and>
    is_fxp_transfer f' \<and> is_fxp_transfer t' \<and> ctl_stream f' = restf \<and> ctl_stream t' = restt \<and>
    written (ctl_out f') = written (ctl_out f) @ ''PASV'' @ crlf @ command_text env ''RETR'' (Some fromfile) \<and>
    written (ctl_out t') = written (ctl_out t) @ port_command addr @ command_text env ''STOR'' (Some tofile)"
proof -
  have p2: "reply_is DIGIT2 p" using assms(3) by (simp add: closed_pasv_reply_def)
  obtain f1 where f1: "rfc959_send_command c (''PASV'' @ crlf) True False f = Inr (DIGIT2, f1)"
      "said (''PASV'' @ crlf) (snd p) (reply_text rf @ restf) f f1"
    using exchange_reply [OF assms(1) p2 assms(5)] by blast
  note self = said_sel [OF f1(2)]
  have "rq_last_ftp_response (ftp_req f1) = Some (snd p)" using self(1) by simp
  then obtain f2 where f2: "fxp_address f1 = Inr (address_text addr, f2)" "talking f2"
      "ctl_stream f2 = reply_text rf @ restf" "ctl_out f2 = ctl_out f1"
    using fxp_address_step [OF assms(3,4) _ self(4)] self(3) by auto
  have a: "address_text addr \<noteq> []" using address_text_digit [OF assms(4)] by auto
  obtain t1 where t1: "rfc959_send_command c (port_command addr) True False t = Inr (DIGIT2, t1)"
      "said (port_command addr) (snd q) (reply_text rt @ restt) t t1"
    using exchange_reply [OF assms(2,8,7)] by blast
  note selt = said_sel [OF t1(2)]
  let ?r = "command_text env ''RETR'' (Some fromfile)" and ?s = "command_text env ''STOR'' (Some tofile)"
  let ?f3 = "f2 \<lparr> ctl_out := (ctl_out f2) \<lparr> written := written (ctl_out f2) @ ?r \<rparr> \<rparr>"
  let ?t3 = "t1 \<lparr> ctl_out := (ctl_out t1) \<lparr> written := written (ctl_out t1) @ ?s \<rparr> \<rparr>"
  note of = talking_out [OF f2(2), of "written (ctl_out f2) @ ?r"] and ot = talking_out [OF selt(4), of "written (ctl_out t1) @ ?s"]
  have "talking ?f3" "ctl_stream ?f3 = reply_text rf @ restf" using of f2(3) by simp_all
  then obtain f4 where f4: "rfc959_read_response True ?f3 = Inr (df, f4)" "ctl_out f4 = ctl_out ?f3" "ctl_stream f4 = restf"
    using reply_read [OF _ assms(6)] by blast
  have "talking ?t3" "ctl_stream ?t3 = reply_text rt @ restt" using ot selt(3) by simp_all
  then obtain t4 where t4: "rfc959_read_response True ?t3 = Inr (dt, t4)" "ctl_out t4 = ctl_out ?t3" "ctl_stream t4 = restt"
    using reply_read [OF _ assms(9)] by blast
  have d: "\<not> df < 0" "\<not> dt < 0"
    using assms(6,9) final_first_char by (auto simp: reply_is_def is_reply_def) (metis less_irrefl linorder_not_less order_less_trans zero_less_numeral)+
  have "rfc959_transfer_file env c fromfile fromsize tofile tosize (f, t) =
      Inr (0, (f4 \<lparr> is_fxp_transfer := True \<rparr>, t4 \<lparr> is_fxp_transfer := True \<rparr>))"
    using assms(1,2) f1(1) f2(1) a t1(1) f4(1) t4(1) d send_silent [OF f2(2), of c ?r False] send_silent [OF selt(4), of c ?s False]
    by (simp add: rfc959_transfer_file_def on_from_def on_to_def act_simps rfc959_generate_and_send_command_def
        port_command_text talking_def)
  then show ?thesis
    using f4(2,3) t4(2,3) f2(4) self(2) selt(2) by simp
qed

theorem fxp_ignores_refusal_witness:
  "\<exists>f' t'. rfc959_transfer_file plain_env gftp_connect_server ''a'' 0 ''b'' 0
      (example_ftp (reply_text example_pasv @ wire ''550 no such file''), example_ftp (wire ''200 ok'' @ wire ''553 denied'')) =
      Inr (0, (f', t')) \<and> is_fxp_transfer f' \<and> is_fxp_transfer t'"
proof -
  let ?f = "reply_text example_pasv @ reply_text ([], ''550 no such file'') @ []"
  let ?t = "reply_text ([], ''200 ok'') @ reply_text ([], ''553 denied'') @ []"
  have nul: "NUL \<notin> set ?f" "NUL \<notin> set ?t"
    by (simp_all add: reply_text_def example_pasv_def example_address_text wire_def crlf_def)
  have p: "closed_pasv_reply example_addr example_pasv"
    unfolding closed_pasv_reply_def
    by (intro conjI exI [of _ "''Entering Passive Mode (''"] exI [of _ "[]"])
      (simp_all add: reply_is_def example_pasv_def example_address_text reply_simps first_char_def char_int_def)
  have r: "reply_is DIGIT5 ([], ''550 no such file'')" "reply_is DIGIT2 ([], ''200 ok'')" "reply_is DIGIT5 ([], ''553 denied'')"
    by (simp_all add: reply_is_def reply_simps first_char_def char_int_def)
  have "\<exists>f' t'. rfc959_transfer_file plain_env gftp_connect_server ''a'' 0 ''b'' 0 (example_ftp ?f, example_ftp ?t) = Inr (0, (f', t')) \<and>
      is_fxp_transfer f' \<and> is_fxp_transfer t'"
    using fxp_ignores_refusal [OF _ _ p example_addr_ok _ r(1) _ r(2,3), of "example_ftp ?f" "example_ftp ?t" "[]" "[]"]
      example_ftp_ready [OF nul(1)] example_ftp_ready [OF nul(2)] by blast
  then show ?thesis by (simp add: reply_text_def)
qed

end
