(* ===== verification/Ftp_Tls.thy ===== *)
theory Ftp_Tls
  imports Ftp_Hazards
begin

text \<open>
  Sessions of \<open>lib/ftps.c\<close>: what goes over the control connection before TLS protects it, and what is
  read from it afterwards.
\<close>


section \<open>Before the handshake\<close>

lemma digit_reply:
  assumes "reply_is d r"
  shows "48 \<le> d" "d \<le> 57"
proof -
  have "final_line (snd r)" "d = first_char (snd r)" using assms by (auto simp: reply_is_def is_reply_def)
  then show "48 \<le> d" "d \<le> 57"
    by (cases "snd r"; auto simp: final_line_def coded_def first_char_def char_int_def is_digit_def code_of_def)+
qed

lemma disconnect_written [simp]: "ctl_out (ftp_disconnect s) = ctl_out s"
  by (simp add: ftp_disconnect_def rfc959_disconnect_def rfc959_close_data_connection_def with_req_def Let_def)





section \<open>After the handshake\<close>

text \<open>Replies that came before the handshake are still in \<open>datafd_rbuf\<close>. \<open>secured\<close> is a handshake after which
  the connection carries what \<open>ch\<close> says.\<close>

definition secured :: "channel \<Rightarrow> int act" where
  "secured ch = and_then (change (\<lambda>s. s \<lparr> ctl_in := ch \<rparr>)) (\<lambda>_. give 0)"

definition nothing_arrives :: "ftp \<Rightarrow> bool" where
  "nothing_arrives s \<longleftrightarrow> script (ctl_in s) = []"

lemma disconnect_arrives [simp]: "nothing_arrives (ftp_disconnect s) = nothing_arrives s"
  by (simp add: nothing_arrives_def ftp_disconnect_def rfc959_disconnect_def rfc959_close_data_connection_def with_req_def Let_def)

lemma output_arrives [simp]: "nothing_arrives (s \<lparr> ctl_out := ch \<rparr>) = nothing_arrives s"
  by (simp add: nothing_arrives_def)

lemma line_arrives: "triple nothing_arrives (ftp_get_line n) (\<lambda>_. nothing_arrives)"
proof (rule tripleI)
  fix s a s'
  assume s: "nothing_arrives s" and eq: "ftp_get_line n s = Inr (a, s')"
  from eq obtain ret line rb ch where r: "gftp_get_line gftp_fd_read (datafd_rbuf s) n (ctl_in s) = Inr (ret, line, rb, ch)"
      "s' = after_io ch (s \<lparr> datafd_rbuf := rb, ctl_in := ch \<lparr> disconnected := False \<rparr> \<rparr>)"
    by (auto simp: ftp_get_line_def split: sum.splits)
  have "script ch = []"
    using get_line_preserves [of "\<lambda>ch. script ch = []", OF _ _ r(1)] s by (simp add: gftp_fd_read_def nothing_arrives_def)
  then have "nothing_arrives (s \<lparr> datafd_rbuf := rb, ctl_in := ch \<lparr> disconnected := False \<rparr> \<rparr>)" by (simp add: nothing_arrives_def)
  then show "nothing_arrives s'" unfolding r(2) after_io_def by simp
qed

lemma response_arrives: "triple nothing_arrives (response_loop n code t) (\<lambda>_. nothing_arrives)"
proof (induction n code t rule: response_loop.induct)
  case (2 n code t)
  show ?case
    by (auto simp: Let_def intro!: triple_and_then [OF line_arrives] triple_prod triple_if triple_give 2)
qed (simp add: triple_stop)

lemma request_arrives: "triple nothing_arrives (change (with_req f)) (\<lambda>_. nothing_arrives)"
  "triple nothing_arrives (change ftp_disconnect) (\<lambda>_. nothing_arrives)"
  by (auto intro!: triple_change simp: with_req_def) (simp add: nothing_arrives_def)

lemma get_arrives: "(\<And>s0. triple nothing_arrives (k s0) Q) \<Longrightarrow> triple nothing_arrives (and_then get_state k) Q"
  by (auto simp: triple_def and_then_def get_state_def)

lemma once_arrives: "triple nothing_arrives (send_once cmd r) (\<lambda>_. nothing_arrives)"
proof -
  have w: "triple nothing_arrives (ftp_write p) (\<lambda>_. nothing_arrives)" for p
    by (auto intro!: tripleI simp: ftp_write_def after_io_def split: prod.splits)
  have read: "triple nothing_arrives (rfc959_read_response d) (\<lambda>_. nothing_arrives)" for d
    unfolding rfc959_read_response_def
    by (auto intro!: get_arrives triple_if triple_give triple_and_then [OF request_arrives(1)]
        triple_and_then [OF request_arrives(2)] triple_and_then [OF response_arrives] triple_prod triple_option triple_stop)
  show ?thesis
    unfolding send_once_def by (auto intro!: get_arrives triple_if triple_give triple_and_then [OF w] read)
qed


lemma exchange_arrived:
  assumes "talking s" "nothing_arrives s" "reply_is d r" "ctl_stream s = reply_text r @ rest"
  shows "\<exists>s'. rfc959_send_command c cmd True dont s = Inr (d, s') \<and> said cmd (snd r) rest s s' \<and> nothing_arrives s'"
proof -
  obtain s' where s': "send_once cmd True s = Inr (d, s')" "said cmd (snd r) rest s s'"
    using exchange_once [OF assms(1,3,4)] by blast
  moreover have "nothing_arrives s'" using tripleD [OF once_arrives assms(2) s'(1)] .
  moreover have "rfc959_send_command c cmd True dont s = Inr (d, s')"
    using s'(1) digit_reply [OF assms(3)] by (simp add: rfc959_send_command_def act_simps)
  ultimately show ?thesis by blast
qed

text \<open>C30: Whoever can write to the connection before the handshake can answer for the server after it. The line
  buffer is not emptied when TLS starts, so replies that arrived in the clear are taken as the replies to PBSZ and
  PROT: the negotiation succeeds although not a byte comes over the protected connection, and the client takes
  both connections to be private.\<close>

theorem injected_replies_survive_tls:
  assumes "talking s" "nothing_arrives s" "reply_is DIGIT2 a" "reply_is k p" "reply_is DIGIT2 q"
    and "ctl_stream s = reply_text a @ reply_text p @ reply_text q @ rest"
    and "fe_ssl_session_setup env = secured ch" "quiet ch"
  shows "\<exists>s'. ftps_auth_tls_start env connect s = Inr (0, s') \<and> ctl_tls s' \<and> data_tls s' \<and> ctl_stream s' = rest \<and>
    written (ctl_out s') = written (ctl_out s) @ ''AUTH TLS'' @ crlf @ ''PBSZ 0'' @ crlf @ ''PROT P'' @ crlf"
proof -
  obtain s1 where s1: "rfc959_send_command connect (''AUTH TLS'' @ crlf) True False s = Inr (DIGIT2, s1)"
      "said (''AUTH TLS'' @ crlf) (snd a) (reply_text p @ reply_text q @ rest) s s1" "nothing_arrives s1"
    using exchange_arrived [OF assms(1,2,3,6), of connect "''AUTH TLS'' @ crlf" False] by blast
  let ?t = "s1 \<lparr> ctl_in := ch, ctl_tls := True \<rparr>"
  have t: "talking ?t" "ctl_stream ?t = reply_text p @ reply_text q @ rest"
    using said_sel(3,4) [OF s1(2)] s1(3) assms(8)
    by (auto simp: talking_def ctl_ready_def ctl_stream_def ctl.reader_inv_def quiet_def open_data_def all_data_def nothing_arrives_def
        split: option.splits)
  obtain s2 where s2: "rfc959_send_command connect (''PBSZ 0'' @ crlf) True False ?t = Inr (k, s2)"
      "said (''PBSZ 0'' @ crlf) (snd p) (reply_text q @ rest) ?t s2"
    using exchange_reply [OF t(1) assms(4) t(2), of connect "''PBSZ 0'' @ crlf" False] by blast
  note sel2 = said_sel [OF s2(2)]
  obtain s3 where s3: "rfc959_send_command connect (''PROT P'' @ crlf) True False s2 = Inr (DIGIT2, s3)"
      "said (''PROT P'' @ crlf) (snd q) rest s2 s3"
    using exchange_reply [OF sel2(4) assms(5) sel2(3), of connect "''PROT P'' @ crlf" False] by blast
  note sel3 = said_sel [OF s3(2)]
  have "ftps_auth_tls_start env connect s = Inr (0, s3 \<lparr> data_tls := True \<rparr>)"
    using s1(1) s2(1) s3(1) digit_reply [OF assms(4)] by (simp add: ftps_auth_tls_start_def assms(7) secured_def act_simps)
  moreover have "ctl_stream (s3 \<lparr> data_tls := True \<rparr>) = rest" using sel3(3) by (simp add: ctl_stream_def)
  moreover have "ctl_tls s3" using sel3(16) sel2(16) by simp
  ultimately show ?thesis
    using sel3(2) sel2(2) said_sel(2) [OF s1(2)] by (intro exI [of _ "s3 \<lparr> data_tls := True \<rparr>"]) simp
qed


theorem injected_replies_survive_tls_witness:
  "\<exists>s'. ftps_auth_tls_start (plain_env \<lparr> fe_ssl_session_setup := secured quiet_channel \<rparr>) gftp_connect_server
      ((example_ftp []) \<lparr> ctl_in := quiet_channel, datafd_rbuf := Some (left_over (wires [''234 go'', ''200 ok'', ''200 ok''])) \<rparr>) =
      Inr (0, s') \<and> ctl_tls s' \<and> data_tls s'"
proof -
  let ?t = "wires [''234 go'', ''200 ok'', ''200 ok'']"
  let ?s = "(example_ftp []) \<lparr> ctl_in := quiet_channel, datafd_rbuf := Some (left_over ?t) \<rparr>"
  have l: "buffer_inv (left_over ?t)" "unread (left_over ?t) = ?t"
    using left_over_inv [of ?t] by (simp_all add: wires_def wire_def crlf_def)
  have q: "quiet quiet_channel" "script quiet_channel = []" by (simp_all add: quiet_def quiet_channel_def)
  have e: "max_bufsize (left_over ?t) = 255" "\<not> eof (left_over ?t)" by (simp_all add: left_over_def)
  have t: "talking ?s"
    using l(1) e q by (simp add: talking_def ctl_ready_def ctl.reader_inv_def open_data_def all_data_def quiet_def example_ftp_def)
  have n: "nothing_arrives ?s" using q by (simp add: nothing_arrives_def)
  have r: "reply_is DIGIT2 ([], ''234 go'')" "reply_is DIGIT2 ([], ''200 ok'')"
    by (simp_all add: reply_is_def reply_simps first_char_def char_int_def)
  have c: "ctl_stream ?s = reply_text ([], ''234 go'') @ reply_text ([], ''200 ok'') @ reply_text ([], ''200 ok'') @ []"
    using l(2) q by (simp add: ctl_stream_def reply_text_def wires_def)
  show ?thesis
    using injected_replies_survive_tls [OF t n r r(2) c, of "plain_env \<lparr> fe_ssl_session_setup := secured quiet_channel \<rparr>"
        quiet_channel gftp_connect_server] q(1) by auto
qed


end
