(* ===== verification/Http.thy ===== *)
theory Http
  imports Ftp_Control Dir_Listing Encoders
begin

text \<open>
  The HTTP client of \<open>lib/rfc2068.c\<close>. Every operation sends a request on a new connection and reads the
  reply: a status line, headers up to an empty line, then the body, which is counted by Content-Length,
  cut into chunks, or ends with the connection.

  The state \<open>http\<close> is the request, its \<open>protocol_data\<close> (\<open>lib/httpcommon.h\<close>), the options the module reads, and
  what the peers will do. All reading goes through \<open>rfc2068_chunked_read\<close>, also that of the headers; a byte
  it would store outside the caller's buffer sets \<open>overrun\<close>, and every operation is stuck from then on.
\<close>


section \<open>The state\<close>

record http_options =
  opt_http_proxy_host :: "string option"
  opt_http_proxy_port :: int
  opt_http_proxy_username :: "string option"
  opt_http_proxy_password :: "string option"
  opt_use_http11 :: bool
  opt_http_proxy_config :: "string option"

record http =
  ht_req :: gftp_request
  ht_rbuf :: "getline_buffer option"
  read_bytes :: nat
  chunk_size :: int
  content_length :: int
  chunked_transfer :: bool
  ht_eof :: bool
  read_ref_cnt :: int
  extra_read_buffer :: "string option"
  real_tls :: bool
  ht_opts :: http_options
  ht_in :: channel
  ht_out :: channel
  ht_cache :: channel
  ht_dials :: "dial list"
  overrun :: bool

type_synonym 'a http_act = "(http, 'a) action"

definition on_http_req :: "(gftp_request \<Rightarrow> gftp_request) \<Rightarrow> http \<Rightarrow> http" where
  "on_http_req f s = s \<lparr> ht_req := f (ht_req s) \<rparr>"

definition rfc2068_disconnect :: "http \<Rightarrow> http" where
  "rfc2068_disconnect s =
    (if 0 < rq_datafd (ht_req s) then on_http_req (\<lambda>rq. rq \<lparr> rq_datafd := -1 \<rparr>) s else s)"

text \<open>\<open>gftp_disconnect\<close> on a request of this module.\<close>

definition http_disconnect :: "http \<Rightarrow> http" where
  "http_disconnect s = rfc2068_disconnect (on_http_req (\<lambda>rq. rq \<lparr> rq_cached := False \<rparr>) s)"

definition http_after_io :: "channel \<Rightarrow> http \<Rightarrow> http" where
  "http_after_io ch s = (if disconnected ch then http_disconnect s else s)"


section \<open>Reading a body\<close>

text \<open>\<open>sscanf (s, "%lx", &n)\<close>: blanks, a sign, an optional \<open>0x\<close>, digits.\<close>

definition hex_digit :: "char \<Rightarrow> nat option" where
  "hex_digit c =
    (if is_digit c then Some (digit_val c)
     else if code_of (to_lower c) \<in> {97..102} then Some (code_of (to_lower c) - 87) else None)"

fun read_hex :: "nat \<Rightarrow> string \<Rightarrow> nat" where
  "read_hex n [] = n"
| "read_hex n (c # cs) = (case hex_digit c of None \<Rightarrow> n | Some d \<Rightarrow> read_hex (16 * n + d) cs)"

definition scan_hex :: "string \<Rightarrow> int option" where
  "scan_hex t =
    (let (neg, u) = strtol_sign (dropWhile is_space t);
         ds = (if starts_with ''0x'' (map to_lower u) then drop 2 u else u)
     in if ds = [] \<or> hex_digit (hd ds) = None then None
        else let v = min (int (read_hex 0 ds)) (2 ^ 64 - 1)
             in Some (off_wrap (if neg then - v else v)))"

text \<open>The buffer with \<open>sret\<close> bytes and the NUL behind them is cut at the sizes of the chunks; \<open>stpos\<close> is where
  the next size is expected. An incomplete size is kept for the next read; when nothing is in front of
  it, the function calls itself.\<close>

datatype decoded =
    Decoded string http
  | Starved http
  | Bad_chunk http

definition size_line :: "string \<Rightarrow> nat \<Rightarrow> string option" where
  "size_line buf stpos =
    (if buf ! stpos = CR \<and> buf ! (stpos + 1) = LF
     then let t = takeWhile (\<lambda>c. c \<noteq> NUL) (drop (stpos + 2) buf)
          in map_option (before t) (strstr t [CR, LF])
     else None)"

function decode_chunks :: "string \<Rightarrow> nat \<Rightarrow> nat \<Rightarrow> http \<Rightarrow> decoded" where
  "decode_chunks buf stpos sret s =
    (if chunk_size s \<noteq> 0 \<or> sret \<le> stpos then Decoded (take sret buf) s
     else let current_size = sret - stpos in
       case size_line buf stpos of
         None \<Rightarrow>
           let s = s \<lparr> extra_read_buffer := Some (take current_size (drop stpos buf)) \<rparr>
           in if stpos = 0 then Starved s else Decoded (take stpos buf) s
       | Some line \<Rightarrow>
           (case scan_hex line of
              None \<Rightarrow> Bad_chunk s
            | Some v \<Rightarrow>
                let crlfsize = length line + 4;
                    buf = buf[stpos + 2 + length line := NUL];
                    sret = sret - crlfsize;
                    current_size = current_size - crlfsize
                in if v = 0 then
                     (if ht_eof s then Decoded [] (s \<lparr> chunk_size := 0 \<rparr>)
                      else Decoded (take sret buf) (s \<lparr> chunk_size := 0, ht_eof := True \<rparr>))
                   else
                     let buf = take stpos buf @ drop (stpos + crlfsize) buf
                     in if v mod 2 ^ 64 < int current_size
                        then decode_chunks buf (stpos + nat (v mod 2 ^ 64)) sret (s \<lparr> chunk_size := 0 \<rparr>)
                        else decode_chunks buf stpos sret (s \<lparr> chunk_size := off_wrap (v - int current_size) \<rparr>)))"
  by pat_completeness auto
termination decode_chunks
  by (relation "measure (\<lambda>(buf, stpos, sret, s). sret)") auto

declare decode_chunks.simps [simp del]

text \<open>\<open>real_read_function\<close>: \<open>gftp_fd_read\<close>, or \<open>gftp_ssl_read\<close>, which reads the connection whatever \<open>fd\<close> is.\<close>

definition http_channel :: "int \<Rightarrow> http \<Rightarrow> channel" where
  "http_channel fd s = (if real_tls s \<or> fd = rq_datafd (ht_req s) then ht_in s else ht_cache s)"

definition put_channel :: "int \<Rightarrow> channel \<Rightarrow> http \<Rightarrow> http" where
  "put_channel fd ch s =
    (if real_tls s \<or> fd = rq_datafd (ht_req s) then s \<lparr> ht_in := ch \<rparr> else s \<lparr> ht_cache := ch \<rparr>)"

definition real_read :: "int \<Rightarrow> http reader" where
  "real_read fd n s =
    (let (r, ch) = gftp_fd_read n (http_channel fd s)
     in (r, http_after_io ch (put_channel fd (ch \<lparr> disconnected := False \<rparr>) s)))"

definition unref :: "http \<Rightarrow> http" where
  "unref s = s \<lparr> read_ref_cnt := read_ref_cnt s - 1 \<rparr>"

text \<open>One call, up to the call of itself. The caller's buffer is asked to hold \<open>size'\<close> bytes and has \<open>room\<close>.\<close>

datatype chunk_turn = Done "int + string" http | Again http

definition overflow :: "http \<Rightarrow> chunk_turn" where
  "overflow s = Done (Inl GFTP_EFATAL) (s \<lparr> overrun := True \<rparr>)"

definition after_read :: "nat \<Rightarrow> string \<Rightarrow> http \<Rightarrow> chunk_turn" where
  "after_read room content s =
    (if room \<le> length content then overflow s
     else if \<not> chunked_transfer s then Done (Inr content) (unref s)
     else case decode_chunks (content @ [NUL]) 0 (length content) s of
            Decoded d s \<Rightarrow> Done (Inr d) (unref s)
          | Bad_chunk s \<Rightarrow> Done (Inl GFTP_EFATAL) (unref (http_disconnect s))
          | Starved s \<Rightarrow>
              if 2 < read_ref_cnt s then Done (Inl GFTP_EFATAL) (unref (http_disconnect s)) else Again s)"

text \<open>How much to read; \<^term>\<open>None\<close> when all of the body has been read. The subtraction is unsigned.\<close>

definition read_limit :: "nat \<Rightarrow> http \<Rightarrow> nat option" where
  "read_limit size' s =
    (if 0 < content_length s then
       (if content_length s = int (read_bytes s) then None
        else if content_length s < int (size' + read_bytes s)
             then Some (nat ((content_length s - int (read_bytes s)) mod 2 ^ 64))
             else Some size')
     else if chunked_transfer s \<and> 0 < chunk_size s \<and> chunk_size s < int size' then Some (nat (chunk_size s))
     else Some size')"

definition read_more :: "int \<Rightarrow> nat \<Rightarrow> nat \<Rightarrow> string \<Rightarrow> nat \<Rightarrow> http \<Rightarrow> chunk_turn" where
  "read_more fd size' room begin' read_size s =
    (if 0 < read_size \<and> \<not> ht_eof s then
       let read_size = (if size' = read_size then read_size - 1 else read_size)
       in case real_read fd read_size s of
            (Inl e, s) \<Rightarrow> Done (Inl e) (unref s)
          | (Inr data, s) \<Rightarrow>
              if data = [] then Done (Inr []) (unref s)
              else if room < length begin' + length data then overflow s
              else
                let s = s \<lparr> read_bytes := read_bytes s + length data \<rparr>
                in if 0 < chunk_size s
                   then Done (Inr (take (length data) (begin' @ data)))
                          (unref (s \<lparr> chunk_size := chunk_size s - int (length data) \<rparr>))
                   else after_read room (begin' @ data) s
     else after_read room begin' s)"

definition chunked_turn :: "int \<Rightarrow> nat \<Rightarrow> nat \<Rightarrow> http \<Rightarrow> chunk_turn" where
  "chunked_turn fd size' room s =
    (let s = s \<lparr> read_ref_cnt := read_ref_cnt s + 1 \<rparr>
     in case extra_read_buffer s of
          Some x \<Rightarrow>
            if size' < length x then Done (Inl GFTP_EFATAL) s
            else if room < length x then overflow s
            else read_more fd size' room x
                   (if 5 < length x \<and> take 5 x = [CR, LF, CHR ''0'', CR, LF] then 0 else size' - length x)
                   (s \<lparr> extra_read_buffer := None \<rparr>)
        | None \<Rightarrow>
            (case read_limit size' s of
               None \<Rightarrow> Done (Inr []) (unref s)
             | Some read_size \<Rightarrow> read_more fd size' room [] read_size s))"

text \<open>The call of itself ends because \<open>read_ref_cnt\<close> counts the calls.\<close>

lemma disconnect_ref_cnt [simp]: "read_ref_cnt (http_disconnect s) = read_ref_cnt s"
  by (simp add: http_disconnect_def rfc2068_disconnect_def on_http_req_def)

lemma real_read_ref_cnt: "read_ref_cnt (snd (real_read fd n s)) = read_ref_cnt s"
  by (simp add: real_read_def http_after_io_def put_channel_def split: prod.split)

lemma decode_starved_ref_cnt: "decode_chunks buf stpos sret s = Starved t \<Longrightarrow> read_ref_cnt t = read_ref_cnt s"
proof (induction sret arbitrary: buf stpos s rule: less_induct)
  case (less sret)
  have shorter: "sret - (length l + 4) < sret" if "\<not> sret \<le> stpos" for l :: string using that by simp
  note ih = less.IH [OF shorter]
  show ?case
    using less.prems by (subst (asm) decode_chunks.simps) (auto simp: Let_def split: if_splits option.splits dest: ih)
qed

lemma after_read_again: "after_read room c s = Again t \<Longrightarrow> read_ref_cnt t = read_ref_cnt s \<and> read_ref_cnt s \<le> 2"
  using decode_starved_ref_cnt [of "c @ [NUL]" 0 "length c" s]
  by (auto simp: after_read_def overflow_def split: if_splits decoded.splits)

lemma read_more_again: "read_more fd k room b r s = Again t \<Longrightarrow> read_ref_cnt t = read_ref_cnt s \<and> read_ref_cnt s \<le> 2"
  using real_read_ref_cnt [of fd _ s]
  by (auto simp: read_more_def overflow_def Let_def split: if_splits sum.splits prod.splits dest!: after_read_again)
    (metis snd_conv)+

lemma turn_again: "chunked_turn fd k room s = Again t \<Longrightarrow> read_ref_cnt t = read_ref_cnt s + 1 \<and> read_ref_cnt s \<le> 1"
  by (auto simp: chunked_turn_def overflow_def Let_def split: if_splits option.splits dest!: read_more_again)

function rfc2068_chunked_read :: "int \<Rightarrow> nat \<Rightarrow> nat \<Rightarrow> http \<Rightarrow> (int + string) \<times> http" where
  "rfc2068_chunked_read fd size' room s =
    (case chunked_turn fd size' room s of
       Done r s \<Rightarrow> (r, s)
     | Again t \<Rightarrow>
         (case rfc2068_chunked_read fd size' room t of
            (Inl e, s) \<Rightarrow> (Inl e, s)
          | (Inr data, s) \<Rightarrow> (Inr data, unref s)))"
  by pat_completeness auto
termination rfc2068_chunked_read
  by (relation "measure (\<lambda>(fd, k, room, s). nat (3 - read_ref_cnt s))") (auto dest: turn_again)

declare rfc2068_chunked_read.simps [simp del]


section \<open>Replies\<close>

definition checked :: "'a \<Rightarrow> 'a http_act" where
  "checked a s = (if overrun s then Inl Out_of_bounds else Inr (a, s))"

text \<open>\<open>gftp_get_line\<close> has a byte of room behind the bytes it asks for.\<close>

definition http_get_line :: "int \<Rightarrow> (int \<times> string option) http_act" where
  "http_get_line fd s =
    (case gftp_get_line (\<lambda>n. rfc2068_chunked_read fd n (n + 1)) (ht_rbuf s) 8192 s of
       Inl e \<Rightarrow> Inl e
     | Inr (ret, line, rbuf, s) \<Rightarrow> checked (ret, line) (s \<lparr> ht_rbuf := rbuf \<rparr>))"

text \<open>The header loop. Without a line, at the end of the connection, \<open>tempstr\<close> stays as it is, and the loop
  tests it again. \<open>tempstr + 16\<close> is behind the terminator of a line that ends with the colon.\<close>

definition chunked_header :: string where
  "chunked_header = ''Transfer-Encoding: chunked''"

definition header_line :: "string \<Rightarrow> bool \<Rightarrow> bool http_act" where
  "header_line t chunked =
    (if starts_with ''Content-Length:'' t
     then if length t < 16 then stop Out_of_bounds
          else and_then (change (\<lambda>s. s \<lparr> content_length := strtol10 (drop 16 t) \<rparr>)) (\<lambda>_. give chunked)
     else give (t = chunked_header \<or> chunked))"

fun header_loop :: "nat \<Rightarrow> string \<Rightarrow> bool \<Rightarrow> (int \<times> bool) http_act" where
  "header_loop 0 tempstr chunked = stop Out_of_fuel"
| "header_loop (Suc n) tempstr chunked =
     and_then get_state (\<lambda>s.
     and_then (http_get_line (rq_datafd (ht_req s))) (\<lambda>(ret, line).
       if ret < 0 then give (ret, chunked)
       else let t = (case line of None \<Rightarrow> tempstr | Some l \<Rightarrow> l) in
         and_then (change (on_http_req (\<lambda>rq. if rq_last_ftp_response rq = None
                                             then rq \<lparr> rq_last_ftp_response := Some t \<rparr> else rq))) (\<lambda>_.
           if t = [] then give (0, chunked)
           else and_then (header_line t chunked) (\<lambda>chunked. header_loop n t chunked))))"

text \<open>The size of the first chunk, from the line behind the headers. What the buffer holds behind the chunk is
  moved to \<open>extra_read_buffer\<close>.\<close>

definition first_chunk :: "int \<Rightarrow> http \<Rightarrow> stuck + http" where
  "first_chunk v s =
    (case ht_rbuf s of
       None \<Rightarrow> Inl Out_of_bounds
     | Some rb \<Rightarrow>
         let left = off_wrap (v - int (cur_bufsize rb)) in
         if left < 0 then
           let k = nat (- left) in
           if cur_bufsize rb < k then Inl Out_of_bounds
           else Inr (s \<lparr> chunk_size := 0,
                  extra_read_buffer := Some (take k (drop (curpos rb + (cur_bufsize rb - k)) (buffer rb))),
                  ht_rbuf := Some (rb \<lparr> cur_bufsize := cur_bufsize rb - k,
                                        buffer := (buffer rb)[curpos rb + (cur_bufsize rb - k) := NUL] \<rparr>) \<rparr>)
         else Inr (s \<lparr> chunk_size := left \<rparr>))"

definition http_fail :: "int \<Rightarrow> int http_act" where
  "http_fail ret = and_then (change http_disconnect) (\<lambda>_. give ret)"

definition body_size :: "bool \<Rightarrow> int http_act" where
  "body_size chunked =
     and_then (change (\<lambda>s. s \<lparr> chunked_transfer := chunked \<rparr>)) (\<lambda>_.
     and_then get_state (\<lambda>s. give (if 0 < content_length s then content_length s else chunk_size s)))"

definition chunked_body :: "int http_act" where
  "chunked_body =
     and_then get_state (\<lambda>s.
     and_then (http_get_line (rq_datafd (ht_req s))) (\<lambda>(ret, line).
       if ret < 0 then give ret
       else case scan_hex (or_empty line) of
              None \<Rightarrow> http_fail GFTP_EFATAL
            | Some v \<Rightarrow>
                if v = 0 then and_then (change (\<lambda>s. s \<lparr> chunk_size := 0 \<rparr>)) (\<lambda>_. give 0)
                else and_then (\<lambda>s. map_sum id (\<lambda>s. ((), s)) (first_chunk v s)) (\<lambda>_. body_size True)))"

definition fresh_response :: "http \<Rightarrow> http" where
  "fresh_response s = on_http_req (\<lambda>rq. rq \<lparr> rq_last_ftp_response := None \<rparr>)
     (s \<lparr> chunk_size := 0, content_length := 0, ht_eof := False, extra_read_buffer := None \<rparr>)"

text \<open>A line takes a byte at least, so a reply with an empty line needs no more turns than it has bytes.\<close>

definition header_fuel :: "http \<Rightarrow> nat" where
  "header_fuel s = length (case ht_rbuf s of None \<Rightarrow> [] | Some rb \<Rightarrow> unread rb) + length (bytes_in (script (ht_in s))) + 2"

definition rfc2068_read_response :: "int http_act" where
  "rfc2068_read_response =
     and_then (change fresh_response) (\<lambda>_.
     and_then get_state (\<lambda>s.
     and_then (header_loop (header_fuel s) [] False) (\<lambda>(ret, chunked).
       if ret < 0 then give ret
       else if chunked then chunked_body else body_size False)))"

section \<open>Requests\<close>

text \<open>What the module calls outside: the version text, the home directories for \<open>gftp_expand_path\<close>, and
  \<open>post_connect\<close>, which \<open>lib/https.c\<close> sets to the TLS handshake.\<close>

record http_env =
  he_version :: string
  he_home :: "string option \<Rightarrow> string option"
  he_post_connect :: "int http_act option"

definition http_connect_server :: "http_env \<Rightarrow> int http_act" where
  "http_connect_server env s =
    (case ht_dials s of
       [] \<Rightarrow> Inr (GFTP_ERETRYABLE, s)
     | d # ds \<Rightarrow>
         if dial_ret d < 0 then Inr (dial_ret d, s \<lparr> ht_dials := ds \<rparr>)
         else let s = on_http_req (dialled d) (s \<lparr> ht_dials := ds, ht_in := dial_in d, ht_out := dial_out d \<rparr>)
              in (case he_post_connect env of None \<Rightarrow> Inr (0, s) | Some f \<Rightarrow> f s))"

definition rfc2068_connect :: "http_env \<Rightarrow> int http_act" where
  "rfc2068_connect env =
     and_then get_state (\<lambda>s.
       if rq_hostname (ht_req s) = None then give GFTP_EFATAL
       else if 0 < rq_datafd (ht_req s) then give 0
       else
         and_then (change (on_http_req (\<lambda>rq.
             if opt_http_proxy_config (ht_opts s) = Some ''ftp'' then rq \<lparr> rq_url_prefix := Some ''ftp'' \<rparr> else rq))) (\<lambda>_.
         and_then (http_connect_server env) (\<lambda>ret.
           if ret < 0 then give ret
           else and_then (change (on_http_req (\<lambda>rq.
                  if no_text (rq_directory rq) then rq \<lparr> rq_directory := Some ''/'' \<rparr> else rq))) (\<lambda>_. give 0))))"

definition http_write :: "string \<Rightarrow> int http_act" where
  "http_write p s =
    (let (ret, ch) = gftp_fd_write p (ht_out s)
     in Inr (ret, http_after_io ch (s \<lparr> ht_out := ch \<lparr> disconnected := False \<rparr> \<rparr>)))"

text \<open>The lines of a request, written one by one until a write fails.\<close>

fun write_all :: "string list \<Rightarrow> int http_act" where
  "write_all [] = give 0"
| "write_all (p # ps) = and_then (http_write p) (\<lambda>ret. if ret < 0 then give ret else write_all ps)"

text \<open>\<open>g_strconcat\<close> stops at the first NULL.\<close>

fun strconcat :: "string option list \<Rightarrow> string" where
  "strconcat [] = []"
| "strconcat (None # ts) = []"
| "strconcat (Some t # ts) = t @ strconcat ts"

definition request_lines :: "http_env \<Rightarrow> string \<Rightarrow> http \<Rightarrow> string list" where
  "request_lines env command s =
    (let rq = ht_req s; o' = ht_opts s
     in [command @ ''User-Agent: '' @ he_version env @ [LF] @ ''Host: '' @ printf_s (rq_hostname rq) @ [LF]] @
        (if rq_use_proxy rq \<and> \<not> no_text (opt_http_proxy_username o')
         then [''Proxy-authorization: Basic '' @
               base64_encode (strconcat [opt_http_proxy_username o', Some '':'', opt_http_proxy_password o']) @ [LF]]
         else []) @
        (if \<not> no_text (rq_username rq)
         then [''Authorization: Basic '' @ base64_encode (strconcat [rq_username rq, Some '':'', rq_password rq]) @ [LF]]
         else []) @ [[LF]])"

definition rfc2068_send_command :: "http_env \<Rightarrow> string \<Rightarrow> int http_act" where
  "rfc2068_send_command env command =
     and_then get_state (\<lambda>s.
     and_then (if rq_datafd (ht_req s) < 0 then rfc2068_connect env else give 0) (\<lambda>conn_ret.
       if conn_ret \<noteq> 0 then give conn_ret
       else and_then get_state (\<lambda>s.
         and_then (write_all (request_lines env command s)) (\<lambda>ret.
           if ret < 0 then give ret else rfc2068_read_response))))"

text \<open>\<open>GET http://user@host/path HTTP/1.1\<close>.\<close>

definition request_line :: "string \<Rightarrow> string option \<Rightarrow> string \<Rightarrow> http \<Rightarrow> string" where
  "request_line verb path slash s =
    (let rq = ht_req s
     in strconcat ([Some (verb @ '' ''), rq_url_prefix rq, Some ''://''] @
          (if no_text (rq_username rq) then [] else [rq_username rq, Some ''@'']) @
          [path, Some (slash @ (if opt_use_http11 (ht_opts s) then '' HTTP/1.1'' else '' HTTP/1.0'') @ [LF])]))"

definition http_path :: "string \<Rightarrow> http \<Rightarrow> string option" where
  "http_path filename s =
    Option.bind (rq_hostname (ht_req s)) (\<lambda>h. gftp_build_path (Some (rq_server_type (ht_req s))) h [filename])"

text \<open>The three digits behind \<open>HTTP/1.1\<close>.\<close>

definition status_is :: "string \<Rightarrow> string \<Rightarrow> bool" where
  "status_is code t \<longleftrightarrow> starts_with code (drop 9 t)"

definition http_response :: "string http_act" where
  "http_response s = (case rq_last_ftp_response (ht_req s) of None \<Rightarrow> Inl Out_of_bounds | Some t \<Rightarrow> Inr (t, s))"

definition rfc2068_get_file :: "http_env \<Rightarrow> string \<Rightarrow> int \<Rightarrow> int http_act" where
  "rfc2068_get_file env filename startsize =
     and_then get_state (\<lambda>s.
     and_then (rfc2068_send_command env (request_line ''GET'' (http_path filename s) [] s @
         (if opt_use_http11 (ht_opts s) \<and> 0 < startsize then ''Range: bytes='' @ show_int startsize @ ''-'' @ [LF] else []))) (\<lambda>size'.
       if size' < 0 then give size'
       else and_then http_response (\<lambda>t.
         let restarted = 9 < length t \<and> status_is ''206'' t
         in if \<not> restarted \<and> (length t < 9 \<or> \<not> status_is ''200'' t) then give GFTP_ERETRYABLE
            else and_then (change (\<lambda>s. s \<lparr> read_bytes := 0 \<rparr>)) (\<lambda>_.
                 give (if restarted then off_wrap (size' + startsize) else size')))))"

definition rfc2068_get_next_file_chunk :: "nat \<Rightarrow> (int + string) http_act" where
  "rfc2068_get_next_file_chunk size' =
     and_then get_state (\<lambda>s.
       case ht_rbuf s of
         Some rb \<Rightarrow>
           let len = min (cur_bufsize rb) size';
               data = take len (drop (curpos rb) (buffer rb))
           in if length data < len then stop Out_of_bounds
              else and_then (change (\<lambda>s. s \<lparr> ht_rbuf := (if len = cur_bufsize rb then None
                     else Some (rb \<lparr> curpos := curpos rb + len, cur_bufsize := cur_bufsize rb - len \<rparr>)) \<rparr>)) (\<lambda>_.
                   give (Inr data))
       | None \<Rightarrow>
           (let (r, s) = rfc2068_chunked_read (rq_datafd (ht_req s)) size' size' s
            in and_then (change (\<lambda>_. s)) (\<lambda>_. checked r)))"

definition rfc2068_end_transfer :: "int http_act" where
  "rfc2068_end_transfer =
     and_then get_state (\<lambda>s.
       if rq_datafd (ht_req s) < 0 then give GFTP_EFATAL
       else and_then (change http_disconnect) (\<lambda>_.
            and_then (change (\<lambda>s. s \<lparr> content_length := 0, chunked_transfer := False, chunk_size := 0, ht_eof := False \<rparr>))
              (\<lambda>_. give 0)))"

text \<open>\<open>gftp_end_transfer\<close> on a request of this module.\<close>

definition http_end_transfer :: "int http_act" where
  "http_end_transfer =
     and_then get_state (\<lambda>s.
     and_then (if rq_cached (ht_req s) then give 0 else rfc2068_end_transfer) (\<lambda>ret.
     and_then (change (on_http_req (\<lambda>rq. rq \<lparr> rq_cachefd := (if 0 < rq_cachefd rq then -1 else rq_cachefd rq),
         rq_last_dir_entry := None,
         rq_last_dir_entry_len := (if rq_last_dir_entry rq = None then rq_last_dir_entry_len rq else 0) \<rparr>))) (\<lambda>_.
       give ret)))"

definition rfc2068_list_files :: "http_env \<Rightarrow> int http_act" where
  "rfc2068_list_files env =
     and_then get_state (\<lambda>s.
     and_then (need (rq_directory (ht_req s))) (\<lambda>dir.
     and_then (rfc2068_send_command env
         (request_line ''GET'' (if starts_with dir ''/'' then rq_hostname (ht_req s) else http_path dir s) ''/'' s)) (\<lambda>ret.
       if ret < 0 then give ret
       else and_then (change (\<lambda>s. s \<lparr> read_bytes := 0 \<rparr>)) (\<lambda>_.
            and_then http_response (\<lambda>t.
              if 9 < length t \<and> status_is ''200'' t then give 0
              else and_then http_end_transfer (\<lambda>_. give GFTP_ERETRYABLE))))))"

definition rfc2068_get_file_size :: "http_env \<Rightarrow> string \<Rightarrow> int http_act" where
  "rfc2068_get_file_size env filename =
     and_then get_state (\<lambda>s.
     rfc2068_send_command env (request_line ''HEAD'' (http_path filename s) [] s))"

definition rfc2068_chdir :: "http_env \<Rightarrow> string \<Rightarrow> int http_act" where
  "rfc2068_chdir env directory =
     and_then get_state (\<lambda>s.
       let rq = ht_req s;
           path = (case rq_directory rq of
                     Some d \<Rightarrow> if directory = [] \<or> hd directory \<noteq> CHR ''/'' then d @ ''/'' @ directory else directory
                   | None \<Rightarrow> directory)
       in and_then (change (on_http_req (\<lambda>rq. rq \<lparr> rq_directory :=
                gftp_expand_path (he_home env) (Some (rq_server_type rq)) path \<rparr>))) (\<lambda>_. give 0))"

section \<open>Listings\<close>

text \<open>Directory listings are HTML pages; an entry is the target of a link, then a date and a size in k or M.
  A position in the line is the rest of the line from there, and a step over its end is \<^term>\<open>None\<close>.\<close>

definition either :: "string \<Rightarrow> string \<Rightarrow> string \<Rightarrow> string option" where
  "either a b t = (case strstr t a of Some p \<Rightarrow> Some p | None \<Rightarrow> strstr t b)"

text \<open>The tags and blanks between the link and the date.\<close>

fun skip_tags :: "nat \<Rightarrow> string \<Rightarrow> string option option" where
  "skip_tags 0 pos = Some (Some pos)"
| "skip_tags (Suc n) pos =
    (case pos of
       [] \<Rightarrow> Some (Some pos)
     | c # cs \<Rightarrow>
         if c = SPC \<or> c = TAB \<or> c = CHR ''.'' then skip_tags n cs
         else if c = CHR ''<'' then
           (if starts_with ''<A '' pos \<or> starts_with ''<a '' pos
            then (case either ''</A>'' ''</a>'' pos of
                    None \<Rightarrow> Some None
                  | Some p \<Rightarrow> (case drop 4 p of [] \<Rightarrow> None | _ # r \<Rightarrow> skip_tags n r))
            else (case dropWhile (\<lambda>c. c \<noteq> CHR ''>'') pos of [] \<Rightarrow> Some None | _ # r \<Rightarrow> skip_tags n r))
         else Some (Some pos))"

text \<open>The number in front of the unit, going back to a blank; \<open>i\<close> is the place of the unit in the line.\<close>

fun size_back :: "string \<Rightarrow> int \<Rightarrow> nat \<Rightarrow> int \<Rightarrow> (nat \<times> int) option" where
  "size_back line units 0 sz = None"
| "size_back line units (Suc i) sz =
    (if line ! i = SPC \<or> line ! i = TAB then Some (Suc i, sz)
     else size_back line units i
       (if line ! i = CHR ''.'' \<and> Suc i < length line \<and> is_digit (line ! Suc i)
        then (let x = off_wrap (units * strtol10 (drop (Suc i) line)) in sgn x * (\<bar>x\<bar> div 10)) else sz))"

definition html_size :: "string \<Rightarrow> string \<Rightarrow> int option" where
  "html_size line pos =
    (let kpos = strchr pos (CHR ''k''); mpos = strchr pos (CHR ''M'');
         stpos = (case (kpos, mpos) of
                    (Some k, None) \<Rightarrow> Some k
                  | (Some k, Some m) \<Rightarrow> if length m < length k then Some k else Some m
                  | (None, m) \<Rightarrow> m)
     in case stpos of
          None \<Rightarrow> Some 0
        | Some p \<Rightarrow>
            let i = length line - length p; units = (if hd p = CHR ''k'' then 1024 else 1048576) in
            if i = 0 then None
            else if \<not> is_digit (line ! (i - 1)) then Some 0
            else map_option (\<lambda>(i, sz). off_wrap (sz + off_wrap (units * strtol10 (drop i line)))) (size_back line units i 0))"

definition html_details :: "time_env \<Rightarrow> string \<Rightarrow> string \<Rightarrow> gftp_file \<Rightarrow> gftp_file option" where
  "html_details tenv line pos fle =
    (let pos = (if pos \<noteq> [] \<and> hd pos = CHR ''['' then tl pos else pos)
     in Option.bind (parse_time tenv (pos @ [NUL])) (\<lambda>(datetime, p).
        Option.bind (cstr p) (\<lambda>pos.
        let pos = dropWhile (\<lambda>c. c = SPC \<or> c = CHR '']'') pos in
        Option.bind (html_size line pos) (\<lambda>sz.
          Some (fle \<lparr> gf_datetime := datetime, gf_user := Some ''<unknown>'', gf_group := Some ''<unknown>'', gf_size := sz \<rparr>)))))"

text \<open>The name of the link is cut out of the line in place, and put back when it is kept. The result has the
  line as it is afterwards.\<close>

definition html_link :: "string \<Rightarrow> nat option" where
  "html_link line =
    (case either ''<A HREF='' ''<a href='' line of
       None \<Rightarrow> None
     | Some pos \<Rightarrow>
         (case dropWhile (\<lambda>c. c \<noteq> CHR ''\"'') pos of
            [] \<Rightarrow> None
          | _ # r \<Rightarrow> if CHR ''\"'' \<in> set r then Some (length line - length r) else None))"

definition parse_html_line :: "time_env \<Rightarrow> string \<Rightarrow> (int \<times> gftp_file \<times> string) option" where
  "parse_html_line tenv line =
    (case html_link line of
       None \<Rightarrow> Some (0, zero_file, line)
     | Some st \<Rightarrow>
         let pos = st + length (takeWhile (\<lambda>c. c \<noteq> CHR ''\"'') (drop st line));
             cut = line[pos := NUL];
             dir = (cut ! (pos - 1) = CHR ''/'');
             cut = (if dir then cut[pos - 1 := NUL] else cut);
             name = takeWhile (\<lambda>c. c \<noteq> NUL) (drop st cut);
             fle = zero_file \<lparr> gf_st_mode := (if dir then S_IFDIR OR S_IRUSR OR S_IWUSR OR S_IXUSR OR S_IRGRP OR S_IXGRP OR
                                                  S_IROTH OR S_IXOTH else plain_file_mode) \<rparr>
         in if CHR ''/'' \<in> set name \<or> starts_with ''mailto:'' name \<or> name = [] \<or> hd name = CHR ''?'' then Some (0, fle, cut)
            else
              let fle = fle \<lparr> gf_file := Some name \<rparr>;
                  line = (if cut ! (pos - 1) = NUL then cut[pos - 1 := CHR ''/''] else cut)[pos := CHR ''\"'']
              in case either ''</A>'' ''</a>'' (drop (pos + 1) line) of
                   None \<Rightarrow> Some (0, fle, line)
                 | Some p \<Rightarrow>
                     (case skip_tags (length line) (drop 4 p) of
                        None \<Rightarrow> None
                      | Some None \<Rightarrow> Some (0, fle, line)
                      | Some (Some p) \<Rightarrow> map_option (\<lambda>fle. (1, fle, line)) (html_details tenv line p fle)))"

text \<open>Lines of the page until one is an entry. Every turn takes a byte at least.\<close>

fun html_loop :: "time_env \<Rightarrow> int \<Rightarrow> nat \<Rightarrow> (int \<times> gftp_file \<times> string) http_act" where
  "html_loop tenv fd 0 = stop Out_of_fuel"
| "html_loop tenv fd (Suc n) =
     and_then (http_get_line fd) (\<lambda>(ret, line).
       if ret \<le> 0 then give (ret, zero_file, [])
       else and_then (need line) (\<lambda>l.
            and_then (need (parse_html_line tenv l)) (\<lambda>(r, fle, l').
              if r = 0 \<or> gf_file fle = None then html_loop tenv fd n else give (ret, fle, l'))))"

definition page_fuel :: "int \<Rightarrow> http \<Rightarrow> nat" where
  "page_fuel fd s = length (case ht_rbuf s of None \<Rightarrow> [] | Some rb \<Rightarrow> unread rb) +
     length (or_empty (extra_read_buffer s)) + length (bytes_in (script (http_channel fd s))) + 2"

definition rfc2068_get_next_file :: "time_env \<Rightarrow> int \<Rightarrow> (int \<times> gftp_file) http_act" where
  "rfc2068_get_next_file tenv fd =
     and_then (change (on_http_req (\<lambda>rq. rq \<lparr> rq_last_dir_entry := None \<rparr>))) (\<lambda>_.
     and_then get_state (\<lambda>s.
     let fd = (if fd < 0 then rq_datafd (ht_req s) else fd) in
     and_then (html_loop tenv fd (page_fuel fd s)) (\<lambda>(ret, fle, line).
       if ret \<le> 0 then give (ret, zero_file)
       else and_then (change (on_http_req (\<lambda>rq. if rq_cached rq then rq
               else rq \<lparr> rq_last_dir_entry := Some (line @ [LF]), rq_last_dir_entry_len := length line + 1 \<rparr>))) (\<lambda>_.
            give (int (length line), fle)))))"


section \<open>The module\<close>

definition rfc2068_set_config_options :: "int http_act" where
  "rfc2068_set_config_options = give 0"

definition rfc2068_destroy :: "http \<Rightarrow> http" where
  "rfc2068_destroy s = on_http_req (\<lambda>rq. rq \<lparr> rq_url_prefix := None \<rparr>) (s \<lparr> ht_rbuf := None, extra_read_buffer := None \<rparr>)"

type_synonym http_world = "stuck + http"

definition on_http_world :: "'a \<Rightarrow> 'a http_act \<Rightarrow> gftp_request \<Rightarrow> http_world \<Rightarrow> 'a \<times> gftp_request \<times> http_world" where
  "on_http_world none m rq w =
    (case w of
       Inl e \<Rightarrow> (none, rq, Inl e)
     | Inr s \<Rightarrow> (case m (s \<lparr> ht_req := rq \<rparr>) of
                  Inl e \<Rightarrow> (none, rq, Inl e)
                | Inr (a, s') \<Rightarrow> (a, ht_req s', Inr s')))"

definition http_call :: "int http_act \<Rightarrow> http_world call" where
  "http_call = on_http_world GFTP_EFATAL"

definition http_silently :: "(http \<Rightarrow> http) \<Rightarrow> gftp_request \<Rightarrow> http_world \<Rightarrow> gftp_request \<times> http_world" where
  "http_silently f rq w = snd (on_http_world () (change f) rq w)"

definition rfc2068_ops :: "http_env \<Rightarrow> time_env \<Rightarrow> http_world proto_ops" where
  "rfc2068_ops env tenv =
     no_ops \<lparr>
       op_read_function := Some (\<lambda>n fd. on_http_world (Inl GFTP_EFATAL)
           (\<lambda>s. let (r, s) = rfc2068_chunked_read fd n n s in checked r s)),
       op_write_function := Some (\<lambda>p fd. http_call (http_write p)),
       op_destroy := Some (http_silently rfc2068_destroy),
       op_connect := Some (http_call (rfc2068_connect env)),
       op_disconnect := Some (http_silently rfc2068_disconnect),
       op_get_file := Some (\<lambda>f k. http_call (rfc2068_get_file env f k)),
       op_get_next_file_chunk := Some (\<lambda>n. on_http_world (Inl GFTP_EFATAL) (rfc2068_get_next_file_chunk n)),
       op_end_transfer := Some (http_call rfc2068_end_transfer),
       op_abort_transfer := Some (http_call rfc2068_end_transfer),
       op_list_files := Some (http_call (rfc2068_list_files env)),
       op_get_next_file := Some (\<lambda>fd. on_http_world (GFTP_EFATAL, zero_file) (rfc2068_get_next_file tenv fd)),
       op_get_file_size := Some (\<lambda>f. http_call (rfc2068_get_file_size env f)),
       op_chdir := Some (\<lambda>d. http_call (rfc2068_chdir env d)),
       op_set_config_options := Some (http_call rfc2068_set_config_options) \<rparr>"

definition GFTP_HTTP_NUM :: nat where [simp]: "GFTP_HTTP_NUM = 2"
definition GFTP_HTTPS_NUM :: nat where [simp]: "GFTP_HTTPS_NUM = 3"

definition http_request :: "gftp_request \<Rightarrow> gftp_request" where
  "http_request rq = rq \<lparr> rq_protonum := int GFTP_HTTP_NUM, rq_url_prefix := Some ''http'', rq_need_hostport := True,
     rq_need_username := False, rq_need_password := False, rq_use_cache := True, rq_always_connected := True,
     rq_use_local_encoding := False \<rparr>"

definition http_data :: "http \<Rightarrow> http" where
  "http_data s = s \<lparr> ht_rbuf := None, read_bytes := 0, chunk_size := 0, content_length := 0, chunked_transfer := False,
     ht_eof := False, read_ref_cnt := 0, extra_read_buffer := None, real_tls := False \<rparr>"

definition rfc2068_init ::
  "http_env \<Rightarrow> time_env \<Rightarrow> http_world connection \<Rightarrow> http_world \<Rightarrow> int \<times> http_world connection \<times> http_world" where
  "rfc2068_init env tenv c w =
     Requests.gftp_set_config_options
       \<lparr> con_req = http_request (con_req c), con_ops = rfc2068_ops env tenv \<rparr> (map_sum id http_data w)"

text \<open>\<open>lib/https.c\<close>: the read function of the connection is that of TLS, except while a cached listing is read.\<close>

definition https_get_next_file :: "time_env \<Rightarrow> int \<Rightarrow> (int \<times> gftp_file) http_act" where
  "https_get_next_file tenv fd =
     and_then get_state (\<lambda>s.
       let resetptr = rq_cached (ht_req s)
       in and_then (change (\<lambda>s. if resetptr then s \<lparr> real_tls := False \<rparr> else s)) (\<lambda>_.
          and_then (rfc2068_get_next_file tenv fd) (\<lambda>r.
          and_then (change (\<lambda>s. if resetptr then s \<lparr> real_tls := True \<rparr> else s)) (\<lambda>_. give r))))"

definition https_init ::
  "http_env \<Rightarrow> time_env \<Rightarrow> int http_act \<Rightarrow> int \<Rightarrow> http_world connection \<Rightarrow> http_world \<Rightarrow>
   int \<times> http_world connection \<times> http_world" where
  "https_init env tenv session_setup startup c w =
    (let (ret, c, w) = rfc2068_init (env \<lparr> he_post_connect := Some session_setup \<rparr>) tenv c w
     in if ret < 0 then (ret, c, w)
        else let c = \<lparr> con_req = (con_req c) \<lparr> rq_protonum := int GFTP_HTTPS_NUM, rq_url_prefix := Some ''https'' \<rparr>,
                       con_ops = (con_ops c) \<lparr> op_get_next_file := Some (\<lambda>fd. on_http_world (GFTP_EFATAL, zero_file) (https_get_next_file tenv fd)) \<rparr> \<rparr>
             in (if startup < 0 then startup else 0, c, map_sum id (\<lambda>s. s \<lparr> real_tls := True \<rparr>) w))"

end
