(* ===== verification/Http_Chunks.thy ===== *)
theory Http_Chunks
  imports Http
begin

text \<open>
  What the chunk decoder of \<open>lib/rfc2068.c\<close> makes of a body in chunked transfer coding, and the reads that
  leave the caller's buffer.
\<close>


section \<open>Chunks in one buffer\<close>

text \<open>A chunk: the text of its size, and its data.\<close>

type_synonym chunk = "string \<times> string"

definition size_text :: "int \<Rightarrow> string \<Rightarrow> bool" where
  "size_text v h \<longleftrightarrow> scan_hex h = Some v \<and> CR \<notin> set h \<and> NUL \<notin> set h"

definition chunk_ok :: "chunk \<Rightarrow> bool" where
  "chunk_ok c \<longleftrightarrow> snd c \<noteq> [] \<and> int (length (snd c)) < 2 ^ 63 \<and> size_text (int (length (snd c))) (fst c)"

definition chunk_text :: "chunk \<Rightarrow> string" where
  "chunk_text c = crlf @ fst c @ crlf @ snd c"

definition chunks_text :: "chunk list \<Rightarrow> string" where
  "chunks_text cs = concat (map chunk_text cs)"

definition chunks_data :: "chunk list \<Rightarrow> string" where
  "chunks_data cs = concat (map snd cs)"

lemma chunks_simps [simp]:
  "chunks_text [] = []" "chunks_text (c # cs) = chunk_text c @ chunks_text cs"
  "chunks_data [] = []" "chunks_data (c # cs) = snd c @ chunks_data cs"
  by (simp_all add: chunks_text_def chunks_data_def)

lemma length_crlf: "length crlf = 2"
  by (simp add: crlf_def)

lemma strstr_crlf: "CR \<notin> set h \<Longrightarrow> strstr (h @ CR # LF # t) [CR, LF] = Some (CR # LF # t)"
  by (induction h) auto

lemma size_line_at:
  assumes "size_text v h"
  shows "size_line (out' @ crlf @ h @ crlf @ t) (length out') = Some h"
proof -
  have nul: "takeWhile (\<lambda>c. c \<noteq> NUL) (h @ CR # LF # t) = h @ CR # LF # takeWhile (\<lambda>c. c \<noteq> NUL) t"
    using assms by (subst takeWhile_append2) (auto simp: size_text_def)
  have "strstr (h @ CR # LF # takeWhile (\<lambda>c. c \<noteq> NUL) t) [CR, LF] = Some (CR # LF # takeWhile (\<lambda>c. c \<noteq> NUL) t)"
    using assms by (intro strstr_crlf) (simp add: size_text_def)
  then show ?thesis by (simp add: size_line_def crlf_def nth_append nul before_append)
qed

text \<open>One turn of the loop at a complete size line.\<close>

lemma decode_turn:
  assumes "size_text v h" "chunk_size s = 0"
  shows "decode_chunks (out' @ crlf @ h @ crlf @ t @ [NUL]) (length out') (length out' + length h + 4 + length t) s =
    (if v = 0 then
       (if ht_eof s then Decoded [] s
        else Decoded (take (length out' + length t) (out' @ crlf @ h @ NUL # LF # t)) (s \<lparr> ht_eof := True \<rparr>))
     else if v mod 2 ^ 64 < int (length t)
     then decode_chunks (out' @ t @ [NUL]) (length out' + nat (v mod 2 ^ 64)) (length out' + length t) s
     else decode_chunks (out' @ t @ [NUL]) (length out') (length out' + length t)
            (s \<lparr> chunk_size := off_wrap (v - int (length t)) \<rparr>))"
proof -
  define B where "B = out' @ crlf @ h @ crlf @ t @ [NUL]"
  define B1 where "B1 = out' @ crlf @ h @ NUL # LF # t @ [NUL]"
  define M where "M = out' @ t @ [NUL]"
  have line: "size_line B (length out') = Some h"
    using size_line_at [OF assms(1), of out' "t @ [NUL]"] by (simp add: B_def)
  have v: "scan_hex h = Some v" using assms(1) by (simp add: size_text_def)
  have poke: "B[Suc (Suc (length out' + length h)) := NUL] = B1"
    by (simp add: B_def B1_def crlf_def list_update_append)
  have move: "take (length out') B1 @ drop (length out' + (length h + 4)) B1 = M"
    by (simp add: B1_def M_def crlf_def numeral_eq_Suc)
  have last: "take (length out' + length t) B1 = take (length out' + length t) (out' @ crlf @ h @ NUL # LF # t)"
  proof -
    have "B1 = (out' @ crlf @ h @ NUL # LF # t) @ [NUL]" by (simp add: B1_def)
    then show ?thesis by (simp only: take_append) (simp add: crlf_def)
  qed
  have s: "s \<lparr> chunk_size := 0 \<rparr> = s" using assms(2) by simp
  show ?thesis
    unfolding B_def [symmetric] M_def [symmetric]
    by (subst decode_chunks.simps) (simp add: line v poke move last s assms(2) Let_def)
qed

lemma decode_stops: "chunk_size s \<noteq> 0 \<Longrightarrow> decode_chunks buf stpos sret s = Decoded (take sret buf) s"
  by (subst decode_chunks.simps) simp

lemma decode_at_end: "sret \<le> stpos \<Longrightarrow> decode_chunks buf stpos sret s = Decoded (take sret buf) s"
  by (subst decode_chunks.simps) simp


text \<open>A state between chunks.\<close>

definition between_chunks :: "http \<Rightarrow> bool" where
  "between_chunks s \<longleftrightarrow> chunk_size s = 0 \<and> \<not> ht_eof s"

lemma decode_chunks_run:
  assumes "\<forall>c \<in> set cs. chunk_ok c" "chunk_size s = 0" "rest \<noteq> []"
  shows "decode_chunks (out' @ chunks_text cs @ rest @ [NUL]) (length out') (length out' + length (chunks_text cs @ rest)) s =
    decode_chunks ((out' @ chunks_data cs) @ rest @ [NUL]) (length (out' @ chunks_data cs))
      (length (out' @ chunks_data cs) + length rest) s"
  using assms(1)
proof (induction cs arbitrary: out')
  case (Cons c cs)
  obtain h d where c: "c = (h, d)" by (cases c)
  have ok: "d \<noteq> []" "int (length d) < 2 ^ 63" "size_text (int (length d)) h"
    using Cons.prems by (auto simp: c chunk_ok_def)
  have m: "int (length d) mod 2 ^ 64 = int (length d)" using ok(2) by simp
  have next': "int (length d) < int (length (d @ chunks_text cs @ rest))"
    using assms(3) by (cases rest) auto
  have z: "int (length d) \<noteq> 0" using ok(1) by simp
  have "decode_chunks (out' @ crlf @ h @ crlf @ (d @ chunks_text cs @ rest) @ [NUL]) (length out')
      (length out' + length h + 4 + length (d @ chunks_text cs @ rest)) s =
      decode_chunks (out' @ (d @ chunks_text cs @ rest) @ [NUL]) (length out' + nat (int (length d)))
        (length out' + length (d @ chunks_text cs @ rest)) s"
    unfolding decode_turn [OF ok(3) assms(2)] m using next' z by (simp only: if_True if_False)
  moreover have "decode_chunks ((out' @ d) @ chunks_text cs @ rest @ [NUL]) (length (out' @ d))
      (length (out' @ d) + length (chunks_text cs @ rest)) s =
      decode_chunks (((out' @ d) @ chunks_data cs) @ rest @ [NUL]) (length ((out' @ d) @ chunks_data cs))
        (length ((out' @ d) @ chunks_data cs) + length rest) s"
    using Cons.prems by (intro Cons.IH) simp
  ultimately show ?case
    by (simp add: c chunk_text_def crlf_def add.assoc add.commute add.left_commute numeral_eq_Suc)
qed simp



definition example_http :: http where
  "example_http = \<lparr> ht_req = zero_request \<lparr> rq_datafd := 5, rq_hostname := Some ''h'' \<rparr>, ht_rbuf = None, read_bytes = 0, chunk_size = 0,
     content_length = 0, chunked_transfer = True, ht_eof = False, read_ref_cnt = 0, extra_read_buffer = None,
     real_tls = False, ht_opts = \<lparr> opt_http_proxy_host = None, opt_http_proxy_port = 80, opt_http_proxy_username = None,
       opt_http_proxy_password = None, opt_use_http11 = True, opt_http_proxy_config = None \<rparr>,
     ht_in = quiet_channel, ht_out = quiet_channel, ht_cache = quiet_channel, ht_dials = [], overrun = False \<rparr>"

lemmas scan_simps' = scan_hex_def hex_digit_def is_space_def is_digit_def code_of_def to_lower_def off_wrap_def digit_val_def


text \<open>The last chunk is the size 0 and an empty line. The decoder passes on as data as many bytes as follow the
  size, which it takes from the place where the size begins: the file ends in a line end that was not sent.\<close>

theorem last_chunk_adds_crlf:
  assumes "\<forall>c \<in> set cs. chunk_ok c" "between_chunks s"
  shows "decode_chunks (chunks_text cs @ crlf @ ''0'' @ crlf @ crlf @ [NUL]) 0 (length (chunks_text cs @ crlf @ ''0'' @ crlf @ crlf)) s =
    Decoded (chunks_data cs @ crlf) (s \<lparr> ht_eof := True \<rparr>)"
proof -
  have z: "size_text 0 ''0''"
    by (simp add: size_text_def scan_simps')
  have s: "chunk_size s = 0" "\<not> ht_eof s" using assms(2) by (simp_all add: between_chunks_def)
  have "decode_chunks ([] @ chunks_text cs @ (crlf @ ''0'' @ crlf @ crlf) @ [NUL]) (length ([] :: string))
      (length ([] :: string) + length (chunks_text cs @ crlf @ ''0'' @ crlf @ crlf)) s =
      decode_chunks (([] @ chunks_data cs) @ (crlf @ ''0'' @ crlf @ crlf) @ [NUL]) (length ([] @ chunks_data cs))
        (length ([] @ chunks_data cs) + length (crlf @ ''0'' @ crlf @ crlf)) s"
    using assms(1) s(1) by (intro decode_chunks_run) (auto simp: crlf_def)
  also have "length ([] @ chunks_data cs) + length (crlf @ ''0'' @ crlf @ crlf) =
      length (chunks_data cs) + length ''0'' + 4 + length crlf"
    by (simp add: crlf_def)
  also have "decode_chunks (([] @ chunks_data cs) @ (crlf @ ''0'' @ crlf @ crlf) @ [NUL]) (length ([] @ chunks_data cs))
      (length (chunks_data cs) + length ''0'' + 4 + length crlf) s = Decoded (chunks_data cs @ crlf) (s \<lparr> ht_eof := True \<rparr>)"
    using decode_turn [OF z s(1), of "chunks_data cs" crlf] s(2) by (simp add: crlf_def)
  finally show ?thesis by simp
qed


theorem last_chunk_adds_crlf_witness:
  "decode_chunks (crlf @ ''5'' @ crlf @ ''hello'' @ crlf @ ''0'' @ crlf @ crlf @ [NUL]) 0 17 example_http =
     Decoded (''hello'' @ crlf) (example_http \<lparr> ht_eof := True \<rparr>)"
proof -
  have c: "\<forall>c \<in> set [(''5'', ''hello'')]. chunk_ok c"
    by (simp add: chunk_ok_def size_text_def scan_simps')
  have s: "between_chunks example_http" by (simp add: between_chunks_def example_http_def)
  from last_chunk_adds_crlf [OF c s] show ?thesis by (simp add: chunk_text_def crlf_def numeral_eq_Suc)
qed


section \<open>Reads\<close>

lemma channel_sel [simp]:
  "http_channel fd (put_channel fd ch s) = ch"
  "http_channel fd (s \<lparr> read_ref_cnt := c \<rparr>) = http_channel fd s"
  "http_channel fd (s \<lparr> extra_read_buffer := x \<rparr>) = http_channel fd s"
  "http_channel fd (s \<lparr> read_bytes := b \<rparr>) = http_channel fd s"
  "http_channel fd (s \<lparr> chunk_size := k \<rparr>) = http_channel fd s"
  by (simp_all add: http_channel_def put_channel_def)

lemma put_sel [simp]:
  "read_ref_cnt (put_channel fd ch s) = read_ref_cnt s" "extra_read_buffer (put_channel fd ch s) = extra_read_buffer s"
  "read_bytes (put_channel fd ch s) = read_bytes s" "chunk_size (put_channel fd ch s) = chunk_size s"
  "ht_eof (put_channel fd ch s) = ht_eof s" "chunked_transfer (put_channel fd ch s) = chunked_transfer s"
  "content_length (put_channel fd ch s) = content_length s" "overrun (put_channel fd ch s) = overrun s"
  "ht_rbuf (put_channel fd ch s) = ht_rbuf s" "ht_req (put_channel fd ch s) = ht_req s"
  by (simp_all add: put_channel_def)

lemma put_channel_update [simp]:
  "put_channel fd ch (s \<lparr> read_ref_cnt := c \<rparr>) = (put_channel fd ch s) \<lparr> read_ref_cnt := c \<rparr>"
  "put_channel fd ch (s \<lparr> extra_read_buffer := x \<rparr>) = (put_channel fd ch s) \<lparr> extra_read_buffer := x \<rparr>"
  "put_channel fd ch (s \<lparr> read_bytes := b \<rparr>) = (put_channel fd ch s) \<lparr> read_bytes := b \<rparr>"
  "put_channel fd ch (s \<lparr> chunk_size := k \<rparr>) = (put_channel fd ch s) \<lparr> chunk_size := k \<rparr>"
  by (simp_all add: put_channel_def)

lemma real_read_bytes:
  assumes "script (http_channel fd s) = Bytes_in b # evs" "length b \<le> n" "\<not> disconnected (http_channel fd s)"
  shows "real_read fd n s = (Inr b, put_channel fd ((http_channel fd s) \<lparr> script := evs \<rparr>) s)"
  using assms by (cases "http_channel fd s") (simp add: real_read_def gftp_fd_read_def http_after_io_def)

lemma real_read_closed:
  assumes "script (http_channel fd s) = []" "\<not> disconnected (http_channel fd s)"
  shows "real_read fd n s = (Inr [], put_channel fd ((http_channel fd s) \<lparr> script := [] \<rparr>) s)"
  using assms by (cases "http_channel fd s") (simp add: real_read_def gftp_fd_read_def http_after_io_def)

lemma chunked_read_done:
  "chunked_turn fd k room s = Done r s' \<Longrightarrow> rfc2068_chunked_read fd k room s = (r, s')"
  by (subst rfc2068_chunked_read.simps) simp

lemma chunked_read_again:
  "chunked_turn fd k room s = Again t \<Longrightarrow> rfc2068_chunked_read fd k room t = (Inr d, s') \<Longrightarrow>
   rfc2068_chunked_read fd k room s = (Inr d, unref s')"
  by (subst rfc2068_chunked_read.simps) simp

lemma decode_no_size:
  assumes "chunk_size s = 0" "d \<noteq> []" "hd d \<noteq> CR"
  shows "decode_chunks (d @ [NUL]) 0 (length d) s = Starved (s \<lparr> extra_read_buffer := Some d \<rparr>)"
proof -
  have "size_line (d @ [NUL]) 0 = None" using assms(2,3) by (cases d) (simp_all add: size_line_def)
  then show ?thesis using assms by (subst decode_chunks.simps) (simp add: Let_def)
qed

text \<open>A chunk whose data ends where a read ends, which is what a server that writes chunk by chunk sends: the loop
  goes around once more, looks for the next size in the data it has just delivered, keeps the data as a size that
  is not complete, and from then on never finds one. The read gives 0, which the callers take for the end of the
  file: this chunk and all that follows is lost without an error.\<close>

theorem chunk_end_lost:
  assumes "between_chunks s" "chunked_transfer s" "content_length s \<le> 0" "extra_read_buffer s = None" "read_ref_cnt s = 0"
    and "script (http_channel fd s) = [Bytes_in (crlf @ h @ crlf @ d), Bytes_in t]" "\<not> disconnected (http_channel fd s)"
    and "chunk_ok (h, d)" "hd d \<noteq> CR" "t \<noteq> []" "length (crlf @ h @ crlf @ d) + length t < size'" "size' \<le> room"
  shows "\<exists>s'. rfc2068_chunked_read fd size' room s = (Inr [], s') \<and> extra_read_buffer s' = None \<and>
    script (http_channel fd s') = []"
proof -
  define b where "b = crlf @ h @ crlf @ d"
  let ?ch = "http_channel fd s"
  have d: "d \<noteq> []" "size_text (int (length d)) h" "int (length d) mod 2 ^ 64 = int (length d)"
    using assms(8) by (auto simp: chunk_ok_def)
  have s: "chunk_size s = 0" "\<not> ht_eof s" using assms(1) by (simp_all add: between_chunks_def)
  have b: "b \<noteq> []" "length b = 0 + length h + 4 + length d" "script ?ch = [Bytes_in b, Bytes_in t]"
    using assms(6) by (simp_all add: b_def crlf_def)
  have size': "length b + length t < size'" using assms(11) by (simp add: b_def)
  have lengths: "length b \<le> size' - 1" "0 < size'" "length b < room" "length d < size'" "length (d @ t) < size'" "length (d @ t) < room"
      "length t \<le> size' - length d" "0 < size' - length d" "size' \<noteq> size' - length d"
  proof -
    have "size' - length d < size'" using d(1) size' by (intro diff_less) auto
    then show "size' \<noteq> size' - length d" by simp
  qed (use size' assms(12) b(2) in auto)
  have no_end: "take 5 d \<noteq> [CR, LF, CHR ''0'', CR, LF]" "take 5 d @ take (5 - length d) t \<noteq> [CR, LF, CHR ''0'', CR, LF]"
    using d(1) assms(9) by (cases d; auto)+
  have dt: "d @ t \<noteq> []" "hd (d @ t) \<noteq> CR" using d(1) assms(9) by simp_all
  let ?s1 = "(put_channel fd (?ch \<lparr> script := [Bytes_in t] \<rparr>) (s \<lparr> read_ref_cnt := 1 \<rparr>))
      \<lparr> read_bytes := read_bytes s + length b, extra_read_buffer := Some d \<rparr>"
  have dec1: "decode_chunks (b @ [NUL]) 0 (length b) u = Starved (u \<lparr> extra_read_buffer := Some d \<rparr>)"
    if "chunk_size u = 0" for u
  proof -
    have u: "u \<lparr> chunk_size := 0 \<rparr> = u" using that by simp
    show ?thesis
      unfolding b(2) unfolding b_def
      using decode_turn [OF d(2) that, of "[]" d] decode_no_size [OF that d(1) assms(9)] d(1,3)
      by (simp add: u off_wrap_id)
  qed
  have t1: "chunked_turn fd size' room s = Again ?s1"
    using assms(2-5) s lengths dec1 b(1) assms(7)
    by (simp add: chunked_turn_def read_limit_def read_more_def after_read_def Let_def real_read_bytes [OF _ _ _, of _ _ b "[Bytes_in t]"] b(3))
  let ?s2 = "(put_channel fd (?ch \<lparr> script := [] \<rparr>) (?s1 \<lparr> read_ref_cnt := 2 \<rparr>))
      \<lparr> read_bytes := read_bytes ?s1 + length t, extra_read_buffer := Some (d @ t) \<rparr>"
  have t2: "chunked_turn fd size' room ?s1 = Again ?s2"
    using assms(2,3,9,10) s lengths d(1) assms(7) no_end decode_no_size [OF _ dt]
    by (simp add: chunked_turn_def read_more_def after_read_def real_read_bytes Let_def)
  obtain s3 where t3: "chunked_turn fd size' room ?s2 = Done (Inr []) s3" "extra_read_buffer s3 = None"
      "script (http_channel fd s3) = []"
    using assms(2,3,9,10) s lengths d(1) assms(7) no_end
    by (auto simp: chunked_turn_def read_more_def real_read_closed unref_def Let_def)
  have "rfc2068_chunked_read fd size' room s = (Inr [], unref (unref s3))"
    using chunked_read_again [OF t1 chunked_read_again [OF t2 chunked_read_done [OF t3(1)]]] .
  then show ?thesis using t3(2,3) by (simp add: unref_def)
qed


theorem chunk_end_lost_witness:
  "\<exists>s'. rfc2068_chunked_read 5 100 100 (example_http \<lparr> ht_in := quiet_channel \<lparr> script :=
      [Bytes_in (crlf @ ''5'' @ crlf @ ''hello''), Bytes_in (crlf @ ''0'' @ crlf @ crlf)] \<rparr> \<rparr>) = (Inr [], s') \<and>
    extra_read_buffer s' = None"
proof -
  have c: "chunk_ok (''5'', ''hello'')" by (simp add: chunk_ok_def size_text_def scan_simps')
  show ?thesis
    using chunk_end_lost [of "example_http \<lparr> ht_in := quiet_channel \<lparr> script :=
        [Bytes_in (crlf @ ''5'' @ crlf @ ''hello''), Bytes_in (crlf @ ''0'' @ crlf @ crlf)] \<rparr> \<rparr>" 5, OF _ _ _ _ _ _ _ c, of "crlf @ ''0'' @ crlf @ crlf" 100 100]
    by (auto simp: example_http_def between_chunks_def http_channel_def quiet_channel_def crlf_def)
qed

end
