(* ===== verification/Http_Sessions.thy ===== *)
theory Http_Sessions
  imports Http_Chunks
begin

text \<open>
  Whole exchanges of \<open>lib/rfc2068.c\<close>: the headers of a reply, downloads, and the pages of a listing.
\<close>


section \<open>Lines that are in the buffer\<close>

text \<open>What the buffer holds from its cursor on; only the first \<open>cur_bufsize\<close> of it are data.\<close>

definition ahead :: "getline_buffer \<Rightarrow> string" where
  "ahead rb = drop (curpos rb) (buffer rb)"

lemma line_in_buffer:
  assumes "ahead rb = l @ LF # rest" "LF \<notin> set l" "NUL \<notin> set l" "length l < cur_bufsize rb"
  shows "\<exists>rb'. gftp_get_line rd (Some rb) len s = Inr (int (length l + 1), Some (take (len - 1) (chop_cr l)), Some rb', s) \<and>
    ahead rb' = rest \<and> cur_bufsize rb' = cur_bufsize rb - (length l + 1) \<and> max_bufsize rb' = max_bufsize rb \<and> eof rb' = eof rb"
proof -
  have q: "mem_strchr (drop (curpos rb) (buffer rb)) LF = Some (Some (LF # rest))"
    using assms(1-3) by (simp add: ahead_def mem_strchr_hit)
  define u where "u = take (curpos rb) (buffer rb)"
  have p: "drop (curpos rb) (buffer rb) = l @ LF # rest" using assms(1) by (simp add: ahead_def)
  then have "curpos rb \<le> length (buffer rb)" by (metis append_is_Nil_conv drop_all linear list.distinct(1))
  then have b: "buffer rb = u @ l @ LF # rest" "length u = curpos rb"
    unfolding u_def using p append_take_drop_id [of "curpos rb" "buffer rb"] by simp_all
  have deliver: "gftp_get_line rd (Some rb) len s = deliver_line rb len s (Some (LF # rest))"
  proof -
    obtain n where n: "max_bufsize rb + 3 = Suc n" by (cases "max_bufsize rb + 3") auto
    show ?thesis using q assms(4) by (simp add: gftp_get_line_def n)
  qed
  have size': "size_sub (cur_bufsize rb) (length l + 1) = cur_bufsize rb - (length l + 1)"
    using assms(4) by (simp add: size_sub_def)
  show ?thesis
  proof (cases "l \<noteq> [] \<and> last l = CR")
    case True
    then obtain k where l: "l = k @ [CR]" by (metis append_butlast_last_id)
    have "store (buffer rb) (curpos rb + length k) [NUL] = Some (u @ k @ NUL # LF # rest)"
      using b by (simp add: store_def l)
    moreover have "cstr (k @ NUL # LF # rest) = Some k" using assms(3) by (simp add: l cstr_NUL)
    ultimately show ?thesis
      unfolding deliver using p b size' by (simp add: deliver_line_def Let_def l nth_append chop_cr_def ahead_def)
  next
    case False
    have "store (buffer rb) (curpos rb + length l) [NUL] = Some (u @ l @ NUL # rest)"
      using b by (simp add: store_def)
    moreover have "cstr (l @ NUL # rest) = Some l" using assms(3) by (simp add: cstr_NUL)
    moreover have "\<not> (0 < length l \<and> (l @ LF # rest) ! (length l - 1) = CR)"
      using False by (cases l rule: rev_cases) (auto simp: nth_append)
    ultimately show ?thesis
      unfolding deliver using p b size' False by (auto simp: deliver_line_def Let_def chop_cr_def ahead_def)
  qed
qed

section \<open>Headers\<close>

definition header_ok :: "string \<Rightarrow> bool" where
  "header_ok l \<longleftrightarrow> l \<noteq> [] \<and> CR \<notin> set l \<and> LF \<notin> set l \<and> NUL \<notin> set l \<and> (starts_with ''Content-Length:'' l \<longrightarrow> 16 \<le> length l)"

text \<open>The last Content-Length counts.\<close>

definition declared :: "int \<Rightarrow> string list \<Rightarrow> int" where
  "declared n hs = foldl (\<lambda>n l. if starts_with ''Content-Length:'' l then strtol10 (drop 16 l) else n) n hs"

definition head_text :: "string list \<Rightarrow> string" where
  "head_text hs = concat (map wire hs) @ crlf"

definition with_headers :: "getline_buffer \<Rightarrow> string list \<Rightarrow> http \<Rightarrow> http" where
  "with_headers rb hs s = s \<lparr> ht_req := (ht_req s) \<lparr> rq_last_ftp_response :=
       (if rq_last_ftp_response (ht_req s) = None then Some (hd (hs @ [[]])) else rq_last_ftp_response (ht_req s)) \<rparr>,
     ht_rbuf := Some rb, content_length := declared (content_length s) hs \<rparr>"

lemma http_line:
  assumes "ht_rbuf s = Some rb" "ahead rb = wire l @ rest" "CR \<notin> set l" "LF \<notin> set l" "NUL \<notin> set l"
    and "length (wire l) \<le> cur_bufsize rb" "cur_bufsize rb \<le> 8192" "\<not> overrun s"
  shows "\<exists>rb'. http_get_line fd s = Inr ((int (length l + 2), Some l), s \<lparr> ht_rbuf := Some rb' \<rparr>) \<and>
    ahead rb' = rest \<and> cur_bufsize rb' = cur_bufsize rb - length (wire l) \<and> max_bufsize rb' = max_bufsize rb \<and> eof rb' = eof rb"
proof -
  have a: "ahead rb = (l @ [CR]) @ LF # rest" using assms(2) by (simp add: wire_def crlf_def)
  have w: "length (wire l) = length l + 2" by (simp add: wire_def crlf_def)
  have t: "take 8191 l = l" using assms(6,7) by (simp add: w)
  obtain rb' where rb': "gftp_get_line (\<lambda>n. rfc2068_chunked_read fd n (n + 1)) (Some rb) 8192 s =
        Inr (int (length (l @ [CR]) + 1), Some (take (8192 - 1) (chop_cr (l @ [CR]))), Some rb', s)"
      "ahead rb' = rest" "cur_bufsize rb' = cur_bufsize rb - (length (l @ [CR]) + 1)" "max_bufsize rb' = max_bufsize rb" "eof rb' = eof rb"
    using line_in_buffer [OF a, of "\<lambda>n. rfc2068_chunked_read fd n (n + 1)" 8192 s] assms(4-6) by (auto simp: w)
  then show ?thesis
    using assms(1,8) by (intro exI [of _ rb']) (simp add: http_get_line_def checked_def chop_cr_def t w)
qed

definition with_header :: "string \<Rightarrow> http \<Rightarrow> http" where
  "with_header l s = (on_http_req (\<lambda>rq. if rq_last_ftp_response rq = None then rq \<lparr> rq_last_ftp_response := Some l \<rparr> else rq) s)
     \<lparr> content_length := declared (content_length s) [l] \<rparr>"

lemma header_step:
  assumes "http_get_line (rq_datafd (ht_req s)) s = Inr ((k, Some l), s1)" "0 \<le> k" "header_ok l"
  shows "header_loop (Suc m) t chunked s = header_loop m l (chunked \<or> l = chunked_header) (with_header l s1)"
proof -
  have l: "l \<noteq> []" "starts_with ''Content-Length:'' l \<Longrightarrow> \<not> length l < 16" using assms(3) by (auto simp: header_ok_def)
  have other: "starts_with ''Content-Length:'' l \<Longrightarrow> l \<noteq> chunked_header" by (auto simp: chunked_header_def)
  show ?thesis using assms(1,2) l other
    by (auto simp: act_simps header_line_def with_header_def on_http_req_def declared_def Let_def disj_commute split: if_splits)
qed

lemma header_loop_buffered:
  assumes "ht_rbuf s = Some rb" "ahead rb = head_text hs @ rest" "\<forall>l \<in> set hs. header_ok l"
    and "length (head_text hs) \<le> cur_bufsize rb" "cur_bufsize rb \<le> 8192" "\<not> overrun s" "length hs < n"
  shows "\<exists>rb'. header_loop n t chunked s =
      Inr ((0, chunked \<or> chunked_header \<in> set hs), with_headers rb' hs s) \<and>
    ahead rb' = rest \<and> cur_bufsize rb' = cur_bufsize rb - length (head_text hs)"
  using assms
proof (induction hs arbitrary: n t chunked s rb)
  case Nil
  obtain m where n: "n = Suc m" using Nil.prems(7) by (cases n) auto
  obtain rb' where rb': "http_get_line (rq_datafd (ht_req s)) s = Inr ((2, Some []), s \<lparr> ht_rbuf := Some rb' \<rparr>)"
      "ahead rb' = rest" "cur_bufsize rb' = cur_bufsize rb - 2"
    using http_line [OF Nil.prems(1), of "[]" rest "rq_datafd (ht_req s)"] Nil.prems(2,4-6)
    by (auto simp: head_text_def wire_def crlf_def)
  then show ?case
    by (intro exI [of _ rb']) (simp add: n act_simps with_headers_def declared_def on_http_req_def head_text_def crlf_def)
next
  case (Cons l hs)
  obtain m where n: "n = Suc m" "length hs < m" using Cons.prems(7) by (cases n) auto
  have l: "header_ok l" "l \<noteq> []" "CR \<notin> set l" "LF \<notin> set l" "NUL \<notin> set l"
      "starts_with ''Content-Length:'' l \<Longrightarrow> \<not> length l < 16"
    using Cons.prems(3) by (auto simp: header_ok_def)
  obtain rb1 where rb1: "http_get_line (rq_datafd (ht_req s)) s = Inr ((int (length l + 2), Some l), s \<lparr> ht_rbuf := Some rb1 \<rparr>)"
      "ahead rb1 = head_text hs @ rest" "cur_bufsize rb1 = cur_bufsize rb - length (wire l)"
    using http_line [OF Cons.prems(1), of l "head_text hs @ rest" "rq_datafd (ht_req s)"] l Cons.prems(2,4-6)
    by (auto simp: head_text_def)
  define s1 where "s1 = with_header l (s \<lparr> ht_rbuf := Some rb1 \<rparr>)"
  have s1: "ht_rbuf s1 = Some rb1" "\<not> overrun s1" "rq_last_ftp_response (ht_req s1) \<noteq> None"
    using Cons.prems(6) by (auto simp: s1_def with_header_def on_http_req_def)
  have step: "header_loop n t chunked s = header_loop m l (chunked \<or> l = chunked_header) s1"
    using header_step [OF rb1(1) _ l(1)] by (simp add: n s1_def)
  have c: "length (head_text hs) \<le> cur_bufsize rb1" "cur_bufsize rb1 \<le> 8192"
    using Cons.prems(4,5) rb1(3) by (simp_all add: head_text_def)
  obtain rb' where rb': "header_loop m l (chunked \<or> l = chunked_header) s1 =
      Inr ((0, (chunked \<or> l = chunked_header) \<or> chunked_header \<in> set hs), with_headers rb' hs s1)"
      "ahead rb' = rest" "cur_bufsize rb' = cur_bufsize rb1 - length (head_text hs)"
    using Cons.IH [OF s1(1) rb1(2) _ c s1(2) n(2), of l "chunked \<or> l = chunked_header"] Cons.prems(3) by auto
  have "with_headers rb' hs s1 = with_headers rb' (l # hs) s"
    using s1(3) by (simp add: with_headers_def s1_def with_header_def on_http_req_def declared_def)
  then show ?case
    using rb' rb1(3) step by (intro exI [of _ rb']) (auto simp: head_text_def)
qed

text \<open>Between exchanges: nothing is buffered, and no body is being read.\<close>

definition at_rest :: "http \<Rightarrow> bool" where
  "at_rest s \<longleftrightarrow> ht_rbuf s = None \<and> \<not> chunked_transfer s \<and> \<not> overrun s \<and> \<not> real_tls s"

definition no_body :: "http \<Rightarrow> bool" where
  "no_body s \<longleftrightarrow> content_length s = 0 \<and> chunk_size s = 0 \<and> \<not> ht_eof s \<and> extra_read_buffer s = None"

lemma first_read:
  assumes "at_rest s" "no_body s" "script (http_channel fd s) = Bytes_in data # evs" "\<not> disconnected (http_channel fd s)"
    and "data \<noteq> []" "length data \<le> 8191"
  shows "rfc2068_chunked_read fd 8192 8193 s =
    (Inr data, (put_channel fd ((http_channel fd s) \<lparr> script := evs \<rparr>) s) \<lparr> read_bytes := read_bytes s + length data \<rparr>)"
proof -
  let ?s = "(put_channel fd ((http_channel fd s) \<lparr> script := evs \<rparr>) s) \<lparr> read_ref_cnt := read_ref_cnt s + 1, read_bytes := read_bytes s + length data \<rparr>"
  have "chunked_turn fd 8192 8193 s = Done (Inr data) (unref ?s)"
    using assms by (simp add: chunked_turn_def read_limit_def read_more_def after_read_def real_read_bytes at_rest_def no_body_def Let_def)
  then show ?thesis by (simp add: chunked_read_done unref_def)
qed

lemma http_first_line:
  assumes "at_rest s" "no_body s" "script (http_channel fd s) = Bytes_in data # evs" "\<not> disconnected (http_channel fd s)"
    and "length data \<le> 8191" "data = wire l @ rest" "CR \<notin> set l" "LF \<notin> set l" "NUL \<notin> set l"
  shows "\<exists>rb z. http_get_line fd s = Inr ((int (length l + 2), Some l), (put_channel fd ((http_channel fd s) \<lparr> script := evs \<rparr>) s)
        \<lparr> read_bytes := read_bytes s + length data, ht_rbuf := Some rb \<rparr>) \<and>
    ahead rb = rest @ NUL # z \<and> cur_bufsize rb = length rest \<and> max_bufsize rb = 8192 \<and> \<not> eof rb"
proof -
  let ?rd = "\<lambda>n. rfc2068_chunked_read fd n (n + 1)"
  let ?s = "(put_channel fd ((http_channel fd s) \<lparr> script := evs \<rparr>) s) \<lparr> read_bytes := read_bytes s + length data \<rparr>"
  let ?b = "data @ NUL # replicate (8192 - length data) NUL"
  let ?rb = "\<lparr> buffer = ?b, curpos = 0, max_bufsize = 8192, cur_bufsize = length data, eof = False \<rparr>"
  have d: "data \<noteq> []" "length data = length l + 2 + length rest" using assms(6) by (auto simp: wire_def crlf_def)
  have rd: "?rd 8192 s = (Inr data, ?s)" using first_read [OF assms(1-4) d(1) assms(5)] by simp
  have n: "8193 - length data = Suc (8192 - length data)" using assms(5) by simp
  have st: "store (replicate 8193 NUL) 0 data = Some (data @ NUL # replicate (8192 - length data) NUL)"
      "store ?b (length data) [NUL] = Some ?b"
    using assms(5) n by (simp_all add: store_def)
  have "gftp_get_line ?rd None 8192 s = gftp_get_line ?rd (Some ?rb) 8192 ?s"
    using rd st d(1) by (cases data) (simp_all add: gftp_get_line_def)
  moreover have a: "ahead ?rb = (l @ [CR]) @ LF # (rest @ NUL # replicate (8192 - length data) NUL)"
    by (simp add: ahead_def assms(6) wire_def crlf_def)
  obtain rb where rb: "gftp_get_line ?rd (Some ?rb) 8192 ?s =
        Inr (int (length (l @ [CR]) + 1), Some (take (8192 - 1) (chop_cr (l @ [CR]))), Some rb, ?s)"
      "ahead rb = rest @ NUL # replicate (8192 - length data) NUL" "cur_bufsize rb = length data - (length (l @ [CR]) + 1)" "max_bufsize rb = 8192" "\<not> eof rb"
    using line_in_buffer [OF a, of ?rd 8192 ?s] assms(8,9) d(2) by auto
  moreover have "take 8191 l = l" using d(2) assms(5) by simp
  moreover have "\<not> overrun ?s" using assms(1) by (simp add: at_rest_def)
  ultimately show ?thesis
    using assms(1) d(2) by (auto simp: http_get_line_def checked_def chop_cr_def at_rest_def)
qed

section \<open>Downloads\<close>

text \<open>A reply whose headers come with the first read, followed by the part \<open>b\<close> of the body.\<close>

definition replies :: "channel \<Rightarrow> string list \<Rightarrow> string \<Rightarrow> sys_event list \<Rightarrow> bool" where
  "replies ch hs b evs \<longleftrightarrow> script ch = Bytes_in (head_text hs @ b) # evs \<and> \<not> disconnected ch \<and>
     hs \<noteq> [] \<and> (\<forall>l \<in> set hs. header_ok l) \<and> chunked_header \<notin> set hs \<and> length (head_text hs @ b) \<le> 8191"

text \<open>The state in which the body is read: \<open>b\<close> is in the line buffer, \<open>ch\<close> has the rest.\<close>

definition serving :: "string \<Rightarrow> channel \<Rightarrow> int \<Rightarrow> http \<Rightarrow> bool" where
  "serving b ch n s \<longleftrightarrow> \<not> chunked_transfer s \<and> \<not> ht_eof s \<and> chunk_size s = 0 \<and> extra_read_buffer s = None \<and> \<not> overrun s \<and>
     content_length s = n \<and> http_channel (rq_datafd (ht_req s)) s = ch \<and>
     (\<exists>rb z. ht_rbuf s = Some rb \<and> ahead rb = b @ NUL # z \<and> cur_bufsize rb = length b)"

lemma length_head: "2 * length hs \<le> length (head_text hs)"
  by (induction hs) (simp_all add: head_text_def wire_def crlf_def)

lemma read_response_buffered:
  assumes "at_rest s" "replies (http_channel (rq_datafd (ht_req s)) s) hs b evs"
  shows "\<exists>s'. rfc2068_read_response s = Inr (max 0 (declared 0 hs), s') \<and>
    serving b ((http_channel (rq_datafd (ht_req s)) s) \<lparr> script := evs \<rparr>) (declared 0 hs) s' \<and>
    ht_req s' = (ht_req s) \<lparr> rq_last_ftp_response := Some (hd hs) \<rparr> \<and> ht_out s' = ht_out s"
proof -
  let ?fd = "rq_datafd (ht_req s)"
  let ?s0 = "fresh_response s"
  have s0: "at_rest ?s0" "no_body ?s0" "http_channel ?fd ?s0 = http_channel ?fd s" "rq_datafd (ht_req ?s0) = ?fd"
      "rq_last_ftp_response (ht_req ?s0) = None" "content_length ?s0 = 0"
    using assms(1) by (auto simp: fresh_response_def on_http_req_def at_rest_def no_body_def http_channel_def)
  obtain l0 ls where hs: "hs = l0 # ls" using assms(2) by (cases hs) (auto simp: replies_def)
  have r: "script (http_channel ?fd ?s0) = Bytes_in (head_text hs @ b) # evs" "\<not> disconnected (http_channel ?fd ?s0)"
      "length (head_text hs @ b) \<le> 8191" "header_ok l0" "\<forall>l \<in> set ls. header_ok l" "chunked_header \<notin> set hs"
    using assms(2) s0(3) by (auto simp: replies_def hs)
  have l0: "CR \<notin> set l0" "LF \<notin> set l0" "NUL \<notin> set l0" using r(4) by (auto simp: header_ok_def)
  have split: "head_text hs @ b = wire l0 @ (head_text ls @ b)" by (simp add: hs head_text_def)
  define s1 where "s1 = (put_channel ?fd ((http_channel ?fd ?s0) \<lparr> script := evs \<rparr>) ?s0)
      \<lparr> read_bytes := read_bytes ?s0 + length (head_text hs @ b) \<rparr>"
  obtain rb z where rb: "http_get_line ?fd ?s0 = Inr ((int (length l0 + 2), Some l0), s1 \<lparr> ht_rbuf := Some rb \<rparr>)"
      "ahead rb = (head_text ls @ b) @ NUL # z" "cur_bufsize rb = length (head_text ls @ b)"
    using http_first_line [OF s0(1,2) r(1-3) split l0] unfolding s1_def by blast
  define s2 where "s2 = with_header l0 (s1 \<lparr> ht_rbuf := Some rb \<rparr>)"
  have s2: "ht_rbuf s2 = Some rb" "\<not> overrun s2" "rq_last_ftp_response (ht_req s2) = Some l0"
    using s0 by (auto simp: s2_def s1_def with_header_def on_http_req_def at_rest_def)
  have fuel: "header_fuel ?s0 = Suc (length (head_text hs @ b) + length (bytes_in evs) + 1)" "length ls < length (head_text hs @ b) + length (bytes_in evs) + 1"
  proof -
    have "http_channel ?fd ?s0 = ht_in ?s0" using s0(4) by (simp add: http_channel_def)
    then show "header_fuel ?s0 = Suc (length (head_text hs @ b) + length (bytes_in evs) + 1)"
      using s0(1) r(1) by (simp add: header_fuel_def at_rest_def)
    show "length ls < length (head_text hs @ b) + length (bytes_in evs) + 1" using length_head [of hs] by (simp add: hs)
  qed
  obtain rb' where rb': "header_loop (length (head_text hs @ b) + length (bytes_in evs) + 1) l0 (False \<or> l0 = chunked_header) s2 =
        Inr ((0, (False \<or> l0 = chunked_header) \<or> chunked_header \<in> set ls), with_headers rb' ls s2)"
      "ahead rb' = b @ NUL # z" "cur_bufsize rb' = cur_bufsize rb - length (head_text ls)"
    using header_loop_buffered [OF s2(1), of ls "b @ NUL # z" "length (head_text hs @ b) + length (bytes_in evs) + 1" l0 "False \<or> l0 = chunked_header"]
      rb(2,3) r(3,5) s2(2) fuel(2) unfolding split by auto
  define s3 where "s3 = (with_headers rb' ls s2) \<lparr> chunked_transfer := False \<rparr>"
  define N where "N = length (head_text hs @ b) + length (bytes_in evs) + 1"
  have "header_loop (Suc N) [] False ?s0 = header_loop N l0 (False \<or> l0 = chunked_header) s2"
    unfolding s2_def by (rule header_step [OF _ _ r(4)]) (use rb(1) s0(4) in auto)
  then have loop: "header_loop (header_fuel ?s0) [] False ?s0 = Inr ((0, False), with_headers rb' ls s2)"
    using rb'(1) r(6) unfolding fuel N_def [symmetric] by (auto simp: hs simp del: header_loop.simps)
  have d: "declared (declared 0 [l0]) ls = declared 0 hs" by (simp add: hs declared_def)
  have c: "content_length s3 = declared 0 hs" "chunk_size s3 = 0" "ht_req s3 = (ht_req s) \<lparr> rq_last_ftp_response := Some (hd hs) \<rparr>" "ht_out s3 = ht_out s"
    using s0 d by (auto simp: s3_def with_headers_def s2_def with_header_def s1_def on_http_req_def no_body_def hs fresh_response_def put_channel_def)
  have "rfc2068_read_response s = Inr (max 0 (declared 0 hs), s3)"
    using loop c(1,2) by (auto simp: rfc2068_read_response_def act_simps body_size_def s3_def max_def)
  moreover have "serving b ((http_channel ?fd s) \<lparr> script := evs \<rparr>) (declared 0 hs) s3"
  proof -
    have rbuf: "ht_rbuf s3 = Some rb'" "cur_bufsize rb' = length b" using rb'(3) rb(3) by (simp_all add: s3_def with_headers_def)
    have inp: "ht_in s3 = (ht_in s) \<lparr> script := evs \<rparr>" "real_tls s3 = real_tls s"
      by (simp_all add: s3_def with_headers_def s2_def with_header_def s1_def on_http_req_def http_channel_def put_channel_def fresh_response_def)
    have flags: "\<not> chunked_transfer s3" "\<not> ht_eof s3" "extra_read_buffer s3 = None" "\<not> overrun s3"
      using s0(1,2) by (simp_all add: s3_def with_headers_def s2_def with_header_def s1_def on_http_req_def at_rest_def no_body_def)
    have "http_channel ?fd s3 = (http_channel ?fd s) \<lparr> script := evs \<rparr>" "rq_datafd (ht_req s3) = ?fd"
      using inp c(3) by (simp_all add: http_channel_def)
    then show ?thesis
      unfolding serving_def using c(1,2) flags rbuf rb'(2) by (intro conjI exI [of _ rb'] exI [of _ z]) simp_all
  qed
  ultimately show ?thesis using c(3,4) by blast
qed

text \<open>The loop of the callers: chunks until one is empty.\<close>

fun http_fetch :: "nat \<Rightarrow> nat \<Rightarrow> (int + string) http_act" where
  "http_fetch 0 n = stop Out_of_fuel"
| "http_fetch (Suc fuel) n =
     and_then (rfc2068_get_next_file_chunk n) (\<lambda>r.
       case r of
         Inl e \<Rightarrow> give (Inl e)
       | Inr d \<Rightarrow> if d = [] then give (Inr [])
                  else and_then (http_fetch fuel n) (\<lambda>r. give (map_sum id ((@) d) r)))"

definition in_body :: "int \<Rightarrow> http \<Rightarrow> bool" where
  "in_body n s \<longleftrightarrow> ht_rbuf s = None \<and> \<not> chunked_transfer s \<and> \<not> ht_eof s \<and> chunk_size s = 0 \<and> extra_read_buffer s = None \<and>
     \<not> overrun s \<and> content_length s = n \<and> open_data (http_channel (rq_datafd (ht_req s)) s) \<and> (0 < n \<longrightarrow> int (read_bytes s) \<le> n)"

definition due :: "http \<Rightarrow> string" where
  "due s = (let r = bytes_in (script (http_channel (rq_datafd (ht_req s)) s))
            in if 0 < content_length s then take (nat (content_length s - int (read_bytes s))) r else r)"

lemma real_read_open:
  assumes "open_data (http_channel fd s)"
  obtains d ch where "real_read fd n s = (Inr d, put_channel fd ch s)" "open_data ch"
    "bytes_in (script (http_channel fd s)) = d @ bytes_in (script ch)" "length d \<le> n"
    "0 < n \<Longrightarrow> d = [] \<Longrightarrow> bytes_in (script (http_channel fd s)) = []"
proof -
  obtain r ch where r: "gftp_fd_read n (http_channel fd s) = (r, ch)" by (cases "gftp_fd_read n (http_channel fd s)")
  obtain d where d: "r = Inr d" using ctl.rd_succeeds [OF assms, of n] r by (cases r) auto
  note f = ctl.rd_data [OF assms r [unfolded d]] ctl.rd_end [OF assms, of n ch] r d
  have "put_channel fd (ch \<lparr> disconnected := False \<rparr>) s = put_channel fd ch s"
    using f(1) by (cases ch) (simp add: open_data_def)
  then have "real_read fd n s = (Inr d, put_channel fd ch s)"
    using f by (simp add: real_read_def http_after_io_def open_data_def)
  then show thesis using f by (intro that [of d ch]) auto
qed

lemma body_chunk:
  assumes "in_body n s" "2 \<le> size'" "size' < 2 ^ 63"
  shows "\<exists>d s'. rfc2068_get_next_file_chunk size' s = Inr (Inr d, s') \<and> in_body n s' \<and> due s = d @ due s' \<and> (d = [] \<longrightarrow> due s = [])"
proof -
  let ?fd = "rq_datafd (ht_req s)" and ?s1 = "s \<lparr> read_ref_cnt := read_ref_cnt s + 1 \<rparr>"
  have b: "ht_rbuf s = None" "\<not> chunked_transfer s" "\<not> ht_eof s" "chunk_size s = 0" "extra_read_buffer s = None" "\<not> overrun s"
      "content_length s = n" "open_data (http_channel ?fd s)" "0 < n \<longrightarrow> int (read_bytes s) \<le> n"
    using assms(1) by (auto simp: in_body_def)
  have chunk: "rfc2068_get_next_file_chunk size' s = Inr (Inr d, s')"
    if "chunked_turn ?fd size' size' s = Done (Inr d) s'" "\<not> overrun s'" for d s'
    using chunked_read_done [OF that(1)] that(2) b(1) by (simp add: rfc2068_get_next_file_chunk_def act_simps checked_def)
  show ?thesis
  proof (cases "0 < n \<and> n = int (read_bytes s)")
    case True
    then have "chunked_turn ?fd size' size' s = Done (Inr []) s"
      using b by (simp add: chunked_turn_def read_limit_def Let_def unref_def)
    then show ?thesis using chunk b(6) assms(1) True b(7) by (intro exI [of _ "[]"] exI [of _ s]) (simp add: due_def Let_def)
  next
    case False
    define m where "m = (if 0 < n \<and> n < int (size' + read_bytes s) then nat (n - int (read_bytes s)) else size')"
    define k where "k = (if size' = m then m - 1 else m)"
    have limit: "read_limit size' ?s1 = Some m"
      using b False assms(2,3) by (auto simp: read_limit_def m_def)
    have m: "0 < m" "m \<le> size'" "0 < k" "k < size'" "0 < n \<Longrightarrow> int k \<le> n - int (read_bytes s)"
      using False b(9) assms(2) by (auto simp: m_def k_def split: if_splits)
    obtain d ch where r: "real_read ?fd k ?s1 = (Inr d, put_channel ?fd ch ?s1)" "open_data ch"
        "bytes_in (script (http_channel ?fd s)) = d @ bytes_in (script ch)" "length d \<le> k"
        "d = [] \<Longrightarrow> bytes_in (script (http_channel ?fd s)) = []"
      using real_read_open [of ?fd ?s1 k] b(8) m(3) by auto
    define s' where "s' = (put_channel ?fd ch s) \<lparr> read_bytes := read_bytes s + length d \<rparr>"
    have "chunked_turn ?fd size' size' s = Done (Inr d) s'"
      using b limit m r(1,4) unfolding chunked_turn_def read_more_def Let_def
      by (cases "d = []") (simp_all add: k_def [symmetric] after_read_def unref_def s'_def)
    moreover have "in_body n s'"
      using b r(2,4) m(5) by (auto simp: in_body_def s'_def)
    moreover have "due s = d @ due s'"
      using b(7) r(3,4) m(5) by (auto simp: due_def s'_def Let_def nat_diff_distrib nat_int_add)
    moreover have "d = [] \<longrightarrow> due s = []" using r(5) by (simp add: due_def Let_def)
    moreover have "\<not> overrun s'" using b(6) by (simp add: s'_def)
    ultimately show ?thesis using chunk by blast
  qed
qed


lemma fetch_body:
  "in_body n s \<Longrightarrow> 2 \<le> size' \<Longrightarrow> size' < 2 ^ 63 \<Longrightarrow> length (due s) < fuel \<Longrightarrow>
   \<exists>s'. http_fetch fuel size' s = Inr (Inr (due s), s')"
proof (induction fuel arbitrary: s)
  case (Suc fuel)
  obtain d s1 where s1: "rfc2068_get_next_file_chunk size' s = Inr (Inr d, s1)" "in_body n s1" "due s = d @ due s1"
      "d = [] \<longrightarrow> due s = []"
    using body_chunk [OF Suc.prems(1-3)] by blast
  show ?case
  proof (cases "d = []")
    case True
    then show ?thesis using s1 by (auto simp: act_simps)
  next
    case False
    then have "length (due s1) < fuel" using s1(3) Suc.prems(4) by (cases d) auto
    from Suc.IH [OF s1(2) Suc.prems(2,3) this] obtain s' where "http_fetch fuel size' s1 = Inr (Inr (due s1), s')" by blast
    then show ?thesis using s1 False by (auto simp: act_simps)
  qed
qed simp

text \<open>The part of the body in the line buffer comes first, in as many chunks as it takes.\<close>

lemma take_ahead: "ahead rb = b @ NUL # z \<Longrightarrow> k \<le> length b \<Longrightarrow> take k (drop (curpos rb) (buffer rb)) = take k b"
  by (simp add: ahead_def)

lemma fetch_buffered:
  "serving b ch n s \<Longrightarrow> b \<noteq> [] \<Longrightarrow> open_data ch \<Longrightarrow> read_bytes s = 0 \<Longrightarrow> 2 \<le> size' \<Longrightarrow> size' < 2 ^ 63 \<Longrightarrow>
   length b + length (bytes_in (script ch)) + 1 < fuel \<Longrightarrow>
   \<exists>s'. http_fetch fuel size' s = Inr (Inr (b @ (if 0 < n then take (nat n) (bytes_in (script ch)) else bytes_in (script ch))), s')"
proof (induction fuel arbitrary: b s)
  case (Suc fuel)
  obtain rb z where rb: "ht_rbuf s = Some rb" "ahead rb = b @ NUL # z" "cur_bufsize rb = length b"
    using Suc.prems(1) by (auto simp: serving_def)
  define k where "k = min (length b) size'"
  have k: "k \<le> length b" "0 < k" using Suc.prems(2,5) by (auto simp: k_def)
  define s1 where "s1 = s \<lparr> ht_rbuf := (if k = length b then None
      else Some (rb \<lparr> curpos := curpos rb + k, cur_bufsize := length b - k \<rparr>)) \<rparr>"
  have t: "take k (drop (curpos rb) (buffer rb)) = take k b" using take_ahead [OF rb(2) k(1)] .
  have chunk: "rfc2068_get_next_file_chunk size' s = Inr (Inr (take k b), s1)"
    using rb k t arg_cong [OF rb(2), of length] by (simp add: ahead_def rfc2068_get_next_file_chunk_def act_simps Let_def k_def [symmetric] s1_def)
  let ?rest = "if 0 < n then take (nat n) (bytes_in (script ch)) else bytes_in (script ch)"
  have "\<exists>s'. http_fetch fuel size' s1 = Inr (Inr (drop k b @ ?rest), s')"
  proof (cases "k = length b")
    case True
    have c: "http_channel (rq_datafd (ht_req s1)) s1 = ch" "content_length s1 = n" "read_bytes s1 = 0"
      using Suc.prems(1,4) by (simp_all add: serving_def s1_def http_channel_def)
    have "in_body n s1" using Suc.prems(1,3) True c by (simp add: serving_def in_body_def s1_def)
    moreover have d: "due s1 = ?rest" using c by (simp add: due_def)
    moreover have "length (due s1) < fuel" using Suc.prems(7) unfolding d by auto
    ultimately show ?thesis using fetch_body [of n s1 size' fuel] Suc.prems(5,6) True by simp
  next
    case False
    then have n0: "drop k b \<noteq> []" "k < length b" using k by auto
    have "drop k (b @ NUL # z) = drop k b @ NUL # z" using k(1) by simp
    then have "ahead (rb \<lparr> curpos := curpos rb + k, cur_bufsize := length b - k \<rparr>) = drop k b @ NUL # z"
      using rb(2) by (simp add: ahead_def add.commute flip: drop_drop)
    then have "serving (drop k b) ch n s1" "read_bytes s1 = 0"
      using Suc.prems(1,4) False by (auto simp: serving_def s1_def http_channel_def)
    then show ?thesis using Suc.IH [of "drop k b" s1] n0 Suc.prems(3,5,6,7) k(2) by auto
  qed
  then obtain s' where "http_fetch fuel size' s1 = Inr (Inr (drop k b @ ?rest), s')" by blast
  moreover have "take k b \<noteq> []" using Suc.prems(2) k by auto
  ultimately show ?case using chunk by (auto simp: act_simps)
qed simp

lemma write_all_quiet:
  "quiet (ht_out s) \<Longrightarrow> write_all ps s = Inr (0, s \<lparr> ht_out := (ht_out s) \<lparr> written := written (ht_out s) @ concat ps \<rparr> \<rparr>)"
proof (induction ps arbitrary: s)
  case Nil
  then show ?case by (cases s, cases "ht_out s") (simp add: act_simps)
next
  case (Cons p ps)
  let ?s = "s \<lparr> ht_out := (ht_out s) \<lparr> written := written (ht_out s) @ p \<rparr> \<rparr>"
  have w: "http_write p s = Inr (int (length p), ?s)"
    using Cons.prems by (cases "ht_out s") (simp add: http_write_def quiet_def gftp_fd_write_def http_after_io_def)
  have "quiet (ht_out ?s)" using Cons.prems by (simp add: quiet_def)
  from Cons.IH [OF this] w show ?case by (simp add: act_simps)
qed

text \<open>A request on a new connection, without a proxy: host, user and server are as the request says.\<close>

definition can_ask :: "http_env \<Rightarrow> dial \<Rightarrow> http \<Rightarrow> bool" where
  "can_ask env d s \<longleftrightarrow> at_rest s \<and> rq_datafd (ht_req s) < 0 \<and> rq_hostname (ht_req s) \<noteq> None \<and> he_post_connect env = None \<and>
     ht_dials s \<noteq> [] \<and> hd (ht_dials s) = d \<and> 0 \<le> dial_ret d \<and> 0 < dial_fd d \<and> \<not> dial_proxy d \<and> quiet (dial_out d)"

definition authorization :: "http \<Rightarrow> string" where
  "authorization s = (if no_text (rq_username (ht_req s)) then [] else ''Authorization: Basic '' @
     base64_encode (strconcat [rq_username (ht_req s), Some '':'', rq_password (ht_req s)]) @ [LF])"

lemma command_answered:
  assumes "can_ask env d s" "replies (dial_in d) hs b evs"
  shows "\<exists>s'. rfc2068_send_command env command s = Inr (max 0 (declared 0 hs), s') \<and>
    serving b ((dial_in d) \<lparr> script := evs \<rparr>) (declared 0 hs) s' \<and>
    rq_last_ftp_response (ht_req s') = Some (hd hs) \<and>
    written (ht_out s') = written (dial_out d) @ command @ ''User-Agent: '' @ he_version env @ [LF] @
      ''Host: '' @ or_empty (rq_hostname (ht_req s)) @ [LF] @ authorization s @ [LF]"
proof -
  have a: "at_rest s" "rq_datafd (ht_req s) < 0" "rq_hostname (ht_req s) \<noteq> None" "he_post_connect env = None"
      "0 \<le> dial_ret d" "0 < dial_fd d" "\<not> dial_proxy d" "quiet (dial_out d)"
    using assms(1) by (auto simp: can_ask_def)
  obtain ds where ds: "ht_dials s = d # ds" using assms(1) by (cases "ht_dials s") (auto simp: can_ask_def)
  obtain h where h: "rq_hostname (ht_req s) = Some h" using a(3) by auto
  define p where "p = on_http_req (\<lambda>rq. if opt_http_proxy_config (ht_opts s) = Some ''ftp'' then rq \<lparr> rq_url_prefix := Some ''ftp'' \<rparr> else rq) s"
  define c where "c = on_http_req (\<lambda>rq. if no_text (rq_directory rq) then rq \<lparr> rq_directory := Some ''/'' \<rparr> else rq)
     (on_http_req (dialled d) (p \<lparr> ht_dials := ds, ht_in := dial_in d, ht_out := dial_out d \<rparr>))"
  have c: "at_rest c" "rq_datafd (ht_req c) = dial_fd d" "ht_in c = dial_in d" "ht_out c = dial_out d"
      "rq_hostname (ht_req c) = Some h" "rq_username (ht_req c) = rq_username (ht_req s)"
      "rq_password (ht_req c) = rq_password (ht_req s)" "\<not> rq_use_proxy (ht_req c)"
    using a h by (auto simp: c_def p_def on_http_req_def at_rest_def dialled_def)
  have connect: "rfc2068_connect env s = Inr (0, c)"
    using a h ds by (auto simp: rfc2068_connect_def http_connect_server_def act_simps p_def c_def on_http_req_def)
  define w where "w = c \<lparr> ht_out := (ht_out c) \<lparr> written := written (ht_out c) @ concat (request_lines env command c) \<rparr> \<rparr>"
  have w: "write_all (request_lines env command c) c = Inr (0, w)"
    unfolding w_def using write_all_quiet [of c] a(8) c(4) by simp
  have lines: "concat (request_lines env command c) = command @ ''User-Agent: '' @ he_version env @ [LF] @
      ''Host: '' @ or_empty (rq_hostname (ht_req s)) @ [LF] @ authorization s @ [LF]"
    using c h by (simp add: request_lines_def Let_def printf_s_def or_empty_def authorization_def)
  have in_w: "http_channel (rq_datafd (ht_req w)) w = dial_in d" "at_rest w"
    using c by (simp_all add: w_def http_channel_def at_rest_def)
  obtain s' where s': "rfc2068_read_response w = Inr (max 0 (declared 0 hs), s')"
      "serving b ((dial_in d) \<lparr> script := evs \<rparr>) (declared 0 hs) s'"
      "ht_req s' = (ht_req w) \<lparr> rq_last_ftp_response := Some (hd hs) \<rparr>" "ht_out s' = ht_out w"
    using read_response_buffered [OF in_w(2), of hs b evs] assms(2) unfolding in_w(1) by blast
  have "rfc2068_send_command env command s = Inr (max 0 (declared 0 hs), s')"
    using connect w s'(1) a(2) by (simp add: rfc2068_send_command_def act_simps)
  then show ?thesis using s' lines c(4) by (intro exI [of _ s']) (simp add: w_def)
qed


text \<open>When the headers fill the first read and the body comes later, the line buffer is left with nothing in it,
  the first chunk is empty, and the callers take the file for finished.\<close>

theorem headers_alone_end_download:
  assumes "can_ask env d s" "replies (dial_in d) hs [] evs" "9 < length (hd hs)" "status_is ''200'' (hd hs)"
  shows "\<exists>s1 s2. rfc2068_get_file env f 0 s = Inr (max 0 (declared 0 hs), s1) \<and>
    http_fetch (Suc fuel) size' s1 = Inr (Inr [], s2)"
proof -
  let ?cmd = "request_line ''GET'' (http_path f s) [] s @ (if opt_use_http11 (ht_opts s) \<and> 0 < (0 :: int) then
      ''Range: bytes='' @ show_int 0 @ ''-'' @ [LF] else [])"
  obtain s1 where s1: "rfc2068_send_command env ?cmd s = Inr (max 0 (declared 0 hs), s1)"
      "serving [] ((dial_in d) \<lparr> script := evs \<rparr>) (declared 0 hs) s1" "rq_last_ftp_response (ht_req s1) = Some (hd hs)"
    using command_answered [OF assms(1,2)] by blast
  let ?s = "s1 \<lparr> read_bytes := 0 \<rparr>"
  have no: "\<not> status_is ''206'' (hd hs)"
    using assms(4) unfolding status_is_def
    by (cases "drop 9 (hd hs)"; cases "tl (drop 9 (hd hs))"; cases "tl (tl (drop 9 (hd hs)))") auto
  have get: "rfc2068_get_file env f 0 s = Inr (max 0 (declared 0 hs), ?s)"
    using s1(1,3) assms(3,4) no by (auto simp: rfc2068_get_file_def act_simps http_response_def Let_def)
  obtain rb where "ht_rbuf s1 = Some rb" "cur_bufsize rb = 0" using s1(2) by (auto simp: serving_def)
  then have "http_fetch (Suc fuel) size' ?s = Inr (Inr [], ?s \<lparr> ht_rbuf := None \<rparr>)"
    by (simp add: rfc2068_get_next_file_chunk_def act_simps Let_def)
  with get show ?thesis by blast
qed


definition http_dial :: "sys_event list \<Rightarrow> dial" where
  "http_dial evs = \<lparr> dial_ret = 0, dial_proxy = False, dial_fd = 5, dial_in = quiet_channel \<lparr> script := evs \<rparr>,
     dial_out = quiet_channel, dial_port = 80, dial_family = 2, dial_addr = [] \<rparr>"

definition http_client :: "sys_event list \<Rightarrow> http" where
  "http_client evs = example_http \<lparr> ht_req := (ht_req example_http) \<lparr> rq_datafd := -1, rq_url_prefix := Some ''http'' \<rparr>,
     chunked_transfer := False, ht_dials := [http_dial evs] \<rparr>"

definition plain_http :: http_env where
  "plain_http = \<lparr> he_version = ''gFTP'', he_home = (\<lambda>_. None), he_post_connect = None \<rparr>"

definition example_headers :: "string list" where
  "example_headers = [''HTTP/1.1 200 OK'', ''Content-Length: 10'']"

lemma can_ask_example: "can_ask plain_http (http_dial evs) (http_client evs)"
  by (simp add: can_ask_def at_rest_def http_client_def example_http_def http_dial_def plain_http_def quiet_def quiet_channel_def)

lemma example_replies': "length b \<le> 100 \<Longrightarrow> replies (dial_in (http_dial (Bytes_in (head_text example_headers @ b) # evs))) example_headers b evs"
  by (simp add: replies_def http_dial_def quiet_channel_def example_headers_def header_ok_def chunked_header_def head_text_def wire_def crlf_def)

lemma example_declared: "declared 0 example_headers = 10" "status_is ''200'' (hd example_headers)" "9 < length (hd example_headers)"
    "\<not> status_is ''206'' (hd example_headers)"
  by (simp_all add: declared_def example_headers_def status_is_def strtol10_def is_space_def code_of_def read_nat_def digit_val_def
      is_digit_def clamp64_def)


theorem headers_alone_end_download_witness:
  "\<exists>s1 s2. rfc2068_get_file plain_http ''/f'' 0
      (http_client [Bytes_in (head_text example_headers @ []), Bytes_in ''0123456789'']) = Inr (10, s1) \<and>
    http_fetch (Suc 20) 4096 s1 = Inr (Inr [], s2)"
proof -
  have r: "replies (dial_in (http_dial [Bytes_in (head_text example_headers @ []), Bytes_in ''0123456789''])) example_headers []
      [Bytes_in ''0123456789'']"
    by (rule example_replies') simp
  show ?thesis
    using headers_alone_end_download [OF can_ask_example r example_declared(3,2), of "''/f''" 20 4096] example_declared(1) by simp
qed

section \<open>Headers that do not end with the first read\<close>

lemma headers_run:
  assumes "ht_rbuf s = Some rb" "ahead rb = concat (map wire hs) @ rest" "\<forall>l \<in> set hs. header_ok l"
    and "length (concat (map wire hs)) \<le> cur_bufsize rb" "cur_bufsize rb \<le> 8192" "\<not> overrun s"
    and "rq_last_ftp_response (ht_req s) \<noteq> None"
  shows "\<exists>rb'. header_loop (length hs + m) t chunked s =
      header_loop m (last (t # hs)) (chunked \<or> chunked_header \<in> set hs)
        (s \<lparr> content_length := declared (content_length s) hs, ht_rbuf := Some rb' \<rparr>) \<and>
    ahead rb' = rest \<and> cur_bufsize rb' = cur_bufsize rb - length (concat (map wire hs)) \<and>
    max_bufsize rb' = max_bufsize rb \<and> eof rb' = eof rb"
  using assms
proof (induction hs arbitrary: t chunked s rb)
  case Nil
  have "s \<lparr> ht_rbuf := Some rb \<rparr> = s" using Nil.prems(1) by (cases s) simp
  then have "header_loop m t chunked (s \<lparr> ht_rbuf := Some rb \<rparr>) = header_loop m t chunked s" by (rule arg_cong)
  then show ?case using Nil.prems by (intro exI [of _ rb]) (simp add: declared_def del: header_loop.simps)
next
  case (Cons l hs)
  have l: "header_ok l" "CR \<notin> set l" "LF \<notin> set l" "NUL \<notin> set l" using Cons.prems(3) by (auto simp: header_ok_def)
  obtain rb1 where rb1: "http_get_line (rq_datafd (ht_req s)) s = Inr ((int (length l + 2), Some l), s \<lparr> ht_rbuf := Some rb1 \<rparr>)"
      "ahead rb1 = concat (map wire hs) @ rest" "cur_bufsize rb1 = cur_bufsize rb - length (wire l)"
      "max_bufsize rb1 = max_bufsize rb" "eof rb1 = eof rb"
    using http_line [OF Cons.prems(1), of l "concat (map wire hs) @ rest" "rq_datafd (ht_req s)"] l Cons.prems(2,4-6) by auto
  define s1 where "s1 = with_header l (s \<lparr> ht_rbuf := Some rb1 \<rparr>)"
  have e: "s1 = s \<lparr> content_length := declared (content_length s) [l], ht_rbuf := Some rb1 \<rparr>"
    using Cons.prems(7) by (cases s) (auto simp: s1_def with_header_def on_http_req_def)
  have s1: "ht_rbuf s1 = Some rb1" "\<not> overrun s1" "rq_last_ftp_response (ht_req s1) \<noteq> None"
    using Cons.prems(6,7) by (simp_all add: e)
  have c: "length (concat (map wire hs)) \<le> cur_bufsize rb1" "cur_bufsize rb1 \<le> 8192"
    using Cons.prems(4,5) rb1(3) by simp_all
  have step: "header_loop (Suc (length hs + m)) t chunked s = header_loop (length hs + m) l (chunked \<or> l = chunked_header) s1"
    unfolding s1_def by (rule header_step [OF rb1(1) _ l(1)]) simp
  obtain rb' where rb': "header_loop (length hs + m) l (chunked \<or> l = chunked_header) s1 =
      header_loop m (last (l # hs)) ((chunked \<or> l = chunked_header) \<or> chunked_header \<in> set hs)
        (s1 \<lparr> content_length := declared (content_length s1) hs, ht_rbuf := Some rb' \<rparr>)"
      "ahead rb' = rest" "cur_bufsize rb' = cur_bufsize rb1 - length (concat (map wire hs))"
      "max_bufsize rb' = max_bufsize rb1" "eof rb' = eof rb1"
    using Cons.IH [OF s1(1) rb1(2) _ c s1(2,3), of l "chunked \<or> l = chunked_header"] Cons.prems(3) by auto
  have e': "s1 \<lparr> content_length := declared (content_length s1) hs, ht_rbuf := Some rb' \<rparr> =
      s \<lparr> content_length := declared (content_length s) (l # hs), ht_rbuf := Some rb' \<rparr>"
    by (simp add: e declared_def)
  have flag: "((chunked \<or> l = chunked_header) \<or> chunked_header \<in> set hs) = (chunked \<or> chunked_header \<in> set (l # hs))" by auto
  have "header_loop (length (l # hs) + m) t chunked s = header_loop m (last (t # l # hs)) (chunked \<or> chunked_header \<in> set (l # hs))
      (s \<lparr> content_length := declared (content_length s) (l # hs), ht_rbuf := Some rb' \<rparr>)"
    using step rb'(1) unfolding e' flag by (simp del: header_loop.simps)
  then show ?case using rb'(2-5) rb1(3-5) by (intro exI [of _ rb']) simp
qed

text \<open>The line buffer is empty, and the next line needs a read.\<close>

lemma line_needs_read:
  assumes "ht_rbuf s = Some rb" "ahead rb = NUL # z" "cur_bufsize rb = 0" "max_bufsize rb = 8192" "\<not> eof rb"
  shows "\<And>e s'. rfc2068_chunked_read fd 8192 8193 s = (Inl e, s') \<Longrightarrow> http_get_line fd s = checked (e, None) (s' \<lparr> ht_rbuf := None \<rparr>)"
    "\<And>s'. rfc2068_chunked_read fd 8192 8193 s = (Inr [], s') \<Longrightarrow> http_get_line fd s = checked (0, None) (s' \<lparr> ht_rbuf := None \<rparr>)"
proof -
  have "curpos rb < length (buffer rb)" using assms(2) by (metis ahead_def drop_all list.distinct(1) not_le_imp_less)
  then have room: "make_room rb = Some (buffer rb, 0, 8192)"
    using assms(3,4) by (simp add: make_room_def load_def)
  obtain n where n: "max_bufsize rb + 3 = Suc n" by (cases "max_bufsize rb + 3") auto
  have q: "mem_strchr (drop (curpos rb) (buffer rb)) LF = Some None" using assms(2) by (simp add: ahead_def)
  show "\<And>e s'. rfc2068_chunked_read fd 8192 8193 s = (Inl e, s') \<Longrightarrow> http_get_line fd s = checked (e, None) (s' \<lparr> ht_rbuf := None \<rparr>)"
    "\<And>s'. rfc2068_chunked_read fd 8192 8193 s = (Inr [], s') \<Longrightarrow> http_get_line fd s = checked (0, None) (s' \<lparr> ht_rbuf := None \<rparr>)"
    using assms(1,3,5) room q by (simp_all add: http_get_line_def gftp_get_line_def n)
qed


text \<open>At the end of the connection every read gives 0, and the header loop, which tests the line it read last,
  goes around for ever.\<close>

definition hung_up :: "int \<Rightarrow> http \<Rightarrow> bool" where
  "hung_up fd s \<longleftrightarrow> script (ht_in s) = [] \<and> \<not> disconnected (ht_in s) \<and> \<not> chunked_transfer s \<and>
     extra_read_buffer s = None \<and> \<not> overrun s \<and> rq_datafd (ht_req s) = fd"

lemma hung_up_read:
  assumes "hung_up fd s" "0 < size'" "size' \<le> room"
  shows "\<exists>s'. rfc2068_chunked_read fd size' room s = (Inr [], s') \<and> hung_up fd s' \<and> ht_rbuf s' = ht_rbuf s \<and> ht_req s' = ht_req s"
proof -
  let ?s1 = "s \<lparr> read_ref_cnt := read_ref_cnt s + 1 \<rparr>"
  let ?ch = "(http_channel fd s) \<lparr> script := [] \<rparr>"
  have ch: "http_channel fd s = ht_in s" using assms(1) by (simp add: hung_up_def http_channel_def)
  have r: "real_read fd n ?s1 = (Inr [], put_channel fd ?ch ?s1)" for n
    using real_read_closed [of fd ?s1 n] assms(1) ch by (simp add: hung_up_def)
  have more: "read_more fd size' room [] m ?s1 = Done (Inr []) s \<or>
      read_more fd size' room [] m ?s1 = Done (Inr []) (put_channel fd ?ch s)" for m
    using assms by (auto simp: read_more_def Let_def r after_read_def hung_up_def unref_def)
  have "chunked_turn fd size' room s = Done (Inr []) s \<or> chunked_turn fd size' room s = Done (Inr []) (put_channel fd ?ch s)"
    using more assms(1) by (auto simp: chunked_turn_def hung_up_def Let_def unref_def split: option.split)
  moreover have "hung_up fd (put_channel fd ?ch s)" using assms(1) by (simp add: hung_up_def put_channel_def http_channel_def)
  ultimately show ?thesis
    using chunked_read_done [of fd size' room s "Inr []"] assms(1) by (metis put_sel(9,10))
qed

definition drained :: "http \<Rightarrow> bool" where
  "drained s \<longleftrightarrow> (case ht_rbuf s of None \<Rightarrow> True
     | Some rb \<Rightarrow> (\<exists>z. ahead rb = NUL # z) \<and> cur_bufsize rb = 0 \<and> max_bufsize rb = 8192 \<and> \<not> eof rb)"

lemma hung_up_line:
  assumes "hung_up fd s" "drained s"
  shows "\<exists>s'. http_get_line fd s = Inr ((0, None), s') \<and> hung_up fd s' \<and> drained s'"
proof -
  obtain s' where s': "rfc2068_chunked_read fd 8192 8193 s = (Inr [], s')" "hung_up fd s'"
    using hung_up_read [OF assms(1), of 8192 8193] by auto
  have r: "checked (0, None) (s' \<lparr> ht_rbuf := None \<rparr>) = Inr ((0, None), s' \<lparr> ht_rbuf := None \<rparr>)"
      "hung_up fd (s' \<lparr> ht_rbuf := None \<rparr>)" "drained (s' \<lparr> ht_rbuf := None \<rparr>)"
    using s'(2) by (simp_all add: checked_def hung_up_def drained_def)
  have "http_get_line fd s = checked (0, None) (s' \<lparr> ht_rbuf := None \<rparr>)"
  proof (cases "ht_rbuf s")
    case None
    then show ?thesis using s'(1) by (simp add: http_get_line_def gftp_get_line_def)
  next
    case (Some rb)
    then obtain z where rb: "ahead rb = NUL # z" "cur_bufsize rb = 0" "max_bufsize rb = 8192" "\<not> eof rb"
      using assms(2) by (auto simp: drained_def)
    from line_needs_read(2) [OF Some rb s'(1)] show ?thesis .
  qed
  then show ?thesis using r by auto
qed

lemma hung_up_loop:
  "hung_up fd s \<Longrightarrow> drained s \<Longrightarrow> header_ok t \<Longrightarrow> header_loop n t chunked s = Inl Out_of_fuel"
proof (induction n arbitrary: s chunked)
  case (Suc n)
  have fd: "rq_datafd (ht_req s) = fd" using Suc.prems(1) by (simp add: hung_up_def)
  have t: "t \<noteq> []" "starts_with ''Content-Length:'' t \<Longrightarrow> \<not> length t < 16" using Suc.prems(3) by (auto simp: header_ok_def)
  obtain s' where s': "http_get_line fd s = Inr ((0, None), s')" "hung_up fd s'" "drained s'"
    using hung_up_line [OF Suc.prems(1,2)] by blast
  have next': "header_loop n t c u = Inl Out_of_fuel" if "hung_up fd u" "drained u" for c u
    using Suc.IH [OF that Suc.prems(3)] .
  have ok: "hung_up fd (s' \<lparr> ht_req := (ht_req s') \<lparr> rq_last_ftp_response := x \<rparr> \<rparr>)" "hung_up fd (s' \<lparr> content_length := k \<rparr>)"
      "hung_up fd (s' \<lparr> ht_req := (ht_req s') \<lparr> rq_last_ftp_response := x \<rparr>, content_length := k \<rparr>)"
      "drained (s' \<lparr> ht_req := q \<rparr>)" "drained (s' \<lparr> content_length := k \<rparr>)" "drained (s' \<lparr> ht_req := q, content_length := k \<rparr>)" for x k q
    using s'(2,3) by (simp_all add: hung_up_def drained_def)
  show ?case
    using t s'(2,3) by (auto simp: act_simps fd s'(1) header_line_def on_http_req_def Let_def next' ok)
qed (simp add: stop_def)

text \<open>A first read that ends with a header line, before the empty line.\<close>

lemma partial_headers:
  assumes "at_rest s" "script (ht_in s) = Bytes_in (concat (map wire hs)) # evs" "\<not> disconnected (ht_in s)"
    and "hs \<noteq> []" "\<forall>l \<in> set hs. header_ok l" "length (concat (map wire hs)) \<le> 8191"
  shows "\<exists>s'. header_loop (length hs + m) [] False (fresh_response s) = header_loop m (last hs) (chunked_header \<in> set hs) s' \<and>
    drained s' \<and> ht_rbuf s' \<noteq> None \<and> ht_in s' = (ht_in s) \<lparr> script := evs \<rparr> \<and> rq_datafd (ht_req s') = rq_datafd (ht_req s) \<and>
    at_rest (s' \<lparr> ht_rbuf := None \<rparr>) \<and> content_length s' = declared 0 hs \<and> chunk_size s' = 0 \<and> \<not> ht_eof s' \<and>
    extra_read_buffer s' = None \<and> read_bytes s' = read_bytes s + length (concat (map wire hs))"
proof -
  let ?fd = "rq_datafd (ht_req s)" and ?s0 = "fresh_response s" and ?d = "concat (map wire hs)"
  obtain l0 ls where hs: "hs = l0 # ls" using assms(4) by (cases hs) auto
  have s0: "at_rest ?s0" "no_body ?s0" "http_channel ?fd ?s0 = ht_in s" "rq_datafd (ht_req ?s0) = ?fd"
    using assms(1) by (auto simp: fresh_response_def on_http_req_def at_rest_def no_body_def http_channel_def)
  have l0: "header_ok l0" "CR \<notin> set l0" "LF \<notin> set l0" "NUL \<notin> set l0" using assms(5) by (auto simp: header_ok_def hs)
  have split: "?d = wire l0 @ concat (map wire ls)" by (simp add: hs)
  define s1 where "s1 = (put_channel ?fd ((http_channel ?fd ?s0) \<lparr> script := evs \<rparr>) ?s0) \<lparr> read_bytes := read_bytes ?s0 + length ?d \<rparr>"
  obtain rb z where rb: "http_get_line ?fd ?s0 = Inr ((int (length l0 + 2), Some l0), s1 \<lparr> ht_rbuf := Some rb \<rparr>)"
      "ahead rb = concat (map wire ls) @ NUL # z" "cur_bufsize rb = length (concat (map wire ls))" "max_bufsize rb = 8192" "\<not> eof rb"
    using http_first_line [OF s0(1,2) _ _ assms(6) split l0(2-4), of ?fd evs] assms(2,3) s0(3) unfolding s1_def by auto
  define s2 where "s2 = with_header l0 (s1 \<lparr> ht_rbuf := Some rb \<rparr>)"
  have s2: "ht_rbuf s2 = Some rb" "\<not> overrun s2" "rq_last_ftp_response (ht_req s2) \<noteq> None" "content_length s2 = declared 0 [l0]"
    using s0 by (auto simp: s2_def s1_def with_header_def on_http_req_def at_rest_def no_body_def)
  have c: "length (concat (map wire ls)) \<le> cur_bufsize rb" "cur_bufsize rb \<le> 8192" using rb(3) assms(6) unfolding split by simp_all
  obtain rb' where rb': "header_loop (length ls + m) l0 (False \<or> l0 = chunked_header) s2 =
      header_loop m (last (l0 # ls)) ((False \<or> l0 = chunked_header) \<or> chunked_header \<in> set ls)
        (s2 \<lparr> content_length := declared (content_length s2) ls, ht_rbuf := Some rb' \<rparr>)"
      "ahead rb' = NUL # z" "cur_bufsize rb' = 0" "max_bufsize rb' = 8192" "\<not> eof rb'"
    using headers_run [OF s2(1) rb(2) _ c s2(2,3), of m l0 "False \<or> l0 = chunked_header"] rb(3-5) assms(5) by (auto simp: hs)
  define s3 where "s3 = s2 \<lparr> content_length := declared (content_length s2) ls, ht_rbuf := Some rb' \<rparr>"
  have "header_loop (Suc (length ls + m)) [] False ?s0 = header_loop (length ls + m) l0 (False \<or> l0 = chunked_header) s2"
    unfolding s2_def by (rule header_step [OF _ _ l0(1)]) (use rb(1) s0(4) in auto)
  moreover have "((False \<or> l0 = chunked_header) \<or> chunked_header \<in> set ls) = (chunked_header \<in> set hs)" by (auto simp: hs)
  ultimately have "header_loop (length hs + m) [] False ?s0 = header_loop m (last hs) (chunked_header \<in> set hs) s3"
    using rb'(1) unfolding s3_def by (simp add: hs del: header_loop.simps)
  moreover have "drained s3" using rb'(2-5) by (simp add: drained_def s3_def)
  moreover have "content_length s3 = declared 0 hs" by (simp add: s3_def s2(4) declared_def hs)
  moreover have "ht_in s3 = (ht_in s) \<lparr> script := evs \<rparr>"
    using s0(3,4) by (simp add: s3_def s2_def s1_def with_header_def on_http_req_def put_channel_def)
  moreover have "rq_datafd (ht_req s3) = ?fd" "chunk_size s3 = 0" "\<not> ht_eof s3" "extra_read_buffer s3 = None"
      "read_bytes s3 = read_bytes s + length ?d" "at_rest (s3 \<lparr> ht_rbuf := None \<rparr>)" "ht_rbuf s3 \<noteq> None"
    using s0(1,2,4) by (simp_all add: s3_def s2_def s1_def with_header_def on_http_req_def no_body_def at_rest_def fresh_response_def
      put_channel_def)
  ultimately show ?thesis by blast
qed

text \<open>A server that closes the connection between two header lines leaves the client in the header loop for
  ever: no number of turns is enough.\<close>

theorem truncated_headers_never_end:
  assumes "at_rest s" "script (ht_in s) = [Bytes_in (concat (map wire hs))]" "\<not> disconnected (ht_in s)"
    and "hs \<noteq> []" "\<forall>l \<in> set hs. header_ok l" "length (concat (map wire hs)) \<le> 8191"
  shows "header_loop (length hs + n) [] False (fresh_response s) = Inl Out_of_fuel"
proof -
  obtain s' where s': "header_loop (length hs + n) [] False (fresh_response s) = header_loop n (last hs) (chunked_header \<in> set hs) s'"
      "drained s'" "ht_in s' = (ht_in s) \<lparr> script := [] \<rparr>" "at_rest (s' \<lparr> ht_rbuf := None \<rparr>)" "extra_read_buffer s' = None"
    using partial_headers [OF assms, of n] by blast
  have "hung_up (rq_datafd (ht_req s')) s'" using s'(3-5) assms(3) by (simp add: hung_up_def at_rest_def)
  moreover have "header_ok (last hs)" using assms(4,5) by simp
  ultimately show ?thesis using s'(1,2) hung_up_loop by (simp del: header_loop.simps)
qed


lemma example_at_rest:
  "at_rest (example_http \<lparr> ht_in := quiet_channel \<lparr> script := evs \<rparr>, chunked_transfer := False \<rparr>)"
  by (simp add: at_rest_def example_http_def zero_request_def)

theorem truncated_headers_never_end_witness:
  "header_loop (1 + 7) [] False (fresh_response (example_http
      \<lparr> ht_in := quiet_channel \<lparr> script := [Bytes_in (concat (map wire [''HTTP/1.1 200 OK'']))] \<rparr>, chunked_transfer := False \<rparr>)) =
    Inl Out_of_fuel"
proof -
  let ?hs = "[''HTTP/1.1 200 OK'']"
  have "\<forall>l \<in> set ?hs. header_ok l" by (simp add: header_ok_def)
  then show ?thesis
    using truncated_headers_never_end [OF example_at_rest, of "[Bytes_in (concat (map wire ?hs))]" ?hs 7]
    by (simp add: quiet_channel_def example_http_def wire_def crlf_def del: header_loop.simps)
qed


end
