(* ===== verification/Http_Pages.thy ===== *)
theory Http_Pages
  imports Http
begin

text \<open>Directory pages of a web server (\<open>src/lib/rfc2068.c\<close>, \<open>parse_html_line\<close>): the name of a link is
  cut out of the line in place and the line is put together again afterwards. It is the line that goes into the
  listing cache, so that a page read back from the cache must give the same entries.\<close>

section \<open>The line is put back\<close>

lemma html_details_file: "html_details tenv line pos fle = Some fle' \<Longrightarrow> gf_file fle' = gf_file fle"
  by (auto simp: html_details_def Let_def bind_eq_Some_conv)

lemma either_suffix: "either a b t = Some p \<Longrightarrow> \<exists>q. t = q @ p"
  by (auto simp: either_def split: option.splits dest: strstr_SomeD)

lemma html_link_split:
  assumes "html_link line = Some st"
  shows "\<exists>a n b. line = a @ CHR ''\"'' # n @ CHR ''\"'' # b \<and> CHR ''\"'' \<notin> set n \<and> st = length a + 1"
proof -
  obtain p c r where p: "either ''<A HREF='' ''<a href='' line = Some p" "dropWhile (\<lambda>c. c \<noteq> CHR ''\"'') p = c # r"
      "CHR ''\"'' \<in> set r" "st = length line - length r"
    using assms by (auto simp: html_link_def split: option.splits list.splits if_splits)
  have c: "c = CHR ''\"''" using p(2) by (auto simp: dropWhile_eq_Cons_conv)
  obtain q where q: "line = q @ p" using either_suffix [OF p(1)] by blast
  obtain n b where nb: "r = n @ CHR ''\"'' # b" "CHR ''\"'' \<notin> set n" using split_list_first [OF p(3)] by blast
  have "p = takeWhile (\<lambda>c. c \<noteq> CHR ''\"'') p @ CHR ''\"'' # n @ CHR ''\"'' # b"
    using p(2) nb(1) c takeWhile_dropWhile_id [of "\<lambda>c. c \<noteq> CHR ''\"''" p] by simp
  then have "line = (q @ takeWhile (\<lambda>c. c \<noteq> CHR ''\"'') p) @ CHR ''\"'' # n @ CHR ''\"'' # b" using q by simp
  moreover have "st = length (q @ takeWhile (\<lambda>c. c \<noteq> CHR ''\"'') p) + 1"
    unfolding p(4) by (subst calculation) (simp add: nb(1))
  ultimately show ?thesis using nb(2) by blast
qed

lemma parse_html_line_keeps:
  assumes "parse_html_line tenv line = Some (1, fle, line')" "html_link line = Some st"
    and "takeWhile (\<lambda>c. c \<noteq> CHR ''\"'') (drop st line) = n" "line[st + length n := NUL] = lc"
    and "(if lc ! (st + length n - 1) = CHR ''/'' then lc[st + length n - 1 := NUL] else lc) = lc'"
  shows "line' = (if lc' ! (st + length n - 1) = NUL then lc'[st + length n - 1 := CHR ''/''] else lc')[st + length n := CHR ''\"'']"
    "gf_file fle = Some (takeWhile (\<lambda>c. c \<noteq> NUL) (drop st lc'))" "takeWhile (\<lambda>c. c \<noteq> NUL) (drop st lc') \<noteq> []"
    "CHR ''/'' \<notin> set (takeWhile (\<lambda>c. c \<noteq> NUL) (drop st lc'))"
  using assms
  by (auto simp: parse_html_line_def Let_def simp del: skip_tags.simps
      split: option.splits if_split_asm dest!: html_details_file)

text \<open>C36: An entry that is kept leaves the line as it was, and its name is a part of the line without a slash: a
  page cannot name a file outside the directory it lists, except by \<open>..\<close>.\<close>

theorem html_line_kept:
  assumes "parse_html_line tenv line = Some (1, fle, line')" "NUL \<notin> set line"
  shows "line' = line \<and> (\<exists>name a b. gf_file fle = Some name \<and> name \<noteq> [] \<and> CHR ''/'' \<notin> set name \<and> CHR ''\"'' \<notin> set name \<and>
      (line = a @ CHR ''\"'' # name @ CHR ''\"'' # b \<or> line = a @ CHR ''\"'' # name @ CHR ''/'' # CHR ''\"'' # b))"
proof -
  obtain st where st: "html_link line = Some st"
    using assms(1) by (auto simp: parse_html_line_def split: option.splits)
  obtain a n b where ab: "line = a @ CHR ''\"'' # n @ CHR ''\"'' # b" "CHR ''\"'' \<notin> set n" "st = length a + 1"
    using html_link_split [OF st] by blast
  have nul: "NUL \<notin> set n" using assms(2) ab(1) by auto
  have tw: "takeWhile (\<lambda>c. c \<noteq> CHR ''\"'') (drop st line) = n"
    using ab by (simp, subst takeWhile_append2) auto
  note kept = parse_html_line_keeps [OF assms(1) st tw refl refl]
  show ?thesis
  proof (cases "\<exists>m. n = m @ [CHR ''/'']")
    case True
    then obtain m where m: "n = m @ [CHR ''/'']" by blast
    have name: "takeWhile (\<lambda>c. c \<noteq> NUL) (m @ NUL # NUL # b) = m" using nul m by (subst takeWhile_append2) auto
    have "line = a @ CHR ''\"'' # m @ CHR ''/'' # CHR ''\"'' # b" using ab(1) m by simp
    moreover have "line' = a @ CHR ''\"'' # m @ CHR ''/'' # CHR ''\"'' # b"
      using kept(1) ab(1,3) m by (simp add: nth_append list_update_append)
    moreover have "gf_file fle = Some m" "m \<noteq> []" "CHR ''/'' \<notin> set m"
      using kept(2-4) ab(1,3) m name by (simp_all add: nth_append list_update_append)
    moreover have "CHR ''\"'' \<notin> set m" using ab(2) m by simp
    ultimately show ?thesis by blast
  next
    case False
    have name: "takeWhile (\<lambda>c. c \<noteq> NUL) (n @ NUL # b) = n" using nul by (subst takeWhile_append2) auto
    define c where "c = (a @ CHR ''\"'' # n @ NUL # b) ! (length a + length n)"
    have x: "c \<noteq> CHR ''/''" "c \<noteq> NUL"
    proof -
      show "c \<noteq> CHR ''/''"
      proof (cases n rule: rev_cases)
        case (snoc m y)
        have "c = y" by (simp add: c_def snoc nth_append)
        then show ?thesis using False snoc by blast
      qed (simp add: c_def)
      show "c \<noteq> NUL"
      proof (cases n rule: rev_cases)
        case (snoc m y)
        have "c = y" by (simp add: c_def snoc nth_append)
        then show ?thesis using nul snoc by auto
      qed (simp add: c_def)
    qed
    have "line' = a @ CHR ''\"'' # n @ CHR ''\"'' # b" using kept(1) ab(1,3) x by (simp add: list_update_append c_def)
    moreover have "gf_file fle = Some n" "n \<noteq> []" "CHR ''/'' \<notin> set n"
      using kept(2-4) ab(1,3) x name by (simp_all add: list_update_append c_def)
    ultimately show ?thesis using ab(1,2) by blast
  qed
qed

section \<open>The end of the line\<close>

lemma strstr_first:
  assumes "nd = x # xs" "x \<notin> set h"
  shows "strstr (h @ nd @ t) nd = Some (nd @ t)"
  using assms(2) unfolding assms(1) by (induction h) (auto simp: starts_with_iff)

definition href_ok :: "string \<Rightarrow> bool" where
  "href_ok n \<longleftrightarrow> n \<noteq> [] \<and> CHR ''\"'' \<notin> set n \<and> CHR ''/'' \<notin> set n \<and> NUL \<notin> set n \<and> hd n \<noteq> CHR ''?'' \<and>
     \<not> starts_with ''mailto:'' n"

lemma parse_html_named:
  assumes "href_ok n" "line = ''<A HREF='' @ CHR ''\"'' # n @ CHR ''\"'' # b"
  shows "parse_html_line tenv line =
    (let fle = zero_file \<lparr> gf_st_mode := plain_file_mode, gf_file := Some n \<rparr>
     in case either ''</A>'' ''</a>'' b of
          None \<Rightarrow> Some (0, fle, line)
        | Some p \<Rightarrow>
            (case skip_tags (length line) (drop 4 p) of
               None \<Rightarrow> None
             | Some None \<Rightarrow> Some (0, fle, line)
             | Some (Some p) \<Rightarrow> map_option (\<lambda>fle. (1, fle, line)) (html_details tenv line p fle)))"
proof -
  have n: "n \<noteq> []" "CHR ''\"'' \<notin> set n" "CHR ''/'' \<notin> set n" "NUL \<notin> set n" "hd n \<noteq> CHR ''?''" "\<not> starts_with ''mailto:'' n"
    using assms(1) by (simp_all add: href_ok_def)
  have link: "html_link line = Some 9"
    unfolding assms(2) by (simp add: html_link_def either_def)
  have drop: "drop 9 line = n @ CHR ''\"'' # b" unfolding assms(2) by simp
  have rest: "drop (10 + length n) line = b"
    using drop_drop [of "length n + 1" 9 line] by (simp add: drop del: drop_drop)
  have tw: "takeWhile (\<lambda>c. c \<noteq> CHR ''\"'') (drop 9 line) = n" using n(2) drop by (simp, subst takeWhile_append2) auto
  define lc where "lc = ''<A HREF='' @ CHR ''\"'' # n @ NUL # b"
  have lc: "line[9 + length n := NUL] = lc" unfolding lc_def assms(2) by (simp add: list_update_append)
  have name: "takeWhile (\<lambda>c. c \<noteq> NUL) (drop 9 lc) = n" unfolding lc_def using n(4) by (simp, subst takeWhile_append2) auto
  have again: "lc[9 + length n := CHR ''\"''] = line" unfolding lc_def assms(2) by (simp add: list_update_append)
  obtain m x where m: "n = m @ [x]" using n(1) by (cases n rule: rev_cases) auto
  have x: "lc ! (9 + length n - 1) = x" "x \<noteq> CHR ''/''" "x \<noteq> NUL"
    using n(3,4) unfolding lc_def m by (auto simp: nth_append)
  show ?thesis
    unfolding parse_html_line_def link option.case Let_def tw lc using n(1,3,5,6) x
    by (simp add: name again rest cong: option.case_cong)
qed

text \<open>After a tag that is itself a link, the parser steps over the closing tag and then over one more byte: at
  the end of the line that is its terminator, and the reading goes on behind the line.\<close>

theorem html_reads_past_line:
  assumes "href_ok n" "CHR ''<'' \<notin> set t" "CHR ''<'' \<notin> set u"
  shows "parse_html_line tenv (''<A HREF='' @ CHR ''\"'' # n @ CHR ''\"'' # t @ ''</A><A '' @ u @ ''</A>'') = None"
proof -
  let ?e = "''<A '' @ u @ ''</A>''"
  have "strstr (''A '' @ u @ ''</A>'') ''</A>'' = Some ''</A>''"
    using strstr_first [of "''</A>''" "CHR ''<''" "''/A>''" "''A '' @ u" "[]"] assms(3) by simp
  then have skip: "skip_tags (Suc k) ?e = None" for k by (simp add: either_def)
  have "strstr (t @ ''</A>'' @ ?e) ''</A>'' = Some (''</A>'' @ ?e)"
    using assms(2) by (intro strstr_first [of _ "CHR ''<''" "''/A>''"]) simp_all
  then have e: "either ''</A>'' ''</a>'' (t @ ''</A><A '' @ u @ ''</A>'') = Some (''</A>'' @ ?e)" by (simp add: either_def)
  define line where "line = ''<A HREF='' @ CHR ''\"'' # n @ CHR ''\"'' # t @ ''</A><A '' @ u @ ''</A>''"
  obtain k where k: "length line = Suc k" by (simp add: line_def)
  have d: "drop 4 (''</A>'' @ ?e) = ?e" by simp
  show ?thesis
    unfolding line_def [symmetric] parse_html_named [OF assms(1) line_def] e option.case Let_def d k skip ..
qed

theorem html_reads_past_line_witness:
  "parse_html_line \<lparr> mktime = tm_hour, loctime = zero_tm \<rparr>
      (''<A HREF='' @ CHR ''\"'' # ''f'' @ CHR ''\"'' # ''>f'' @ ''</A><A '' @ ''>'' @ ''</A>'') = None"
  by (rule html_reads_past_line) (simp_all add: href_ok_def)

theorem html_line_kept_witness:
  "\<exists>fle name. parse_html_line \<lparr> mktime = tm_hour, loctime = zero_tm \<rparr> (''<A HREF='' @ CHR ''\"'' # ''f'' @ CHR ''\"'' # ''>f</A>'') =
      Some (1, fle, ''<A HREF='' @ CHR ''\"'' # ''f'' @ CHR ''\"'' # ''>f</A>'') \<and> gf_file fle = Some name \<and> CHR ''/'' \<notin> set name"
proof -
  let ?line = "''<A HREF='' @ CHR ''\"'' # ''f'' @ CHR ''\"'' # ''>f</A>''" and ?env = "\<lparr> mktime = tm_hour, loctime = zero_tm \<rparr>"
  have "href_ok ''f''" by (simp add: href_ok_def)
  moreover have "either ''</A>'' ''</a>'' ''>f</A>'' = Some ''</A>''" by (simp add: either_def)
  moreover have "parse_time ?env [NUL] = Some (0, [NUL])"
    by (simp add: parse_time_def parse_time_fields_def strptime_def strptime_conv_def is_space_def code_of_def month_names_def
        pointer_into_def)
  then have "\<exists>fle'. html_details ?env ?line [] fle = Some fle'" for fle by (simp add: html_details_def html_size_def)
  ultimately have "\<exists>fle l. parse_html_line ?env ?line = Some (1, fle, l)"
    unfolding parse_html_named [OF \<open>href_ok ''f''\<close> refl] Let_def by simp
  then obtain fle l where p: "parse_html_line ?env ?line = Some (1, fle, l)" by blast
  show ?thesis using html_line_kept [OF p] p by auto
qed

end
