(* ===== verification/Local_Files.thy ===== *)
theory Local_Files
  imports Requests Actions
begin

unbundle bit_operations_syntax

text \<open>
  The local file system as a protocol (\<open>lib/local.c\<close>). The operations are system calls on the files of the
  machine, record \<open>kernel\<close>: nodes by their absolute name, symbolic links, directories in the order \<open>readdir\<close>
  gives, the working directory of the process, permissions, and what the writes to a file report. A failed call
  is \<^term>\<open>None\<close>. Links are followed at the end of a name only, names are cleaned of dots first, and there are no
  hard links. The user database and the character set conversion are arguments (\<open>local_env\<close>).
\<close>


section \<open>The kernel\<close>

record inode =
  in_mode :: mode_t
  in_uid :: nat
  in_gid :: nat
  in_dev :: nat
  in_ino :: nat
  in_rdev :: int
  in_mtime :: int
  in_content :: string

record kernel =
  k_nodes :: "string \<Rightarrow> inode option"
  k_links :: "string \<Rightarrow> string option"
  k_entries :: "string \<Rightarrow> string list option"
  k_cwd :: "string option"
  k_allows :: "string \<Rightarrow> string \<Rightarrow> bool"
  k_writes :: "sys_event list"
  k_next_fd :: int
  k_next_ino :: nat

definition abs_path :: "kernel \<Rightarrow> string \<Rightarrow> string option" where
  "abs_path k p =
    (if p = [] then None
     else if hd p = CHR ''/'' then Some (root_or (resolve (components p)))
     else map_option (\<lambda>d. root_or (resolve (components d @ components p))) (k_cwd k))"

fun follow :: "nat \<Rightarrow> kernel \<Rightarrow> string \<Rightarrow> string option" where
  "follow 0 k p = None"
| "follow (Suc n) k p = (case k_links k p of None \<Rightarrow> Some p | Some t \<Rightarrow> follow n k t)"

definition real_path :: "kernel \<Rightarrow> string \<Rightarrow> string option" where
  "real_path k p = Option.bind (abs_path k p) (follow 40 k)"

definition allowed :: "kernel \<Rightarrow> string \<Rightarrow> string option \<Rightarrow> string option" where
  "allowed k what p = (case p of None \<Rightarrow> None | Some q \<Rightarrow> if k_allows k what q then Some q else None)"

definition sys_lstat :: "kernel \<Rightarrow> string \<Rightarrow> inode option" where
  "sys_lstat k p = Option.bind (allowed k ''lstat'' (abs_path k p)) (k_nodes k)"

definition sys_stat :: "kernel \<Rightarrow> string \<Rightarrow> inode option" where
  "sys_stat k p = Option.bind (allowed k ''stat'' (real_path k p)) (k_nodes k)"

definition st_size :: "inode \<Rightarrow> int" where "st_size i = int (length (in_content i))"

definition is_dir :: "kernel \<Rightarrow> string \<Rightarrow> bool" where
  "is_dir k q \<longleftrightarrow> (case k_nodes k q of None \<Rightarrow> False | Some i \<Rightarrow> S_ISDIR (in_mode i))"

definition sys_chdir :: "string \<Rightarrow> kernel \<Rightarrow> kernel option" where
  "sys_chdir p k =
    Option.bind (allowed k ''chdir'' (real_path k p)) (\<lambda>q. if is_dir k q then Some (k \<lparr> k_cwd := Some q \<rparr>) else None)"

definition sys_opendir :: "kernel \<Rightarrow> string \<Rightarrow> string list option" where
  "sys_opendir k p = Option.bind (allowed k ''opendir'' (real_path k p)) (k_entries k)"

text \<open>The directory a name is in, and its last part.\<close>

definition parent_of :: "string \<Rightarrow> string" where
  "parent_of q = root_or (butlast (resolve (components q)))"

definition last_of :: "string \<Rightarrow> string" where
  "last_of q = (let cs = resolve (components q) in if cs = [] then [] else last cs)"

definition edit_entries :: "string \<Rightarrow> (string list \<Rightarrow> string list) \<Rightarrow> kernel \<Rightarrow> kernel" where
  "edit_entries d f k = k \<lparr> k_entries := (k_entries k)(d := map_option f (k_entries k d)) \<rparr>"

definition drop_name :: "string \<Rightarrow> kernel \<Rightarrow> kernel" where
  "drop_name q k = edit_entries (parent_of q) (removeAll (last_of q))
     (k \<lparr> k_nodes := (k_nodes k)(q := None), k_links := (k_links k)(q := None), k_entries := (k_entries k)(q := None) \<rparr>)"

definition add_name :: "string \<Rightarrow> inode \<Rightarrow> kernel \<Rightarrow> kernel" where
  "add_name q i k = edit_entries (parent_of q) (\<lambda>ns. removeAll (last_of q) ns @ [last_of q])
     (k \<lparr> k_nodes := (k_nodes k)(q := Some (i \<lparr> in_ino := k_next_ino k \<rparr>)), k_next_ino := k_next_ino k + 1 \<rparr>)"

definition new_inode :: "mode_t \<Rightarrow> inode" where
  "new_inode m = \<lparr> in_mode = m, in_uid = 0, in_gid = 0, in_dev = 1, in_ino = 0, in_rdev = 0, in_mtime = 0, in_content = [] \<rparr>"

definition sys_rmdir :: "string \<Rightarrow> kernel \<Rightarrow> kernel option" where
  "sys_rmdir p k =
    Option.bind (allowed k ''rmdir'' (abs_path k p)) (\<lambda>q.
      if is_dir k q \<and> set (case k_entries k q of None \<Rightarrow> [] | Some ns \<Rightarrow> ns) \<subseteq> {''.'', ''..''} then Some (drop_name q k) else None)"

definition sys_unlink :: "string \<Rightarrow> kernel \<Rightarrow> kernel option" where
  "sys_unlink p k =
    Option.bind (allowed k ''unlink'' (abs_path k p)) (\<lambda>q.
      if k_nodes k q \<noteq> None \<and> \<not> is_dir k q then Some (drop_name q k) else None)"

definition sys_mkdir :: "string \<Rightarrow> mode_t \<Rightarrow> kernel \<Rightarrow> kernel option" where
  "sys_mkdir p perms k =
    Option.bind (allowed k ''mkdir'' (abs_path k p)) (\<lambda>q.
      if k_nodes k q = None \<and> is_dir k (parent_of q)
      then Some ((add_name q (new_inode (S_IFDIR OR perms)) k) \<lparr> k_entries := (k_entries (add_name q (new_inode (S_IFDIR OR perms)) k))
                   (q := Some [''.'', ''..'']) \<rparr>)
      else None)"

text \<open>Everything below the old name is found below the new one.\<close>

definition below :: "string \<Rightarrow> string \<Rightarrow> string option" where
  "below d q = (if q = d then Some [] else if starts_with (d @ ''/'') q then Some (drop (length d) q) else None)"

definition moved :: "string \<Rightarrow> string \<Rightarrow> (string \<Rightarrow> 'a option) \<Rightarrow> string \<Rightarrow> 'a option" where
  "moved old new f q =
    (case below new q of Some t \<Rightarrow> f (old @ t) | None \<Rightarrow> if below old q \<noteq> None then None else f q)"

definition sys_rename :: "string \<Rightarrow> string \<Rightarrow> kernel \<Rightarrow> kernel option" where
  "sys_rename p p' k =
    Option.bind (allowed k ''rename'' (abs_path k p)) (\<lambda>old.
    Option.bind (allowed k ''rename'' (abs_path k p')) (\<lambda>new.
      if k_nodes k old = None \<or> \<not> is_dir k (parent_of new) \<or> below old new \<noteq> None \<and> new \<noteq> old then None
      else if new = old then Some k
      else Some (edit_entries (parent_of new) (\<lambda>ns. removeAll (last_of new) ns @ [last_of new])
             (edit_entries (parent_of old) (removeAll (last_of old))
               (k \<lparr> k_nodes := moved old new (k_nodes k), k_links := moved old new (k_links k),
                    k_entries := moved old new (k_entries k) \<rparr>)))))"

definition edit_node :: "string \<Rightarrow> (inode \<Rightarrow> inode) \<Rightarrow> kernel \<Rightarrow> kernel" where
  "edit_node q f k = k \<lparr> k_nodes := (k_nodes k)(q := map_option f (k_nodes k q)) \<rparr>"

definition sys_edit :: "string \<Rightarrow> (inode \<Rightarrow> inode) \<Rightarrow> string \<Rightarrow> kernel \<Rightarrow> kernel option" where
  "sys_edit what f p k =
    Option.bind (allowed k what (real_path k p)) (\<lambda>q. if k_nodes k q = None then None else Some (edit_node q f k))"

text \<open>Permission bits are replaced, the type stays.\<close>

definition sys_chmod :: "string \<Rightarrow> mode_t \<Rightarrow> kernel \<Rightarrow> kernel option" where
  "sys_chmod p mode = sys_edit ''chmod'' (\<lambda>i. i \<lparr> in_mode := (in_mode i AND S_IFMT) OR (mode AND 0xFFF) \<rparr>) p"

definition sys_utime :: "string \<Rightarrow> int \<Rightarrow> kernel \<Rightarrow> kernel option" where
  "sys_utime p t = sys_edit ''utime'' (\<lambda>i. i \<lparr> in_mtime := t \<rparr>) p"

text \<open>\<open>open\<close> gives the name of the file that was opened; a file that is not there is created when the flags say so.\<close>

definition sys_open :: "string \<Rightarrow> bool \<Rightarrow> mode_t \<Rightarrow> kernel \<Rightarrow> (string \<times> kernel) option" where
  "sys_open p create perms k =
    Option.bind (allowed k (if create then ''write'' else ''read'') (real_path k p)) (\<lambda>q.
      case k_nodes k q of
        Some i \<Rightarrow> if create \<and> is_dir k q then None else Some (q, k)
      | None \<Rightarrow> if create \<and> is_dir k (parent_of q) then Some (q, add_name q (new_inode (S_IFREG OR perms)) k) else None)"

definition content_of :: "kernel \<Rightarrow> string \<Rightarrow> string" where
  "content_of k q = (case k_nodes k q of None \<Rightarrow> [] | Some i \<Rightarrow> in_content i)"

definition put_content :: "string \<Rightarrow> string \<Rightarrow> kernel \<Rightarrow> kernel" where
  "put_content q c = edit_node q (\<lambda>i. i \<lparr> in_content := c \<rparr>)"

text \<open>\<open>ftruncate\<close> also makes a file longer.\<close>

definition truncated :: "nat \<Rightarrow> string \<Rightarrow> string" where
  "truncated n c = take n c @ replicate (n - length c) NUL"

section \<open>The state\<close>

text \<open>\<open>lo_dir\<close> is what the open directory stream has still to give. \<open>lo_target\<close> is the file that is open for writing
  and what is in front of the bytes written so far.\<close>

record local_state =
  lo_req :: gftp_request
  lo_dir :: "string list option"
  lo_userhash :: "nat \<Rightarrow> string option"
  lo_grouphash :: "nat \<Rightarrow> string option"
  lo_in :: channel
  lo_out :: channel
  lo_target :: "(string \<times> string) option"
  lo_kernel :: kernel

type_synonym 'a local_act = "(local_state, 'a) action"

record local_env =
  le_to_utf8 :: "string \<Rightarrow> string option"
  le_from_utf8 :: "string \<Rightarrow> string option"
  le_user :: "nat \<Rightarrow> string option"
  le_group :: "nat \<Rightarrow> string option"

definition GFTP_LOCAL_NUM :: nat where [simp]: "GFTP_LOCAL_NUM = 4"

definition on_local_req :: "(gftp_request \<Rightarrow> gftp_request) \<Rightarrow> local_state \<Rightarrow> local_state" where
  "on_local_req f s = s \<lparr> lo_req := f (lo_req s) \<rparr>"

definition on_kernel :: "(kernel \<Rightarrow> kernel) \<Rightarrow> local_state \<Rightarrow> local_state" where
  "on_kernel f s = s \<lparr> lo_kernel := f (lo_kernel s) \<rparr>"

text \<open>The guard of the operations.\<close>

definition if_local :: "int local_act \<Rightarrow> int local_act" where
  "if_local m s = (if rq_protonum (lo_req s) = int GFTP_LOCAL_NUM then m s else Inr (GFTP_EFATAL, s))"

text \<open>A system call that gives 0 or -1, answered with 0 or \<open>GFTP_ERETRYABLE\<close>.\<close>

definition k_call :: "(kernel \<Rightarrow> kernel option) \<Rightarrow> int local_act" where
  "k_call f s = (case f (lo_kernel s) of None \<Rightarrow> Inr (GFTP_ERETRYABLE, s) | Some k \<Rightarrow> Inr (0, s \<lparr> lo_kernel := k \<rparr>))"

text \<open>A name in the character set of the file system, when it can be converted.\<close>

definition disk_name :: "local_env \<Rightarrow> string \<Rightarrow> string" where
  "disk_name env p = (case le_from_utf8 env p of None \<Rightarrow> p | Some u \<Rightarrow> u)"


section \<open>Directories and connections\<close>

definition local_getcwd :: "local_env \<Rightarrow> int local_act" where
  "local_getcwd env s =
    (case k_cwd (lo_kernel s) of
       None \<Rightarrow> Inr (GFTP_ERETRYABLE, on_local_req (\<lambda>rq. rq \<lparr> rq_directory := None \<rparr>) s)
     | Some d \<Rightarrow> Inr (0, on_local_req (\<lambda>rq. rq \<lparr> rq_directory :=
          Some (case le_to_utf8 env d of None \<Rightarrow> d | Some u \<Rightarrow> u) \<rparr>) s))"

definition local_chdir :: "local_env \<Rightarrow> string \<Rightarrow> int local_act" where
  "local_chdir env directory =
     if_local (and_then (k_call (sys_chdir (disk_name env directory))) (\<lambda>ret.
       if ret = 0 then local_getcwd env else give GFTP_ERETRYABLE))"

definition local_connect :: "local_env \<Rightarrow> int local_act" where
  "local_connect env = if_local (and_then get_state (\<lambda>s.
     case rq_directory (lo_req s) of Some d \<Rightarrow> local_chdir env d | None \<Rightarrow> local_getcwd env))"

definition close_file :: "local_state \<Rightarrow> local_state" where
  "close_file s = on_local_req (\<lambda>rq. rq \<lparr> rq_datafd := -1 \<rparr>) (s \<lparr> lo_target := None \<rparr>)"

definition local_disconnect :: "local_state \<Rightarrow> local_state" where
  "local_disconnect s =
    (if rq_protonum (lo_req s) = int GFTP_LOCAL_NUM \<and> rq_datafd (lo_req s) \<noteq> -1 then close_file s else s)"

text \<open>\<open>gftp_disconnect\<close> on a request of this module.\<close>

definition local_gftp_disconnect :: "local_state \<Rightarrow> local_state" where
  "local_gftp_disconnect s = local_disconnect (on_local_req (\<lambda>rq. rq \<lparr> rq_cached := False \<rparr>) s)"

definition local_destroy :: "local_state \<Rightarrow> local_state" where
  "local_destroy s = s \<lparr> lo_userhash := (\<lambda>_. None), lo_grouphash := (\<lambda>_. None) \<rparr>"


section \<open>Files\<close>

text \<open>\<open>gftp_fd_open\<close>: \<^term>\<open>None\<close> is its \<open>GFTP_ERETRYABLE\<close>, which is the -1 the callers test for. A
  descriptor that is still open is forgotten.\<close>

definition gftp_fd_open :: "string \<Rightarrow> bool \<Rightarrow> mode_t \<Rightarrow> string option local_act" where
  "gftp_fd_open p create perms s =
    (case sys_open p create perms (lo_kernel s) of
       None \<Rightarrow> Inr (None, on_local_req (\<lambda>rq. rq \<lparr> rq_datafd := -1 \<rparr>) s)
     | Some (q, k) \<Rightarrow> Inr (Some q, on_local_req (\<lambda>rq. rq \<lparr> rq_datafd := k_next_fd k \<rparr>)
          (s \<lparr> lo_kernel := k \<lparr> k_next_fd := k_next_fd k + 1 \<rparr> \<rparr>)))"

definition give_up :: "int \<Rightarrow> int local_act" where
  "give_up ret = and_then (change local_gftp_disconnect) (\<lambda>_. give ret)"

definition source_channel :: "kernel \<Rightarrow> string \<Rightarrow> nat \<Rightarrow> channel" where
  "source_channel k q n =
    (if is_dir k q then (file_channel []) \<lparr> script := [Call_failed] \<rparr> else file_channel (drop n (content_of k q)))"

definition local_get_file :: "local_env \<Rightarrow> string \<Rightarrow> int \<Rightarrow> int local_act" where
  "local_get_file env filename startsize =
     if_local (and_then (gftp_fd_open (disk_name env filename) False 0) (\<lambda>opened.
       case opened of
         None \<Rightarrow> give GFTP_ERETRYABLE
       | Some q \<Rightarrow>
           if startsize < 0 then give_up GFTP_ERETRYABLE
           else and_then get_state (\<lambda>s.
                and_then (change (\<lambda>s. s \<lparr> lo_in := source_channel (lo_kernel s) q (nat startsize) \<rparr>)) (\<lambda>_.
                give (int (length (content_of (lo_kernel s) q)))))))"

definition local_put_file :: "local_env \<Rightarrow> string \<Rightarrow> int \<Rightarrow> int \<Rightarrow> int local_act" where
  "local_put_file env filename startsize totalsize =
     if_local (and_then (gftp_fd_open (disk_name env filename) True (S_IRUSR OR S_IWUSR OR S_IRGRP OR S_IROTH)) (\<lambda>opened.
       case opened of
         None \<Rightarrow> give GFTP_ERETRYABLE
       | Some q \<Rightarrow>
           if startsize < 0 then give_up GFTP_ERETRYABLE
           else and_then (change (\<lambda>s.
                  let base = truncated (nat startsize) (content_of (lo_kernel s) q)
                  in on_kernel (put_content q base) (s \<lparr> lo_target := Some (q, base),
                       lo_out := (file_channel []) \<lparr> script := k_writes (lo_kernel s) \<rparr> \<rparr>))) (\<lambda>_. give 0)))"

text \<open>\<open>gftp_fd_read\<close> and \<open>gftp_fd_write\<close> on the open file. \<open>select\<close> on -1 is undefined.\<close>

definition local_after_io :: "channel \<Rightarrow> local_state \<Rightarrow> local_state" where
  "local_after_io ch s = (if disconnected ch then local_gftp_disconnect s else s)"

definition local_read :: "nat \<Rightarrow> int \<Rightarrow> (int + string) local_act" where
  "local_read n fd s =
    (if fd < 0 then Inl Out_of_bounds
     else let (r, ch) = gftp_fd_read n ((lo_in s) \<lparr> cancel_flag := Some (rq_cancel (lo_req s)), disconnected := False \<rparr>)
          in Inr (r, local_after_io ch (s \<lparr> lo_in := ch \<rparr>)))"

definition local_write :: "string \<Rightarrow> int \<Rightarrow> int local_act" where
  "local_write p fd s =
    (if fd < 0 then Inl Out_of_bounds
     else let (r, ch) = gftp_fd_write p ((lo_out s) \<lparr> cancel_flag := Some (rq_cancel (lo_req s)), disconnected := False \<rparr>);
              s = (case lo_target s of
                     None \<Rightarrow> s
                   | Some (q, base) \<Rightarrow> on_kernel (put_content q (base @ written ch)) s)
          in Inr (r, local_after_io ch (s \<lparr> lo_out := ch \<rparr>)))"

definition local_end_transfer :: "int local_act" where
  "local_end_transfer =
     and_then (change (\<lambda>s. s \<lparr> lo_dir := None \<rparr>)) (\<lambda>_.
     and_then (change (\<lambda>s. if 0 < rq_datafd (lo_req s) then close_file s else s)) (\<lambda>_. give 0))"

definition local_stat_filename :: "local_env \<Rightarrow> string \<Rightarrow> (int \<times> mode_t \<times> int) local_act" where
  "local_stat_filename env filename s =
    (case sys_stat (lo_kernel s) (disk_name env filename) of
       None \<Rightarrow> Inr ((GFTP_ERETRYABLE, 0, 0), s)
     | Some st \<Rightarrow> Inr ((0, in_mode st, st_size st), s))"

definition local_get_file_size :: "local_env \<Rightarrow> string \<Rightarrow> int local_act" where
  "local_get_file_size env filename s =
    (case sys_stat (lo_kernel s) (disk_name env filename) of
       None \<Rightarrow> Inr (GFTP_ERETRYABLE, s)
     | Some st \<Rightarrow> Inr (st_size st, s))"

definition local_rmdir :: "local_env \<Rightarrow> string \<Rightarrow> int local_act" where
  "local_rmdir env directory = if_local (k_call (sys_rmdir (disk_name env directory)))"

definition local_rmfile :: "local_env \<Rightarrow> string \<Rightarrow> int local_act" where
  "local_rmfile env fname = if_local (k_call (sys_unlink (disk_name env fname)))"

definition local_mkdir :: "local_env \<Rightarrow> string \<Rightarrow> int local_act" where
  "local_mkdir env directory =
     if_local (k_call (sys_mkdir (disk_name env directory) (S_IRWXU OR S_IRGRP OR S_IXGRP OR S_IROTH OR S_IXOTH)))"

definition local_rename :: "local_env \<Rightarrow> string \<Rightarrow> string \<Rightarrow> int local_act" where
  "local_rename env oldname newname =
     if_local (k_call (sys_rename (disk_name env oldname) (disk_name env newname)))"

definition local_chmod :: "local_env \<Rightarrow> string \<Rightarrow> mode_t \<Rightarrow> int local_act" where
  "local_chmod env fname mode = if_local (k_call (sys_chmod (disk_name env fname) mode))"

definition local_set_file_time :: "local_env \<Rightarrow> string \<Rightarrow> int \<Rightarrow> int local_act" where
  "local_set_file_time env fname datetime = if_local (k_call (sys_utime (disk_name env fname) datetime))"

section \<open>Listings\<close>

definition local_list_files :: "local_env \<Rightarrow> int local_act" where
  "local_list_files env s =
    (case rq_directory (lo_req s) of
       None \<Rightarrow> Inr (GFTP_EFATAL, s)
     | Some d \<Rightarrow>
         if rq_protonum (lo_req s) \<noteq> int GFTP_LOCAL_NUM then Inr (GFTP_EFATAL, s)
         else if d = [] then Inl Out_of_bounds
         else let dir = (if last d = CHR ''/'' then d else d @ ''/'')
              in (case sys_opendir (lo_kernel s) (disk_name env dir) of
                    None \<Rightarrow> Inr (GFTP_ERETRYABLE, s \<lparr> lo_dir := None \<rparr>)
                  | Some ns \<Rightarrow> Inr (0, s \<lparr> lo_dir := Some ns \<rparr>)))"

text \<open>The name of a user or group, from the table of the connection or the user database.\<close>

definition cached_name :: "(nat \<Rightarrow> string option) \<Rightarrow> (nat \<Rightarrow> string option) \<Rightarrow> nat \<Rightarrow> string \<times> (nat \<Rightarrow> string option)" where
  "cached_name hash database n =
    (case hash n of
       Some u \<Rightarrow> (u, hash)
     | None \<Rightarrow> let u = (case database n of None \<Rightarrow> show_nat n | Some u \<Rightarrow> u) in (u, hash(n := Some u)))"

definition file_details :: "string \<Rightarrow> string \<Rightarrow> string \<Rightarrow> inode \<Rightarrow> inode \<Rightarrow> gftp_file" where
  "file_details name user grp st fst' =
     zero_file \<lparr> gf_file := Some name, gf_user := Some user, gf_group := Some grp, gf_st_dev := in_dev fst',
       gf_st_ino := in_ino fst', gf_st_mode := in_mode fst', gf_datetime := in_mtime st,
       gf_size := (if GFTP_IS_SPECIAL_DEVICE (in_mode fst') then in_rdev st else st_size fst') \<rparr>"

text \<open>The names are looked up in the working directory of the process, whatever directory is being read.\<close>

definition local_get_next_file :: "local_env \<Rightarrow> (int \<times> gftp_file) local_act" where
  "local_get_next_file env s =
    (if rq_protonum (lo_req s) \<noteq> int GFTP_LOCAL_NUM then Inr ((GFTP_EFATAL, zero_file), s)
     else case lo_dir s of
       None \<Rightarrow> Inl Out_of_bounds
     | Some [] \<Rightarrow> Inr ((GFTP_EFATAL, zero_file), s \<lparr> lo_dir := None \<rparr>)
     | Some (name # ns) \<Rightarrow>
         let s = s \<lparr> lo_dir := Some ns \<rparr>
         in case (sys_lstat (lo_kernel s) name, sys_stat (lo_kernel s) name) of
              (Some st, Some fst') \<Rightarrow>
                let (user, users) = cached_name (lo_userhash s) (le_user env) (in_uid st);
                    (grp, groups) = cached_name (lo_grouphash s) (le_group env) (in_gid st)
                in Inr ((1, file_details name user grp st fst'), s \<lparr> lo_userhash := users, lo_grouphash := groups \<rparr>)
            | _ \<Rightarrow> Inr ((GFTP_ERETRYABLE, zero_file \<lparr> gf_file := Some name \<rparr>), s))"


section \<open>The module\<close>

text \<open>A world that holds the state of a connection: several connections can share a kernel.\<close>

record 'w lens =
  view :: "'w \<Rightarrow> stuck + local_state"
  store_back :: "(stuck + local_state) \<Rightarrow> 'w \<Rightarrow> 'w"

definition on_local_world :: "'w lens \<Rightarrow> 'a \<Rightarrow> 'a local_act \<Rightarrow> gftp_request \<Rightarrow> 'w \<Rightarrow> 'a \<times> gftp_request \<times> 'w" where
  "on_local_world v none m rq w =
    (case view v w of
       Inl e \<Rightarrow> (none, rq, w)
     | Inr s \<Rightarrow> (case m (s \<lparr> lo_req := rq \<rparr>) of
                  Inl e \<Rightarrow> (none, rq, store_back v (Inl e) w)
                | Inr (a, s') \<Rightarrow> (a, lo_req s', store_back v (Inr s') w)))"

definition local_call :: "'w lens \<Rightarrow> int local_act \<Rightarrow> 'w call" where
  "local_call v = on_local_world v GFTP_EFATAL"

definition local_silently :: "'w lens \<Rightarrow> (local_state \<Rightarrow> local_state) \<Rightarrow> gftp_request \<Rightarrow> 'w \<Rightarrow> gftp_request \<times> 'w" where
  "local_silently v f rq w = snd (on_local_world v () (change f) rq w)"

definition local_ops :: "'w lens \<Rightarrow> local_env \<Rightarrow> 'w proto_ops" where
  "local_ops v env =
     no_ops \<lparr>
       op_destroy := Some (local_silently v local_destroy),
       op_read_function := Some (\<lambda>n fd. on_local_world v (Inl GFTP_EFATAL) (local_read n fd)),
       op_write_function := Some (\<lambda>p fd. local_call v (local_write p fd)),
       op_connect := Some (local_call v (local_connect env)),
       op_disconnect := Some (local_silently v local_disconnect),
       op_get_file := Some (\<lambda>f k. local_call v (local_get_file env f k)),
       op_put_file := Some (\<lambda>f k t. local_call v (local_put_file env f k t)),
       op_end_transfer := Some (local_call v local_end_transfer),
       op_abort_transfer := Some (local_call v local_end_transfer),
       op_stat_filename := Some (\<lambda>f. on_local_world v (GFTP_EFATAL, 0, 0) (local_stat_filename env f)),
       op_list_files := Some (local_call v (local_list_files env)),
       op_get_next_file := Some (\<lambda>fd. on_local_world v (GFTP_EFATAL, zero_file) (local_get_next_file env)),
       op_get_file_size := Some (\<lambda>f. local_call v (local_get_file_size env f)),
       op_chdir := Some (\<lambda>d. local_call v (local_chdir env d)),
       op_rmdir := Some (\<lambda>d. local_call v (local_rmdir env d)),
       op_rmfile := Some (\<lambda>f. local_call v (local_rmfile env f)),
       op_mkdir := Some (\<lambda>d. local_call v (local_mkdir env d)),
       op_rename := Some (\<lambda>a b. local_call v (local_rename env a b)),
       op_chmod := Some (\<lambda>f m. local_call v (local_chmod env f m)),
       op_set_file_time := Some (\<lambda>f t. local_call v (local_set_file_time env f t)) \<rparr>"

definition local_request :: "gftp_request \<Rightarrow> gftp_request" where
  "local_request rq = rq \<lparr> rq_protonum := int GFTP_LOCAL_NUM, rq_url_prefix := Some ''file'', rq_need_hostport := False,
     rq_need_username := False, rq_need_password := False, rq_use_cache := False, rq_always_connected := True,
     rq_use_local_encoding := True, rq_hostname := Some ''local filesystem'' \<rparr>"

definition local_data :: "local_state \<Rightarrow> local_state" where
  "local_data s = s \<lparr> lo_dir := None, lo_userhash := (\<lambda>_. None), lo_grouphash := (\<lambda>_. None) \<rparr>"

definition local_init ::
  "'w lens \<Rightarrow> local_env \<Rightarrow> 'w connection \<Rightarrow> 'w \<Rightarrow> int \<times> 'w connection \<times> 'w" where
  "local_init v env c w =
     Requests.gftp_set_config_options \<lparr> con_req = local_request (con_req c), con_ops = local_ops v env \<rparr>
       (store_back v (map_sum id local_data (view v w)) w)"

end
