(* ===== verification/Transfers.thy ===== *)
theory Transfers
  imports Requests Actions
begin

text \<open>
  What is to be transferred: \<open>gftp_get_all_subdirs\<close> of \<open>lib/protocols.c\<close> replaces the directories among the
  selected files by everything below them. The two ends of a transfer are two connections that act on the same
  world; the state \<open>ends\<close> also has the counters of \<open>struct gftp_transfer_tag\<close> and the table of the devices and
  inodes that were visited. \<open>gftp_list_files\<close> and \<open>gftp_get_next_file\<close> are arguments (record \<open>lister\<close>), because
  the cache files they use are a state of their own; \<open>uncached_lister\<close> has the ones of the theory Requests.
\<close>


section \<open>The two ends\<close>

record 's ends =
  en_from :: "'s connection"
  en_to :: "'s connection option"
  en_world :: 's
  en_numfiles :: int
  en_numdirs :: int
  en_visited :: "(nat \<times> nat) list"
  en_oldfrom :: "string option"
  en_oldto :: "string option"

type_synonym ('s, 'a) end_act = "('s ends, 'a) action"

record 's lister =
  li_list :: "'s effect"
  li_next :: "'s connection \<Rightarrow> 's \<Rightarrow> stuck + (int \<times> gftp_file) \<times> 's connection \<times> 's"

definition uncached_lister :: "name_env \<Rightarrow> nat \<Rightarrow> 's lister" where
  "uncached_lister env fuel =
     \<lparr> li_list = (\<lambda>c s. dispatch (op_list_files (con_ops c)) (uncached c) s),
       li_next = (\<lambda>c s. case gftp_get_next_file env fuel None c s (file_channel []) of
                           Inl e \<Rightarrow> Inl e
                         | Inr (r, c, s, ch) \<Rightarrow> Inr (r, c, s)) \<rparr>"

text \<open>An operation on the source, or on the target; a missing target is a NULL pointer.\<close>

definition from_does :: "'s effect \<Rightarrow> ('s, int) end_act" where
  "from_does f s = (let (r, c, w) = f (en_from s) (en_world s) in Inr (r, s \<lparr> en_from := c, en_world := w \<rparr>))"

definition to_does :: "'s effect \<Rightarrow> ('s, int) end_act" where
  "to_does f s =
    (case en_to s of
       None \<Rightarrow> Inl Out_of_bounds
     | Some c \<Rightarrow> let (r, c, w) = f c (en_world s) in Inr (r, s \<lparr> en_to := Some c, en_world := w \<rparr>))"

definition GFTP_IS_CONNECTED :: "gftp_request \<Rightarrow> bool" where
  "GFTP_IS_CONNECTED rq \<longleftrightarrow> 0 < rq_datafd rq \<or> rq_cached rq \<or> rq_always_connected rq"

section \<open>The files that are already there\<close>

text \<open>The names and sizes of a directory. A missing name is the NULL key of the hash table.\<close>

fun dir_hash_loop ::
  "'s lister \<Rightarrow> nat \<Rightarrow> (string \<Rightarrow> int option) \<Rightarrow> 's connection \<Rightarrow> 's \<Rightarrow> stuck + (string \<Rightarrow> int option) \<times> 's connection \<times> 's" where
  "dir_hash_loop L 0 hash c s = Inl Out_of_fuel"
| "dir_hash_loop L (Suc n) hash c s =
    (case li_next L c s of
       Inl e \<Rightarrow> Inl e
     | Inr ((ret, fle), c, s) \<Rightarrow>
         if ret \<le> 0 then Inr (hash, c, s)
         else (case gf_file fle of
                 None \<Rightarrow> Inl Out_of_bounds
               | Some name \<Rightarrow> dir_hash_loop L n (hash(name \<mapsto> gf_size fle)) c s))"

definition gftp_gen_dir_hash ::
  "'s lister \<Rightarrow> nat \<Rightarrow> 's connection \<Rightarrow> 's \<Rightarrow> stuck + (int \<times> (string \<Rightarrow> int option) option) \<times> 's connection \<times> 's" where
  "gftp_gen_dir_hash L fuel c s =
    (let (ret, c, s) = li_list L c s
     in if ret = 0 then
          (case dir_hash_loop L fuel Map.empty c s of
             Inl e \<Rightarrow> Inl e
           | Inr (hash, c, s) \<Rightarrow> let (e, c, s) = gftp_end_transfer c s in Inr ((ret, Some hash), c, s))
        else Inr ((ret, None), c, s))"

text \<open>The hash of the target's directory, when there is a target and it is asked for.\<close>

definition target_hash :: "'s lister \<Rightarrow> nat \<Rightarrow> bool \<Rightarrow> ('s, int \<times> (string \<Rightarrow> int option) option) end_act" where
  "target_hash L fuel wanted s =
    (case en_to s of
       Some c \<Rightarrow>
         if wanted then
           (case gftp_gen_dir_hash L fuel c (en_world s) of
              Inl e \<Rightarrow> Inl e
            | Inr (r, c, w) \<Rightarrow> Inr (r, s \<lparr> en_to := Some c, en_world := w \<rparr>))
         else Inr ((0, None), s)
     | None \<Rightarrow> Inr ((0, None), s))"

definition mark_existing :: "(string \<Rightarrow> int option) option \<Rightarrow> string \<Rightarrow> gftp_file \<Rightarrow> gftp_file" where
  "mark_existing hash name fle =
    (case Option.bind hash (\<lambda>h. h name) of
       Some n \<Rightarrow> fle \<lparr> gf_exists_other_side := True, gf_startsize := n \<rparr>
     | None \<Rightarrow> fle \<lparr> gf_exists_other_side := False \<rparr>)"

text \<open>\<open>gftp_build_path\<close> in the directory of a connection; the inner \<^term>\<open>None\<close> is NULL.\<close>

definition path_in :: "'s connection \<Rightarrow> string \<Rightarrow> string option option" where
  "path_in c name =
    (case rq_directory (con_req c) of
       None \<Rightarrow> Some None
     | Some d \<Rightarrow> map_option Some (gftp_build_path (Some (rq_server_type (con_req c))) d [name]))"

text \<open>The names of an entry on both sides.\<close>

definition set_destfile :: "'s connection option \<Rightarrow> gftp_file \<Rightarrow> gftp_file option" where
  "set_destfile to fle =
    (case to of
       Some c \<Rightarrow>
         if gf_destfile fle = None
         then Option.bind (gf_file fle) (\<lambda>name. map_option (\<lambda>p. fle \<lparr> gf_destfile := p \<rparr>) (path_in c name))
         else Some fle
     | None \<Rightarrow> Some fle)"

definition set_source :: "'s connection \<Rightarrow> gftp_file \<Rightarrow> gftp_file option" where
  "set_source c fle =
    Option.bind (gf_file fle) (\<lambda>name.
      if no_text (rq_directory (con_req c)) \<or> (name \<noteq> [] \<and> hd name = CHR ''/'') then Some fle
      else map_option (\<lambda>p. fle \<lparr> gf_file := p \<rparr>) (path_in c name))"

definition both_names :: "gftp_file \<Rightarrow> ('s, gftp_file) end_act" where
  "both_names fle =
     and_then get_state (\<lambda>s.
     and_then (need (set_destfile (en_to s) fle)) (\<lambda>fle. need (set_source (en_from s) fle)))"


section \<open>The listing of one directory\<close>

definition from_next :: "'s lister \<Rightarrow> ('s, int \<times> gftp_file) end_act" where
  "from_next L s =
    (case li_next L (en_from s) (en_world s) of
       Inl e \<Rightarrow> Inl e
     | Inr (r, c, w) \<Rightarrow> Inr (r, s \<lparr> en_from := c, en_world := w \<rparr>))"

fun listing_loop :: "'s lister \<Rightarrow> nat \<Rightarrow> (string \<Rightarrow> int option) option \<Rightarrow> gftp_file list \<Rightarrow> ('s, gftp_file list) end_act" where
  "listing_loop L 0 hash templist = stop Out_of_fuel"
| "listing_loop L (Suc n) hash templist =
     and_then (from_next L) (\<lambda>(ret, fle).
       if ret \<le> 0 then give templist
       else and_then (need (gf_file fle)) (\<lambda>name.
            if name = ''.'' \<or> name = ''..'' then listing_loop L n hash templist
            else and_then (both_names (mark_existing hash name fle)) (\<lambda>fle. listing_loop L n hash (templist @ [fle]))))"

definition gftp_get_dir_listing :: "'s lister \<Rightarrow> nat \<Rightarrow> bool \<Rightarrow> ('s, int \<times> gftp_file list) end_act" where
  "gftp_get_dir_listing L fuel getothdir =
     and_then (target_hash L fuel getothdir) (\<lambda>(ret, hash).
       if ret = GFTP_EFATAL then give (ret, [])
       else and_then (from_does (li_list L)) (\<lambda>ret.
         if ret < 0 then give (ret, [])
         else and_then (listing_loop L fuel hash []) (\<lambda>templist.
              and_then (from_does gftp_end_transfer) (\<lambda>_. give (ret, templist)))))"


section \<open>The selected files\<close>

definition base_name :: "string \<Rightarrow> string" where
  "base_name f = (case strrchr f (CHR ''/'') of Some p \<Rightarrow> tl p | None \<Rightarrow> f)"

text \<open>The size of an entry whose size is not known. \<^term>\<open>Inl\<close> is the error that ends the function.\<close>

definition known_size :: "gftp_file \<Rightarrow> ('s, int + gftp_file) end_act" where
  "known_size fle =
     and_then get_state (\<lambda>s.
       if gf_size fle < 0 \<and> GFTP_IS_CONNECTED (con_req (en_from s))
       then and_then (need (gf_file fle)) (\<lambda>name.
            and_then (from_does (gftp_get_file_size name)) (\<lambda>size'.
              if size' = GFTP_EFATAL then give (Inl size') else give (Inr (fle \<lparr> gf_size := size' \<rparr>))))
       else give (Inr fle))"

fun setup_loop :: "(string \<Rightarrow> int option) option \<Rightarrow> gftp_file list \<Rightarrow> gftp_file list \<Rightarrow> ('s, int + gftp_file list) end_act" where
  "setup_loop hash ready [] = give (Inr ready)"
| "setup_loop hash ready (curfle # fs) =
     and_then (need (gf_file curfle)) (\<lambda>name.
     and_then (known_size (mark_existing hash (base_name name) curfle)) (\<lambda>r.
       case r of
         Inl e \<Rightarrow> give (Inl e)
       | Inr fle \<Rightarrow> and_then (both_names fle) (\<lambda>fle. setup_loop hash (ready @ [fle]) fs)))"

definition setup_current_directory_transfer :: "'s lister \<Rightarrow> nat \<Rightarrow> gftp_file list \<Rightarrow> ('s, int + gftp_file list) end_act" where
  "setup_current_directory_transfer L fuel files =
     and_then (target_hash L fuel True) (\<lambda>(ret, hash).
       if ret = GFTP_EFATAL then give (Inl ret) else setup_loop hash [] files)"

section \<open>The walk\<close>

text \<open>Entries of a device and inode that were met before are not followed. Both numbers are cut to 32 bits, and
  a file system without them gives zeros.\<close>

definition device_key :: "gftp_file \<Rightarrow> (nat \<times> nat) option" where
  "device_key fle =
    (if gf_st_dev fle = 0 \<or> gf_st_ino fle = 0 then None
     else Some (gf_st_dev fle mod 2 ^ 32, gf_st_ino fle mod 2 ^ 32))"

definition lookup_curfle_in_device_hash :: "gftp_file \<Rightarrow> ('s, bool) end_act" where
  "lookup_curfle_in_device_hash fle s =
    (case device_key fle of
       None \<Rightarrow> Inr (False, s)
     | Some k \<Rightarrow> if k \<in> set (en_visited s) then Inr (True, s)
                 else Inr (False, s \<lparr> en_visited := k # en_visited s \<rparr>))"

definition from_stat :: "string \<Rightarrow> ('s, int \<times> mode_t \<times> int) end_act" where
  "from_stat name s =
    (let (r, c, w) = gftp_stat_filename name 0 0 (en_from s) (en_world s)
     in Inr (r, s \<lparr> en_from := c, en_world := w \<rparr>))"

text \<open>What a symbolic link points to. \<^term>\<open>Inl\<close> is the error that ends the walk.\<close>

definition resolve_link :: "gftp_file \<Rightarrow> ('s, int + gftp_file) end_act" where
  "resolve_link fle =
    (if S_ISLNK (gf_st_mode fle) \<and> \<not> S_ISDIR (gf_st_mode fle)
     then and_then (need (gf_file fle)) (\<lambda>name.
          and_then (from_stat name) (\<lambda>(ret, st_mode, linksize).
            if ret = GFTP_EFATAL then give (Inl ret)
            else if ret = 0 then
              give (Inr (if S_ISDIR st_mode then fle \<lparr> gf_st_mode := st_mode \<rparr> else fle \<lparr> gf_size := linksize \<rparr>))
            else give (Inr fle)))
     else give (Inr fle))"

definition count :: "int \<Rightarrow> int \<Rightarrow> ('s, unit) end_act" where
  "count f d = change (\<lambda>s. s \<lparr> en_numfiles := en_numfiles s + f, en_numdirs := en_numdirs s + d \<rparr>)"

text \<open>The two requests move into a directory; one that is not there on the other side is only noted in the
  request. \<^term>\<open>Some\<close> is the error that ends the walk.\<close>

definition enter_from :: "string \<Rightarrow> ('s, int) end_act" where
  "enter_from name =
     and_then (change (\<lambda>s. s \<lparr> en_oldfrom := (if en_oldfrom s = None then rq_directory (con_req (en_from s)) else en_oldfrom s) \<rparr>))
       (\<lambda>_. from_does (gftp_set_directory name))"

definition enter_to :: "gftp_file \<Rightarrow> ('s, int option) end_act" where
  "enter_to fle s =
    (case en_to s of
       None \<Rightarrow> Inr (None, s)
     | Some c \<Rightarrow>
         let s = s \<lparr> en_oldto := (if en_oldto s = None then rq_directory (con_req c) else en_oldto s) \<rparr>
         in if gf_exists_other_side fle
            then (case gf_destfile fle of
                    None \<Rightarrow> Inr (Some GFTP_EFATAL, s)
                  | Some dest \<Rightarrow> and_then (to_does (gftp_set_directory dest)) (\<lambda>ret.
                      give (if ret = GFTP_EFATAL then Some ret else None)) s)
            else Inr (None, s \<lparr> en_to := Some (on_req (\<lambda>rq. rq \<lparr> rq_directory := gf_destfile fle \<rparr>) c) \<rparr>))"

text \<open>The directories that come up in the walk are appended, so that \<open>todo\<close> is the rest of the list.\<close>

fun subdirs_loop :: "'s lister \<Rightarrow> nat \<Rightarrow> nat \<Rightarrow> gftp_file list \<Rightarrow> gftp_file list \<Rightarrow> ('s, int \<times> gftp_file list) end_act" where
  "subdirs_loop L fuel n files [] = give (0, files)"
| "subdirs_loop L fuel 0 files (curfle # todo) = stop Out_of_fuel"
| "subdirs_loop L fuel (Suc n) files (curfle # todo) =
     and_then (lookup_curfle_in_device_hash curfle) (\<lambda>seen.
       if seen then subdirs_loop L fuel n (files @ [curfle]) todo
       else and_then (resolve_link curfle) (\<lambda>r.
         case r of
           Inl e \<Rightarrow> give (e, files @ curfle # todo)
         | Inr curfle \<Rightarrow>
             if \<not> S_ISDIR (gf_st_mode curfle)
             then and_then (count 1 0) (\<lambda>_. subdirs_loop L fuel n (files @ [curfle]) todo)
             else
               and_then (count 0 1) (\<lambda>_.
               and_then (need (gf_file curfle)) (\<lambda>name.
               and_then (enter_from name) (\<lambda>ret.
                 if ret < 0 then give (ret, files @ curfle # todo)
                 else
                   and_then (enter_to curfle) (\<lambda>e.
                     case e of
                       Some ret \<Rightarrow> give (ret, files @ curfle # todo)
                     | None \<Rightarrow>
                         and_then (gftp_get_dir_listing L fuel (gf_exists_other_side curfle)) (\<lambda>(ret, new).
                           if ret < 0 then give (ret, files @ curfle # todo @ new)
                           else subdirs_loop L fuel n (files @ [curfle]) (todo @ new))))))))"

text \<open>Both requests go back to where they were.\<close>

definition back_from :: "('s, int) end_act" where
  "back_from = and_then get_state (\<lambda>s.
     case en_oldfrom s of None \<Rightarrow> give 0 | Some d \<Rightarrow> from_does (gftp_set_directory d))"

definition back_to :: "('s, int) end_act" where
  "back_to = and_then get_state (\<lambda>s.
     case en_oldto s of None \<Rightarrow> give 0 | Some d \<Rightarrow> to_does (gftp_set_directory d))"

definition gftp_get_all_subdirs :: "'s lister \<Rightarrow> nat \<Rightarrow> nat \<Rightarrow> gftp_file list \<Rightarrow> ('s, int \<times> gftp_file list) end_act" where
  "gftp_get_all_subdirs L fuel n files =
    (if files = [] then give (GFTP_EFATAL, [])
     else and_then (change (\<lambda>s. s \<lparr> en_visited := [], en_oldfrom := None, en_oldto := None \<rparr>)) (\<lambda>_.
          and_then (setup_current_directory_transfer L fuel files) (\<lambda>r.
            case r of
              Inl e \<Rightarrow> give (e, files)
            | Inr files \<Rightarrow>
                and_then (subdirs_loop L fuel n [] files) (\<lambda>(ret, files).
                  if ret \<noteq> 0 then give (ret, files)
                  else and_then back_from (\<lambda>ret.
                    if ret = GFTP_EFATAL then give (ret, files)
                    else and_then back_to (\<lambda>ret.
                      give (if ret = GFTP_EFATAL then ret else 0, files)))))))"

end
