(* ===== verification/Transfer_Loop.thy ===== *)
theory Transfer_Loop
  imports Transfers
begin

text \<open>
  The transfer of a list of files: the thread function \<open>gftpui_common_transfer_files\<close> of \<open>gtk/gftp-gtk.c\<close> with
  the functions below it, \<open>gftp_get_transfer_status\<close> and \<open>gftp_calc_kbs\<close> of \<open>lib/protocols.c\<close>, and what the
  buttons of the window do to a running transfer (\<open>gtk/transfer.c\<close>, \<open>gtk/gtkui.c\<close>).

  The window runs in another thread. What the user does is a list of events, one of which is taken each time the
  thread looks at \<open>tdata->cancel\<close>; the clock is the list of seconds \<open>gettimeofday\<close> will give. The speed and the
  delay of a throttled transfer are not computed.
\<close>


section \<open>The state\<close>

datatype ui_event = No_event | Stop_button | Skip_button nat

record 's tdata =
  td_from :: "'s connection"
  td_to :: "'s connection"
  td_world :: 's
  td_files :: "gftp_file list"
  td_cur :: nat
  td_cancel :: bool
  td_started :: bool
  td_done :: bool
  td_stalled :: bool
  td_no_timeout :: bool
  td_next_file :: bool
  td_skip_file :: bool
  td_current_file_number :: int
  td_current_file_retries :: int
  td_curtrans :: int
  td_tot_file_trans :: int
  td_curresumed :: int
  td_trans_bytes :: int
  td_total_bytes :: int
  td_resumed_bytes :: int
  td_lasttime :: int
  td_clock :: "int list"
  td_events :: "ui_event list"

record transfer_options =
  to_retries :: int
  to_trans_blksize :: nat
  to_preserve_permissions :: bool
  to_preserve_time :: bool

type_synonym ('s, 'a) td_act = "('s tdata, 'a) action"

definition source_does :: "'s effect \<Rightarrow> ('s, int) td_act" where
  "source_does f s = (let (r, c, w) = f (td_from s) (td_world s) in Inr (r, s \<lparr> td_from := c, td_world := w \<rparr>))"

definition target_does :: "'s effect \<Rightarrow> ('s, int) td_act" where
  "target_does f s = (let (r, c, w) = f (td_to s) (td_world s) in Inr (r, s \<lparr> td_to := c, td_world := w \<rparr>))"

text \<open>An operation of the target on a name; the protocols answer NULL with \<open>GFTP_EFATAL\<close>.\<close>

definition target_on :: "string option \<Rightarrow> (string \<Rightarrow> 's effect) \<Rightarrow> ('s, int) td_act" where
  "target_on name f = (case name of None \<Rightarrow> give GFTP_EFATAL | Some n \<Rightarrow> target_does (f n))"

definition source_disconnect :: "'s tdata \<Rightarrow> 's tdata" where
  "source_disconnect s = (let (c, w) = gftp_disconnect (td_from s) (td_world s) in s \<lparr> td_from := c, td_world := w \<rparr>)"

definition target_disconnect :: "'s tdata \<Rightarrow> 's tdata" where
  "target_disconnect s = (let (c, w) = gftp_disconnect (td_to s) (td_world s) in s \<lparr> td_to := c, td_world := w \<rparr>)"

text \<open>The file being transferred; at the end of the list \<open>curfle\<close> is NULL.\<close>

definition curfle :: "'s tdata \<Rightarrow> gftp_file option" where
  "curfle s = (if td_cur s < length (td_files s) then Some (td_files s ! td_cur s) else None)"

definition edit_curfle :: "(gftp_file \<Rightarrow> gftp_file) \<Rightarrow> 's tdata \<Rightarrow> 's tdata" where
  "edit_curfle f s = s \<lparr> td_files := (td_files s)[td_cur s := f (td_files s ! td_cur s)] \<rparr>"

definition cancel_both :: "bool \<Rightarrow> 's tdata \<Rightarrow> 's tdata" where
  "cancel_both b s = s \<lparr> td_cancel := b, td_from := on_req (\<lambda>rq. rq \<lparr> rq_cancel := b \<rparr>) (td_from s),
     td_to := on_req (\<lambda>rq. rq \<lparr> rq_cancel := b \<rparr>) (td_to s) \<rparr>"


section \<open>The buttons\<close>

definition gftpui_common_cancel_file_transfer :: "'s tdata \<Rightarrow> 's tdata" where
  "gftpui_common_cancel_file_transfer s =
    (let s = (if td_started s then (cancel_both True s) \<lparr> td_skip_file := False \<rparr> else s \<lparr> td_done := True \<rparr>)
     in s \<lparr> td_from := on_req (\<lambda>rq. rq \<lparr> rq_stopable := False \<rparr>) (td_from s),
            td_to := on_req (\<lambda>rq. rq \<lparr> rq_stopable := False \<rparr>) (td_to s) \<rparr>)"

text \<open>The test of the action is a test of bits.\<close>

definition gftpui_common_skip_file_transfer :: "nat \<Rightarrow> 's tdata \<Rightarrow> 's tdata" where
  "gftpui_common_skip_file_transfer i s =
    (if i < length (td_files s) \<and> td_started s \<and>
        and (gf_transfer_action (td_files s ! i)) GFTP_TRANS_ACTION_SKIP = 0
     then let fle = (td_files s ! i) \<lparr> gf_transfer_action := GFTP_TRANS_ACTION_SKIP \<rparr>;
              s = s \<lparr> td_files := (td_files s)[i := fle] \<rparr>
          in if i = td_cur s then (cancel_both True s) \<lparr> td_skip_file := True \<rparr>
             else if \<not> gf_transfer_done fle then s \<lparr> td_total_bytes := td_total_bytes s - gf_size fle \<rparr>
             else s
     else s)"

definition ui_step :: "ui_event \<Rightarrow> 's tdata \<Rightarrow> 's tdata" where
  "ui_step e s =
    (case e of
       No_event \<Rightarrow> s
     | Stop_button \<Rightarrow> gftpui_common_cancel_file_transfer s
     | Skip_button i \<Rightarrow> gftpui_common_skip_file_transfer i s)"

text \<open>The thread looks at \<open>tdata->cancel\<close>.\<close>

definition poll :: "('s, bool) td_act" where
  "poll s =
    (case td_events s of
       [] \<Rightarrow> Inr (td_cancel s, s)
     | e # es \<Rightarrow> let s = ui_step e (s \<lparr> td_events := es \<rparr>) in Inr (td_cancel s, s))"


section \<open>Copying one file\<close>

text \<open>\<open>gftp_calc_kbs\<close> without the speed.\<close>

definition gftp_calc_kbs :: "int \<Rightarrow> 's tdata \<Rightarrow> 's tdata" where
  "gftp_calc_kbs num_read s =
     s \<lparr> td_trans_bytes := td_trans_bytes s + num_read, td_curtrans := td_curtrans s + num_read, td_stalled := False,
         td_lasttime := (case td_clock s of [] \<Rightarrow> td_lasttime s | t # ts \<Rightarrow> t),
         td_clock := tl (td_clock s) \<rparr>"

definition get_chunk :: "nat \<Rightarrow> ('s, int + string) td_act" where
  "get_chunk n s =
    (case gftp_get_next_file_chunk n (td_from s) (td_world s) of
       None \<Rightarrow> Inl Out_of_bounds
     | Some (r, c, w) \<Rightarrow> Inr (r, s \<lparr> td_from := c, td_world := w \<rparr>))"

definition put_chunk :: "string \<Rightarrow> ('s, int) td_act" where
  "put_chunk p s =
    (case gftp_put_next_file_chunk p (td_to s) (td_world s) of
       None \<Rightarrow> Inl Out_of_bounds
     | Some (r, c, w) \<Rightarrow> Inr (r, s \<lparr> td_to := c, td_world := w \<rparr>))"

text \<open>What is left of the block is written until nothing is left or a write gives 0 or an error.\<close>

function put_loop :: "string \<Rightarrow> int \<Rightarrow> ('s, int) td_act" where
  "put_loop bufpos num_read s =
    (if bufpos = [] then Inr (num_read, s)
     else case put_chunk bufpos s of
            Inl e \<Rightarrow> Inl e
          | Inr (ret, s) \<Rightarrow> if ret \<le> 0 then Inr (ret, s) else put_loop (drop (nat ret) bufpos) num_read s)"
  by pat_completeness auto
termination put_loop
  by (relation "measure (\<lambda>(p, n, s). length p)") auto

declare put_loop.simps [simp del]

definition do_transfer_block :: "nat \<Rightarrow> ('s, int) td_act" where
  "do_transfer_block trans_blksize =
     and_then (get_chunk trans_blksize) (\<lambda>r.
       case r of
         Inl e \<Rightarrow> give e
       | Inr buf \<Rightarrow> put_loop buf (int (length buf)))"

text \<open>The number of retries starts again once bytes have come for a second, or the file is complete.\<close>

definition progress :: "int \<Rightarrow> 's tdata \<Rightarrow> int \<times> 's tdata" where
  "progress updatetime s =
    (if td_lasttime s - updatetime \<ge> 1 \<or> td_curtrans s \<ge> td_tot_file_trans s
     then (td_lasttime s, if td_current_file_retries s > 0 then s \<lparr> td_current_file_retries := 0 \<rparr> else s)
     else (updatetime, s))"

fun block_loop :: "transfer_options \<Rightarrow> nat \<Rightarrow> int \<Rightarrow> int \<Rightarrow> ('s, int) td_act" where
  "block_loop opts 0 updatetime num_trans = stop Out_of_fuel"
| "block_loop opts (Suc n) updatetime num_trans =
     and_then poll (\<lambda>cancel.
       if cancel then give num_trans
       else and_then (do_transfer_block (to_trans_blksize opts)) (\<lambda>num_trans.
         if num_trans \<le> 0 then give num_trans
         else (\<lambda>s. let (updatetime, s) = progress updatetime (gftp_calc_kbs num_trans s)
                    in block_loop opts n updatetime num_trans s)))"

definition do_transfer_file :: "transfer_options \<Rightarrow> nat \<Rightarrow> ('s, int) td_act" where
  "do_transfer_file opts fuel =
     and_then (block_loop opts fuel 0 0) (\<lambda>num_trans.
       if num_trans = 0 \<or> num_trans = GFTP_ENOTRANS
       then and_then (source_does gftp_end_transfer) (\<lambda>ret.
              if ret < 0 then give ret
              else and_then (target_does gftp_end_transfer) (\<lambda>ret. give (if ret < 0 then ret else 0)))
       else give num_trans)"

section \<open>One file or directory\<close>

text \<open>\<open>gftp_chmod\<close> with the permission bits, \<open>gftp_set_file_time\<close>; failures count only when the connection was lost.\<close>

definition preserve_perm_time :: "transfer_options \<Rightarrow> gftp_file \<Rightarrow> ('s, int) td_act" where
  "preserve_perm_time opts fle =
     and_then get_state (\<lambda>s.
     and_then (if GFTP_IS_CONNECTED (con_req (td_to s)) \<and> to_preserve_permissions opts \<and> gf_st_mode fle \<noteq> 0
               then target_on (gf_destfile fle) (\<lambda>f. gftp_chmod f (and (gf_st_mode fle) (or S_IRWXU (or S_IRWXG S_IRWXO))))
               else give 0) (\<lambda>tmpret.
     let ret = (if tmpret < 0 then tmpret else 0) in
     and_then get_state (\<lambda>s.
     and_then (if GFTP_IS_CONNECTED (con_req (td_to s)) \<and> to_preserve_time opts \<and> gf_datetime fle \<noteq> 0
               then target_on (gf_destfile fle) (\<lambda>f. gftp_set_file_time f (gf_datetime fle))
               else give 0) (\<lambda>tmpret.
     let ret = (if tmpret < 0 then tmpret else ret) in
     and_then get_state (\<lambda>s. give (if \<not> GFTP_IS_CONNECTED (con_req (td_to s)) then ret else 0))))))"

text \<open>\<open>(int) size\<close>.\<close>

definition to_int32 :: "int \<Rightarrow> int" where "to_int32 i = (i + 2 ^ 31) mod 2 ^ 32 - 2 ^ 31"

text \<open>The sizes are found out first: that of the source when it is 0, that of the target when the file is tried
  again. \<^term>\<open>Some\<close> is the error.\<close>

definition source_size :: "('s, int option) td_act" where
  "source_size =
     and_then get_state (\<lambda>s. and_then (need (curfle s)) (\<lambda>fle.
       if gf_size fle = 0
       then and_then (need (gf_file fle)) (\<lambda>name.
            and_then (source_does (gftp_get_file_size name)) (\<lambda>size'.
            and_then (change (edit_curfle (\<lambda>f. f \<lparr> gf_size := size' \<rparr>))) (\<lambda>_.
              if size' < 0 then give (Some (to_int32 size'))
              else and_then (change (\<lambda>s. s \<lparr> td_total_bytes := td_total_bytes s + size' \<rparr>)) (\<lambda>_. give None))))
       else give None))"

definition resume_size :: "('s, int option) td_act" where
  "resume_size =
     and_then get_state (\<lambda>s. and_then (need (curfle s)) (\<lambda>fle.
       if gf_retry_transfer fle
       then and_then (target_on (gf_destfile fle) gftp_get_file_size) (\<lambda>size'.
            and_then (change (edit_curfle (\<lambda>f. f \<lparr> gf_transfer_action := GFTP_TRANS_ACTION_RESUME, gf_startsize := size' \<rparr>))) (\<lambda>_.
              give (if size' < 0 then Some (to_int32 size') else None)))
       else give None))"

definition start_at :: "gftp_file \<Rightarrow> int" where
  "start_at fle = (if gf_transfer_action fle = GFTP_TRANS_ACTION_RESUME then gf_startsize fle else 0)"

definition start_transfer :: "nat \<Rightarrow> gftp_file \<Rightarrow> ('s, int) td_act" where
  "start_transfer fuel fle s =
    (case (gf_file fle, gf_destfile fle) of
       (Some f, Some d) \<Rightarrow>
         (case gftp_transfer_file fuel f (start_at fle) d (start_at fle) (td_from s) (td_to s) (td_world s) of
            Inl e \<Rightarrow> Inl e
          | Inr (ret, fc, tc, w) \<Rightarrow> Inr (ret, s \<lparr> td_from := fc, td_to := tc, td_world := w \<rparr>))
     | _ \<Rightarrow> Inr (GFTP_EFATAL, s))"

definition transfer_regular :: "transfer_options \<Rightarrow> nat \<Rightarrow> ('s, int) td_act" where
  "transfer_regular opts fuel =
     and_then get_state (\<lambda>s. and_then (need (curfle s)) (\<lambda>fle.
     and_then (start_transfer fuel fle) (\<lambda>tot.
     and_then (change (\<lambda>s. s \<lparr> td_tot_file_trans := tot \<rparr>)) (\<lambda>_.
       if tot < 0 then give (to_int32 tot)
       else and_then (change (\<lambda>s. s \<lparr> td_curtrans := 0, td_curresumed := start_at fle,
                td_resumed_bytes := td_resumed_bytes s + start_at fle \<rparr>)) (\<lambda>_.
            do_transfer_file opts fuel)))))"

text \<open>The end of the function: attributes after a success, a note to try again otherwise.\<close>

definition finish_file :: "transfer_options \<Rightarrow> int \<Rightarrow> ('s, int) td_act" where
  "finish_file opts ret =
     and_then get_state (\<lambda>s. and_then (need (curfle s)) (\<lambda>fle.
       if ret = 0 then preserve_perm_time opts fle
       else and_then (change (edit_curfle (\<lambda>f. f \<lparr> gf_retry_transfer := True \<rparr>))) (\<lambda>_. give ret)))"

definition connect_both :: "('s, int) td_act" where
  "connect_both =
     and_then (source_does gftp_connect) (\<lambda>ret.
       if ret < 0 then give ret else target_does gftp_connect)"

definition trans_file_or_dir :: "transfer_options \<Rightarrow> nat \<Rightarrow> ('s, int) td_act" where
  "trans_file_or_dir opts fuel =
     and_then (change (\<lambda>s. s \<lparr> td_current_file_number := td_current_file_number s + 1 \<rparr>)) (\<lambda>_.
     and_then get_state (\<lambda>s. and_then (need (curfle s)) (\<lambda>fle.
       if gf_transfer_action fle = GFTP_TRANS_ACTION_SKIP
       then and_then (change (\<lambda>s. s \<lparr> td_tot_file_trans := 0 \<rparr>)) (\<lambda>_. give 0)
       else and_then connect_both (\<lambda>ret.
         if ret < 0 then give ret
         else if S_ISDIR (gf_st_mode fle) then
           and_then (change (\<lambda>s. s \<lparr> td_tot_file_trans := 0 \<rparr>)) (\<lambda>_.
           and_then (if gf_startsize fle > 0 then give 1 else target_on (gf_destfile fle) gftp_make_directory)
             (finish_file opts))
         else
           and_then source_size (\<lambda>e. case e of Some ret \<Rightarrow> give ret | None \<Rightarrow>
           and_then resume_size (\<lambda>e. case e of Some ret \<Rightarrow> give ret | None \<Rightarrow>
           and_then (transfer_regular opts fuel) (finish_file opts)))))))"


section \<open>After a failure\<close>

text \<open>Both ends are closed and connected again, and the file is resumed; or it is passed over, when the user has
  asked for that.\<close>

definition resume_file :: "'s tdata \<Rightarrow> 's tdata" where
  "resume_file s =
    (let s = s \<lparr> td_resumed_bytes := td_resumed_bytes s + td_trans_bytes s - td_curresumed s - td_curtrans s,
                 td_trans_bytes := 0 \<rparr>
     in if td_skip_file s
        then cancel_both False (s \<lparr> td_total_bytes := td_total_bytes s - (case curfle s of None \<Rightarrow> 0 | Some f \<Rightarrow> gf_size f),
               td_curtrans := 0, td_cur := td_cur s + 1, td_next_file := True, td_skip_file := False \<rparr>)
        else (edit_curfle (\<lambda>f. f \<lparr> gf_transfer_action := GFTP_TRANS_ACTION_RESUME,
                gf_startsize := td_curtrans s + td_curresumed s \<rparr>) s)
             \<lparr> td_curresumed := 0, td_current_file_number := td_current_file_number s - 1 \<rparr>)"

definition connect_again :: "('s, int \<times> int) td_act" where
  "connect_again =
     and_then (source_does gftp_connect) (\<lambda>ret1.
       if ret1 = 0 then and_then (target_does gftp_connect) (\<lambda>ret2. give (ret1, ret2)) else give (ret1, 0))"

fun reconnect_loop :: "int \<Rightarrow> nat \<Rightarrow> ('s, int) td_act" where
  "reconnect_loop retries 0 = stop Out_of_fuel"
| "reconnect_loop retries (Suc n) =
     and_then get_state (\<lambda>s.
       if retries \<noteq> 0 \<and> td_current_file_retries s > retries then give 0
       else
         and_then (change (\<lambda>s. s \<lparr> td_current_file_retries := td_current_file_retries s + 1 \<rparr>)) (\<lambda>_.
         and_then connect_again (\<lambda>(ret1, ret2).
           if ret1 = 0 \<and> ret2 = 0 then and_then (change resume_file) (\<lambda>_. give GFTP_ERETRYABLE)
           else if ret1 = GFTP_EFATAL \<or> ret2 = GFTP_EFATAL
                then and_then (change (target_disconnect \<circ> source_disconnect)) (\<lambda>_. give GFTP_EFATAL)
           else reconnect_loop retries n)))"

definition gftp_get_transfer_status :: "transfer_options \<Rightarrow> nat \<Rightarrow> int \<Rightarrow> ('s, int) td_act" where
  "gftp_get_transfer_status opts fuel num_read =
     and_then get_state (\<lambda>s.
       if curfle s = None then give GFTP_EFATAL
       else and_then (change (target_disconnect \<circ> source_disconnect)) (\<lambda>_.
            and_then get_state (\<lambda>s.
              if td_cancel s \<or> num_read = GFTP_EFATAL then give GFTP_EFATAL
              else if 0 \<le> num_read \<and> \<not> td_skip_file s then give 0
              else if num_read \<noteq> GFTP_ETIMEDOUT \<and> \<not> td_no_timeout s \<and> to_retries opts \<noteq> 0 \<and>
                      to_retries opts \<le> td_current_file_retries s then give GFTP_EFATAL
              else reconnect_loop (to_retries opts) fuel)))"


section \<open>The list of files\<close>

definition next_file_in_trans :: "'s tdata \<Rightarrow> 's tdata" where
  "next_file_in_trans s =
    (edit_curfle (\<lambda>f. f \<lparr> gf_transfer_done := True \<rparr>) s) \<lparr> td_curtrans := 0, td_next_file := True, td_cur := td_cur s + 1 \<rparr>"

definition abort_target :: "('s, unit) td_act" where
  "abort_target = and_then (target_does gftp_abort_transfer) (\<lambda>ret. if ret \<noteq> 0 then change target_disconnect else give ())"

definition abort_source :: "('s, unit) td_act" where
  "abort_source = and_then (source_does gftp_abort_transfer) (\<lambda>ret. if ret \<noteq> 0 then change source_disconnect else give ())"

text \<open>One turn of the loop; the result says whether there is another one.\<close>

definition transfer_turn :: "transfer_options \<Rightarrow> nat \<Rightarrow> int \<Rightarrow> ('s, bool \<times> int) td_act" where
  "transfer_turn opts fuel skipped_files =
     and_then (trans_file_or_dir opts fuel) (\<lambda>ret.
     and_then poll (\<lambda>cancel.
       if \<not> cancel \<and> ret < 0 \<and> ret \<noteq> GFTP_EFATAL
       then and_then (gftp_get_transfer_status opts fuel ret) (\<lambda>st. give (st = GFTP_ERETRYABLE, skipped_files))
       else
         and_then (if cancel then and_then abort_target (\<lambda>_. abort_source) else give ()) (\<lambda>_.
         and_then (change next_file_in_trans) (\<lambda>_.
         let skipped_files = (if \<not> cancel \<and> ret = GFTP_EFATAL then skipped_files + 1 else skipped_files) in
         and_then get_state (\<lambda>s.
           if td_cancel s then
             if \<not> td_skip_file s then give (False, skipped_files)
             else and_then (change (cancel_both False)) (\<lambda>_. give (True, skipped_files))
           else give (True, skipped_files))))))"

fun transfer_loop :: "transfer_options \<Rightarrow> nat \<Rightarrow> nat \<Rightarrow> int \<Rightarrow> ('s, int) td_act" where
  "transfer_loop opts fuel 0 skipped_files = stop Out_of_fuel"
| "transfer_loop opts fuel (Suc n) skipped_files =
     and_then get_state (\<lambda>s.
       if curfle s = None then give skipped_files
       else and_then (transfer_turn opts fuel skipped_files) (\<lambda>(continue, skipped_files).
         if continue then transfer_loop opts fuel n skipped_files else give skipped_files))"

text \<open>The result is the number of files that could not be transferred, which the code logs.\<close>

definition gftpui_common_transfer_files :: "transfer_options \<Rightarrow> nat \<Rightarrow> nat \<Rightarrow> ('s, int) td_act" where
  "gftpui_common_transfer_files opts fuel n =
     and_then (change (\<lambda>s. s \<lparr> td_cur := 0,
         td_lasttime := (case td_clock s of [] \<Rightarrow> td_lasttime s | t # ts \<Rightarrow> t), td_clock := tl (td_clock s) \<rparr>)) (\<lambda>_.
     and_then (transfer_loop opts fuel n 0) (\<lambda>skipped_files.
     and_then (change (\<lambda>s. s \<lparr> td_done := True \<rparr>)) (\<lambda>_. give skipped_files)))"

section \<open>Two ends that work\<close>

text \<open>What the copying loop needs of its two connections while a file is open on both: reading gives the next
  bytes of \<open>left\<close> and nothing at its end only; writing takes at least a byte and appends it to \<open>stored\<close>.\<close>

locale file_copy =
  fixes opened :: "'s connection \<Rightarrow> 's connection \<Rightarrow> 's \<Rightarrow> bool"
    and left :: "'s connection \<Rightarrow> 's \<Rightarrow> string"
    and stored :: "'s connection \<Rightarrow> 's \<Rightarrow> string"
  assumes get: "opened fc tc w \<Longrightarrow> 0 < n \<Longrightarrow>
      \<exists>d fc' w'. gftp_get_next_file_chunk n fc w = Some (Inr d, fc', w') \<and> opened fc' tc w' \<and>
        left fc w = d @ left fc' w' \<and> stored tc w' = stored tc w \<and> (d = [] \<longrightarrow> left fc w = [])"
    and put: "opened fc tc w \<Longrightarrow> p \<noteq> [] \<Longrightarrow>
      \<exists>k tc' w'. gftp_put_next_file_chunk p tc w = Some (int k, tc', w') \<and> 0 < k \<and> k \<le> length p \<and> opened fc tc' w' \<and>
        left fc w' = left fc w \<and> stored tc' w' = stored tc w @ take k p"
begin

definition ready :: "'s tdata \<Rightarrow> bool" where
  "ready s \<longleftrightarrow> opened (td_from s) (td_to s) (td_world s)"

definition to_come :: "'s tdata \<Rightarrow> string" where "to_come s = left (td_from s) (td_world s)"
definition copied :: "'s tdata \<Rightarrow> string" where "copied s = stored (td_to s) (td_world s)"

text \<open>What copying does not touch.\<close>

definition same_list :: "'s tdata \<Rightarrow> 's tdata \<Rightarrow> bool" where
  "same_list s s' \<longleftrightarrow> td_files s' = td_files s \<and> td_cur s' = td_cur s \<and> td_cancel s' = td_cancel s \<and>
     td_skip_file s' = td_skip_file s \<and> td_events s' = td_events s"

lemma put_loop_all:
  "ready s \<Longrightarrow> \<exists>s'. put_loop p n s = Inr (n, s') \<and> ready s' \<and> to_come s' = to_come s \<and> copied s' = copied s @ p \<and> same_list s s' \<and>
     td_curtrans s' = td_curtrans s \<and> td_trans_bytes s' = td_trans_bytes s"
proof (induction p n s rule: put_loop.induct)
  case (1 p n s)
  show ?case
  proof (cases "p = []")
    case True
    then show ?thesis using 1(2) by (subst put_loop.simps) (simp add: same_list_def)
  next
    case False
    obtain k tc' w' where k: "gftp_put_next_file_chunk p (td_to s) (td_world s) = Some (int k, tc', w')" "0 < k" "k \<le> length p"
        "opened (td_from s) tc' w'" "left (td_from s) w' = left (td_from s) (td_world s)"
        "stored tc' w' = stored (td_to s) (td_world s) @ take k p"
      using put [of "td_from s" "td_to s" "td_world s" p] 1(2) False unfolding ready_def by blast
    define s1 where "s1 = s \<lparr> td_to := tc', td_world := w' \<rparr>"
    have c: "put_chunk p s = Inr (int k, s1)" by (simp add: put_chunk_def k(1) s1_def)
    have s1: "ready s1" "to_come s1 = to_come s" "copied s1 = copied s @ take k p" "same_list s s1"
        "td_curtrans s1 = td_curtrans s" "td_trans_bytes s1 = td_trans_bytes s"
      using k by (simp_all add: s1_def ready_def to_come_def copied_def same_list_def)
    obtain s' where s': "put_loop (drop k p) n s1 = Inr (n, s')" "ready s'" "to_come s' = to_come s1" "copied s' = copied s1 @ drop k p"
        "same_list s1 s'" "td_curtrans s' = td_curtrans s1" "td_trans_bytes s' = td_trans_bytes s1"
      using 1(1) [OF False c refl] k(2) s1(1) by auto
    have "put_loop p n s = Inr (n, s')" using False c k(2) s'(1) by (subst put_loop.simps) simp
    then show ?thesis using s' s1 by (auto simp: same_list_def)
  qed
qed

lemma block_step:
  assumes "ready s" "0 < size'"
  shows "\<exists>d s'. do_transfer_block size' s = Inr (int (length d), s') \<and> ready s' \<and> to_come s = d @ to_come s' \<and>
    copied s' = copied s @ d \<and> same_list s s' \<and> (d = [] \<longrightarrow> to_come s = []) \<and> td_curtrans s' = td_curtrans s \<and>
    td_trans_bytes s' = td_trans_bytes s"
proof -
  obtain d fc' w' where d: "gftp_get_next_file_chunk size' (td_from s) (td_world s) = Some (Inr d, fc', w')"
      "opened fc' (td_to s) w'" "left (td_from s) (td_world s) = d @ left fc' w'"
      "stored (td_to s) w' = stored (td_to s) (td_world s)" "d = [] \<longrightarrow> left (td_from s) (td_world s) = []"
    using get [of "td_from s" "td_to s" "td_world s" size'] assms unfolding ready_def by blast
  define s1 where "s1 = s \<lparr> td_from := fc', td_world := w' \<rparr>"
  have s1: "ready s1" "to_come s = d @ to_come s1" "copied s1 = copied s" "same_list s s1" "td_curtrans s1 = td_curtrans s"
      "td_trans_bytes s1 = td_trans_bytes s"
    using d by (simp_all add: s1_def ready_def to_come_def copied_def same_list_def)
  obtain s' where "put_loop d (int (length d)) s1 = Inr (int (length d), s')" "ready s'" "to_come s' = to_come s1"
      "copied s' = copied s1 @ d" "same_list s1 s'" "td_curtrans s' = td_curtrans s1" "td_trans_bytes s' = td_trans_bytes s1"
    using put_loop_all [OF s1(1)] by blast
  moreover have "get_chunk size' s = Inr (Inr d, s1)" by (simp add: get_chunk_def d(1) s1_def)
  ultimately show ?thesis
    using s1 d(5) by (auto simp: do_transfer_block_def and_then_def same_list_def to_come_def)
qed

lemma progress_same:
  assumes "progress u (gftp_calc_kbs k s) = (u', s')"
  shows "ready s' = ready s" "to_come s' = to_come s" "copied s' = copied s" "same_list s s'"
    "td_curtrans s' = td_curtrans s + k" "td_trans_bytes s' = td_trans_bytes s + k"
  using assms by (auto simp: progress_def gftp_calc_kbs_def ready_def to_come_def copied_def same_list_def split: if_splits)

lemma block_loop_copies:
  assumes "ready s" "0 < to_trans_blksize opts" "td_events s = []" "\<not> td_cancel s" "length (to_come s) < fuel"
  shows "\<exists>s'. block_loop opts fuel u k s = Inr (0, s') \<and> ready s' \<and> to_come s' = [] \<and> copied s' = copied s @ to_come s \<and>
    same_list s s' \<and> td_curtrans s' = td_curtrans s + int (length (to_come s)) \<and>
    td_trans_bytes s' = td_trans_bytes s + int (length (to_come s))"
  using assms
proof (induction fuel arbitrary: u k s)
  case (Suc fuel)
  have p: "poll s = Inr (False, s)" using Suc.prems(3,4) by (simp add: poll_def)
  obtain d s1 where d: "do_transfer_block (to_trans_blksize opts) s = Inr (int (length d), s1)" "ready s1" "to_come s = d @ to_come s1"
      "copied s1 = copied s @ d" "same_list s s1" "d = [] \<longrightarrow> to_come s = []" "td_curtrans s1 = td_curtrans s"
      "td_trans_bytes s1 = td_trans_bytes s"
    using block_step [OF Suc.prems(1,2)] by blast
  show ?case
  proof (cases "d = []")
    case True
    then show ?thesis using p d by (simp add: act_simps)
  next
    case False
    obtain u' s2 where s2: "progress u (gftp_calc_kbs (int (length d)) s1) = (u', s2)" by (metis surj_pair)
    note same = progress_same [OF s2]
    have "length (to_come s) = length d + length (to_come s2)" using same(2) d(3) by simp
    moreover have "1 \<le> length d" using False by (cases d) simp_all
    ultimately have len: "length (to_come s2) < fuel" using Suc.prems(5) by linarith
    have prems: "ready s2" "td_events s2 = []" "\<not> td_cancel s2" "length (to_come s2) < fuel"
      using same(1,4) d(2,5) Suc.prems(3,4) len by (auto simp: same_list_def)
    obtain s' where "block_loop opts fuel u' (int (length d)) s2 = Inr (0, s')" "ready s'" "to_come s' = []"
        "copied s' = copied s2 @ to_come s2" "same_list s2 s'" "td_curtrans s' = td_curtrans s2 + int (length (to_come s2))"
        "td_trans_bytes s' = td_trans_bytes s2 + int (length (to_come s2))"
      using Suc.IH [OF prems(1) Suc.prems(2) prems(2-4)] by blast
    then show ?thesis using p d same s2 False by (auto simp: act_simps same_list_def)
  qed
qed simp

end

end
