(* ===== verification/Local_Transfers.thy ===== *)
theory Local_Transfers
  imports Transfer_Loop Local_Files
begin

text \<open>
  Transfers between two windows that both show the local file system: two connections of \<open>lib/local.c\<close> with a state
  each, over one kernel (record \<open>two_windows\<close>). The copying loop is right for them, files are resumed where they
  ended, and the listing of a directory for a transfer stops at the first link that leads nowhere.
\<close>


section \<open>Two connections over one kernel\<close>

record two_windows =
  tw_kernel :: kernel
  tw_left :: local_state
  tw_right :: local_state
  tw_stuck :: "stuck option"

definition left_window :: "two_windows lens" where
  "left_window = \<lparr>
     view = (\<lambda>w. case tw_stuck w of Some e \<Rightarrow> Inl e | None \<Rightarrow> Inr ((tw_left w) \<lparr> lo_kernel := tw_kernel w \<rparr>)),
     store_back = (\<lambda>r w. case r of Inl e \<Rightarrow> w \<lparr> tw_stuck := Some e \<rparr>
                                 | Inr s \<Rightarrow> w \<lparr> tw_left := s, tw_kernel := lo_kernel s \<rparr>) \<rparr>"

definition right_window :: "two_windows lens" where
  "right_window = \<lparr>
     view = (\<lambda>w. case tw_stuck w of Some e \<Rightarrow> Inl e | None \<Rightarrow> Inr ((tw_right w) \<lparr> lo_kernel := tw_kernel w \<rparr>)),
     store_back = (\<lambda>r w. case r of Inl e \<Rightarrow> w \<lparr> tw_stuck := Some e \<rparr>
                                 | Inr s \<Rightarrow> w \<lparr> tw_right := s, tw_kernel := lo_kernel s \<rparr>) \<rparr>"

lemmas window_simps = left_window_def right_window_def on_local_world_def local_call_def

text \<open>The pointers a copy uses.\<close>

lemma local_ops_sel [simp]:
  "op_read_function (local_ops v env) = Some (\<lambda>n fd. on_local_world v (Inl GFTP_EFATAL) (local_read n fd))"
  "op_write_function (local_ops v env) = Some (\<lambda>p fd. local_call v (local_write p fd))"
  "op_get_next_file_chunk (local_ops v env) = None" "op_put_next_file_chunk (local_ops v env) = None"
  "op_get_file (local_ops v env) = Some (\<lambda>f k. local_call v (local_get_file env f k))"
  "op_put_file (local_ops v env) = Some (\<lambda>f k t. local_call v (local_put_file env f k t))"
  "op_end_transfer (local_ops v env) = Some (local_call v local_end_transfer)"
  "op_transfer_file (local_ops v env) = None"
  "op_list_files (local_ops v env) = Some (local_call v (local_list_files env))"
  "op_get_next_file (local_ops v env) = Some (\<lambda>fd. on_local_world v (GFTP_EFATAL, zero_file) (local_get_next_file env))"
  "op_chdir (local_ops v env) = Some (\<lambda>d. local_call v (local_chdir env d))"
  by (simp_all add: local_ops_def no_ops_def)


section \<open>Copying\<close>

text \<open>A file is open for reading on the left, another for writing on the right.\<close>

definition copying :: "local_env \<Rightarrow> string \<Rightarrow> two_windows connection \<Rightarrow> two_windows connection \<Rightarrow> two_windows \<Rightarrow> bool" where
  "copying env q fc tc w \<longleftrightarrow>
     con_ops fc = local_ops left_window env \<and> con_ops tc = local_ops right_window env \<and> tw_stuck w = None \<and>
     0 \<le> rq_datafd (con_req fc) \<and> 0 \<le> rq_datafd (con_req tc) \<and> all_data (lo_in (tw_left w)) \<and>
     script (lo_out (tw_right w)) = [] \<and> k_nodes (tw_kernel w) q \<noteq> None \<and>
     (\<exists>base. lo_target (tw_right w) = Some (q, base) \<and> content_of (tw_kernel w) q = base @ written (lo_out (tw_right w)))"

lemma all_data_flags [simp]:
  "all_data (ch \<lparr> cancel_flag := c, disconnected := d \<rparr>) = all_data ch"
  by (simp add: all_data_def)

lemma read_all_data:
  assumes "all_data ch" "0 < n"
  shows "\<exists>d ch'. gftp_fd_read n ch = (Inr d, ch') \<and> all_data ch' \<and> bytes_in (script ch) = d @ bytes_in (script ch') \<and>
    (d = [] \<longrightarrow> bytes_in (script ch) = []) \<and> disconnected ch' = disconnected ch"
proof (cases "script ch")
  case Nil
  then show ?thesis by (simp add: gftp_fd_read_def all_data_def)
next
  case (Cons e evs)
  then obtain bs where "e = Bytes_in bs" "bs \<noteq> []" using assms(1) by (auto simp: all_data_def)
  then show ?thesis using Cons assms by (auto simp: gftp_fd_read_def all_data_def)
qed

lemma put_content_node: "k_nodes k q \<noteq> None \<Longrightarrow> content_of (put_content q c k) q = c \<and> k_nodes (put_content q c k) q \<noteq> None"
  by (auto simp: put_content_def edit_node_def content_of_def)

interpretation local_copy: file_copy "copying env q" "\<lambda>c w. bytes_in (script (lo_in (tw_left w)))" "\<lambda>c w. content_of (tw_kernel w) q"
proof unfold_locales
  fix fc tc w and n :: nat
  assume c: "copying env q fc tc w" and n: "0 < n"
  let ?ch = "(lo_in (tw_left w)) \<lparr> cancel_flag := Some (rq_cancel (con_req fc)), disconnected := False \<rparr>"
  obtain d ch' where d: "gftp_fd_read n ?ch = (Inr d, ch')" "all_data ch'" "bytes_in (script (lo_in (tw_left w))) = d @ bytes_in (script ch')"
      "d = [] \<longrightarrow> bytes_in (script (lo_in (tw_left w))) = []" "\<not> disconnected ch'"
    using read_all_data [of ?ch n] n c by (auto simp: copying_def)
  show "\<exists>d fc' w'. gftp_get_next_file_chunk n fc w = Some (Inr d, fc', w') \<and> copying env q fc' tc w' \<and>
      bytes_in (script (lo_in (tw_left w))) = d @ bytes_in (script (lo_in (tw_left w'))) \<and>
      content_of (tw_kernel w') q = content_of (tw_kernel w) q \<and> (d = [] \<longrightarrow> bytes_in (script (lo_in (tw_left w))) = [])"
    using c d by (auto simp: copying_def gftp_get_next_file_chunk_def window_simps local_read_def local_after_io_def)
next
  fix fc tc w and p :: string
  assume c: "copying env q fc tc w" and p: "p \<noteq> []"
  obtain base where base: "lo_target (tw_right w) = Some (q, base)" "content_of (tw_kernel w) q = base @ written (lo_out (tw_right w))"
    using c by (auto simp: copying_def)
  let ?ch = "(lo_out (tw_right w)) \<lparr> cancel_flag := Some (rq_cancel (con_req tc)), disconnected := False \<rparr>"
  have w: "gftp_fd_write p ?ch = (int (length p), ?ch \<lparr> written := written (lo_out (tw_right w)) @ p \<rparr>)"
    using c by (simp add: gftp_fd_write_def copying_def)
  have "k_nodes (tw_kernel w) q \<noteq> None" using c by (simp add: copying_def)
  note put = put_content_node [OF this, of "base @ written (lo_out (tw_right w)) @ p"]
  show "\<exists>k tc' w'. gftp_put_next_file_chunk p tc w = Some (int k, tc', w') \<and> 0 < k \<and> k \<le> length p \<and> copying env q fc tc' w' \<and>
      bytes_in (script (lo_in (tw_left w'))) = bytes_in (script (lo_in (tw_left w))) \<and>
      content_of (tw_kernel w') q = content_of (tw_kernel w) q @ take k p"
    using c p w base put
    by (intro exI [of _ "length p"])
      (auto simp: copying_def gftp_put_next_file_chunk_def dispatch_def window_simps local_write_def local_after_io_def on_kernel_def)
qed

section \<open>A whole copy\<close>

text \<open>The source is a file that can be read, the target a file that can be written or created, and they are not
  the same file.\<close>

definition can_copy :: "local_env \<Rightarrow> kernel \<Rightarrow> string \<Rightarrow> string \<Rightarrow> string \<Rightarrow> string \<Rightarrow> bool" where
  "can_copy env k f d q q' \<longleftrightarrow>
     real_path k (disk_name env f) = Some q \<and> k_allows k ''read'' q \<and> k_nodes k q \<noteq> None \<and> \<not> is_dir k q \<and>
     real_path k (disk_name env d) = Some q' \<and> k_allows k ''write'' q' \<and> \<not> is_dir k q' \<and>
     (k_nodes k q' \<noteq> None \<or> is_dir k (parent_of q')) \<and> q \<noteq> q' \<and> 0 < k_next_fd k \<and> k_writes k = []"

lemma follow_links: "k_links k' = k_links k \<Longrightarrow> follow n k' p = follow n k p"
  by (induction n arbitrary: p) (auto split: option.split)

lemma real_path_links: "k_links k' = k_links k \<Longrightarrow> k_cwd k' = k_cwd k \<Longrightarrow> real_path k' p = real_path k p"
proof -
  assume k: "k_links k' = k_links k" "k_cwd k' = k_cwd k"
  have "abs_path k' p = abs_path k p" by (simp add: abs_path_def k(2))
  moreover have "follow 40 k' = follow 40 k" using follow_links [OF k(1)] by blast
  ultimately show ?thesis by (simp only: real_path_def)
qed

lemma open_source:
  assumes "can_copy env (tw_kernel w) f d q q'" "con_ops fc = local_ops left_window env" "rq_protonum (con_req fc) = 4"
    "tw_stuck w = None" "0 \<le> n"
  shows "\<exists>fc' w'. gftp_get_file f n fc w = (int (length (content_of (tw_kernel w) q)), fc', w') \<and>
    con_ops fc' = con_ops fc \<and> rq_protonum (con_req fc') = 4 \<and> 0 < rq_datafd (con_req fc') \<and> tw_stuck w' = None \<and>
    tw_right w' = tw_right w \<and> tw_kernel w' = (tw_kernel w) \<lparr> k_next_fd := k_next_fd (tw_kernel w) + 1 \<rparr> \<and>
    all_data (lo_in (tw_left w')) \<and> bytes_in (script (lo_in (tw_left w'))) = drop (nat n) (content_of (tw_kernel w) q)"
proof -
  have "sys_open (disk_name env f) False 0 (tw_kernel w) = Some (q, tw_kernel w)"
    using assms(1) by (auto simp: can_copy_def sys_open_def allowed_def split: option.split)
  then show ?thesis
    using assms
    by (auto simp: gftp_get_file_def dispatch_def uncached_def window_simps local_get_file_def if_local_def act_simps
        gftp_fd_open_def on_local_req_def can_copy_def source_channel_def is_dir_def content_of_def)
qed


lemma open_target:
  assumes "can_copy env k f d q q'" "tw_kernel w = k \<lparr> k_next_fd := m \<rparr>" "0 < m" "con_ops tc = local_ops right_window env"
    "rq_protonum (con_req tc) = 4" "tw_stuck w = None" "0 \<le> n"
  shows "\<exists>tc' w'. gftp_put_file d n t tc w = (0, tc', w') \<and>
    con_ops tc' = con_ops tc \<and> rq_protonum (con_req tc') = 4 \<and> 0 < rq_datafd (con_req tc') \<and> tw_stuck w' = None \<and>
    tw_left w' = tw_left w \<and> lo_target (tw_right w') = Some (q', truncated (nat n) (content_of k q')) \<and>
    written (lo_out (tw_right w')) = [] \<and> script (lo_out (tw_right w')) = [] \<and>
    k_nodes (tw_kernel w') q' \<noteq> None \<and> content_of (tw_kernel w') q' = truncated (nat n) (content_of k q') \<and>
    content_of (tw_kernel w') q = content_of k q"
proof -
  let ?k = "k \<lparr> k_next_fd := m \<rparr>" and ?perms = "or S_IRUSR (or S_IWUSR (or S_IRGRP S_IROTH))"
  have r: "real_path ?k p = real_path k p" for p by (rule real_path_links) simp_all
  have "\<exists>k2. sys_open (disk_name env d) True ?perms ?k = Some (q', k2) \<and> k_nodes k2 q' \<noteq> None \<and> content_of k2 q' = content_of k q' \<and>
      content_of k2 q = content_of k q \<and> k_next_fd k2 = m \<and> k_writes k2 = []"
    using assms(1)
    by (auto simp: can_copy_def sys_open_def allowed_def r is_dir_def content_of_def add_name_def edit_entries_def new_inode_def
        split: option.split option.splits)
  then obtain k2 where k2: "sys_open (disk_name env d) True ?perms ?k = Some (q', k2)" "k_nodes k2 q' \<noteq> None"
      "content_of k2 q' = content_of k q'" "content_of k2 q = content_of k q" "k_next_fd k2 = m" "k_writes k2 = []" by blast
  have "q \<noteq> q'" using assms(1) by (simp add: can_copy_def)
  then show ?thesis
    using assms k2
    by (auto simp: gftp_put_file_def dispatch_def uncached_def window_simps local_put_file_def if_local_def act_simps
        gftp_fd_open_def on_local_req_def on_kernel_def Let_def put_content_def edit_node_def content_of_def file_channel_def)
qed

lemma local_end:
  assumes "con_ops c = local_ops v env" "view v w = Inr st"
  shows "\<exists>c'. gftp_end_transfer c w = (0, c', if rq_cached (con_req c) then w
      else store_back v (Inr (let s = st \<lparr> lo_req := con_req c, lo_dir := None \<rparr> in
                              if 0 < rq_datafd (con_req c) then close_file s else s)) w) \<and> con_ops c' = con_ops c"
  using assms
  by (auto simp: gftp_end_transfer_def dispatch_def local_call_def on_local_world_def local_end_transfer_def act_simps Let_def)

text \<open>C8: What is copied is what the source holds behind the offset, and it is put behind as much of the target: a copy
  from the start makes the target equal to the source, a resumed one completes a target that is a beginning of it.\<close>

theorem local_copy_whole:
  assumes "curfle s = Some fle" "gf_file fle = Some f" "gf_destfile fle = Some d" "0 \<le> start_at fle"
    and "con_ops (td_from s) = local_ops left_window env" "con_ops (td_to s) = local_ops right_window env"
    and "rq_protonum (con_req (td_from s)) = 4" "rq_protonum (con_req (td_to s)) = 4" "tw_stuck (td_world s) = None"
    and "can_copy env (tw_kernel (td_world s)) f d q q'"
    and "0 < to_trans_blksize opts" "td_events s = []" "\<not> td_cancel s"
    and "length (content_of (tw_kernel (td_world s)) q) < fuel"
  shows "\<exists>s'. transfer_regular opts fuel s = Inr (0, s') \<and>
    content_of (tw_kernel (td_world s')) q' =
      truncated (nat (start_at fle)) (content_of (tw_kernel (td_world s)) q') @
      drop (nat (start_at fle)) (content_of (tw_kernel (td_world s)) q)"
proof -
  let ?k = "tw_kernel (td_world s)" and ?n = "start_at fle"
  obtain fuel' where fuel: "fuel = Suc fuel'" using assms(14) by (cases fuel) auto
  obtain fc w1 where fc: "gftp_get_file f ?n (uncached (td_from s)) (td_world s) = (int (length (content_of ?k q)), fc, w1)"
      "con_ops fc = local_ops left_window env" "0 < rq_datafd (con_req fc)" "tw_stuck w1 = None" "tw_right w1 = tw_right (td_world s)"
      "tw_kernel w1 = ?k \<lparr> k_next_fd := k_next_fd ?k + 1 \<rparr>" "all_data (lo_in (tw_left w1))"
      "bytes_in (script (lo_in (tw_left w1))) = drop (nat ?n) (content_of ?k q)"
    using open_source [OF assms(10), where fc = "uncached (td_from s)" and n = ?n] assms(4,5,7,9) by (auto simp: uncached_def)
  have fd: "0 < k_next_fd ?k + 1" using assms(10) by (simp add: can_copy_def)
  obtain tc w2 where tc: "gftp_put_file d ?n (int (length (content_of ?k q))) (uncached (td_to s)) w1 = (0, tc, w2)"
      "con_ops tc = local_ops right_window env" "0 < rq_datafd (con_req tc)" "tw_stuck w2 = None" "tw_left w2 = tw_left w1"
      "lo_target (tw_right w2) = Some (q', truncated (nat ?n) (content_of ?k q'))" "written (lo_out (tw_right w2)) = []"
      "script (lo_out (tw_right w2)) = []" "k_nodes (tw_kernel w2) q' \<noteq> None"
      "content_of (tw_kernel w2) q' = truncated (nat ?n) (content_of ?k q')"
    using open_target [OF assms(10) fc(6), where tc = "uncached (td_to s)" and n = ?n and t = "int (length (content_of ?k q))"]
      fd assms(4,6,8) fc(4) by (auto simp: uncached_def)
  have start: "start_transfer fuel fle s = Inr (int (length (content_of ?k q)), s \<lparr> td_from := fc, td_to := tc, td_world := w2 \<rparr>)"
    using fc(1) tc(1) assms(2,3,5-8) by (simp add: start_transfer_def gftp_transfer_file_def fuel)
  define s1 where "s1 = s \<lparr> td_from := fc, td_to := tc, td_world := w2, td_tot_file_trans := int (length (content_of ?k q)),
      td_curtrans := 0, td_curresumed := ?n, td_resumed_bytes := td_resumed_bytes s + ?n \<rparr>"
  have c: "copying env q' fc tc w2"
    using fc tc by (simp add: copying_def)
  have len: "length (local_copy.to_come s1) < fuel"
    using assms(14) tc(5) fc(8) by (simp add: local_copy.to_come_def s1_def)
  have ready: "local_copy.ready env q' s1" using c by (simp add: local_copy.ready_def s1_def)
  have quiet: "td_events s1 = []" "\<not> td_cancel s1" using assms(12,13) by (simp_all add: s1_def)
  obtain s2 where s2: "block_loop opts fuel 0 0 s1 = Inr (0, s2)" "local_copy.ready env q' s2"
      "local_copy.copied q' s2 = local_copy.copied q' s1 @ local_copy.to_come s1"
    using local_copy.block_loop_copies [OF ready assms(11) quiet len] by blast
  have v: "con_ops (td_from s2) = local_ops left_window env" "con_ops (td_to s2) = local_ops right_window env"
      "tw_stuck (td_world s2) = None"
    using s2(2) by (simp_all add: local_copy.ready_def copying_def)
  obtain c1 w3 where e1: "gftp_end_transfer (td_from s2) (td_world s2) = (0, c1, w3)" "tw_kernel w3 = tw_kernel (td_world s2)"
      "tw_stuck w3 = None"
    using local_end [OF v(1), of "td_world s2"] v(3) by (auto simp: left_window_def close_file_def on_local_req_def Let_def)
  obtain c2 w4 where e2: "gftp_end_transfer (td_to s2) w3 = (0, c2, w4)" "tw_kernel w4 = tw_kernel w3"
    using local_end [OF v(2), of w3] e1(3) by (auto simp: right_window_def close_file_def on_local_req_def Let_def)
  have done': "do_transfer_file opts fuel s1 = Inr (0, s2 \<lparr> td_from := c1, td_to := c2, td_world := w4 \<rparr>)"
    by (simp add: do_transfer_file_def act_simps s2(1) source_does_def target_does_def e1(1) e2(1))
  have "transfer_regular opts fuel s = Inr (0, s2 \<lparr> td_from := c1, td_to := c2, td_world := w4 \<rparr>)"
    using done' by (simp add: transfer_regular_def act_simps assms(1) start s1_def)
  moreover have "content_of (tw_kernel w4) q' = truncated (nat ?n) (content_of ?k q') @ drop (nat ?n) (content_of ?k q)"
    using s2(3) e1(2) e2(2) tc(5,10) fc(8) by (simp add: local_copy.copied_def local_copy.to_come_def s1_def)
  ultimately show ?thesis by auto
qed

section \<open>Two windows on a small file system\<close>

definition small_kernel :: kernel where
  "small_kernel = \<lparr> k_nodes = [''/'' \<mapsto> new_inode (S_IFDIR OR 0x1ED), ''/a'' \<mapsto> (new_inode (S_IFREG OR 0x1A4)) \<lparr> in_content := ''hello'' \<rparr>,
      ''/b'' \<mapsto> (new_inode (S_IFREG OR 0x1A4)) \<lparr> in_content := ''he'' \<rparr>],
     k_links = Map.empty, k_entries = [''/'' \<mapsto> [''.'', ''..'', ''a'', ''b'']], k_cwd = Some ''/'', k_allows = (\<lambda>_ _. True),
     k_writes = [], k_next_fd = 3, k_next_ino = 10 \<rparr>"

definition small_local :: local_state where
  "small_local = \<lparr> lo_req = zero_request, lo_dir = None, lo_userhash = Map.empty, lo_grouphash = Map.empty, lo_in = file_channel [],
     lo_out = file_channel [], lo_target = None, lo_kernel = small_kernel \<rparr>"

definition small_windows :: two_windows where
  "small_windows = \<lparr> tw_kernel = small_kernel, tw_left = small_local, tw_right = small_local, tw_stuck = None \<rparr>"

definition ascii_disk :: local_env where
  "ascii_disk = \<lparr> le_to_utf8 = (\<lambda>_. None), le_from_utf8 = (\<lambda>_. None), le_user = (\<lambda>_. None), le_group = (\<lambda>_. None) \<rparr>"

definition window_connection :: "two_windows lens \<Rightarrow> two_windows connection" where
  "window_connection v = \<lparr> con_req = (local_request zero_request) \<lparr> rq_datafd := -1, rq_directory := Some ''/'' \<rparr>,
     con_ops = local_ops v ascii_disk \<rparr>"

definition idle_tdata :: "'s connection \<Rightarrow> 's connection \<Rightarrow> 's \<Rightarrow> gftp_file list \<Rightarrow> 's tdata" where
  "idle_tdata fc tc w fs = \<lparr> td_from = fc, td_to = tc, td_world = w, td_files = fs, td_cur = 0, td_cancel = False, td_started = True,
     td_done = False, td_stalled = True, td_no_timeout = False, td_next_file = False, td_skip_file = False,
     td_current_file_number = 0, td_current_file_retries = 0, td_curtrans = 0, td_tot_file_trans = 0, td_curresumed = 0,
     td_trans_bytes = 0, td_total_bytes = 0, td_resumed_bytes = 0, td_lasttime = 0, td_clock = [], td_events = [] \<rparr>"

definition plain_options :: transfer_options where
  "plain_options = \<lparr> to_retries = 3, to_trans_blksize = 4, to_preserve_permissions = False, to_preserve_time = False \<rparr>"

theorem local_copy_whole_witness:
  "\<exists>s'. transfer_regular plain_options 9
      (idle_tdata (window_connection left_window) (window_connection right_window) small_windows
        [zero_file \<lparr> gf_file := Some ''/a'', gf_destfile := Some ''/b'', gf_startsize := 2, gf_transfer_action := GFTP_TRANS_ACTION_RESUME \<rparr>]) =
      Inr (0, s') \<and> content_of (tw_kernel (td_world s')) ''/b'' = ''hello''"
proof -
  let ?fle = "zero_file \<lparr> gf_file := Some ''/a'', gf_destfile := Some ''/b'', gf_startsize := 2, gf_transfer_action := GFTP_TRANS_ACTION_RESUME \<rparr>"
  let ?s = "idle_tdata (window_connection left_window) (window_connection right_window) small_windows [?fle]"
  have paths: "resolve (components ''a'') = [''a'']" "resolve (components ''b'') = [''b'']"
    by (simp_all add: components_def resolve_def push_component_def)
  have follow: "follow 40 small_kernel p = Some p" for p
  proof -
    have "(40 :: nat) = Suc 39" by simp
    then show ?thesis by (simp only: follow.simps) (simp add: small_kernel_def)
  qed
  have real: "real_path small_kernel ''/a'' = Some ''/a''" "real_path small_kernel ''/b'' = Some ''/b''"
    by (simp_all add: real_path_def abs_path_def paths root_or_def follow)
  have reg: "\<not> is_dir small_kernel ''/a''" "\<not> is_dir small_kernel ''/b''"
    by (simp_all add: is_dir_def small_kernel_def new_inode_def S_ISDIR_def file_type_defs)
  have copy: "can_copy ascii_disk small_kernel ''/a'' ''/b'' ''/a'' ''/b''"
    unfolding can_copy_def disk_name_def ascii_disk_def local_env.simps option.case real
    using reg by (simp add: small_kernel_def)
  have start: "start_at ?fle = 2" by (simp add: start_at_def)
  have contents: "content_of small_kernel ''/a'' = ''hello''" "content_of small_kernel ''/b'' = ''he''"
    by (simp_all add: content_of_def small_kernel_def)
  have s: "curfle ?s = Some ?fle" "td_world ?s = small_windows" "td_from ?s = window_connection left_window"
      "td_to ?s = window_connection right_window" "td_events ?s = []" "\<not> td_cancel ?s"
    by (simp_all add: idle_tdata_def curfle_def)
  have w: "tw_kernel small_windows = small_kernel" "tw_stuck small_windows = None" by (simp_all add: small_windows_def)
  have c: "con_ops (window_connection v) = local_ops v ascii_disk" "rq_protonum (con_req (window_connection v)) = 4" for v
    by (simp_all add: window_connection_def local_request_def)
  have "\<exists>s'. transfer_regular plain_options 9 ?s = Inr (0, s') \<and> content_of (tw_kernel (td_world s')) ''/b'' =
      truncated (nat (start_at ?fle)) (content_of (tw_kernel (td_world ?s)) ''/b'') @
      drop (nat (start_at ?fle)) (content_of (tw_kernel (td_world ?s)) ''/a'')"
    by (rule local_copy_whole [where env = ascii_disk and f = "''/a''" and d = "''/b''"])
      (simp_all add: s w c copy contents start plain_options_def)
  then show ?thesis by (simp add: s w contents start truncated_def)
qed

end
