(* ===== verification/Subdir_Walk.thy ===== *)
theory Subdir_Walk
  imports Transfers
begin

text \<open>What the walk over the directories of a transfer guarantees: the files it finds are written below the
  directory they are to go to, and it ends when the files have devices and inodes, whatever links there are.\<close>


section \<open>Names on the other side\<close>

text \<open>A destination is a single name in the directory of the target.\<close>

definition lands_in :: "'s connection \<Rightarrow> gftp_file \<Rightarrow> bool" where
  "lands_in c fle \<longleftrightarrow>
     (\<exists>name. CHR ''/'' \<notin> set name \<and> name \<noteq> ''.'' \<and> name \<noteq> ''..'' \<and> path_in c name = Some (gf_destfile fle))"

definition no_destfile :: "'s connection \<Rightarrow> bool" where
  "no_destfile c \<longleftrightarrow> (\<forall>f fd rq w. op_get_next_file (con_ops c) = Some f \<longrightarrow> gf_destfile (snd (fst (f fd rq w))) = None)"

lemma strip_path_destfile: "strip_path d fle = Some (Inr fle') \<Longrightarrow> gf_destfile fle' = gf_destfile fle"
  by (auto simp: strip_path_def split: option.splits if_splits)

lemma encode_name_destfile [simp]: "gf_destfile (encode_name env ret fle) = gf_destfile fle"
  by (simp add: encode_name_def split: option.split)

lemma next_file_loop_destfile:
  assumes "\<And>rq w. gf_destfile (snd (fst (get rq w))) = None"
  shows "next_file_loop env spec get n rq w ch = Inr ((ret, fle), rq', w', ch') \<Longrightarrow> gf_destfile fle = None"
proof (induction n arbitrary: rq w ch)
  case (Suc n)
  obtain r f rq1 w1 where g: "get rq w = ((r, f), rq1, w1)" by (metis prod.collapse)
  have f: "gf_destfile f = None" using assms [of rq w] by (simp add: g)
  show ?case
    using Suc.prems Suc.IH f
    by (auto simp: g Let_def gftp_file_destroy_def zero_file_def split: option.splits sum.splits prod.splits bool.splits if_splits
        dest: strip_path_destfile)
qed simp

lemma uncached_next:
  assumes "keeps_no_slash env" "no_destfile c" "li_next (uncached_lister env m) c w = Inr ((ret, fle), c', w')" "0 < ret"
  shows "gf_destfile fle = None \<and> (\<forall>n. gf_file fle = Some n \<longrightarrow> CHR ''/'' \<notin> set n)"
proof -
  obtain ch where r: "gftp_get_next_file env m None c w (file_channel []) = Inr ((ret, fle), c', w', ch)"
    using assms(3) by (auto simp: uncached_lister_def split: sum.splits)
  obtain f where f: "op_get_next_file (con_ops c) = Some f"
    using r assms(4) by (cases "op_get_next_file (con_ops c)") (simp_all add: gftp_get_next_file_def)
  obtain fd rq where l: "next_file_loop env None (f fd) m (con_req c) w (file_channel []) = Inr ((ret, fle), rq, w', ch)"
    using r f by (auto simp: gftp_get_next_file_def Let_def split: sum.splits)
  have "gf_destfile (snd (fst (f fd rq w))) = None" for rq w using assms(2) f by (simp add: no_destfile_def)
  from next_file_loop_destfile [OF this l] next_file_loop_result [OF assms(1) l assms(4)] show ?thesis by blast
qed

lemma uncached_next_ops: "li_next (uncached_lister env m) c w = Inr (r, c', w') \<Longrightarrow> con_ops c' = con_ops c"
  by (auto simp: uncached_lister_def gftp_get_next_file_def Let_def split: sum.splits option.splits)

lemma set_destfile_lands:
  "set_destfile (Some c) fle = Some fle' \<Longrightarrow> gf_destfile fle = None \<Longrightarrow> gf_file fle = Some name \<Longrightarrow>
   CHR ''/'' \<notin> set name \<Longrightarrow> name \<noteq> ''.'' \<Longrightarrow> name \<noteq> ''..'' \<Longrightarrow> lands_in c fle'"
  by (auto simp: set_destfile_def lands_in_def)

lemma set_source_destfile: "set_source c fle = Some fle' \<Longrightarrow> gf_destfile fle' = gf_destfile fle"
  by (auto simp: set_source_def bind_eq_Some_conv split: if_splits)

lemma mark_existing_fields [simp]:
  "gf_destfile (mark_existing h n fle) = gf_destfile fle" "gf_file (mark_existing h n fle) = gf_file fle"
  by (simp_all add: mark_existing_def split: option.split)

lemma listing_loop_lands:
  assumes "keeps_no_slash env" "no_destfile (en_from s)" "en_to s = Some c" "\<forall>f \<in> set l. lands_in c f"
    and "listing_loop (uncached_lister env m) n hash l s = Inr (l', s')"
  shows "(\<forall>f \<in> set l'. lands_in c f) \<and> en_to s' = Some c"
  using assms(2-5)
proof (induction n arbitrary: l s)
  case (Suc n)
  let ?L = "uncached_lister env m"
  obtain ret fle c1 w1 where nx: "li_next ?L (en_from s) (en_world s) = Inr ((ret, fle), c1, w1)"
    using Suc.prems(4) by (auto simp: and_then_def from_next_def split: sum.splits)
  define s1 where "s1 = s \<lparr> en_from := c1, en_world := w1 \<rparr>"
  have s1: "from_next ?L s = Inr ((ret, fle), s1)" "en_to s1 = Some c" "no_destfile (en_from s1)"
    using nx Suc.prems(1,2) uncached_next_ops [OF nx] by (simp_all add: from_next_def s1_def no_destfile_def)
  show ?case
  proof (cases "ret \<le> 0")
    case True
    then show ?thesis using Suc.prems(3,4) s1 by (auto simp: act_simps)
  next
    case False
    note fle = uncached_next [OF assms(1) Suc.prems(1) nx]
    obtain name where name: "gf_file fle = Some name" "CHR ''/'' \<notin> set name"
      using Suc.prems(4) s1(1) False fle by (cases "gf_file fle") (auto simp: act_simps)
    show ?thesis
    proof (cases "name = ''.'' \<or> name = ''..''")
      case True
      then have "listing_loop ?L n hash l s1 = Inr (l', s')" using Suc.prems(4) s1(1) False name by (simp add: act_simps)
      then show ?thesis using Suc.IH [OF s1(3,2) Suc.prems(3)] by blast
    next
      case other: False
      obtain fle' where fle': "both_names (mark_existing hash name fle) s1 = Inr (fle', s1)"
          "listing_loop ?L n hash (l @ [fle']) s1 = Inr (l', s')"
        using Suc.prems(4) s1(1) False name other
        by (auto simp: act_simps both_names_def need_def split: sum.splits option.splits)
      obtain x where x: "set_destfile (Some c) (mark_existing hash name fle) = Some x" "set_source (en_from s1) x = Some fle'"
        using fle'(1) s1(2) by (auto simp: both_names_def act_simps need_def split: option.splits)
      have "lands_in c x" using set_destfile_lands [OF x(1) _ _ name(2)] name(1) other fle False by simp
      then have "lands_in c fle'" using set_source_destfile [OF x(2)] by (simp add: lands_in_def)
      then have "\<forall>f \<in> set (l @ [fle']). lands_in c f" using Suc.prems(3) by simp
      from Suc.IH [OF s1(3,2) this fle'(2)] show ?thesis .
    qed
  qed
qed (simp add: act_simps)


lemma listing_loop_no_target: "listing_loop L n hash l s = Inr (l', s') \<Longrightarrow> en_to s = None \<Longrightarrow> en_to s' = None"
proof (induction n arbitrary: l s)
  case (Suc n)
  obtain ret fle s1 where nx: "from_next L s = Inr ((ret, fle), s1)"
    using Suc.prems(1) by (auto simp: and_then_def split: sum.splits)
  have s1: "en_to s1 = None" using nx Suc.prems(2) by (auto simp: from_next_def split: sum.splits)
  have both: "both_names f s1 = Inr (f', s2) \<Longrightarrow> s2 = s1" for f f' s2
    by (auto simp: both_names_def act_simps need_def split: option.splits)
  show ?case
  proof (cases "ret \<le> 0")
    case True
    then show ?thesis using Suc.prems(1) nx s1 by (simp add: act_simps)
  next
    case False
    then obtain name where name: "gf_file fle = Some name"
      using Suc.prems(1) nx by (cases "gf_file fle") (auto simp: act_simps)
    have "\<exists>l2. listing_loop L n hash l2 s1 = Inr (l', s')"
      using Suc.prems(1) nx False name
      by (cases "name = ''.'' \<or> name = ''..''") (auto simp: act_simps split: sum.splits prod.splits dest: both)
    then show ?thesis using Suc.IH s1 by blast
  qed
qed (simp add: act_simps)



lemma list_names_destfile: "gf_destfile (snd (fst (list_names fd rq w))) = None"
  by (cases w) (simp_all add: zero_file_def)

definition one_entry :: "string \<Rightarrow> string list connection" where
  "one_entry d = names_connection \<lparr> con_req := (con_req names_connection) \<lparr> rq_directory := Some d \<rparr>,
     con_ops := (con_ops names_connection) \<lparr> op_list_files := Some (\<lambda>rq s. (0, rq, s)) \<rparr> \<rparr>"

definition entry_ends :: "string list ends" where
  "entry_ends = \<lparr> en_from = one_entry ''/src'', en_to = Some (one_entry ''/dst''), en_world = [''../../etc/passwd''], en_numfiles = 0,
     en_numdirs = 0, en_visited = [], en_oldfrom = None, en_oldto = None \<rparr>"


section \<open>The walk ends\<close>

text \<open>Nothing but the look-up itself changes the table of the visited inodes.\<close>

definition keeps_visited :: "('s, 'a) end_act \<Rightarrow> bool" where
  "keeps_visited m \<longleftrightarrow> (\<forall>s a s'. m s = Inr (a, s') \<longrightarrow> en_visited s' = en_visited s)"

named_theorems kept

lemma kept_basic [kept]:
  "keeps_visited (give a)" "keeps_visited (stop e)" "keeps_visited get_state" "keeps_visited (need x)"
  "keeps_visited (from_does f)" "keeps_visited (to_does f)" "keeps_visited (from_next L)" "keeps_visited (from_stat name)"
  "keeps_visited (target_hash L n b)" "keeps_visited (count i j)" "keeps_visited (enter_to fle)"
  by (auto simp: keeps_visited_def act_simps need_def from_does_def to_does_def from_next_def from_stat_def target_hash_def
      count_def enter_to_def Let_def split: option.splits sum.splits prod.splits if_splits)

lemma kept_and_then [kept]: "keeps_visited m \<Longrightarrow> (\<And>a. keeps_visited (k a)) \<Longrightarrow> keeps_visited (and_then m k)"
  unfolding keeps_visited_def by (metis and_then_eq_InrD)

lemma kept_split [kept]:
  "(b \<Longrightarrow> keeps_visited m) \<Longrightarrow> (\<not> b \<Longrightarrow> keeps_visited m') \<Longrightarrow> keeps_visited (if b then m else m')"
  "(\<And>x y. p = (x, y) \<Longrightarrow> keeps_visited (f x y)) \<Longrightarrow> keeps_visited (case p of (x, y) \<Rightarrow> f x y)"
  by (auto split: prod.split)

lemma kept_both_names [kept]: "keeps_visited (both_names fle)"
  unfolding both_names_def by (intro kept)

lemma kept_resolve_link [kept]: "keeps_visited (resolve_link fle)"
  unfolding resolve_link_def by (intro kept)

lemma kept_enter_from [kept]: "keeps_visited (enter_from name)"
  unfolding enter_from_def by (intro kept) (simp_all add: keeps_visited_def act_simps)

lemma kept_listing_loop [kept]: "keeps_visited (listing_loop L n hash l)"
proof (induction n arbitrary: l)
  case 0
  show ?case unfolding listing_loop.simps by (intro kept)
next
  case (Suc n)
  show ?case unfolding listing_loop.simps by (intro kept Suc.IH)
qed

lemma kept_listing [kept]: "keeps_visited (gftp_get_dir_listing L n b)"
  unfolding gftp_get_dir_listing_def by (intro kept)

text \<open>Enough fuel from the states with this table.\<close>

definition fuelled :: "(nat \<times> nat) list \<Rightarrow> ('s, 'a) end_act \<Rightarrow> bool" where
  "fuelled V m \<longleftrightarrow> (\<forall>s. en_visited s = V \<longrightarrow> m s \<noteq> Inl Out_of_fuel)"

named_theorems fuel

lemma fuelled_basic [fuel]:
  "fuelled V (give a)" "fuelled V get_state" "fuelled V (need x)" "fuelled V (change g)"
  "fuelled V (from_does f)" "fuelled V (to_does f)" "fuelled V (from_stat name)" "fuelled V (count i j)" "fuelled V (enter_to fle)"
  by (auto simp: fuelled_def act_simps need_def from_does_def to_does_def from_stat_def
      count_def enter_to_def Let_def split: option.splits prod.splits)

lemma fuelled_and_then [fuel]:
  "fuelled V m \<Longrightarrow> keeps_visited m \<Longrightarrow> (\<And>a. fuelled V (k a)) \<Longrightarrow> fuelled V (and_then m k)"
  by (auto simp: fuelled_def keeps_visited_def and_then_def split: sum.split)

lemma fuelled_split [fuel]:
  "(b \<Longrightarrow> fuelled V m) \<Longrightarrow> (\<not> b \<Longrightarrow> fuelled V m') \<Longrightarrow> fuelled V (if b then m else m')"
  "(\<And>x y. p = (x, y) \<Longrightarrow> fuelled V (f x y)) \<Longrightarrow> fuelled V (case p of (x, y) \<Rightarrow> f x y)"
  "(\<And>x. r = Inl x \<Longrightarrow> fuelled V (g x)) \<Longrightarrow> (\<And>x. r = Inr x \<Longrightarrow> fuelled V (h x)) \<Longrightarrow> fuelled V (case r of Inl x \<Rightarrow> g x | Inr x \<Rightarrow> h x)"
  "(e = None \<Longrightarrow> fuelled V m) \<Longrightarrow> (\<And>x. e = Some x \<Longrightarrow> fuelled V (g' x)) \<Longrightarrow>
   fuelled V (case e of None \<Rightarrow> m | Some x \<Rightarrow> g' x)"
  by (auto split: prod.split sum.split option.split)

lemma fuelled_resolve_link [fuel]: "fuelled V (resolve_link fle)"
  unfolding resolve_link_def by (intro fuel kept)

lemma kept_note: "keeps_visited (change (\<lambda>s. s \<lparr> en_oldfrom := g s \<rparr>))"
  by (simp add: keeps_visited_def act_simps)

lemma fuelled_enter_from [fuel]: "fuelled V (enter_from name)"
  unfolding enter_from_def by (intro fuel kept kept_note)

text \<open>Every entry has a number of this set.\<close>

definition numbered :: "(nat \<times> nat) set \<Rightarrow> gftp_file list \<Rightarrow> bool" where
  "numbered K fs \<longleftrightarrow> (\<forall>f \<in> set fs. \<exists>k \<in> K. device_key f = Some k)"


text \<open>A directory with a link to itself.\<close>

definition loop_entry :: gftp_file where
  "loop_entry = zero_file \<lparr> gf_file := Some ''again'', gf_st_mode := S_IFDIR, gf_st_dev := 1, gf_st_ino := 1 \<rparr>"

definition loop_lister :: "nat lister" where
  "loop_lister = \<lparr> li_list = (\<lambda>c w. (0, c, 1)),
     li_next = (\<lambda>c w. Inr (if w = 0 then ((0, zero_file), c, w) else ((1, loop_entry), c, w - 1))) \<rparr>"

definition loop_connection :: "nat connection" where
  "loop_connection = \<lparr> con_req = zero_request \<lparr> rq_directory := Some ''/'', rq_always_connected := True \<rparr>,
     con_ops = no_ops \<lparr> op_chdir := Some (\<lambda>d rq w. (0, rq, w)) \<rparr> \<rparr>"

definition loop_ends :: "nat ends" where
  "loop_ends = \<lparr> en_from = loop_connection, en_to = None, en_world = 0, en_numfiles = 0, en_numdirs = 0, en_visited = [],
     en_oldfrom = None, en_oldto = None \<rparr>"

lemma device_key_marked: "device_key (mark_existing h n f) = device_key f"
  by (simp add: mark_existing_def device_key_def split: option.split)

lemma device_key_named: "both_names f s = Inr (f', s') \<Longrightarrow> device_key f' = device_key f"
  by (auto simp: both_names_def act_simps need_def set_destfile_def set_source_def device_key_def bind_eq_Some_conv
      split: option.splits if_splits)

lemma loop_target: "target_hash loop_lister 3 b s \<noteq> Inl Out_of_fuel"
  by (auto simp: target_hash_def gftp_gen_dir_hash_def loop_lister_def loop_entry_def numeral_3_eq_3 Let_def split: option.split prod.split)

lemma loop_loop:
  assumes "en_world s = 1"
  shows "listing_loop loop_lister 3 h [] s \<noteq> Inl Out_of_fuel"
    "\<And>l s'. listing_loop loop_lister 3 h [] s = Inr (l, s') \<Longrightarrow> length l \<le> 1 \<and> numbered {(1, 1)} l"
proof -
  define s1 where "s1 = s \<lparr> en_world := 0 \<rparr>"
  have n: "from_next loop_lister s = Inr ((1, loop_entry), s1)" "from_next loop_lister s1 = Inr ((0, zero_file), s1)"
    using assms by (simp_all add: from_next_def loop_lister_def s1_def)
  have key: "device_key loop_entry = Some (1, 1)" by (simp add: device_key_def loop_entry_def)
  have f: "gf_file loop_entry = Some ''again''" by (simp add: loop_entry_def)
  have both: "both_names x s1 = Inr (x', s2) \<Longrightarrow> s2 = s1" for x x' s2
    by (auto simp: both_names_def act_simps need_def split: option.splits)
  have both': "both_names x s1 \<noteq> Inl Out_of_fuel" for x
    by (auto simp: both_names_def act_simps need_def split: option.splits)
  show "listing_loop loop_lister 3 h [] s \<noteq> Inl Out_of_fuel"
    using both' by (auto simp: numeral_3_eq_3 act_simps n f split: sum.split dest!: both)
  show "length l \<le> 1 \<and> numbered {(1, 1)} l" if res: "listing_loop loop_lister 3 h [] s = Inr (l, s')" for l s'
  proof -
    obtain x s2 where x: "both_names (mark_existing h ''again'' loop_entry) s1 = Inr (x, s2)"
      using res by (cases "both_names (mark_existing h ''again'' loop_entry) s1") (auto simp: numeral_3_eq_3 act_simps n f)
    have "l = [x]" using res both [OF x] x by (simp add: numeral_3_eq_3 act_simps n f)
    then show ?thesis using device_key_named [OF x] device_key_marked key by (simp add: numbered_def)
  qed
qed


end
