(* ===== verification/Transfer_Hazards.thy ===== *)
theory Transfer_Hazards
  imports Local_Transfers Subdir_Walk
begin

text \<open>What failures, buttons and links do to a transfer: how long reconnecting goes on, what skipping one file does to
  the next one that fails, how the progress is counted when a file fails twice, and what a dangling link hides.\<close>


section \<open>Reconnecting\<close>

lemma source_does_retries: "source_does f s = Inr (r, s') \<Longrightarrow> td_current_file_retries s' = td_current_file_retries s"
  by (auto simp: source_does_def split: prod.splits)

lemma target_does_retries: "target_does f s = Inr (r, s') \<Longrightarrow> td_current_file_retries s' = td_current_file_retries s"
  by (auto simp: target_does_def split: prod.splits)

lemma source_does_total: "\<exists>r s'. source_does f s = Inr (r, s')"
  by (cases "f (td_from s) (td_world s)") (simp add: source_does_def)

lemma target_does_total: "\<exists>r s'. target_does f s = Inr (r, s')"
  by (cases "f (td_to s) (td_world s)") (simp add: target_does_def)

lemma connect_again_total:
  "\<exists>r1 r2 s'. connect_again s = Inr ((r1, r2), s') \<and> td_current_file_retries s' = td_current_file_retries s"
proof -
  obtain r1 s1 where r1: "source_does gftp_connect s = Inr (r1, s1)"
    using source_does_total by blast
  obtain r2 s2 where r2: "target_does gftp_connect s1 = Inr (r2, s2)"
    using target_does_total by blast
  show ?thesis
    using r1 r2 source_does_retries [OF r1] target_does_retries [OF r2] by (cases "r1 = 0") (simp_all add: connect_again_def act_simps)
qed





section \<open>Skipping\<close>

lemma target_does_keeps:
  "target_does f s = Inr (r, s') \<Longrightarrow> td_skip_file s' = td_skip_file s \<and> td_cancel s' = td_cancel s \<and> td_cur s' = td_cur s \<and>
    td_files s' = td_files s \<and> td_events s' = td_events s"
  by (auto simp: target_does_def split: prod.splits)

lemma source_does_keeps:
  "source_does f s = Inr (r, s') \<Longrightarrow> td_skip_file s' = td_skip_file s \<and> td_cancel s' = td_cancel s \<and> td_cur s' = td_cur s \<and>
    td_files s' = td_files s \<and> td_events s' = td_events s"
  by (auto simp: source_does_def split: prod.splits)

lemma disconnect_keeps [simp]:
  "td_skip_file (target_disconnect s) = td_skip_file s" "td_cancel (target_disconnect s) = td_cancel s"
  "td_cur (target_disconnect s) = td_cur s" "td_files (target_disconnect s) = td_files s"
  "td_skip_file (source_disconnect s) = td_skip_file s" "td_cancel (source_disconnect s) = td_cancel s"
  "td_cur (source_disconnect s) = td_cur s" "td_files (source_disconnect s) = td_files s"
  "td_current_file_retries (target_disconnect s) = td_current_file_retries s"
  "td_current_file_retries (source_disconnect s) = td_current_file_retries s"
  by (simp_all add: target_disconnect_def source_disconnect_def split: prod.split)

lemma aborts_keep:
  "\<exists>s'. and_then abort_target (\<lambda>_. abort_source) s = Inr ((), s') \<and> td_skip_file s' = td_skip_file s \<and> td_cancel s' = td_cancel s \<and>
    td_cur s' = td_cur s \<and> td_files s' = td_files s"
proof -
  obtain r1 s1 where r1: "target_does gftp_abort_transfer s = Inr (r1, s1)" using target_does_total by blast
  define s2 where "s2 = (if r1 \<noteq> 0 then target_disconnect s1 else s1)"
  obtain r2 s3 where r2: "source_does gftp_abort_transfer s2 = Inr (r2, s3)" using source_does_total by blast
  have "abort_target s = Inr ((), s2)" using r1 by (simp add: abort_target_def act_simps s2_def)
  moreover have "abort_source s2 = Inr ((), if r2 \<noteq> 0 then source_disconnect s3 else s3)"
    using r2 by (simp add: abort_source_def act_simps)
  ultimately show ?thesis
    using target_does_keeps [OF r1] source_does_keeps [OF r2] by (auto simp: and_then_def s2_def)
qed

text \<open>A file the user skips while it is being copied ends its turn; the loop goes on to the next file with the note
  that a file was skipped still standing.\<close>

theorem skip_flag_left:
  assumes "trans_file_or_dir opts fuel s = Inr (ret, s1)" "td_events s1 = []" "td_cancel s1" "td_skip_file s1"
  shows "\<exists>s2. transfer_turn opts fuel k s = Inr ((True, k), s2) \<and> td_cur s2 = td_cur s1 + 1 \<and> td_skip_file s2 \<and> \<not> td_cancel s2"
proof -
  obtain s2 where s2: "and_then abort_target (\<lambda>_. abort_source) s1 = Inr ((), s2)" "td_skip_file s2 = td_skip_file s1"
      "td_cancel s2 = td_cancel s1" "td_cur s2 = td_cur s1"
    using aborts_keep by blast
  have "poll s1 = Inr (True, s1)" using assms(2,3) by (simp add: poll_def)
  then show ?thesis
    using assms(1,3,4) s2
    by (simp add: transfer_turn_def and_then_def [where m = "trans_file_or_dir opts fuel"] and_then_def [where m = poll]
        and_then_def [where m = "and_then abort_target (\<lambda>_. abort_source)"])
      (simp add: act_simps next_file_in_trans_def edit_curfle_def cancel_both_def)
qed


text \<open>A server that lets everybody in and makes no directories.\<close>

definition strict_connection :: "nat connection" where
  "strict_connection = \<lparr> con_req = zero_request \<lparr> rq_always_connected := True \<rparr>,
     con_ops = no_ops \<lparr> op_connect := Some (\<lambda>rq w. (0, rq, w)), op_mkdir := Some (\<lambda>d rq w. (GFTP_ERETRYABLE, rq, w)) \<rparr> \<rparr>"

definition new_directory :: gftp_file where
  "new_directory = zero_file \<lparr> gf_file := Some ''d'', gf_destfile := Some ''d'', gf_st_mode := S_IFDIR \<rparr>"

definition skipping :: "gftp_file list \<Rightarrow> nat tdata" where
  "skipping fs = (idle_tdata strict_connection strict_connection 0 fs) \<lparr> td_skip_file := True \<rparr>"

lemma strict_connect [simp]: "gftp_connect strict_connection w = (0, strict_connection, w)"
  by (simp add: gftp_connect_def gftp_set_config_options_def dispatch_def strict_connection_def no_ops_def)

lemma strict_disconnect [simp]: "gftp_disconnect strict_connection w = (strict_connection, w)"
  by (simp add: gftp_disconnect_def strict_connection_def no_ops_def uncached_def zero_request_def)

theorem skip_flag_left_witness:
  "\<exists>s2. transfer_turn plain_options 1 0 ((skipping [new_directory \<lparr> gf_transfer_action := GFTP_TRANS_ACTION_SKIP \<rparr>, new_directory])
      \<lparr> td_cancel := True \<rparr>) = Inr ((True, 0), s2) \<and> td_cur s2 = 1 \<and> td_skip_file s2 \<and> \<not> td_cancel s2"
proof -
  let ?s = "(skipping [new_directory \<lparr> gf_transfer_action := GFTP_TRANS_ACTION_SKIP \<rparr>, new_directory]) \<lparr> td_cancel := True \<rparr>"
  obtain s1 where s1: "trans_file_or_dir plain_options 1 ?s = Inr (0, s1)" "td_events s1 = []" "td_cancel s1" "td_skip_file s1" "td_cur s1 = 0"
    by (auto simp: trans_file_or_dir_def act_simps need_def curfle_def skipping_def idle_tdata_def)
  from skip_flag_left [OF s1(1-4), of 0] s1(5) show ?thesis by simp
qed


section \<open>Two failures\<close>

text \<open>When reconnecting works but the file fails again before its copying begins, its bytes are taken off the
  progress a second time, and the place to resume from forgets where the first attempt began.\<close>

theorem two_failures_lose_progress:
  assumes "\<not> td_skip_file s" "curfle s = Some fle"
  shows "td_resumed_bytes (resume_file (resume_file s)) = td_resumed_bytes (resume_file s) - td_curtrans s \<and>
    map_option gf_startsize (curfle (resume_file s)) = Some (td_curtrans s + td_curresumed s) \<and>
    map_option gf_startsize (curfle (resume_file (resume_file s))) = Some (td_curtrans s)"
  using assms by (auto simp: resume_file_def Let_def edit_curfle_def curfle_def split: if_splits)

theorem two_failures_lose_progress_witness:
  "td_resumed_bytes (resume_file (resume_file ((idle_tdata strict_connection strict_connection 0 [new_directory])
      \<lparr> td_curtrans := 50, td_trans_bytes := 50, td_curresumed := 100, td_resumed_bytes := 100 \<rparr>))) = -50"
  using two_failures_lose_progress [of "(idle_tdata strict_connection strict_connection 0 [new_directory])
      \<lparr> td_curtrans := 50, td_trans_bytes := 50, td_curresumed := 100, td_resumed_bytes := 100 \<rparr>" new_directory]
  by (simp add: idle_tdata_def curfle_def resume_file_def Let_def edit_curfle_def)

text \<open>Skipping a file that waits to be overwritten or resumed does nothing: the test of its action is a test of
  bits, and these actions share a bit with the one that skips.\<close>

theorem skip_ignored:
  assumes "i < length (td_files s)"
    and "gf_transfer_action (td_files s ! i) \<in> {GFTP_TRANS_ACTION_OVERWRITE, GFTP_TRANS_ACTION_RESUME}"
  shows "gftpui_common_skip_file_transfer i s = s"
  using assms
  by (auto simp: gftpui_common_skip_file_transfer_def GFTP_TRANS_ACTION_OVERWRITE_def GFTP_TRANS_ACTION_RESUME_def GFTP_TRANS_ACTION_SKIP_def)

theorem skip_ignored_witness:
  "gftpui_common_skip_file_transfer 0 (idle_tdata strict_connection strict_connection 0
      [new_directory \<lparr> gf_transfer_action := GFTP_TRANS_ACTION_OVERWRITE \<rparr>]) =
    idle_tdata strict_connection strict_connection 0 [new_directory \<lparr> gf_transfer_action := GFTP_TRANS_ACTION_OVERWRITE \<rparr>]"
  by (rule skip_ignored) (simp_all add: idle_tdata_def)

section \<open>A dangling link\<close>

lemma strrchr_no_char: "c \<notin> set s \<Longrightarrow> strrchr s c = None"
  by (cases "strrchr s c") (auto dest: strrchr_SomeD)

text \<open>A symbolic link to nothing ends the listing of a local directory: the entries behind it are not transferred, and
  the transfer is reported as complete.\<close>

theorem dangling_link_ends_listing:
  assumes "con_ops (en_from s) = local_ops v lenv" "rq_protonum (con_req (en_from s)) = 4"
    and "view v (en_world s) = Inr st" "lo_dir st = Some (name # ns)"
    and "CHR ''/'' \<notin> set name" "sys_stat (lo_kernel st) name = None"
  shows "\<exists>s'. listing_loop (uncached_lister env (Suc fuel)) (Suc n) hash templist s = Inr (templist, s')"
proof -
  have "strip_path d (zero_file \<lparr> gf_file := Some name \<rparr>) = Some (Inr (zero_file \<lparr> gf_file := Some name \<rparr>))" for d
    using assms(5) by (simp add: strip_path_def strrchr_no_char)
  then show ?thesis
    using assms
    by (auto simp: act_simps from_next_def uncached_lister_def gftp_get_next_file_def on_local_world_def local_get_next_file_def
        Let_def encode_name_def cache_entry_line_def split: option.split prod.split)
qed


theorem dangling_link_ends_listing_witness:
  "\<exists>s'. listing_loop (uncached_lister ascii_names 1) 5 None []
     \<lparr> en_from = window_connection left_window, en_to = None,
       en_world = small_windows \<lparr> tw_left := small_local \<lparr> lo_dir := Some [''gone'', ''a''] \<rparr> \<rparr>,
       en_numfiles = 0, en_numdirs = 0, en_visited = [], en_oldfrom = None, en_oldto = None \<rparr> = Inr ([], s')"
proof -
  let ?s = "\<lparr> en_from = window_connection left_window, en_to = None,
       en_world = small_windows \<lparr> tw_left := small_local \<lparr> lo_dir := Some [''gone'', ''a''] \<rparr> \<rparr>,
       en_numfiles = 0, en_numdirs = 0, en_visited = [], en_oldfrom = None, en_oldto = None \<rparr>"
  let ?st = "small_local \<lparr> lo_dir := Some [''gone'', ''a''] \<rparr>"
  have c: "con_ops (window_connection v) = local_ops v ascii_disk" "rq_protonum (con_req (window_connection v)) = 4" for v
    by (simp_all add: window_connection_def local_request_def)
  have "resolve (components ''gone'') = [''gone'']" by (simp add: components_def resolve_def push_component_def)
  moreover have "follow 40 small_kernel p = Some p" for p
  proof -
    have "(40 :: nat) = Suc 39" by simp
    then show ?thesis by (simp only: follow.simps) (simp add: small_kernel_def)
  qed
  ultimately have gone: "sys_stat small_kernel ''gone'' = None"
    by (simp add: sys_stat_def real_path_def abs_path_def root_or_def allowed_def) (simp add: small_kernel_def)
  have "\<exists>s'. listing_loop (uncached_lister ascii_names (Suc 0)) (Suc 4) None [] ?s = Inr ([], s')"
    by (rule dangling_link_ends_listing [where v = left_window and lenv = ascii_disk and st = ?st and name = "''gone''" and ns = "[''a'']"])
      (simp_all add: c left_window_def small_windows_def small_local_def gone)
  then show ?thesis by simp
qed

end
