(* ===== verification/Sftp.thy ===== *)
theory Sftp
  imports Requests Actions
begin

unbundle bit_operations_syntax

text \<open>
  SFTP over the \<open>ssh\<close> program (\<open>lib/sshv2.c\<close>): its messages, the operations, and the start of the program with
  the dialogue on its terminal. The state \<open>sftp\<close> is the request, \<open>sshv2_params\<close>, the options of the module, the
  pipe to the program in both directions, the file of a cached listing, and what will happen: the programs that
  \<open>gftp_exec\<close> will start, and the results of \<open>fcntl\<close>. A buffer of the heap is the list of its bytes, a pointer
  into it an offset; numbers of 32 and 64 bits are natural numbers, reduced where the code stores them.
\<close>


section \<open>The state\<close>

record message =
  ms_length :: nat
  ms_command :: char
  ms_buffer :: "string option"
  ms_pos :: nat
  ms_end :: nat

definition empty_message :: message where
  "empty_message = \<lparr> ms_length = 0, ms_command = NUL, ms_buffer = None, ms_pos = 0, ms_end = 0 \<rparr>"

record ssh_options =
  ssh_prog_name :: "string option"
  ssh_extra_params :: "string option"
  ssh_need_userpass :: bool

text \<open>What \<open>select\<close> reports on the pipe and the terminal while the program logs in.\<close>

datatype login_event = Login_interrupted | Login_failed | Login_exception | Pipe_ready | Terminal_ready

text \<open>A call of \<open>gftp_exec\<close>: whether it works, the pipe, and the terminal with the events on it.\<close>

record ssh_child =
  ch_started :: bool
  ch_fd :: int
  ch_in :: channel
  ch_out :: channel
  ch_terminal_in :: channel
  ch_terminal_out :: channel
  ch_events :: "login_event list"

record sftp =
  sf_req :: gftp_request
  sf_handle :: string
  sf_handle_len :: nat
  sf_transfer_buffer :: "string option"
  sf_id :: nat
  sf_count :: nat
  sf_message :: message
  sf_initialized :: bool
  sf_dont_log_status :: bool
  sf_offset :: nat
  sf_opts :: ssh_options
  sf_in :: channel
  sf_out :: channel
  sf_cache :: channel
  sf_terminal_in :: channel
  sf_terminal_out :: channel
  sf_children :: "ssh_child list"
  sf_commands :: "string list list"
  sf_fcntl :: "int list"

type_synonym 'a sftp_act = "(sftp, 'a) action"

text \<open>The character set conversion, the port in the services file, the translations, and what the user answers.\<close>

record ssh_env =
  se_from_utf8 :: "string \<Rightarrow> string option"
  se_to_utf8 :: "string \<Rightarrow> string option"
  se_service_port :: "nat option"
  se_translated :: "string \<Rightarrow> string"
  se_accepts :: "string \<Rightarrow> bool"
  se_passcode :: "string option"

definition GFTP_SSHV2_NUM :: nat where [simp]: "GFTP_SSHV2_NUM = 5"
definition SSH_MAX_HANDLE_SIZE :: nat where [simp]: "SSH_MAX_HANDLE_SIZE = 256"
definition SSH_MAX_STRING_SIZE :: nat where [simp]: "SSH_MAX_STRING_SIZE = 34000"
definition SSH_MY_VERSION :: nat where [simp]: "SSH_MY_VERSION = 3"
definition SSH_LOGIN_BUFSIZE :: nat where [simp]: "SSH_LOGIN_BUFSIZE = 200"

definition SSH_FXP_INIT :: int where [simp]: "SSH_FXP_INIT = 1"
definition SSH_FXP_VERSION :: int where [simp]: "SSH_FXP_VERSION = 2"
definition SSH_FXP_OPEN :: int where [simp]: "SSH_FXP_OPEN = 3"
definition SSH_FXP_CLOSE :: int where [simp]: "SSH_FXP_CLOSE = 4"
definition SSH_FXP_READ :: int where [simp]: "SSH_FXP_READ = 5"
definition SSH_FXP_WRITE :: int where [simp]: "SSH_FXP_WRITE = 6"
definition SSH_FXP_SETSTAT :: int where [simp]: "SSH_FXP_SETSTAT = 9"
definition SSH_FXP_OPENDIR :: int where [simp]: "SSH_FXP_OPENDIR = 11"
definition SSH_FXP_READDIR :: int where [simp]: "SSH_FXP_READDIR = 12"
definition SSH_FXP_REMOVE :: int where [simp]: "SSH_FXP_REMOVE = 13"
definition SSH_FXP_MKDIR :: int where [simp]: "SSH_FXP_MKDIR = 14"
definition SSH_FXP_RMDIR :: int where [simp]: "SSH_FXP_RMDIR = 15"
definition SSH_FXP_REALPATH :: int where [simp]: "SSH_FXP_REALPATH = 16"
definition SSH_FXP_STAT :: int where [simp]: "SSH_FXP_STAT = 17"
definition SSH_FXP_RENAME :: int where [simp]: "SSH_FXP_RENAME = 18"
definition SSH_FXP_STATUS :: int where [simp]: "SSH_FXP_STATUS = 101"
definition SSH_FXP_HANDLE :: int where [simp]: "SSH_FXP_HANDLE = 102"
definition SSH_FXP_DATA :: int where [simp]: "SSH_FXP_DATA = 103"
definition SSH_FXP_NAME :: int where [simp]: "SSH_FXP_NAME = 104"
definition SSH_FXP_ATTRS :: int where [simp]: "SSH_FXP_ATTRS = 105"

definition SSH_FILEXFER_ATTR_SIZE :: nat where [simp]: "SSH_FILEXFER_ATTR_SIZE = 0x1"
definition SSH_FILEXFER_ATTR_UIDGID :: nat where [simp]: "SSH_FILEXFER_ATTR_UIDGID = 0x2"
definition SSH_FILEXFER_ATTR_PERMISSIONS :: nat where [simp]: "SSH_FILEXFER_ATTR_PERMISSIONS = 0x4"
definition SSH_FILEXFER_ATTR_ACMODTIME :: nat where [simp]: "SSH_FILEXFER_ATTR_ACMODTIME = 0x8"
definition SSH_FILEXFER_ATTR_EXTENDED :: nat where [simp]: "SSH_FILEXFER_ATTR_EXTENDED = 0x80000000"

definition SSH_FXF_READ :: nat where [simp]: "SSH_FXF_READ = 0x1"
definition SSH_FXF_WRITE :: nat where [simp]: "SSH_FXF_WRITE = 0x2"
definition SSH_FXF_APPEND :: nat where [simp]: "SSH_FXF_APPEND = 0x4"
definition SSH_FXF_CREAT :: nat where [simp]: "SSH_FXF_CREAT = 0x8"
definition SSH_FXF_TRUNC :: nat where [simp]: "SSH_FXF_TRUNC = 0x10"

definition SSH_FX_OK :: nat where [simp]: "SSH_FX_OK = 0"
definition SSH_FX_EOF :: nat where [simp]: "SSH_FX_EOF = 1"
definition SSH_FX_NO_SUCH_FILE :: nat where [simp]: "SSH_FX_NO_SUCH_FILE = 2"
definition SSH_FX_PERMISSION_DENIED :: nat where [simp]: "SSH_FX_PERMISSION_DENIED = 3"
definition SSH_FX_FAILURE :: nat where [simp]: "SSH_FX_FAILURE = 4"
definition SSH_FX_OP_UNSUPPORTED :: nat where [simp]: "SSH_FX_OP_UNSUPPORTED = 8"

definition on_sf_req :: "(gftp_request \<Rightarrow> gftp_request) \<Rightarrow> sftp \<Rightarrow> sftp" where
  "on_sf_req f s = s \<lparr> sf_req := f (sf_req s) \<rparr>"

text \<open>\<open>htonl\<close> with \<open>memcpy\<close> to and from a buffer.\<close>

definition put32 :: "nat \<Rightarrow> string" where
  "put32 n = [char_of (n div 2 ^ 24 mod 256), char_of (n div 2 ^ 16 mod 256), char_of (n div 2 ^ 8 mod 256), char_of (n mod 256)]"

fun get32 :: "string \<Rightarrow> nat option" where
  "get32 (a # b # c # d # bs) = Some (((code_of a * 256 + code_of b) * 256 + code_of c) * 256 + code_of d)"
| "get32 _ = None"

text \<open>The guard of the operations.\<close>

definition if_sshv2 :: "int sftp_act \<Rightarrow> int sftp_act" where
  "if_sshv2 m s = (if rq_protonum (sf_req s) = int GFTP_SSHV2_NUM then m s else Inr (GFTP_EFATAL, s))"

definition if_open :: "'a \<Rightarrow> 'a sftp_act \<Rightarrow> 'a sftp_act" where
  "if_open none m s =
    (if rq_protonum (sf_req s) = int GFTP_SSHV2_NUM \<and> 0 < rq_datafd (sf_req s) then m s else Inr (none, s))"


section \<open>Disconnecting, reading and writing\<close>

definition sshv2_message_free :: "message \<Rightarrow> message" where
  "sshv2_message_free m = empty_message"

text \<open>The handle and the transfer buffer are kept.\<close>

definition sshv2_disconnect :: "sftp \<Rightarrow> sftp" where
  "sshv2_disconnect s =
    (let s = (if 0 < rq_datafd (sf_req s) then on_sf_req (\<lambda>rq. rq \<lparr> rq_datafd := -1 \<rparr>) s else s)
     in if ms_buffer (sf_message s) \<noteq> None then s \<lparr> sf_message := sshv2_message_free (sf_message s) \<rparr> else s)"

text \<open>\<open>gftp_disconnect\<close> on a request of this module.\<close>

definition sftp_disconnect :: "sftp \<Rightarrow> sftp" where
  "sftp_disconnect s = sshv2_disconnect (on_sf_req (\<lambda>rq. rq \<lparr> rq_cached := False \<rparr>) s)"

definition sftp_after_io :: "channel \<Rightarrow> sftp \<Rightarrow> sftp" where
  "sftp_after_io ch s = (if disconnected ch then sftp_disconnect s else s)"

text \<open>The channel as a call with this request sees it.\<close>

definition armed :: "sftp \<Rightarrow> channel \<Rightarrow> channel" where
  "armed s ch = ch \<lparr> cancel_flag := Some (rq_cancel (sf_req s)), disconnected := False \<rparr>"

definition from_cache :: "int \<Rightarrow> sftp \<Rightarrow> bool" where
  "from_cache fd s \<longleftrightarrow> fd \<noteq> rq_datafd (sf_req s)"

definition sftp_source :: "int \<Rightarrow> sftp \<Rightarrow> channel" where
  "sftp_source fd s = (if from_cache fd s then sf_cache s else sf_in s)"

text \<open>\<open>gftp_fd_read\<close> and \<open>gftp_fd_write\<close>; \<open>select\<close> on -1 is undefined.\<close>

definition sftp_read :: "int \<Rightarrow> nat \<Rightarrow> (int + string) sftp_act" where
  "sftp_read fd n s =
    (if fd < 0 then Inl Out_of_bounds
     else let (r, ch) = gftp_fd_read n (armed s (sftp_source fd s))
          in Inr (r, sftp_after_io ch (if from_cache fd s then s \<lparr> sf_cache := ch \<rparr> else s \<lparr> sf_in := ch \<rparr>)))"

definition sftp_write :: "string \<Rightarrow> int sftp_act" where
  "sftp_write p s =
    (if rq_datafd (sf_req s) < 0 then Inl Out_of_bounds
     else let (r, ch) = gftp_fd_write p (armed s (sf_out s)) in Inr (r, sftp_after_io ch (s \<lparr> sf_out := ch \<rparr>)))"

definition fcntl_call :: "int sftp_act" where
  "fcntl_call s = (case sf_fcntl s of [] \<Rightarrow> Inr (0, s) | r # rs \<Rightarrow> Inr (r, s \<lparr> sf_fcntl := rs \<rparr>))"

definition sftp_fail :: "int \<Rightarrow> int sftp_act" where
  "sftp_fail ret = and_then (change sftp_disconnect) (\<lambda>_. give ret)"

definition sftp_set_sockblocking :: "int \<Rightarrow> int sftp_act" where
  "sftp_set_sockblocking fd =
    (if fd < 0 then give GFTP_EFATAL
     else and_then fcntl_call (\<lambda>flags.
       if flags < 0 then sftp_fail GFTP_ERETRYABLE
       else and_then fcntl_call (\<lambda>r. if r < 0 then sftp_fail GFTP_ERETRYABLE else give 0)))"


section \<open>Messages\<close>

text \<open>\<open>params->id++\<close>, in the first four bytes of a command.\<close>

definition sshv2_initialize_buffer :: "string sftp_act" where
  "sshv2_initialize_buffer s = Inr (put32 (sf_id s), s \<lparr> sf_id := (sf_id s + 1) mod 2 ^ 32 \<rparr>)"

text \<open>\<open>strlen\<close> goes before the bytes.\<close>

definition sshv2_add_string_to_buf :: "string \<Rightarrow> string" where
  "sshv2_add_string_to_buf str = put32 (length (takeWhile (\<lambda>c. c \<noteq> NUL) str)) @ str"

definition disk_string :: "ssh_env \<Rightarrow> string \<Rightarrow> string" where
  "disk_string env str = (case se_from_utf8 env str of None \<Rightarrow> str | Some u \<Rightarrow> u)"

text \<open>The rest of a command is appended by the callers.\<close>

definition sshv2_initialize_buffer_with_i18n_string :: "ssh_env \<Rightarrow> string \<Rightarrow> string sftp_act" where
  "sshv2_initialize_buffer_with_i18n_string env str =
     and_then sshv2_initialize_buffer (\<lambda>buf. give (buf @ sshv2_add_string_to_buf (disk_string env str)))"

text \<open>A path below the current directory; without a directory it is a NULL pointer.\<close>

definition sftp_path :: "string \<Rightarrow> string sftp_act" where
  "sftp_path str =
    (if str \<noteq> [] \<and> hd str = CHR ''/'' then give str
     else and_then get_state (\<lambda>s.
       and_then (need (rq_directory (sf_req s))) (\<lambda>d.
         need (gftp_build_path (Some (rq_server_type (sf_req s))) d [str]))))"

definition sshv2_generate_utf8_path :: "ssh_env \<Rightarrow> string \<Rightarrow> string sftp_act" where
  "sshv2_generate_utf8_path env str = and_then (sftp_path str) (\<lambda>path. give (disk_string env path))"

definition sshv2_initialize_buffer_with_two_i18n_paths :: "ssh_env \<Rightarrow> string \<Rightarrow> string \<Rightarrow> string sftp_act" where
  "sshv2_initialize_buffer_with_two_i18n_paths env str1 str2 =
     and_then (sshv2_generate_utf8_path env str1) (\<lambda>p1.
     and_then (sshv2_generate_utf8_path env str2) (\<lambda>p2.
     and_then sshv2_initialize_buffer (\<lambda>buf. give (buf @ sshv2_add_string_to_buf p1 @ sshv2_add_string_to_buf p2))))"

definition sshv2_initialize_string_with_path :: "ssh_env \<Rightarrow> string \<Rightarrow> string sftp_act" where
  "sshv2_initialize_string_with_path env path =
     and_then (sftp_path path) (sshv2_initialize_buffer_with_i18n_string env)"

text \<open>A message that is 33995 bytes long puts its terminator behind the buffer.\<close>

definition sshv2_send_command :: "int \<Rightarrow> string \<Rightarrow> int sftp_act" where
  "sshv2_send_command type command =
    (if length command > 33995 then sftp_fail GFTP_EFATAL
     else if length command = 33995 then stop Out_of_bounds
     else and_then (sftp_write (put32 (length command + 1) @ [char_of (nat type)] @ command)) (\<lambda>ret.
            give (if ret < 0 then ret else 0)))"

text \<open>\<open>sshv2_log_command\<close> looks into a message that was received: whether all it reads (and, for the type of a
  command to open a file, writes) is inside the buffer.\<close>

definition log_inside :: "bool \<Rightarrow> int \<Rightarrow> string \<Rightarrow> bool" where
  "log_inside dont_log_status type mem \<longleftrightarrow>
     4 \<le> length mem \<and>
     (if type = SSH_FXP_OPEN then
        (case get32 (drop 4 mem) of None \<Rightarrow> False | Some n \<Rightarrow> 11 + n < length mem)
      else if type \<in> {SSH_FXP_OPENDIR, SSH_FXP_REMOVE, SSH_FXP_MKDIR, SSH_FXP_RMDIR, SSH_FXP_REALPATH, SSH_FXP_STAT}
        then 8 < length mem
      else if type = SSH_FXP_SETSTAT then
        (case get32 (drop 4 mem) of None \<Rightarrow> False | Some n \<Rightarrow> 16 + n \<le> length mem)
      else if type = SSH_FXP_STATUS then dont_log_status \<or> 8 \<le> length mem
      else if type = SSH_FXP_NAME then 8 \<le> length mem
      else True)"

text \<open>Reading \<open>rem\<close> bytes into a buffer of \<open>room\<close> bytes. The end of the connection is no error here, so the loop does
  not end with it.\<close>

fun read_bytes :: "nat \<Rightarrow> int \<Rightarrow> nat \<Rightarrow> nat \<Rightarrow> string \<Rightarrow> (int + string) sftp_act" where
  "read_bytes 0 fd rem room acc = stop Out_of_fuel"
| "read_bytes (Suc n) fd rem room acc =
    (if rem = 0 then give (Inr acc)
     else and_then (sftp_read fd rem) (\<lambda>r.
       case r of
         Inl e \<Rightarrow> give (Inl e)
       | Inr bs \<Rightarrow> if room < length acc + length bs then stop Out_of_bounds
                   else read_bytes n fd (rem - length bs) room (acc @ bs)))"

definition read_exactly :: "int \<Rightarrow> nat \<Rightarrow> nat \<Rightarrow> (int + string) sftp_act" where
  "read_exactly fd rem room s = read_bytes (length (bytes_in (script (sftp_source fd s))) + 2) fd rem room [] s"

text \<open>A message that is too long: before the protocol has begun it is the text of an error, which is read and logged.\<close>

definition message_too_big :: "int \<Rightarrow> int sftp_act" where
  "message_too_big fd =
     and_then get_state (\<lambda>s.
       if sf_initialized s then sftp_fail GFTP_EFATAL
       else and_then (sftp_set_sockblocking fd) (\<lambda>r.
         if r = -1 then give GFTP_EFATAL
         else and_then (\<lambda>s. if from_cache fd s then Inr ((), s \<lparr> sf_cache := snd (gftp_fd_read 254 ((sf_cache s) \<lparr> cancel_flag := None \<rparr>)) \<rparr>)
                            else Inr ((), s \<lparr> sf_in := snd (gftp_fd_read 254 ((sf_in s) \<lparr> cancel_flag := None \<rparr>)) \<rparr>)) (\<lambda>_.
              sftp_fail GFTP_EFATAL)))"

text \<open>The type is a signed \<open>char\<close>, and it is the result. The length 0 makes \<open>length - 1\<close> the largest number of 32
  bits.\<close>

definition sshv2_read_response :: "int \<Rightarrow> (int \<times> message) sftp_act" where
  "sshv2_read_response fd =
     and_then get_state (\<lambda>s.
     let fd = (if fd \<le> 0 then rq_datafd (sf_req s) else fd)
     in and_then (read_exactly fd 5 6) (\<lambda>r.
       case r of
         Inl e \<Rightarrow> give (e, empty_message)
       | Inr hdr \<Rightarrow>
           and_then (need (get32 hdr)) (\<lambda>len.
             if len > 34000 then and_then (message_too_big fd) (\<lambda>ret. give (ret, empty_message))
             else and_then (read_exactly fd ((len + 2 ^ 32 - 1) mod 2 ^ 32) (len + 1)) (\<lambda>r.
               case r of
                 Inl e \<Rightarrow> give (e, empty_message)
               | Inr body \<Rightarrow>
                   let type = char_int (hdr ! 4); mem = body @ [NUL, NUL]
                   in and_then get_state (\<lambda>s.
                      if log_inside (sf_dont_log_status s) type mem
                      then give (type, \<lparr> ms_length = len, ms_command = hdr ! 4, ms_buffer = Some mem, ms_pos = 0, ms_end = len - 1 \<rparr>)
                      else stop Out_of_bounds)))))"

definition sshv2_wrong_response :: "message \<Rightarrow> (int \<times> message) sftp_act" where
  "sshv2_wrong_response m = and_then (change sftp_disconnect) (\<lambda>_. give (GFTP_EFATAL, sshv2_message_free m))"

text \<open>A type of 0 or less means that none is expected there.\<close>

definition sshv2_read_status_response :: "int \<Rightarrow> int \<Rightarrow> (int \<times> message) sftp_act" where
  "sshv2_read_status_response fxp_is_retryable fxp_is_wrong =
     and_then (sshv2_read_response (-1)) (\<lambda>(ret, m).
       if ret < 0 then give (ret, m)
       else if fxp_is_retryable > 0 \<and> ret = fxp_is_retryable
       then and_then (need (Option.bind (ms_buffer m) (\<lambda>b. get32 (drop 4 b)))) (\<lambda>num.
            give (if num = SSH_FX_PERMISSION_DENIED then GFTP_EFATAL else GFTP_ERETRYABLE, sshv2_message_free m))
       else if fxp_is_wrong > 0 \<and> ret \<noteq> fxp_is_wrong then sshv2_wrong_response m
       else give (ret, m))"

definition sshv2_response_return_code :: "message \<Rightarrow> nat \<Rightarrow> (int \<times> message) sftp_act" where
  "sshv2_response_return_code m ret =
    (if ret \<in> {SSH_FX_OK, SSH_FX_EOF, SSH_FX_NO_SUCH_FILE, SSH_FX_FAILURE, SSH_FX_OP_UNSUPPORTED} then give (GFTP_ERETRYABLE, m)
     else if ret = SSH_FX_PERMISSION_DENIED then give (GFTP_EFATAL, m)
     else sshv2_wrong_response m)"

text \<open>\<^term>\<open>Inl\<close> is an error. With an expected number every other one is a status code.\<close>

definition sshv2_buffer_get_int32 :: "nat option \<Rightarrow> message \<Rightarrow> ((int + nat) \<times> message) sftp_act" where
  "sshv2_buffer_get_int32 expected m =
    (if ms_end m < ms_pos m + 4
     then and_then (sshv2_wrong_response m) (\<lambda>(ret, m). give (Inl ret, m))
     else and_then (need (Option.bind (ms_buffer m) (\<lambda>b. get32 (drop (ms_pos m) b)))) (\<lambda>snum.
          let m = m \<lparr> ms_pos := ms_pos m + 4 \<rparr>
          in if expected \<noteq> None \<and> expected \<noteq> Some snum
             then and_then (sshv2_response_return_code m snum) (\<lambda>(ret, m). give (Inl ret, m))
             else give (Inr snum, m)))"

text \<open>The upper half is shifted the wrong way.\<close>

definition sshv2_buffer_get_int64 :: "message \<Rightarrow> ((int + nat) \<times> message) sftp_act" where
  "sshv2_buffer_get_int64 m =
     and_then (sshv2_buffer_get_int32 None m) (\<lambda>(r, m).
       case r of
         Inl e \<Rightarrow> give (Inl e, m)
       | Inr hinum \<Rightarrow>
           and_then (sshv2_buffer_get_int32 None m) (\<lambda>(r, m).
             case r of
               Inl e \<Rightarrow> give (Inl e, m)
             | Inr lonum \<Rightarrow> give (Inr (lonum OR drop_bit 32 hinum), m)))"

text \<open>The bytes of a string; the callers take them as a C string.\<close>

definition sshv2_buffer_get_string :: "message \<Rightarrow> (string option \<times> message) sftp_act" where
  "sshv2_buffer_get_string m =
     and_then (sshv2_buffer_get_int32 None m) (\<lambda>(r, m).
       case r of
         Inl e \<Rightarrow> give (None, m)
       | Inr len \<Rightarrow>
           if len > SSH_MAX_STRING_SIZE \<or> ms_end m - ms_pos m < len
           then and_then (sshv2_wrong_response m) (\<lambda>(ret, m). give (None, m))
           else and_then (need (ms_buffer m)) (\<lambda>b.
                give (Some (take len (drop (ms_pos m) b)), m \<lparr> ms_pos := ms_pos m + len \<rparr>)))"

definition c_text :: "string \<Rightarrow> string" where
  "c_text bs = takeWhile (\<lambda>c. c \<noteq> NUL) bs"

text \<open>\<open>message.pos += 4\<close>.\<close>

definition skip_id :: "message \<Rightarrow> message" where
  "skip_id m = m \<lparr> ms_pos := ms_pos m + 4 \<rparr>"

definition sshv2_send_command_and_check_response :: "int \<Rightarrow> string \<Rightarrow> int sftp_act" where
  "sshv2_send_command_and_check_response type command =
     and_then (sshv2_send_command type command) (\<lambda>ret.
       if ret < 0 then give ret
       else and_then (sshv2_read_response (-1)) (\<lambda>(ret, m).
         if ret < 0 then give ret
         else and_then (sshv2_buffer_get_int32 (Some SSH_FX_OK) (skip_id m)) (\<lambda>(r, m).
           case r of Inl e \<Rightarrow> give e | Inr num \<Rightarrow> give 0)))"


section \<open>The program\<close>

text \<open>A quoted argument is closed by the first quote behind its first character. \<^term>\<open>None\<close> is the search that begins
  behind the end of the text. What follows the last separator is an argument, even when it is empty.\<close>

function exec_words :: "string \<Rightarrow> string list option" where
  "exec_words words =
    (if words \<noteq> [] \<and> hd words = CHR 0x22 then
       (case tl words of
          [] \<Rightarrow> None
        | c # cs \<Rightarrow>
            (case strchr cs (CHR 0x22) of
               None \<Rightarrow> Some [c # cs]
             | Some endpos \<Rightarrow> map_option ((#) (c # before cs endpos)) (exec_words (dropWhile (\<lambda>c. c = SPC) (tl endpos)))))
     else
       (case strchr words SPC of
          None \<Rightarrow> Some [words]
        | Some endpos \<Rightarrow> map_option ((#) (before words endpos)) (exec_words (dropWhile (\<lambda>c. c = SPC) (tl endpos)))))"
  by pat_completeness auto
termination exec_words
proof (relation "measure length")
  fix words c cs endpos
  assume "words \<noteq> [] \<and> hd words = CHR 0x22" "tl words = c # cs" "strchr cs (CHR 0x22) = Some endpos"
  then have "length endpos \<le> length cs" "length words = length cs + 2" by (auto dest: strchr_SomeD simp: neq_Nil_conv)
  then show "(dropWhile (\<lambda>c. c = SPC) (tl endpos), words) \<in> measure length"
    using length_dropWhile_le [of "\<lambda>c. c = SPC" "tl endpos"] by simp
next
  fix words endpos
  assume "strchr words SPC = Some endpos"
  then have "length (tl endpos) < length words" by (auto dest!: strchr_SomeD)
  then show "(dropWhile (\<lambda>c. c = SPC) (tl endpos), words) \<in> measure length"
    using length_dropWhile_le [of "\<lambda>c. c = SPC" "tl endpos"] by simp
qed simp

declare exec_words.simps [simp del]

text \<open>The formatted text is cut at 2047 bytes.\<close>

definition sshv2_add_exec_args :: "string \<Rightarrow> string list \<Rightarrow> string list option" where
  "sshv2_add_exec_args text args =
     map_option ((@) args) (exec_words (dropWhile (\<lambda>c. c = SPC) (take 2047 text)))"

definition add_args_if :: "bool \<Rightarrow> string \<Rightarrow> string list \<Rightarrow> string list option" where
  "add_args_if b text args = (if b then sshv2_add_exec_args text args else Some args)"

definition sshv2_gen_exec_args :: "ssh_options \<Rightarrow> gftp_request \<Rightarrow> string list option" where
  "sshv2_gen_exec_args opts rq =
    (let prog = (if no_text (ssh_prog_name opts) then ''ssh'' else the (ssh_prog_name opts))
     in Option.bind (add_args_if (\<not> no_text (ssh_extra_params opts)) (the (ssh_extra_params opts)) [prog]) (\<lambda>args.
        Option.bind (sshv2_add_exec_args '' -e none'' args) (\<lambda>args.
        Option.bind (add_args_if (\<not> no_text (rq_username rq)) ('' -l '' @ the (rq_username rq)) args) (\<lambda>args.
        Option.bind (sshv2_add_exec_args ('' -p '' @ show_nat (rq_port rq)) args) (\<lambda>args.
        Option.bind (rq_hostname rq) (\<lambda>host.
          sshv2_add_exec_args (SPC # host @ '' -s sftp'') args))))))"

text \<open>\<open>gftp_exec\<close>: the next program. The pipe is the result.\<close>

definition gftp_exec :: "string list \<Rightarrow> ssh_child option sftp_act" where
  "gftp_exec args s =
    (case sf_children s of
       [] \<Rightarrow> Inr (None, s)
     | c # cs \<Rightarrow>
         let s = s \<lparr> sf_children := cs, sf_commands := sf_commands s @ [args] \<rparr>
         in if ch_started c
            then Inr (Some c, s \<lparr> sf_in := ch_in c, sf_out := ch_out c, sf_terminal_in := ch_terminal_in c, sf_terminal_out := ch_terminal_out c \<rparr>)
            else Inr (None, s))"

definition terminal_read :: "nat \<Rightarrow> (int + string) sftp_act" where
  "terminal_read n s =
    (let (r, ch) = gftp_fd_read n (armed s (sf_terminal_in s)) in Inr (r, sftp_after_io ch (s \<lparr> sf_terminal_in := ch \<rparr>)))"

definition terminal_write :: "string \<Rightarrow> int sftp_act" where
  "terminal_write p s =
    (let (r, ch) = gftp_fd_write p (armed s (sf_terminal_out s)) in Inr (r, sftp_after_io ch (s \<lparr> sf_terminal_out := ch \<rparr>)))"

definition prompts :: "string list" where
  "prompts = [''Enter passphrase for RSA key'', ''Enter passphrase for key '' @ [CHR 0x27], ''Password'', ''password'']"

definition on_screen :: "ssh_env \<Rightarrow> string \<Rightarrow> string \<Rightarrow> bool" where
  "on_screen env text prompt \<longleftrightarrow> strstr text prompt \<noteq> None \<or> strstr text (se_translated env prompt) \<noteq> None"

text \<open>What the program has written is answered. The result is \<open>ok\<close> when the dialogue ends, and \<^term>\<open>Inr\<close> whether the
  text is to be cleared and whether the password was given.\<close>

definition answer_prompt :: "ssh_env \<Rightarrow> string \<Rightarrow> bool \<Rightarrow> string \<Rightarrow> (int + bool \<times> bool) sftp_act" where
  "answer_prompt env pwstr wrotepw text =
    (if \<exists>p \<in> set prompts. on_screen env text p then
       if wrotepw then give (Inl (-1))
       else and_then (terminal_write pwstr) (\<lambda>ret. give (if ret < 0 then Inl 0 else Inr (True, True)))
     else if on_screen env text ''(yes/no)?'' then
       if \<not> se_accepts env text then give (Inl (-2))
       else and_then (terminal_write (''yes'' @ [LF])) (\<lambda>ret. give (if ret < 0 then Inl 0 else Inr (True, wrotepw)))
     else if on_screen env text ''Enter PASSCODE:'' then
       if no_text (se_passcode env) then give (Inl (-1))
       else and_then (terminal_write (the (se_passcode env) @ [LF])) (\<lambda>ret. give (if ret \<le> 0 then Inl 0 else Inr (True, wrotepw)))
     else give (Inr (False, wrotepw)))"

text \<open>\<open>buf\<close> is what the buffer holds, \<open>rem\<close> its free space. \<^term>\<open>Inl\<close> leaves the function, \<^term>\<open>Inr\<close> the loop. When all
  events have happened, the program has closed the pipe.\<close>

fun login_loop :: "ssh_env \<Rightarrow> string \<Rightarrow> login_event list \<Rightarrow> bool \<Rightarrow> nat \<Rightarrow> string \<Rightarrow> (int + int) sftp_act" where
  "login_loop env pwstr [] wrotepw rem buf = give (Inr 1)"
| "login_loop env pwstr (e # es) wrotepw rem buf =
    (case e of
       Login_interrupted \<Rightarrow> and_then get_state (\<lambda>s.
         if rq_cancel (sf_req s) then and_then (sftp_fail GFTP_ERETRYABLE) (\<lambda>ret. give (Inl ret))
         else login_loop env pwstr es wrotepw rem buf)
     | Login_failed \<Rightarrow> and_then (sftp_fail GFTP_ERETRYABLE) (\<lambda>ret. give (Inl ret))
     | Login_exception \<Rightarrow> and_then (sftp_fail GFTP_ERETRYABLE) (\<lambda>ret. give (Inl ret))
     | Pipe_ready \<Rightarrow> give (Inr 1)
     | Terminal_ready \<Rightarrow>
         and_then (terminal_read (rem - 1)) (\<lambda>r.
           case r of
             Inl rd \<Rightarrow> give (Inl rd)
           | Inr bs \<Rightarrow>
               if bs = [] then login_loop env pwstr es wrotepw rem buf
               else let buf = buf @ bs; rem = rem - length bs
                    in and_then (answer_prompt env pwstr wrotepw (c_text buf)) (\<lambda>a.
                       case a of
                         Inl ok \<Rightarrow> give (Inr ok)
                       | Inr (clear_tempstr, wrotepw) \<Rightarrow>
                           if clear_tempstr then login_loop env pwstr es wrotepw SSH_LOGIN_BUFSIZE []
                           else login_loop env pwstr es wrotepw (if rem \<le> 1 then rem + SSH_LOGIN_BUFSIZE else rem) buf)))"

definition sshv2_start_login_sequence :: "ssh_env \<Rightarrow> int \<Rightarrow> login_event list \<Rightarrow> int sftp_act" where
  "sshv2_start_login_sequence env fdm events =
     and_then (sftp_set_sockblocking fdm) (\<lambda>ret.
       if ret = -1 then give GFTP_ERETRYABLE
       else and_then (sftp_set_sockblocking 0) (\<lambda>ret.
         if ret = -1 then give GFTP_ERETRYABLE
         else and_then get_state (\<lambda>s.
           let pwstr = (case rq_password (sf_req s) of None \<Rightarrow> [LF] | Some p \<Rightarrow> p @ [LF])
           in and_then (login_loop env pwstr events False SSH_LOGIN_BUFSIZE []) (\<lambda>r.
              case r of
                Inl ret \<Rightarrow> give ret
              | Inr ok \<Rightarrow> if ok \<le> 0 then sftp_fail GFTP_EFATAL else give 0))))"


section \<open>Directories and connections\<close>

text \<open>The one path of an answer to REALPATH.\<close>

definition answered_path :: "message \<Rightarrow> (int + string) sftp_act" where
  "answered_path m =
     and_then (sshv2_buffer_get_int32 (Some 1) (skip_id m)) (\<lambda>(r, m).
       case r of
         Inl e \<Rightarrow> give (Inl e)
       | Inr _ \<Rightarrow>
           and_then (sshv2_buffer_get_string m) (\<lambda>(dir, m).
             case dir of None \<Rightarrow> give (Inl GFTP_EFATAL) | Some bs \<Rightarrow> give (Inr (c_text bs))))"

definition sshv2_getcwd :: "ssh_env \<Rightarrow> int sftp_act" where
  "sshv2_getcwd env = if_sshv2
    (and_then get_state (\<lambda>s.
     and_then (sshv2_initialize_buffer_with_i18n_string env
                (if no_text (rq_directory (sf_req s)) then ''.'' else the (rq_directory (sf_req s)))) (\<lambda>tempstr.
     and_then (sshv2_send_command SSH_FXP_REALPATH tempstr) (\<lambda>ret.
       if ret < 0 then give ret
       else
         and_then (change (on_sf_req (\<lambda>rq. rq \<lparr> rq_directory := None \<rparr>))) (\<lambda>_.
         and_then (sshv2_read_status_response SSH_FXP_STATUS SSH_FXP_NAME) (\<lambda>(ret, m).
           if ret < 0 then give ret
           else and_then (answered_path m) (\<lambda>r.
             case r of
               Inl e \<Rightarrow> give e
             | Inr dir \<Rightarrow>
                 and_then (change (on_sf_req (\<lambda>rq. rq \<lparr> rq_directory :=
                   Some (case se_to_utf8 env dir of None \<Rightarrow> dir | Some u \<Rightarrow> u) \<rparr>))) (\<lambda>_. give 0))))))))"

definition sshv2_connect :: "ssh_env \<Rightarrow> int sftp_act" where
  "sshv2_connect env = if_sshv2
    (and_then get_state (\<lambda>s.
       if rq_hostname (sf_req s) = None then give GFTP_EFATAL
       else if 0 < rq_datafd (sf_req s) then give 0
       else
         and_then (change (on_sf_req (\<lambda>rq. if rq_port rq = 0 then rq \<lparr> rq_port := (case se_service_port env of None \<Rightarrow> 0 | Some p \<Rightarrow> p) \<rparr>
                                          else rq))) (\<lambda>_.
         and_then get_state (\<lambda>s.
         and_then (need (sshv2_gen_exec_args (sf_opts s) (sf_req s))) (\<lambda>args.
         and_then (gftp_exec args) (\<lambda>child.
           case child of
             None \<Rightarrow> give GFTP_ERETRYABLE
           | Some c \<Rightarrow>
               and_then (change (on_sf_req (\<lambda>rq. rq \<lparr> rq_datafd := ch_fd c \<rparr>))) (\<lambda>_.
               and_then (sshv2_send_command SSH_FXP_INIT (put32 SSH_MY_VERSION)) (\<lambda>ret.
                 if ret < 0 then give ret
                 else and_then (sshv2_start_login_sequence env (ch_fd c) (ch_events c)) (\<lambda>ret.
                   if ret < 0 then give ret
                   else and_then (sshv2_read_response (-1)) (\<lambda>(ret, m).
                     if ret < 0 then give ret
                     else if ret \<noteq> SSH_FXP_VERSION then and_then (sshv2_wrong_response m) (\<lambda>(ret, m). give ret)
                     else
                       and_then (change (\<lambda>s. s \<lparr> sf_initialized := True \<rparr>)) (\<lambda>_.
                       and_then (sshv2_getcwd env) (\<lambda>ret.
                         if ret \<ge> 0 then give 0
                         else
                           and_then (change (on_sf_req (\<lambda>rq. rq \<lparr> rq_directory := Some ''.'' \<rparr>))) (\<lambda>_.
                           and_then (sshv2_getcwd env) (\<lambda>ret.
                             if ret < 0 then sftp_fail ret else give 0))))))))))))))"

definition sshv2_destroy :: "sftp \<Rightarrow> sftp" where
  "sshv2_destroy s = s"

text \<open>A command for a path whose answer is a status.\<close>

definition path_command :: "ssh_env \<Rightarrow> int \<Rightarrow> string \<Rightarrow> string \<Rightarrow> int sftp_act" where
  "path_command env type path attributes = if_sshv2
    (and_then (sshv2_initialize_string_with_path env path) (\<lambda>tempstr.
       sshv2_send_command_and_check_response type (tempstr @ attributes)))"

definition sshv2_chdir :: "ssh_env \<Rightarrow> string \<Rightarrow> int sftp_act" where
  "sshv2_chdir env directory = if_sshv2
    (and_then (sshv2_initialize_string_with_path env directory) (\<lambda>tempstr.
     and_then (sshv2_send_command SSH_FXP_REALPATH tempstr) (\<lambda>ret.
       if ret < 0 then give ret
       else
         and_then (sshv2_read_status_response SSH_FXP_STATUS SSH_FXP_NAME) (\<lambda>(ret, m).
           if ret < 0 then give ret
           else and_then (answered_path m) (\<lambda>r.
             case r of
               Inl e \<Rightarrow> give e
             | Inr dir \<Rightarrow> and_then (change (on_sf_req (\<lambda>rq. rq \<lparr> rq_directory := Some dir \<rparr>))) (\<lambda>_. give 0))))))"

definition sshv2_rmdir :: "ssh_env \<Rightarrow> string \<Rightarrow> int sftp_act" where
  "sshv2_rmdir env directory = path_command env SSH_FXP_RMDIR directory []"

definition sshv2_rmfile :: "ssh_env \<Rightarrow> string \<Rightarrow> int sftp_act" where
  "sshv2_rmfile env fname = path_command env SSH_FXP_REMOVE fname []"

definition sshv2_chmod :: "ssh_env \<Rightarrow> string \<Rightarrow> mode_t \<Rightarrow> int sftp_act" where
  "sshv2_chmod env fname mode = path_command env SSH_FXP_SETSTAT fname (put32 SSH_FILEXFER_ATTR_PERMISSIONS @ put32 (unat mode))"

definition sshv2_mkdir :: "ssh_env \<Rightarrow> string \<Rightarrow> int sftp_act" where
  "sshv2_mkdir env newdir = path_command env SSH_FXP_MKDIR newdir (put32 0)"

definition sshv2_rename :: "ssh_env \<Rightarrow> string \<Rightarrow> string \<Rightarrow> int sftp_act" where
  "sshv2_rename env oldname newname = if_sshv2
    (and_then (sshv2_initialize_buffer_with_two_i18n_paths env oldname newname) (\<lambda>tempstr.
       sshv2_send_command_and_check_response SSH_FXP_RENAME tempstr))"

text \<open>A time is cut to 32 bits.\<close>

definition sshv2_set_file_time :: "ssh_env \<Rightarrow> string \<Rightarrow> int \<Rightarrow> int sftp_act" where
  "sshv2_set_file_time env fname datetime =
    (let t = put32 (nat (datetime mod 2 ^ 32))
     in path_command env SSH_FXP_SETSTAT fname (put32 SSH_FILEXFER_ATTR_ACMODTIME @ t @ t))"


section \<open>Attributes\<close>

text \<open>Each extended attribute is two strings. Their bytes are skipped with four more.\<close>

fun skip_extended :: "nat \<Rightarrow> message \<Rightarrow> (int \<times> message) sftp_act" where
  "skip_extended 0 m = give (0, m)"
| "skip_extended (Suc n) m =
     and_then (sshv2_buffer_get_int32 None m) (\<lambda>(r, m).
       case r of
         Inl e \<Rightarrow> give (GFTP_EFATAL, m)
       | Inr num \<Rightarrow>
           if ms_pos m + num + 4 > ms_end m then give (GFTP_EFATAL, m)
           else
             and_then (sshv2_buffer_get_int32 None (m \<lparr> ms_pos := ms_pos m + num + 4 \<rparr>)) (\<lambda>(r, m).
               case r of
                 Inl e \<Rightarrow> give (GFTP_EFATAL, m)
               | Inr num \<Rightarrow>
                   if ms_pos m + num + 4 > ms_end m then give (GFTP_EFATAL, m)
                   else skip_extended n (m \<lparr> ms_pos := ms_pos m + num + 4 \<rparr>)))"

definition has_bit :: "nat \<Rightarrow> nat \<Rightarrow> bool" where
  "has_bit attrs b \<longleftrightarrow> attrs AND b \<noteq> 0"

text \<open>The fields follow each other. A field is read when its bit is set.\<close>

definition attr_field :: "bool \<Rightarrow> message \<Rightarrow> ((int + nat option) \<times> message) sftp_act" where
  "attr_field present m =
    (if present
     then and_then (sshv2_buffer_get_int32 None m) (\<lambda>(r, m). give (map_sum id Some r, m))
     else give (Inr None, m))"

definition attr_size :: "bool \<Rightarrow> message \<Rightarrow> gftp_file \<Rightarrow> ((int + gftp_file) \<times> message) sftp_act" where
  "attr_size present m fle =
    (if present
     then and_then (sshv2_buffer_get_int64 m) (\<lambda>(r, m). give (map_sum id (\<lambda>n. fle \<lparr> gf_size := int n \<rparr>) r, m))
     else give (Inr fle, m))"

text \<open>The numbers of user and group are printed with a sign. \<open>num\<close> is the last number read, or has no value.\<close>

definition show32 :: "nat \<Rightarrow> string" where
  "show32 n = show_int (if n < 2 ^ 31 then int n else int n - 2 ^ 32)"

definition attr_owner :: "bool \<Rightarrow> message \<Rightarrow> gftp_file \<Rightarrow> ((int + gftp_file \<times> nat option) \<times> message) sftp_act" where
  "attr_owner present m fle =
    (if present
     then and_then (sshv2_buffer_get_int32 None m) (\<lambda>(r, m).
       case r of
         Inl e \<Rightarrow> give (Inl e, m)
       | Inr uid \<Rightarrow>
           and_then (sshv2_buffer_get_int32 None m) (\<lambda>(r, m).
             give (map_sum id (\<lambda>gid. (fle \<lparr> gf_user := Some (show32 uid), gf_group := Some (show32 gid) \<rparr>, Some gid)) r, m)))
     else give (Inr (fle, None), m))"

text \<open>When the access time is missing, the result is \<open>num\<close>.\<close>

definition attr_times :: "bool \<Rightarrow> nat option \<Rightarrow> message \<Rightarrow> gftp_file \<Rightarrow> ((int + gftp_file) \<times> message) sftp_act" where
  "attr_times present num m fle =
    (if present
     then and_then (sshv2_buffer_get_int32 None m) (\<lambda>(r, m).
       case r of
         Inl e \<Rightarrow> and_then (need num) (\<lambda>num. give (Inl (if num < 2 ^ 31 then int num else int num - 2 ^ 32), m))
       | Inr atime \<Rightarrow>
           and_then (sshv2_buffer_get_int32 None m) (\<lambda>(r, m).
             give (map_sum id (\<lambda>mtime. fle \<lparr> gf_datetime := int mtime \<rparr>) r, m)))
     else give (Inr fle, m))"

definition sshv2_decode_file_attributes :: "message \<Rightarrow> gftp_file \<Rightarrow> ((int \<times> gftp_file) \<times> message) sftp_act" where
  "sshv2_decode_file_attributes m fle =
     and_then (sshv2_buffer_get_int32 None m) (\<lambda>(r, m). case r of Inl e \<Rightarrow> give ((e, fle), m) | Inr attrs \<Rightarrow>
     and_then (attr_size (has_bit attrs SSH_FILEXFER_ATTR_SIZE) m fle) (\<lambda>(r, m). case r of Inl e \<Rightarrow> give ((e, fle), m) | Inr fle \<Rightarrow>
     and_then (attr_owner (has_bit attrs SSH_FILEXFER_ATTR_UIDGID) m fle) (\<lambda>(r, m). case r of Inl e \<Rightarrow> give ((e, fle), m) | Inr (fle, num) \<Rightarrow>
     and_then (attr_field (has_bit attrs SSH_FILEXFER_ATTR_PERMISSIONS) m) (\<lambda>(r, m). case r of Inl e \<Rightarrow> give ((e, fle), m) | Inr mode \<Rightarrow>
     let fle = (case mode of None \<Rightarrow> fle | Some n \<Rightarrow> fle \<lparr> gf_st_mode := word_of_nat n \<rparr>);
         num = (if mode = None then num else mode)
     in and_then (attr_times (has_bit attrs SSH_FILEXFER_ATTR_ACMODTIME) num m fle) (\<lambda>(r, m). case r of Inl e \<Rightarrow> give ((e, fle), m) | Inr fle \<Rightarrow>
        and_then (attr_field (has_bit attrs SSH_FILEXFER_ATTR_EXTENDED) m) (\<lambda>(r, m). case r of Inl e \<Rightarrow> give ((e, fle), m) | Inr entries \<Rightarrow>
        and_then (skip_extended (case entries of None \<Rightarrow> 0 | Some n \<Rightarrow> n) m) (\<lambda>(ret, m). give ((ret, fle), m))))))))"

definition sshv2_send_stat_command :: "ssh_env \<Rightarrow> string \<Rightarrow> (int \<times> gftp_file) sftp_act" where
  "sshv2_send_stat_command env filename =
     and_then get_state (\<lambda>s.
       if rq_protonum (sf_req s) \<noteq> int GFTP_SSHV2_NUM then give (GFTP_EFATAL, zero_file)
       else
         and_then (sshv2_initialize_string_with_path env filename) (\<lambda>tempstr.
         and_then (sshv2_send_command SSH_FXP_STAT tempstr) (\<lambda>ret.
           if ret < 0 then give (ret, zero_file)
           else
             and_then (sshv2_read_status_response SSH_FXP_STATUS SSH_FXP_ATTRS) (\<lambda>(ret, m).
               if ret < 0 then give (ret, zero_file)
               else if ms_length m < 5 then give (GFTP_EFATAL, zero_file)
               else and_then (sshv2_decode_file_attributes (skip_id m) zero_file) (\<lambda>((ret, fle), m).
                 give (if ret < 0 then (ret, zero_file) else (0, fle)))))))"

definition sshv2_stat_filename :: "ssh_env \<Rightarrow> string \<Rightarrow> (int \<times> mode_t \<times> int) sftp_act" where
  "sshv2_stat_filename env filename =
     and_then (sshv2_send_stat_command env filename) (\<lambda>(ret, fle).
       give (if ret < 0 then (ret, 0, 0) else (0, gf_st_mode fle, gf_size fle)))"

definition sshv2_get_file_size :: "ssh_env \<Rightarrow> string \<Rightarrow> int sftp_act" where
  "sshv2_get_file_size env fname =
     and_then (sshv2_send_stat_command env fname) (\<lambda>(ret, fle). give (if ret < 0 then ret else gf_size fle))"


section \<open>Handles\<close>

text \<open>\<open>memcpy\<close> of the handle with its length behind the place for the number of the command. \<open>message.length\<close> counts
  the type; the length 4 makes \<open>length - 5\<close> the largest number of 32 bits.\<close>

definition store_handle :: "int \<Rightarrow> message \<Rightarrow> int sftp_act" where
  "store_handle too_big m =
    (if (ms_length m + 2 ^ 32 - 4) mod 2 ^ 32 > SSH_MAX_HANDLE_SIZE then sftp_fail too_big
     else and_then get_state (\<lambda>s.
          and_then (need (Option.bind (ms_buffer m) (\<lambda>b.
            if ms_length m < 5 then None
            else overwrite 4 (take (ms_length m - 5) (drop 4 b)) (put32 0 @ drop 4 (sf_handle s))))) (\<lambda>handle.
          and_then (change (\<lambda>s. s \<lparr> sf_handle := handle, sf_handle_len := ms_length m - 1 \<rparr>)) (\<lambda>_. give 0))))"

text \<open>A new number goes into the handle, which is then the beginning of a command.\<close>

definition number_handle :: "unit sftp_act" where
  "number_handle =
     and_then sshv2_initialize_buffer (\<lambda>num.
     and_then get_state (\<lambda>s.
     and_then (need (overwrite 0 num (sf_handle s))) (\<lambda>handle. change (\<lambda>s. s \<lparr> sf_handle := handle \<rparr>))))"

definition send_handle :: "int \<Rightarrow> int sftp_act" where
  "send_handle type =
     and_then number_handle (\<lambda>_.
     and_then get_state (\<lambda>s. sshv2_send_command type (take (sf_handle_len s) (sf_handle s))))"

definition sshv2_end_transfer :: "int sftp_act" where
  "sshv2_end_transfer = if_sshv2
    (and_then (change (\<lambda>s. if ms_buffer (sf_message s) \<noteq> None then s \<lparr> sf_message := empty_message, sf_count := 0 \<rparr> else s)) (\<lambda>_.
     and_then get_state (\<lambda>s.
     and_then (if sf_handle_len s > 0
               then and_then (send_handle SSH_FXP_CLOSE) (\<lambda>ret.
                    if ret < 0 then give ret
                    else and_then (sshv2_read_status_response 0 SSH_FXP_STATUS) (\<lambda>(ret, m).
                      if ret < 0 then give ret
                      else and_then (change (\<lambda>s. s \<lparr> sf_handle_len := 0 \<rparr>)) (\<lambda>_. give 0)))
               else give 0) (\<lambda>ret.
       if ret < 0 then give ret
       else and_then (change (\<lambda>s. s \<lparr> sf_transfer_buffer := None \<rparr>)) (\<lambda>_. give 0)))))"

definition sshv2_list_files :: "ssh_env \<Rightarrow> int sftp_act" where
  "sshv2_list_files env = if_open GFTP_EFATAL
    (and_then get_state (\<lambda>s.
     and_then (need (rq_directory (sf_req s))) (\<lambda>d.
     and_then (sshv2_initialize_buffer_with_i18n_string env d) (\<lambda>tempstr.
     and_then (sshv2_send_command SSH_FXP_OPENDIR tempstr) (\<lambda>ret.
       if ret < 0 then give ret
       else and_then (sshv2_read_status_response SSH_FXP_STATUS SSH_FXP_HANDLE) (\<lambda>(ret, m).
         if ret < 0 then give ret
         else and_then (store_handle GFTP_EFATAL m) (\<lambda>ret.
           if ret < 0 then give ret
           else and_then (change (\<lambda>s. s \<lparr> sf_count := 0 \<rparr>)) (\<lambda>_. give 0))))))))"

definition sshv2_open_file :: "ssh_env \<Rightarrow> string \<Rightarrow> int \<Rightarrow> nat \<Rightarrow> int sftp_act" where
  "sshv2_open_file env fname startsize mode = if_open GFTP_EFATAL
    (and_then (change (\<lambda>s. s \<lparr> sf_offset := nat (startsize mod 2 ^ 64) \<rparr>)) (\<lambda>_.
     and_then (sshv2_initialize_string_with_path env fname) (\<lambda>tempstr.
     and_then (sshv2_send_command SSH_FXP_OPEN (tempstr @ put32 mode @ put32 0)) (\<lambda>ret.
       if ret < 0 then give ret
       else and_then (sshv2_read_status_response SSH_FXP_STATUS SSH_FXP_HANDLE) (\<lambda>(ret, m).
         if ret < 0 then give ret else store_handle GFTP_ERETRYABLE m)))))"

definition sshv2_get_file :: "ssh_env \<Rightarrow> string \<Rightarrow> int \<Rightarrow> int sftp_act" where
  "sshv2_get_file env fname startsize =
     and_then (sshv2_open_file env fname startsize SSH_FXF_READ) (\<lambda>ret.
       if ret < 0 then give ret else sshv2_get_file_size env fname)"

definition sshv2_put_file :: "ssh_env \<Rightarrow> string \<Rightarrow> int \<Rightarrow> int \<Rightarrow> int sftp_act" where
  "sshv2_put_file env fname startsize totalsize =
     and_then (sshv2_open_file env fname startsize
       (if startsize > 0 then SSH_FXF_WRITE OR SSH_FXF_CREAT OR SSH_FXF_APPEND else SSH_FXF_WRITE OR SSH_FXF_CREAT OR SSH_FXF_TRUNC)) (\<lambda>ret.
       give (if ret < 0 then ret else 0))"


section \<open>Listings\<close>

text \<open>A message as it came, for the cache file.\<close>

definition message_bytes :: "message \<Rightarrow> string option" where
  "message_bytes m =
     map_option (\<lambda>b. put32 (ms_length m) @ [ms_command m] @ take (ms_length m - 1) b) (ms_buffer m)"

text \<open>The entries of a NAME message are handed out one by one; \<open>count\<close> is how many are left. A message of an
  uninitialised \<open>num\<close>, or a pointer into a message that was released, is \<^term>\<open>Out_of_bounds\<close>.\<close>

definition next_name :: "(int \<times> gftp_file) sftp_act" where
  "next_name =
     and_then get_state (\<lambda>s.
     let m = sf_message s
     in and_then (sshv2_buffer_get_string m) (\<lambda>(name, m').
        and_then (change (\<lambda>s. s \<lparr> sf_message := m' \<rparr>)) (\<lambda>_.
        case name of
          None \<Rightarrow> give (GFTP_EFATAL, zero_file)
        | Some bs \<Rightarrow>
            and_then (sshv2_buffer_get_string m') (\<lambda>(_, m').
            and_then (sshv2_decode_file_attributes m' (zero_file \<lparr> gf_file := Some (c_text bs) \<rparr>)) (\<lambda>((ret, fle), m').
            and_then (change (\<lambda>s. s \<lparr> sf_message := m' \<rparr>)) (\<lambda>_.
              if ret < 0 then give (ret, zero_file)
              else if ms_buffer m' = None then stop Out_of_bounds
              else and_then (change (\<lambda>s. s \<lparr> sf_count := (sf_count s + 2 ^ 32 - 1) mod 2 ^ 32 \<rparr>)) (\<lambda>_.
                   give (int (ms_pos m') - int (ms_pos m), fle))))))))"

definition ask_names :: "int sftp_act" where
  "ask_names =
     and_then get_state (\<lambda>s.
       if rq_cached (sf_req s) then give 0
       else and_then (change (\<lambda>s. s \<lparr> sf_message := empty_message \<rparr>)) (\<lambda>_. send_handle SSH_FXP_READDIR))"

definition keep_message :: "unit sftp_act" where
  "keep_message =
     and_then get_state (\<lambda>s.
       if rq_cached (sf_req s) then give ()
       else and_then (need (message_bytes (sf_message s))) (\<lambda>bs.
            change (on_sf_req (\<lambda>rq. rq \<lparr> rq_last_dir_entry := Some bs, rq_last_dir_entry_len := length bs \<rparr>))))"

definition sshv2_get_next_file :: "int \<Rightarrow> (int \<times> gftp_file) sftp_act" where
  "sshv2_get_next_file fd =
     and_then get_state (\<lambda>s.
       if rq_protonum (sf_req s) \<noteq> int GFTP_SSHV2_NUM then give (GFTP_EFATAL, zero_file)
       else
         and_then (change (on_sf_req (\<lambda>rq. if rq_last_dir_entry rq \<noteq> None
                     then rq \<lparr> rq_last_dir_entry := None, rq_last_dir_entry_len := 0 \<rparr> else rq))) (\<lambda>_.
           if sf_count s > 0 then next_name
           else and_then ask_names (\<lambda>ret.
             if ret < 0 then give (ret, zero_file)
             else and_then (sshv2_read_response fd) (\<lambda>(ret, m).
               and_then (change (\<lambda>s. s \<lparr> sf_message := m \<rparr>)) (\<lambda>_.
               if ret < 0 then give (ret, zero_file)
               else and_then keep_message (\<lambda>_.
                 if ret = SSH_FXP_NAME then
                   and_then (sshv2_buffer_get_int32 None (skip_id m)) (\<lambda>(r, m).
                   and_then (change (\<lambda>s. s \<lparr> sf_message := m \<rparr>)) (\<lambda>_.
                   case r of
                     Inl e \<Rightarrow> give (e, zero_file)
                   | Inr entries \<Rightarrow> and_then (change (\<lambda>s. s \<lparr> sf_count := entries \<rparr>)) (\<lambda>_. next_name)))
                 else if ret = SSH_FXP_STATUS then
                   and_then (change (\<lambda>s. s \<lparr> sf_message := empty_message \<rparr>)) (\<lambda>_. give (0, zero_file))
                 else and_then (sshv2_wrong_response m) (\<lambda>(ret, m).
                      and_then (change (\<lambda>s. s \<lparr> sf_message := m \<rparr>)) (\<lambda>_. give (ret, zero_file)))))))))"


section \<open>Data\<close>

text \<open>The beginning of READ and WRITE is kept in a buffer, which is made for the first block of a transfer: the handle, the
  offset, the size, and for WRITE as much room as that block has bytes.\<close>

definition transfer_buffer_for :: "nat \<Rightarrow> unit sftp_act" where
  "transfer_buffer_for room =
     change (\<lambda>s. if sf_transfer_buffer s = None
                 then s \<lparr> sf_transfer_buffer := Some (take (sf_handle_len s) (sf_handle s) @ replicate (room + 12) NUL) \<rparr>
                 else s)"

definition sshv2_setup_file_offset :: "sftp \<Rightarrow> string \<Rightarrow> string option" where
  "sshv2_setup_file_offset s buf =
     Option.bind (overwrite (sf_handle_len s) (put32 (sf_offset s div 2 ^ 32)) buf)
       (overwrite (sf_handle_len s + 4) (put32 (sf_offset s)))"

definition fill_buffer :: "nat \<Rightarrow> string \<Rightarrow> string sftp_act" where
  "fill_buffer size' bytes =
     and_then sshv2_initialize_buffer (\<lambda>num.
     and_then get_state (\<lambda>s.
     and_then (need (sf_transfer_buffer s)) (\<lambda>b.
     and_then (need (Option.bind (overwrite 0 num b) (\<lambda>b.
               Option.bind (sshv2_setup_file_offset s b) (\<lambda>b.
               Option.bind (overwrite (sf_handle_len s + 8) (put32 size') b)
                 (overwrite (sf_handle_len s + 12) bytes))))) (\<lambda>b.
     and_then (change (\<lambda>s. s \<lparr> sf_transfer_buffer := Some b \<rparr>)) (\<lambda>_. give b)))))"

definition advance :: "nat \<Rightarrow> sftp \<Rightarrow> sftp" where
  "advance n s = s \<lparr> sf_offset := (sf_offset s + n) mod 2 ^ 64 \<rparr>"

text \<open>The length of the data is compared with the size that was asked for only.\<close>

definition sshv2_get_next_file_chunk :: "nat \<Rightarrow> (int + string) sftp_act" where
  "sshv2_get_next_file_chunk size' = if_open (Inl GFTP_EFATAL)
    (and_then (transfer_buffer_for 0) (\<lambda>_.
     and_then (fill_buffer size' []) (\<lambda>b.
     and_then get_state (\<lambda>s.
     and_then (sshv2_send_command SSH_FXP_READ (take (sf_handle_len s + 12) b)) (\<lambda>ret.
       if ret < 0 then give (Inl ret)
       else and_then (sshv2_read_response (-1)) (\<lambda>(ret, m).
         if ret < 0 then give (Inl ret)
         else if ret \<noteq> SSH_FXP_DATA then
           and_then (sshv2_buffer_get_int32 (Some SSH_FX_EOF) (skip_id m)) (\<lambda>(r, m).
             give (case r of Inl e \<Rightarrow> Inl e | Inr _ \<Rightarrow> Inr []))
         else
           and_then (need (ms_buffer m)) (\<lambda>mem.
           and_then (need (get32 (drop 4 mem))) (\<lambda>num.
             if num > size' then and_then (sftp_fail GFTP_ERETRYABLE) (\<lambda>ret. give (Inl ret))
             else if length mem < 8 + num then stop Out_of_bounds
             else and_then (change (advance num)) (\<lambda>_. give (Inr (take num (drop 8 mem))))))))))))"

text \<open>The whole buffer is sent, however many bytes this block has. After a failed read the status messages stay out of the
  log. When the status is not OK, \<open>num\<close> still holds the size in network order, which is never \<open>SSH_FX_EOF\<close> for a
  block that could be sent.\<close>

definition sshv2_put_next_file_chunk :: "string \<Rightarrow> int sftp_act" where
  "sshv2_put_next_file_chunk buf = if_open GFTP_EFATAL
    (and_then (transfer_buffer_for (length buf)) (\<lambda>_.
     and_then (fill_buffer (length buf) buf) (\<lambda>b.
     and_then (sshv2_send_command SSH_FXP_WRITE b) (\<lambda>ret.
       if ret < 0 then give ret
       else
         and_then (change (\<lambda>s. s \<lparr> sf_dont_log_status := True \<rparr>)) (\<lambda>_.
         and_then (sshv2_read_response (-1)) (\<lambda>(ret, m).
           if ret < 0 then give ret
           else
             and_then (change (\<lambda>s. s \<lparr> sf_dont_log_status := False \<rparr>)) (\<lambda>_.
             if ret \<noteq> SSH_FXP_STATUS then and_then (sshv2_wrong_response m) (\<lambda>(ret, m). give ret)
             else and_then (sshv2_buffer_get_int32 (Some SSH_FX_OK) (skip_id m)) (\<lambda>(r, m).
               case r of
                 Inl e \<Rightarrow> give e
               | Inr _ \<Rightarrow> and_then (change (advance (length buf))) (\<lambda>_. give (int (length buf)))))))))))"


section \<open>The module\<close>

definition sshv2_set_config_options :: "int sftp_act" where
  "sshv2_set_config_options =
     and_then (change (\<lambda>s. on_sf_req (\<lambda>rq. rq \<lparr> rq_need_username := ssh_need_userpass (sf_opts s),
       rq_need_password := ssh_need_userpass (sf_opts s) \<rparr>) s)) (\<lambda>_. give 0)"

definition sshv2_swap_socks :: "sftp \<Rightarrow> sftp \<Rightarrow> sftp" where
  "sshv2_swap_socks dest source = dest \<lparr> sf_id := sf_id source \<rparr>"

text \<open>\<open>g_strdup\<close> copies up to the first zero byte, the pointers are moved by the same offsets.\<close>

definition sshv2_copy_message :: "message \<Rightarrow> message" where
  "sshv2_copy_message src = src \<lparr> ms_buffer := map_option (\<lambda>b. c_text b @ [NUL]) (ms_buffer src) \<rparr>"

text \<open>\<open>sizeof (*handle)\<close> is 1.\<close>

definition sshv2_copy_param_options :: "sftp \<Rightarrow> sftp \<Rightarrow> sftp" where
  "sshv2_copy_param_options dest src =
     dest \<lparr> sf_handle := take 1 (sf_handle src) @ drop 1 (sf_handle dest), sf_transfer_buffer := sf_transfer_buffer src,
            sf_message := sshv2_copy_message (sf_message src), sf_id := sf_id src, sf_count := sf_count src,
            sf_handle_len := sf_handle_len src, sf_initialized := sf_initialized src,
            sf_dont_log_status := sf_dont_log_status src, sf_offset := sf_offset src \<rparr>"

text \<open>A world that holds the state of a connection.\<close>

record 'w sftp_lens =
  sf_view :: "'w \<Rightarrow> stuck + sftp"
  sf_store :: "(stuck + sftp) \<Rightarrow> 'w \<Rightarrow> 'w"

definition on_sftp_world :: "'w sftp_lens \<Rightarrow> 'a \<Rightarrow> 'a sftp_act \<Rightarrow> gftp_request \<Rightarrow> 'w \<Rightarrow> 'a \<times> gftp_request \<times> 'w" where
  "on_sftp_world v none m rq w =
    (case sf_view v w of
       Inl e \<Rightarrow> (none, rq, w)
     | Inr s \<Rightarrow> (case m (s \<lparr> sf_req := rq \<rparr>) of
                  Inl e \<Rightarrow> (none, rq, sf_store v (Inl e) w)
                | Inr (a, s') \<Rightarrow> (a, sf_req s', sf_store v (Inr s') w)))"

definition sftp_call :: "'w sftp_lens \<Rightarrow> int sftp_act \<Rightarrow> 'w call" where
  "sftp_call v = on_sftp_world v GFTP_EFATAL"

definition sftp_silently :: "'w sftp_lens \<Rightarrow> (sftp \<Rightarrow> sftp) \<Rightarrow> gftp_request \<Rightarrow> 'w \<Rightarrow> gftp_request \<times> 'w" where
  "sftp_silently v f rq w = snd (on_sftp_world v () (change f) rq w)"

definition sshv2_ops :: "'w sftp_lens \<Rightarrow> ssh_env \<Rightarrow> 'w proto_ops" where
  "sshv2_ops v env =
     no_ops \<lparr>
       op_destroy := Some (sftp_silently v sshv2_destroy),
       op_read_function := Some (\<lambda>n fd. on_sftp_world v (Inl GFTP_EFATAL) (sftp_read fd n)),
       op_write_function := Some (\<lambda>p fd. sftp_call v (sftp_write p)),
       op_connect := Some (sftp_call v (sshv2_connect env)),
       op_disconnect := Some (sftp_silently v sshv2_disconnect),
       op_get_file := Some (\<lambda>f k. sftp_call v (sshv2_get_file env f k)),
       op_put_file := Some (\<lambda>f k t. sftp_call v (sshv2_put_file env f k t)),
       op_get_next_file_chunk := Some (\<lambda>n. on_sftp_world v (Inl GFTP_EFATAL) (sshv2_get_next_file_chunk n)),
       op_put_next_file_chunk := Some (\<lambda>p. sftp_call v (sshv2_put_next_file_chunk p)),
       op_end_transfer := Some (sftp_call v sshv2_end_transfer),
       op_abort_transfer := Some (sftp_call v sshv2_end_transfer),
       op_stat_filename := Some (\<lambda>f. on_sftp_world v (GFTP_EFATAL, 0, 0) (sshv2_stat_filename env f)),
       op_list_files := Some (sftp_call v (sshv2_list_files env)),
       op_get_next_file := Some (\<lambda>fd. on_sftp_world v (GFTP_EFATAL, zero_file) (sshv2_get_next_file fd)),
       op_get_file_size := Some (\<lambda>f. sftp_call v (sshv2_get_file_size env f)),
       op_chdir := Some (\<lambda>d. sftp_call v (sshv2_chdir env d)),
       op_rmdir := Some (\<lambda>d. sftp_call v (sshv2_rmdir env d)),
       op_rmfile := Some (\<lambda>f. sftp_call v (sshv2_rmfile env f)),
       op_mkdir := Some (\<lambda>d. sftp_call v (sshv2_mkdir env d)),
       op_rename := Some (\<lambda>a b. sftp_call v (sshv2_rename env a b)),
       op_chmod := Some (\<lambda>f m. sftp_call v (sshv2_chmod env f m)),
       op_set_file_time := Some (\<lambda>f t. sftp_call v (sshv2_set_file_time env f t)),
       op_set_config_options := Some (sftp_call v sshv2_set_config_options) \<rparr>"

definition sshv2_request :: "gftp_request \<Rightarrow> gftp_request" where
  "sshv2_request rq = rq \<lparr> rq_protonum := int GFTP_SSHV2_NUM, rq_url_prefix := Some ''ssh2'', rq_need_hostport := True,
     rq_need_username := True, rq_need_password := True, rq_use_cache := True, rq_always_connected := False,
     rq_use_local_encoding := False, rq_server_type := GFTP_DIRTYPE_UNIX \<rparr>"

definition sshv2_data :: "sftp \<Rightarrow> sftp" where
  "sshv2_data s = s \<lparr> sf_handle := replicate (SSH_MAX_HANDLE_SIZE + 4) NUL, sf_handle_len := 0, sf_transfer_buffer := None, sf_id := 1,
     sf_count := 0, sf_message := empty_message, sf_initialized := False, sf_dont_log_status := False, sf_offset := 0 \<rparr>"

definition sshv2_init ::
  "'w sftp_lens \<Rightarrow> ssh_env \<Rightarrow> 'w connection \<Rightarrow> 'w \<Rightarrow> int \<times> 'w connection \<times> 'w" where
  "sshv2_init v env c w =
     gftp_set_config_options \<lparr> con_req = sshv2_request (con_req c), con_ops = sshv2_ops v env \<rparr>
       (sf_store v (map_sum id sshv2_data (sf_view v w)) w)"

end
