(* ===== verification/Sftp_Messages.thy ===== *)
theory Sftp_Messages
  imports Sftp
begin

text \<open>Messages of the SFTP module: numbers and strings in a buffer, a message read from the pipe however its bytes arrive,
  and a message sent.\<close>


section \<open>Numbers\<close>

lemma length_put32 [simp]: "length (put32 n) = 4"
  by (simp add: put32_def)

lemma put32_not_Nil [simp]: "put32 n \<noteq> []"
  by (simp add: put32_def)

lemma four_bytes: "((n div 2 ^ 24 mod 256 * 256 + n div 2 ^ 16 mod 256) * 256 + n div 2 ^ 8 mod 256) * 256 + n mod 256 = n mod 2 ^ 32"
  for n :: nat
proof -
  have step: "m mod (256 * k) = m div 256 mod k * 256 + m mod 256" for m k :: nat
    by (simp add: mod_mult2_eq)
  have "n mod 2 ^ 32 = n mod (256 * (256 * (256 * 256)))" by simp
  also have "\<dots> = ((n div 256 div 256 div 256 mod 256 * 256 + n div 256 div 256 mod 256) * 256 + n div 256 mod 256) * 256 + n mod 256"
    by (simp only: step)
  finally show ?thesis by (simp add: div_mult2_eq [symmetric])
qed

lemma get32_put32 [simp]: "get32 (put32 n @ bs) = Some (n mod 2 ^ 32)"
  using four_bytes [of n] by (simp add: put32_def code_of_def)

lemma get32_put32_alone [simp]: "get32 (put32 n) = Some (n mod 2 ^ 32)"
  using get32_put32 [of n "[]"] by simp

lemma four_digits: "a < 256 \<Longrightarrow> b < 256 \<Longrightarrow> c < 256 \<Longrightarrow> d < 256 \<Longrightarrow> ((a * 256 + b) * 256 + c) * 256 + d < 2 ^ 32"
  for a b c d :: nat
  by simp

lemma get32_less:
  assumes "get32 bs = Some n"
  shows "n < 2 ^ 32"
proof (cases bs rule: get32.cases)
  case (1 a b c d cs)
  have "code_of a < 256" "code_of b < 256" "code_of c < 256" "code_of d < 256" by (rule code_of_less)+
  moreover have "n = ((code_of a * 256 + code_of b) * 256 + code_of c) * 256 + code_of d" using assms 1 by simp
  ultimately show ?thesis using four_digits by blast
qed (use assms in simp_all)

lemma get32_None: "get32 bs = None \<longleftrightarrow> length bs < 4"
  by (cases bs rule: get32.cases) simp_all


lemma overwrite_length: "overwrite n bs b = Some b' \<Longrightarrow> length b' = length b"
  by (auto simp: overwrite_def split: if_splits)


section \<open>The pipe\<close>

text \<open>The program runs, \<open>bs\<close> is still to come from it, in pieces of any size, and it takes all that is written.\<close>

definition pipe :: "sftp \<Rightarrow> string \<Rightarrow> bool" where
  "pipe s bs \<longleftrightarrow>
     rq_protonum (sf_req s) = int GFTP_SSHV2_NUM \<and> 0 < rq_datafd (sf_req s) \<and> all_data (sf_in s) \<and>
     bytes_in (script (sf_in s)) = bs \<and> script (sf_out s) = []"

text \<open>Only the input has moved.\<close>

definition only_read :: "sftp \<Rightarrow> sftp \<Rightarrow> bool" where
  "only_read s s' \<longleftrightarrow> (\<exists>ch. s' = s \<lparr> sf_in := ch \<rparr>)"

lemma only_read_refl [simp]: "only_read s s"
  unfolding only_read_def by (rule exI [of _ "sf_in s"]) simp

lemma only_read_trans: "only_read s s' \<Longrightarrow> only_read s' s'' \<Longrightarrow> only_read s s''"
  by (auto simp: only_read_def)

lemma only_read_sel:
  "only_read s s' \<Longrightarrow> sf_req s' = sf_req s \<and> sf_handle s' = sf_handle s \<and> sf_handle_len s' = sf_handle_len s \<and>
    sf_transfer_buffer s' = sf_transfer_buffer s \<and> sf_id s' = sf_id s \<and> sf_count s' = sf_count s \<and> sf_message s' = sf_message s \<and>
    sf_initialized s' = sf_initialized s \<and> sf_dont_log_status s' = sf_dont_log_status s \<and> sf_offset s' = sf_offset s \<and>
    sf_out s' = sf_out s \<and> sf_opts s' = sf_opts s"
  by (auto simp: only_read_def)

lemma pipe_read:
  assumes "pipe s bs" "0 < n"
  shows "\<exists>d s'. sftp_read (rq_datafd (sf_req s)) n s = Inr (Inr d, s') \<and> pipe s' (drop (length d) bs) \<and> only_read s s' \<and>
    d = take (length d) bs \<and> length d \<le> n \<and> (d = [] \<longrightarrow> bs = [])"
proof (cases "script (sf_in s)")
  case Nil
  then show ?thesis
    using assms by (auto simp: pipe_def sftp_read_def sftp_source_def from_cache_def armed_def gftp_fd_read_def sftp_after_io_def
        only_read_def all_data_def)
next
  case (Cons e evs)
  then obtain p where p: "e = Bytes_in p" "p \<noteq> []" using assms(1) by (auto simp: pipe_def all_data_def)
  have bs: "bs = p @ bytes_in evs" using assms(1) Cons p by (simp add: pipe_def)
  show ?thesis
    using assms Cons p
    by (intro exI [of _ "take n p"])
      (auto simp: pipe_def sftp_read_def sftp_source_def from_cache_def armed_def gftp_fd_read_def sftp_after_io_def only_read_def
        all_data_def min_def)
qed

lemma pipe_read_bytes:
  assumes "pipe s bs" "n \<le> length bs" "length acc + n \<le> room" "n < fuel"
  shows "\<exists>s'. read_bytes fuel (rq_datafd (sf_req s)) n room acc s = Inr (Inr (acc @ take n bs), s') \<and> pipe s' (drop n bs) \<and> only_read s s'"
  using assms
proof (induction fuel arbitrary: s bs n acc)
  case (Suc fuel)
  show ?case
  proof (cases "n = 0")
    case True
    then show ?thesis using Suc.prems(1) by (auto simp: give_def)
  next
    case False
    then obtain d s1 where d: "sftp_read (rq_datafd (sf_req s)) n s = Inr (Inr d, s1)" "pipe s1 (drop (length d) bs)" "only_read s s1"
        "d = take (length d) bs" "length d \<le> n" "d = [] \<longrightarrow> bs = []"
      using pipe_read [OF Suc.prems(1), of n] by blast
    have pos: "0 < length d" using d(6) Suc.prems(2) False by auto
    have fd: "rq_datafd (sf_req s1) = rq_datafd (sf_req s)" using only_read_sel [OF d(3)] by simp
    have "\<exists>s'. read_bytes fuel (rq_datafd (sf_req s1)) (n - length d) room (acc @ d) s1 =
        Inr (Inr ((acc @ d) @ take (n - length d) (drop (length d) bs)), s') \<and>
        pipe s' (drop (n - length d) (drop (length d) bs)) \<and> only_read s1 s'"
    proof (rule Suc.IH [OF d(2)])
      show "n - length d < fuel" using Suc.prems(4) pos d(5) by linarith
    qed (use Suc.prems d(5) in auto)
    then obtain s' where s': "read_bytes fuel (rq_datafd (sf_req s)) (n - length d) room (acc @ d) s1 =
        Inr (Inr ((acc @ d) @ take (n - length d) (drop (length d) bs)), s')" "pipe s' (drop n bs)" "only_read s1 s'"
      using d(5) by (auto simp: fd)
    have "d @ take (n - length d) (drop (length d) bs) = take n bs"
      using d(4,5) by (metis append_take_drop_id append_eq_conv_conj le_add_diff_inverse take_add)
    then have "acc @ d @ take (n - length d) (drop (length d) bs) = acc @ take n bs" by simp
    then show ?thesis
      using s' d(1,5) False Suc.prems(3) only_read_trans [OF d(3) s'(3)] by (simp add: and_then_def)
  qed
qed simp

lemma pipe_read_exactly:
  assumes "pipe s (bs @ rest)" "length bs = n" "n \<le> room"
  shows "\<exists>s'. read_exactly (rq_datafd (sf_req s)) n room s = Inr (Inr bs, s') \<and> pipe s' rest \<and> only_read s s'"
proof -
  have "sftp_source (rq_datafd (sf_req s)) s = sf_in s" by (simp add: sftp_source_def from_cache_def)
  moreover have "bytes_in (script (sf_in s)) = bs @ rest" using assms(1) by (simp add: pipe_def)
  ultimately show ?thesis
    using pipe_read_bytes [OF assms(1), of n "[]" room "length (bs @ rest) + 2"] assms(2,3) by (simp add: read_exactly_def)
qed

section \<open>Messages\<close>

definition frame :: "int \<Rightarrow> string \<Rightarrow> string" where
  "frame type payload = put32 (length payload + 1) @ [char_of (nat type)] @ payload"

text \<open>The message in memory.\<close>

definition message_of :: "int \<Rightarrow> string \<Rightarrow> message" where
  "message_of type payload = \<lparr> ms_length = length payload + 1, ms_command = char_of (nat type),
     ms_buffer = Some (payload @ [NUL, NUL]), ms_pos = 0, ms_end = length payload \<rparr>"

lemma buffer_message_of [simp]: "ms_buffer (message_of t p) = Some (p @ [NUL, NUL])"
  by (simp add: message_of_def)

lemma char_int_char_of: "0 \<le> t \<Longrightarrow> t < 128 \<Longrightarrow> char_int (char_of (nat t)) = t"
  by (simp add: char_int_def code_of_def)

lemma length_frame [simp]: "length (frame t p) = length p + 5"
  by (simp add: frame_def)

text \<open>C14: A message is read to its end and no further, in whatever pieces its bytes arrive.\<close>

theorem message_read_whole:
  assumes "pipe s (frame t p @ rest)" "0 \<le> t" "t < 128" "length p < 34000" "log_inside (sf_dont_log_status s) t (p @ [NUL, NUL])"
  shows "\<exists>s'. sshv2_read_response (-1) s = Inr ((t, message_of t p), s') \<and> pipe s' rest \<and> only_read s s'"
proof -
  let ?hdr = "put32 (length p + 1) @ [char_of (nat t)]" and ?fd = "rq_datafd (sf_req s)"
  have "pipe s (?hdr @ p @ rest)" using assms(1) by (simp add: frame_def)
  then obtain s1 where s1: "read_exactly ?fd 5 6 s = Inr (Inr ?hdr, s1)" "pipe s1 (p @ rest)" "only_read s s1"
    using pipe_read_exactly [of s ?hdr "p @ rest" 5 6] by auto
  have fd: "rq_datafd (sf_req s1) = ?fd" using only_read_sel [OF s1(3)] by simp
  obtain s2 where s2: "read_exactly ?fd (length p) (length p + 2) s1 = Inr (Inr p, s2)" "pipe s2 rest" "only_read s1 s2"
    using pipe_read_exactly [OF s1(2), of "length p" "length p + 2"] fd by auto
  have len: "get32 ?hdr = Some (length p + 1)" "(length p + 1 + 2 ^ 32 - 1) mod 2 ^ 32 = length p"
    using assms(4) by simp_all
  have nth: "?hdr ! 4 = char_of (nat t)" by (simp add: nth_append)
  have log: "sf_dont_log_status s2 = sf_dont_log_status s" using only_read_sel [OF s1(3)] only_read_sel [OF s2(3)] by simp
  have "sshv2_read_response (-1) s = Inr ((t, message_of t p), s2)"
    using s1(1) s2(1) len assms(4,5) log nth
    by (simp add: sshv2_read_response_def act_simps Let_def char_int_char_of [OF assms(2,3)] message_of_def del: get32.simps)
  then show ?thesis using s2(2) only_read_trans [OF s1(3) s2(3)] by blast
qed

definition example_channel :: "sys_event list \<Rightarrow> channel" where
  "example_channel evs = \<lparr> script = evs, cancel_flag = None, disconnected = False, written = [] \<rparr>"

text \<open>A connection with the handle \<open>h\<close> open and these pieces to come.\<close>

definition example_handle :: string where
  "example_handle = put32 1 @ ''h''"

definition example_sftp :: "string list \<Rightarrow> sftp" where
  "example_sftp pieces = \<lparr> sf_req = zero_request \<lparr> rq_protonum := 5, rq_datafd := 7, rq_hostname := Some ''host'' \<rparr>,
     sf_handle = put32 0 @ example_handle @ replicate 251 NUL, sf_handle_len = 9, sf_transfer_buffer = None, sf_id = 1, sf_count = 0,
     sf_message = empty_message, sf_initialized = True, sf_dont_log_status = False, sf_offset = 0,
     sf_opts = \<lparr> ssh_prog_name = None, ssh_extra_params = None, ssh_need_userpass = False \<rparr>,
     sf_in = example_channel (map Bytes_in pieces), sf_out = example_channel [], sf_cache = example_channel [],
     sf_terminal_in = example_channel [], sf_terminal_out = example_channel [], sf_children = [], sf_commands = [], sf_fcntl = [] \<rparr>"

definition example_ssh_env :: ssh_env where
  "example_ssh_env = \<lparr> se_from_utf8 = Some, se_to_utf8 = Some, se_service_port = None, se_translated = id,
     se_accepts = (\<lambda>_. True), se_passcode = None \<rparr>"

lemma bytes_in_pieces: "bytes_in (map Bytes_in pieces) = concat pieces"
  by (induction pieces) simp_all

lemma example_pipe: "[] \<notin> set pieces \<Longrightarrow> pipe (example_sftp pieces) (concat pieces)"
  by (auto simp: pipe_def example_sftp_def example_channel_def all_data_def bytes_in_pieces)

theorem message_read_whole_witness:
  "\<exists>s'. sshv2_read_response (-1) (example_sftp [take 3 (frame 103 ''data''), drop 3 (frame 103 ''data'') @ ''more'']) =
    Inr ((103, message_of 103 ''data''), s') \<and> pipe s' ''more''"
proof -
  let ?ps = "[take 3 (frame 103 ''data''), drop 3 (frame 103 ''data'') @ ''more'']"
  have "[] \<notin> set ?ps" by (simp add: frame_def put32_def)
  moreover have "concat ?ps = frame 103 ''data'' @ ''more''" by (simp add: frame_def put32_def)
  ultimately have "pipe (example_sftp ?ps) (frame 103 ''data'' @ ''more'')" using example_pipe by metis
  from message_read_whole [OF this] show ?thesis by (force simp: log_inside_def)
qed

text \<open>Commands.\<close>

definition sent :: "sftp \<Rightarrow> string" where
  "sent s = written (sf_out s)"

definition exchanged :: "sftp \<Rightarrow> string \<Rightarrow> sftp \<Rightarrow> bool" where
  "exchanged s c s' \<longleftrightarrow> (\<exists>i out'. s' = s \<lparr> sf_in := i, sf_out := out' \<rparr>) \<and> sent s' = sent s @ c"

lemma only_read_exchanged: "only_read s s' \<Longrightarrow> exchanged s [] s'"
proof -
  assume "only_read s s'"
  then obtain ch where s': "s' = s \<lparr> sf_in := ch \<rparr>" by (auto simp: only_read_def)
  then have "s' = s \<lparr> sf_in := ch, sf_out := sf_out s \<rparr>" by simp
  then show ?thesis unfolding exchanged_def by (intro conjI exI) (assumption, simp add: sent_def)
qed

lemma exchanged_trans: "exchanged s c s' \<Longrightarrow> exchanged s' c' s'' \<Longrightarrow> exchanged s (c @ c') s''"
  by (auto simp: exchanged_def) (rule exI, rule exI, rule refl)

lemma exchanged_sel:
  "exchanged s c s' \<Longrightarrow> sf_req s' = sf_req s \<and> sf_handle s' = sf_handle s \<and> sf_handle_len s' = sf_handle_len s \<and>
    sf_transfer_buffer s' = sf_transfer_buffer s \<and> sf_id s' = sf_id s \<and> sf_count s' = sf_count s \<and> sf_message s' = sf_message s \<and>
    sf_initialized s' = sf_initialized s \<and> sf_dont_log_status s' = sf_dont_log_status s \<and> sf_offset s' = sf_offset s \<and>
    sf_opts s' = sf_opts s"
  by (auto simp: exchanged_def)

lemma pipe_send:
  assumes "pipe s bs" "length c < 33995"
  shows "\<exists>s'. sshv2_send_command t c s = Inr (0, s') \<and> pipe s' bs \<and> exchanged s (frame t c) s'"
proof -
  let ?s = "s \<lparr> sf_out := (armed s (sf_out s)) \<lparr> written := sent s @ frame t c \<rparr> \<rparr>"
  have "sshv2_send_command t c s = Inr (0, ?s)"
    using assms by (simp add: sshv2_send_command_def act_simps sftp_write_def pipe_def gftp_fd_write_def armed_def frame_def sent_def
        sftp_after_io_def)
  moreover have "pipe ?s bs" using assms(1) by (simp add: pipe_def armed_def)
  moreover have "exchanged s (frame t c) ?s"
    unfolding exchanged_def by (intro conjI exI [of _ "sf_in s"] exI [of _ "sf_out ?s"]) (simp_all add: sent_def)
  ultimately show ?thesis by blast
qed


section \<open>Fields\<close>

text \<open>What has not been read of a message.\<close>

definition rest_of :: "message \<Rightarrow> string \<Rightarrow> bool" where
  "rest_of m bs \<longleftrightarrow>
     (\<exists>b. ms_buffer m = Some b \<and> ms_pos m \<le> ms_end m \<and> ms_end m \<le> length b \<and> take (ms_end m - ms_pos m) (drop (ms_pos m) b) = bs)"

lemma rest_of_message [simp]: "rest_of (message_of t p) p"
  by (simp add: rest_of_def message_of_def)

lemma rest_of_skip:
  assumes "rest_of m (a @ bs)" "length a = n"
  shows "rest_of (m \<lparr> ms_pos := ms_pos m + n \<rparr>) bs"
proof -
  obtain b where b: "ms_buffer m = Some b" "ms_pos m \<le> ms_end m" "ms_end m \<le> length b"
      "take (ms_end m - ms_pos m) (drop (ms_pos m) b) = a @ bs"
    using assms(1) by (auto simp: rest_of_def)
  have "length (a @ bs) = ms_end m - ms_pos m" using b(2,3) by (simp add: b(4) [symmetric])
  moreover have "take (ms_end m - (ms_pos m + n)) (drop (ms_pos m + n) b) = drop n (take (ms_end m - ms_pos m) (drop (ms_pos m) b))"
    by (simp add: drop_take add.commute)
  ultimately show ?thesis
    using b assms(2) by (simp add: rest_of_def)
qed

lemma rest_of_skip_id: "rest_of m (put32 n @ bs) \<Longrightarrow> rest_of (skip_id m) bs"
  unfolding skip_id_def by (rule rest_of_skip [where a = "put32 n"]) simp_all

lemma rest_of_drop:
  assumes "rest_of m bs"
  obtains b t where "ms_buffer m = Some b" "drop (ms_pos m) b = bs @ t" "ms_end m = ms_pos m + length bs"
proof -
  obtain b where b: "ms_buffer m = Some b" "ms_pos m \<le> ms_end m" "ms_end m \<le> length b"
      "take (ms_end m - ms_pos m) (drop (ms_pos m) b) = bs"
    using assms by (auto simp: rest_of_def)
  have "drop (ms_pos m) b = bs @ drop (ms_end m - ms_pos m) (drop (ms_pos m) b)"
    by (simp only: b(4) [symmetric] append_take_drop_id)
  moreover have "length bs = ms_end m - ms_pos m" using b(2,3) by (simp add: b(4) [symmetric])
  ultimately show ?thesis using b(1,2) that by simp
qed

lemma rest_int32:
  assumes "rest_of m (put32 n @ bs)"
  shows "sshv2_buffer_get_int32 None m = give (Inr (n mod 2 ^ 32), m \<lparr> ms_pos := ms_pos m + 4 \<rparr>)"
proof -
  obtain b t where b: "ms_buffer m = Some b" "drop (ms_pos m) b = (put32 n @ bs) @ t" "ms_end m = ms_pos m + length (put32 n @ bs)"
    using rest_of_drop [OF assms] by metis
  then show ?thesis by (simp add: sshv2_buffer_get_int32_def Let_def)
qed

lemma rest_int32_expected:
  assumes "rest_of m (put32 n @ bs)" "n < 2 ^ 32"
  shows "sshv2_buffer_get_int32 (Some n) m = give (Inr n, m \<lparr> ms_pos := ms_pos m + 4 \<rparr>)"
proof -
  obtain b t where b: "ms_buffer m = Some b" "drop (ms_pos m) b = (put32 n @ bs) @ t" "ms_end m = ms_pos m + length (put32 n @ bs)"
    using rest_of_drop [OF assms(1)] by metis
  then show ?thesis using assms(2) by (simp add: sshv2_buffer_get_int32_def Let_def)
qed

lemma rest_string:
  assumes "rest_of m (put32 (length str) @ str @ bs)" "length str \<le> 34000"
  shows "sshv2_buffer_get_string m = give (Some str, m \<lparr> ms_pos := ms_pos m + 4 + length str \<rparr>)"
    and "rest_of (m \<lparr> ms_pos := ms_pos m + 4 + length str \<rparr>) bs"
proof -
  let ?m = "m \<lparr> ms_pos := ms_pos m + 4 \<rparr>"
  have m: "rest_of ?m (str @ bs)" using rest_of_skip [OF assms(1)] by simp
  obtain b t where b: "ms_buffer ?m = Some b" "drop (ms_pos ?m) b = (str @ bs) @ t" "ms_end ?m = ms_pos ?m + length (str @ bs)"
    using rest_of_drop [OF m] by metis
  have r: "sshv2_buffer_get_int32 None m = give (Inr (length str), ?m)" using rest_int32 [OF assms(1)] assms(2) by simp
  then show "sshv2_buffer_get_string m = give (Some str, m \<lparr> ms_pos := ms_pos m + 4 + length str \<rparr>)"
    using b assms(2) by (simp add: sshv2_buffer_get_string_def Let_def)
  show "rest_of (m \<lparr> ms_pos := ms_pos m + 4 + length str \<rparr>) bs" using rest_of_skip [OF m refl] by simp
qed

end
