(* ===== verification/Sftp_Types.thy ===== *)
theory Sftp_Types
  imports Sftp_Messages
begin

text \<open>The state of the SFTP module stays within the types of \<open>sshv2_params\<close>, whatever the server sends.\<close>


section \<open>The types\<close>

text \<open>The buffer for the handle is an array; the handle in it is within the limit of the program, the numbers are within
  \<open>guint32\<close> and \<open>off_t\<close>.\<close>

definition sftp_typed :: "sftp \<Rightarrow> bool" where
  "sftp_typed s \<longleftrightarrow> length (sf_handle s) = SSH_MAX_HANDLE_SIZE + 4 \<and> sf_handle_len s \<le> SSH_MAX_HANDLE_SIZE + 3 \<and>
     sf_id s < 2 ^ 32 \<and> sf_count s < 2 ^ 32 \<and> sf_offset s < 2 ^ 64"

definition keeps_types :: "'a sftp_act \<Rightarrow> bool" where
  "keeps_types m \<longleftrightarrow> triple sftp_typed m (\<lambda>_. sftp_typed)"

named_theorems typed

lemma typed_basic [typed]:
  "keeps_types (give a)" "keeps_types (stop e)" "keeps_types get_state" "keeps_types (need x)"
  by (auto simp: keeps_types_def triple_def act_simps need_def split: option.splits)

lemma typed_and_then [typed]: "keeps_types m \<Longrightarrow> (\<And>a. keeps_types (k a)) \<Longrightarrow> keeps_types (and_then m k)"
  unfolding keeps_types_def by (rule triple_and_then)

lemma typed_split [typed]:
  "(b \<Longrightarrow> keeps_types m) \<Longrightarrow> (\<not> b \<Longrightarrow> keeps_types m') \<Longrightarrow> keeps_types (if b then m else m')"
  "(\<And>x y. p = (x, y) \<Longrightarrow> keeps_types (f x y)) \<Longrightarrow> keeps_types (case p of (x, y) \<Rightarrow> f x y)"
  "(\<And>x. r = Inl x \<Longrightarrow> keeps_types (g x)) \<Longrightarrow> (\<And>x. r = Inr x \<Longrightarrow> keeps_types (h x)) \<Longrightarrow> keeps_types (case r of Inl x \<Rightarrow> g x | Inr x \<Rightarrow> h x)"
  "(e = None \<Longrightarrow> keeps_types m) \<Longrightarrow> (\<And>x. e = Some x \<Longrightarrow> keeps_types (g' x)) \<Longrightarrow> keeps_types (case e of None \<Rightarrow> m | Some x \<Rightarrow> g' x)"
  "keeps_types (f' v) \<Longrightarrow> keeps_types (let x = v in f' x)"
  "(\<And>x y. p = (x, y) \<Longrightarrow> keeps_types (h' x y z)) \<Longrightarrow> keeps_types ((case p of (x, y) \<Rightarrow> h' x y) z)"
  by (auto split: prod.split sum.split option.split)

lemma typed_guards [typed]:
  "keeps_types m \<Longrightarrow> keeps_types (if_sshv2 m)" "keeps_types m' \<Longrightarrow> keeps_types (if_open x m')"
  by (auto simp: keeps_types_def triple_def if_sshv2_def if_open_def)

lemma typed_on_req [simp]: "sftp_typed (on_sf_req f s) = sftp_typed s"
  by (simp add: sftp_typed_def on_sf_req_def)

lemma typed_disconnect [simp]: "sftp_typed (sftp_disconnect s) = sftp_typed s"
  by (simp add: sftp_typed_def sftp_disconnect_def sshv2_disconnect_def on_sf_req_def Let_def)

lemma typed_after_io [simp]: "sftp_typed (sftp_after_io ch s) = sftp_typed s"
  by (simp add: sftp_after_io_def)

lemma typed_update [simp]:
  "sftp_typed (s \<lparr> sf_in := i \<rparr>) = sftp_typed s" "sftp_typed (s \<lparr> sf_out := i \<rparr>) = sftp_typed s"
  "sftp_typed (s \<lparr> sf_cache := i \<rparr>) = sftp_typed s" "sftp_typed (s \<lparr> sf_terminal_in := i \<rparr>) = sftp_typed s"
  "sftp_typed (s \<lparr> sf_terminal_out := i \<rparr>) = sftp_typed s" "sftp_typed (s \<lparr> sf_message := m \<rparr>) = sftp_typed s"
  "sftp_typed (s \<lparr> sf_transfer_buffer := b \<rparr>) = sftp_typed s" "sftp_typed (s \<lparr> sf_initialized := x \<rparr>) = sftp_typed s"
  "sftp_typed (s \<lparr> sf_dont_log_status := x \<rparr>) = sftp_typed s" "sftp_typed (s \<lparr> sf_children := cs \<rparr>) = sftp_typed s"
  "sftp_typed (s \<lparr> sf_commands := as \<rparr>) = sftp_typed s" "sftp_typed (s \<lparr> sf_fcntl := fs \<rparr>) = sftp_typed s"
  by (simp_all add: sftp_typed_def)

lemma typed_change [typed]: "(\<And>s. sftp_typed s \<Longrightarrow> sftp_typed (f s)) \<Longrightarrow> keeps_types (change f)"
  by (simp add: keeps_types_def triple_def change_def)

lemma typed_calls [typed]:
  "keeps_types (sftp_read fd n)" "keeps_types (sftp_write p)" "keeps_types fcntl_call" "keeps_types (terminal_read n)"
  "keeps_types (terminal_write p)" "keeps_types (gftp_exec args)" "keeps_types sshv2_initialize_buffer"
  by (auto simp: keeps_types_def triple_def sftp_read_def sftp_write_def fcntl_call_def terminal_read_def terminal_write_def
      gftp_exec_def sshv2_initialize_buffer_def Let_def split: if_splits prod.splits list.splits)
    (simp add: sftp_typed_def)

lemma typed_fail [typed]: "keeps_types (sftp_fail ret)"
  unfolding sftp_fail_def by (intro typed) simp

lemma typed_blocking [typed]: "keeps_types (sftp_set_sockblocking fd)"
  unfolding sftp_set_sockblocking_def by (intro typed)

lemma typed_strings [typed]: "keeps_types (sshv2_initialize_buffer_with_i18n_string env str)" "keeps_types (sftp_path str)"
  unfolding sshv2_initialize_buffer_with_i18n_string_def sftp_path_def by (intro typed)+

lemma typed_paths [typed]:
  "keeps_types (sshv2_generate_utf8_path env str)" "keeps_types (sshv2_initialize_string_with_path env str)"
  unfolding sshv2_generate_utf8_path_def sshv2_initialize_string_with_path_def by (intro typed)+

lemma typed_two_paths [typed]: "keeps_types (sshv2_initialize_buffer_with_two_i18n_paths env a b)"
  unfolding sshv2_initialize_buffer_with_two_i18n_paths_def by (intro typed)

lemma typed_send [typed]: "keeps_types (sshv2_send_command type command)"
  unfolding sshv2_send_command_def by (intro typed)


section \<open>Answers\<close>

lemma typed_read_bytes [typed]: "keeps_types (read_bytes n fd rem room acc)"
proof (induction n arbitrary: rem acc)
  case 0
  show ?case unfolding read_bytes.simps by (intro typed)
next
  case (Suc n)
  show ?case unfolding read_bytes.simps by (intro typed Suc.IH)
qed

lemma typed_read_exactly [typed]: "keeps_types (read_exactly fd rem room)"
  using typed_read_bytes unfolding keeps_types_def triple_def read_exactly_def by blast

lemma typed_drain:
  "keeps_types (\<lambda>s. if b s then Inr ((), s \<lparr> sf_cache := f s \<rparr>) else Inr ((), s \<lparr> sf_in := g s \<rparr>))"
  by (auto simp: keeps_types_def triple_def)

lemma typed_too_big [typed]: "keeps_types (message_too_big fd)"
  unfolding message_too_big_def by (intro typed typed_drain)

lemma typed_response [typed]: "keeps_types (sshv2_read_response fd)"
  unfolding sshv2_read_response_def by (intro typed)

lemma typed_wrong [typed]: "keeps_types (sshv2_wrong_response m)"
  unfolding sshv2_wrong_response_def by (intro typed) simp

lemma typed_status [typed]: "keeps_types (sshv2_read_status_response a b)" "keeps_types (sshv2_response_return_code m n)"
  unfolding sshv2_read_status_response_def sshv2_response_return_code_def by (intro typed)+

lemma typed_int32 [typed]: "keeps_types (sshv2_buffer_get_int32 e m)"
  unfolding sshv2_buffer_get_int32_def by (intro typed)

lemma typed_fields [typed]: "keeps_types (sshv2_buffer_get_int64 m)" "keeps_types (sshv2_buffer_get_string m)"
  unfolding sshv2_buffer_get_int64_def sshv2_buffer_get_string_def by (intro typed)+

lemma typed_check [typed]: "keeps_types (sshv2_send_command_and_check_response type command)"
  unfolding sshv2_send_command_and_check_response_def by (intro typed)

lemma typed_path_command [typed]: "keeps_types (path_command env type path attributes)"
  unfolding path_command_def by (intro typed)

lemma typed_answered_path [typed]: "keeps_types (answered_path m)"
  unfolding answered_path_def by (intro typed)


section \<open>Connections\<close>

lemma typed_answer_prompt [typed]: "keeps_types (answer_prompt env pwstr wrotepw str)"
  unfolding answer_prompt_def by (intro typed)

lemma typed_login_loop [typed]: "keeps_types (login_loop env pwstr es wrotepw rem buf)"
proof (induction es arbitrary: wrotepw rem buf)
  case Nil
  show ?case unfolding login_loop.simps by (intro typed)
next
  case (Cons e es)
  show ?case
    by (cases e) (simp_all only: login_loop.simps login_event.case, (intro typed Cons.IH)+)
qed

lemma typed_login [typed]: "keeps_types (sshv2_start_login_sequence env fd es)"
  unfolding sshv2_start_login_sequence_def by (intro typed)

lemma typed_getcwd [typed]: "keeps_types (sshv2_getcwd env)"
  unfolding sshv2_getcwd_def by (intro typed) simp_all

lemma typed_connect: "keeps_types (sshv2_connect env)"
  unfolding sshv2_connect_def by (intro typed) simp_all

lemma typed_chdir: "keeps_types (sshv2_chdir env d)"
  unfolding sshv2_chdir_def by (intro typed) simp_all

lemma typed_rename: "keeps_types (sshv2_rename env a b)"
  unfolding sshv2_rename_def by (intro typed)

lemma typed_commands:
  "keeps_types (sshv2_rmdir env f)" "keeps_types (sshv2_rmfile env f)" "keeps_types (sshv2_chmod env f mode)"
  "keeps_types (sshv2_mkdir env f)" "keeps_types (sshv2_set_file_time env f t)"
  unfolding sshv2_rmdir_def sshv2_rmfile_def sshv2_chmod_def sshv2_mkdir_def sshv2_set_file_time_def by (intro typed)+


section \<open>Attributes and handles\<close>

lemma typed_extended [typed]: "keeps_types (skip_extended n m)"
proof (induction n arbitrary: m)
  case 0
  show ?case unfolding skip_extended.simps by (intro typed)
next
  case (Suc n)
  show ?case unfolding skip_extended.simps by (intro typed Suc.IH)
qed

lemma typed_attr_fields [typed]:
  "keeps_types (attr_field b m)" "keeps_types (attr_size b m fle)" "keeps_types (attr_owner b m fle)" "keeps_types (attr_times b num m fle)"
  unfolding attr_field_def attr_size_def attr_owner_def attr_times_def by (intro typed)+

lemma typed_attributes [typed]: "keeps_types (sshv2_decode_file_attributes m fle)"
  unfolding sshv2_decode_file_attributes_def by (intro typed)

lemma typed_stat [typed]: "keeps_types (sshv2_send_stat_command env f)"
  unfolding sshv2_send_stat_command_def by (intro typed)

lemma typed_stats [typed]: "keeps_types (sshv2_stat_filename env f)" "keeps_types (sshv2_get_file_size env f)"
  unfolding sshv2_stat_filename_def sshv2_get_file_size_def by (intro typed)+

lemma typed_number_handle [typed]: "keeps_types number_handle"
  by (auto simp: keeps_types_def triple_def number_handle_def act_simps need_def sshv2_initialize_buffer_def sftp_typed_def
      dest!: overwrite_length split: option.splits)

lemma typed_send_handle [typed]: "keeps_types (send_handle type)"
  unfolding send_handle_def by (intro typed)

text \<open>The length of a message is that of its head.\<close>

definition gives :: "('a \<Rightarrow> bool) \<Rightarrow> 'a sftp_act \<Rightarrow> bool" where
  "gives Q m \<longleftrightarrow> (\<forall>s a s'. m s = Inr (a, s') \<longrightarrow> Q a)"

lemma typed_and_then_gives:
  "keeps_types m \<Longrightarrow> gives Q m \<Longrightarrow> (\<And>a. Q a \<Longrightarrow> keeps_types (k a)) \<Longrightarrow> keeps_types (and_then m k)"
  unfolding keeps_types_def triple_def gives_def by (blast dest: and_then_eq_InrD)

lemma gives_rules:
  "Q a \<Longrightarrow> gives Q (give a)" "gives Q (stop e)" "(\<And>a. gives Q (k a)) \<Longrightarrow> gives Q (and_then n k)"
  "(b \<Longrightarrow> gives Q m) \<Longrightarrow> (\<not> b \<Longrightarrow> gives Q m') \<Longrightarrow> gives Q (if b then m else m')"
  "(\<And>x y. p = (x, y) \<Longrightarrow> gives Q (f x y)) \<Longrightarrow> gives Q (case p of (x, y) \<Rightarrow> f x y)"
  "(\<And>x. r = Inl x \<Longrightarrow> gives Q (g x)) \<Longrightarrow> (\<And>x. r = Inr x \<Longrightarrow> gives Q (h x)) \<Longrightarrow> gives Q (case r of Inl x \<Rightarrow> g x | Inr x \<Rightarrow> h x)"
  "gives Q (f' v) \<Longrightarrow> gives Q (let x = v in f' x)"
  by (auto simp: gives_def act_simps split: prod.splits sum.splits)

lemma gives_and_then: "gives R m \<Longrightarrow> (\<And>a. R a \<Longrightarrow> gives Q (k a)) \<Longrightarrow> gives Q (and_then m k)"
  unfolding gives_def by (blast dest: and_then_eq_InrD)

definition fits :: "int \<times> message \<Rightarrow> bool" where
  "fits = (\<lambda>(ret, m). ms_length m \<le> 34000)"

lemma gives_response: "gives fits (sshv2_read_response fd)"
  unfolding sshv2_read_response_def by (intro gives_rules) (simp_all add: fits_def empty_message_def)

lemma gives_wrong: "gives fits (sshv2_wrong_response m)"
  unfolding sshv2_wrong_response_def by (intro gives_rules) (simp add: fits_def empty_message_def sshv2_message_free_def)

lemma gives_status: "gives fits (sshv2_read_status_response a b)"
  unfolding sshv2_read_status_response_def
  by (rule gives_and_then [OF gives_response]) (intro gives_rules gives_wrong; simp add: fits_def empty_message_def sshv2_message_free_def)

lemma typed_store_handle:
  assumes "ms_length m \<le> 34000"
  shows "keeps_types (store_handle e m)"
proof -
  have len: "ms_length m - 1 \<le> SSH_MAX_HANDLE_SIZE + 3"
    if "\<not> (ms_length m + 2 ^ 32 - 4) mod 2 ^ 32 > SSH_MAX_HANDLE_SIZE" "\<not> ms_length m < 5"
  proof -
    have "ms_length m + 2 ^ 32 - 4 = (ms_length m - 4) + 2 ^ 32" using that(2) by simp
    then have "(ms_length m + 2 ^ 32 - 4) mod 2 ^ 32 = (ms_length m - 4) mod 2 ^ 32" by (simp only: mod_add_self2)
    also have "\<dots> = ms_length m - 4" using assms by (intro mod_less) simp
    finally show ?thesis using that(1) by simp
  qed
  show ?thesis
  proof (cases "(ms_length m + 2 ^ 32 - 4) mod 2 ^ 32 > SSH_MAX_HANDLE_SIZE")
    case True
    then show ?thesis unfolding store_handle_def by (simp only: if_True typed)
  next
    case False
    show ?thesis
    proof (cases "ms_length m < 5")
      case True
      with False show ?thesis
        by (cases "ms_buffer m") (simp_all add: store_handle_def keeps_types_def triple_def act_simps)
    next
      case long: False
      have "sftp_typed (s \<lparr> sf_handle := h, sf_handle_len := ms_length m - 1 \<rparr>)"
        if "sftp_typed s" "overwrite 4 p (put32 0 @ drop 4 (sf_handle s)) = Some h" for s p h
        using that len [OF False long] overwrite_length [OF that(2)] by (simp add: sftp_typed_def put32_def)
      then show ?thesis
        using False long
        by (cases "ms_buffer m") (auto simp: store_handle_def keeps_types_def triple_def act_simps need_def split: option.splits)
    qed
  qed
qed

lemma typed_handle_answer:
  "keeps_types (and_then (sshv2_read_status_response a b) (\<lambda>(ret, m). if ret < 0 then give ret else and_then (store_handle e m) k))"
  if "\<And>ret. keeps_types (k ret)"
  by (rule typed_and_then_gives [OF typed_status(1) gives_status]) (auto simp: fits_def intro!: typed typed_store_handle that)

lemma typed_parts [simp]:
  "sftp_typed s \<Longrightarrow> sftp_typed (s \<lparr> sf_handle_len := 0 \<rparr>)" "sftp_typed s \<Longrightarrow> n < 2 ^ 32 \<Longrightarrow> sftp_typed (s \<lparr> sf_count := n \<rparr>)"
  "sftp_typed s \<Longrightarrow> k < 2 ^ 64 \<Longrightarrow> sftp_typed (s \<lparr> sf_offset := k \<rparr>)"
  by (simp_all add: sftp_typed_def)

lemma typed_end_transfer: "keeps_types sshv2_end_transfer"
  unfolding sshv2_end_transfer_def by (intro typed) simp_all

lemma typed_list_files: "keeps_types (sshv2_list_files env)"
  unfolding sshv2_list_files_def by (intro typed_handle_answer typed) simp_all

lemma typed_open_file [typed]: "keeps_types (sshv2_open_file env f n mode)"
proof -
  have off: "nat (n mod 2 ^ 64) < 2 ^ 64" by (simp add: nat_less_iff)
  have answer: "keeps_types (and_then (sshv2_read_status_response a b) (\<lambda>(ret, m). if ret < 0 then give ret else store_handle e m))" for a b e
    using typed_handle_answer [where k = give, OF typed_basic(1), of a b e] by (simp only: and_then_give_right)
  show ?thesis unfolding sshv2_open_file_def using off by (intro answer typed) simp_all
qed

lemma typed_transfers:
  "keeps_types (sshv2_get_file env f n)" "keeps_types (sshv2_put_file env f n size')"
  unfolding sshv2_get_file_def sshv2_put_file_def by (intro typed)+


section \<open>Listings and data\<close>

lemma typed_next_name [typed]: "keeps_types next_name"
  unfolding next_name_def by (intro typed) simp_all

lemma typed_names [typed]: "keeps_types ask_names" "keeps_types keep_message"
  unfolding ask_names_def keep_message_def by (intro typed; simp)+

lemma int32_gives: "gives (\<lambda>(r, m). \<forall>n. r = Inr n \<longrightarrow> n < 2 ^ 32) (sshv2_buffer_get_int32 e m)"
proof -
  have "gives (\<lambda>n. n < 2 ^ 32) (need (Option.bind x (\<lambda>b. get32 (drop k b))))" for x k
    using get32_less by (auto simp: gives_def need_def act_simps bind_eq_Some_conv split: option.splits)
  then show ?thesis
    unfolding sshv2_buffer_get_int32_def by (intro gives_rules gives_and_then [where R = "\<lambda>n. n < 2 ^ 32"]) auto
qed

lemma typed_get_next_file: "keeps_types (sshv2_get_next_file fd)"
  unfolding sshv2_get_next_file_def
  by (intro typed_and_then_gives [OF typed_int32 int32_gives] typed) (auto simp: if_distrib)

lemma typed_buffer [typed]: "keeps_types (transfer_buffer_for n)" "keeps_types (fill_buffer n p)"
  unfolding transfer_buffer_for_def fill_buffer_def by (intro typed; simp)+

lemma typed_chunks: "keeps_types (sshv2_get_next_file_chunk n)" "keeps_types (sshv2_put_next_file_chunk p)"
  unfolding sshv2_get_next_file_chunk_def sshv2_put_next_file_chunk_def by (intro typed; simp add: advance_def)+

lemma typed_options: "keeps_types sshv2_set_config_options"
  unfolding sshv2_set_config_options_def by (intro typed) simp



section \<open>Every operation\<close>

text \<open>The operations of \<^term>\<open>sshv2_ops\<close> that give a number.\<close>

datatype sftp_operation =
    Op_connect | Op_get_file string int | Op_put_file string int int | Op_put_chunk string | Op_end_transfer | Op_list_files
  | Op_get_file_size string | Op_chdir string | Op_rmdir string | Op_rmfile string | Op_mkdir string | Op_rename string string
  | Op_chmod string mode_t | Op_set_file_time string int | Op_set_config_options | Op_get_chunk nat | Op_get_next_file int
  | Op_stat string | Op_read int nat | Op_write string | Op_disconnect

definition silent :: "'a sftp_act \<Rightarrow> unit sftp_act" where
  "silent m = and_then m (\<lambda>_. give ())"

fun sftp_operates :: "ssh_env \<Rightarrow> sftp_operation \<Rightarrow> unit sftp_act" where
  "sftp_operates env Op_connect = silent (sshv2_connect env)"
| "sftp_operates env (Op_get_file f k) = silent (sshv2_get_file env f k)"
| "sftp_operates env (Op_put_file f k t) = silent (sshv2_put_file env f k t)"
| "sftp_operates env (Op_put_chunk p) = silent (sshv2_put_next_file_chunk p)"
| "sftp_operates env Op_end_transfer = silent sshv2_end_transfer"
| "sftp_operates env Op_list_files = silent (sshv2_list_files env)"
| "sftp_operates env (Op_get_file_size f) = silent (sshv2_get_file_size env f)"
| "sftp_operates env (Op_chdir d) = silent (sshv2_chdir env d)"
| "sftp_operates env (Op_rmdir d) = silent (sshv2_rmdir env d)"
| "sftp_operates env (Op_rmfile f) = silent (sshv2_rmfile env f)"
| "sftp_operates env (Op_mkdir d) = silent (sshv2_mkdir env d)"
| "sftp_operates env (Op_rename a b) = silent (sshv2_rename env a b)"
| "sftp_operates env (Op_chmod f m) = silent (sshv2_chmod env f m)"
| "sftp_operates env (Op_set_file_time f t) = silent (sshv2_set_file_time env f t)"
| "sftp_operates env Op_set_config_options = silent sshv2_set_config_options"
| "sftp_operates env (Op_get_chunk n) = silent (sshv2_get_next_file_chunk n)"
| "sftp_operates env (Op_get_next_file fd) = silent (sshv2_get_next_file fd)"
| "sftp_operates env (Op_stat f) = silent (sshv2_stat_filename env f)"
| "sftp_operates env (Op_read fd n) = silent (sftp_read fd n)"
| "sftp_operates env (Op_write p) = silent (sftp_write p)"
| "sftp_operates env Op_disconnect = change sshv2_disconnect"

fun sftp_runs :: "ssh_env \<Rightarrow> sftp_operation list \<Rightarrow> unit sftp_act" where
  "sftp_runs env [] = give ()"
| "sftp_runs env (x # xs) = and_then (sftp_operates env x) (\<lambda>_. sftp_runs env xs)"

lemma typed_silent [typed]: "keeps_types m \<Longrightarrow> keeps_types (silent m)"
  unfolding silent_def by (intro typed)

lemma typed_operates [typed]: "keeps_types (sftp_operates env x)"
proof (cases x)
  case Op_disconnect
  have "sftp_typed (sshv2_disconnect s) = sftp_typed s" for s
    by (simp add: sftp_typed_def sshv2_disconnect_def on_sf_req_def Let_def)
  then show ?thesis unfolding Op_disconnect sftp_operates.simps by (intro typed_change) simp
qed (simp_all only: sftp_operates.simps, (intro typed typed_connect typed_chdir typed_rename typed_commands typed_end_transfer
  typed_list_files typed_transfers typed_get_next_file typed_chunks typed_options)+)

lemma typed_runs: "keeps_types (sftp_runs env xs)"
  by (induction xs) (simp_all only: sftp_runs.simps typed)

text \<open>C16: A fresh connection is well typed, and whatever the server sends and whatever is asked of the module, in any order,
  it stays so: a handle never leaves the array it is kept in.\<close>

theorem sftp_stays_typed:
  assumes "sftp_runs env xs (sshv2_data s) = Inr ((), s')"
  shows "sftp_typed s'"
proof -
  have "sftp_typed (sshv2_data s)" by (simp add: sftp_typed_def sshv2_data_def)
  then show ?thesis using typed_runs [of env xs] assms by (auto simp: keeps_types_def triple_def)
qed

theorem sftp_stays_typed_witness:
  "\<exists>s'. sftp_runs example_ssh_env [Op_set_config_options, Op_write ''abc'', Op_end_transfer, Op_disconnect]
    (sshv2_data (example_sftp [])) = Inr ((), s') \<and> sftp_typed s'"
proof -
  let ?xs = "[Op_set_config_options, Op_write ''abc'', Op_end_transfer, Op_disconnect]"
  obtain s' where "sftp_runs example_ssh_env ?xs (sshv2_data (example_sftp [])) = Inr ((), s')"
    by (simp add: silent_def act_simps sshv2_set_config_options_def sftp_write_def sshv2_end_transfer_def if_sshv2_def example_sftp_def
        sshv2_data_def on_sf_req_def gftp_fd_write_def armed_def example_channel_def sftp_after_io_def empty_message_def)
  with sftp_stays_typed [OF this] show ?thesis by blast
qed

end
