(* ===== verification/Sftp_Sessions.thy ===== *)
theory Sftp_Sessions
  imports Sftp_Messages
begin

text \<open>What a server that follows the protocol gets from the SFTP module, and what the module makes of its answers: blocks of
  a file, the entries of a directory, and whole downloads.\<close>


section \<open>Blocks of a file\<close>

text \<open>A file is open: \<open>H\<close> is the handle as it came, with its length. Once there is a buffer, the handle in it counts.\<close>

definition has_handle :: "sftp \<Rightarrow> string \<Rightarrow> bool" where
  "has_handle s H \<longleftrightarrow> length (sf_handle s) = 260 \<and> sf_handle_len s = 4 + length H \<and> length H \<le> 256 \<and>
     take (length H) (drop 4 (sf_handle s)) = H"

definition reading :: "sftp \<Rightarrow> string \<Rightarrow> bool" where
  "reading s H \<longleftrightarrow> sf_handle_len s = 4 + length H \<and> length H \<le> 256 \<and>
     (case sf_transfer_buffer s of None \<Rightarrow> has_handle s H | Some b \<Rightarrow> length b = 16 + length H \<and> take (length H) (drop 4 b) = H)"

definition read_request :: "nat \<Rightarrow> string \<Rightarrow> nat \<Rightarrow> nat \<Rightarrow> string" where
  "read_request i H off n = put32 i @ H @ put32 (off div 2 ^ 32) @ put32 off @ put32 n"

lemma overwrite_mid: "length a = n \<Longrightarrow> length x = length bs \<Longrightarrow> overwrite n bs (a @ x @ c) = Some (a @ bs @ c)"
  by (simp add: overwrite_def)

lemma overwrite_Nil: "n \<le> length b \<Longrightarrow> overwrite n [] b = Some b"
  by (simp add: overwrite_def)

lemma in_parts:
  assumes "length b = 16 + length H" "take (length H) (drop 4 b) = H"
  shows "\<exists>x y z u. b = x @ H @ y @ z @ u \<and> length x = 4 \<and> length y = 4 \<and> length z = 4 \<and> length u = 4"
proof -
  have "b = take 4 b @ take (length H) (drop 4 b) @ take 4 (drop (length H) (drop 4 b)) @ take 4 (drop 4 (drop (length H) (drop 4 b))) @
      drop 4 (drop 4 (drop (length H) (drop 4 b)))"
    by (simp only: append_take_drop_id)
  then have "b = take 4 b @ H @ take 4 (drop (length H) (drop 4 b)) @ take 4 (drop 4 (drop (length H) (drop 4 b))) @
      drop 4 (drop 4 (drop (length H) (drop 4 b)))"
    by (simp only: assms(2))
  then show ?thesis using assms(1) by (intro exI conjI) (assumption, simp_all)
qed

lemma filled:
  assumes "reading s H"
  shows "\<exists>s'. and_then (transfer_buffer_for 0) (\<lambda>_. fill_buffer n []) s = Inr (read_request (sf_id s) H (sf_offset s) n, s') \<and>
    s' = s \<lparr> sf_transfer_buffer := Some (read_request (sf_id s) H (sf_offset s) n), sf_id := (sf_id s + 1) mod 2 ^ 32 \<rparr>"
proof -
  define b where "b = (case sf_transfer_buffer s of None \<Rightarrow> take (sf_handle_len s) (sf_handle s) @ replicate 12 NUL | Some b \<Rightarrow> b)"
  have b: "length b = 16 + length H" "take (length H) (drop 4 b) = H"
    using assms by (auto simp: b_def reading_def has_handle_def drop_take split: option.splits)
  obtain x y z u where p: "b = x @ H @ y @ z @ u" "length x = 4" "length y = 4" "length z = 4" "length u = 4"
    using in_parts [OF b] by blast
  have hl: "sf_handle_len s = 4 + length H" using assms by (simp add: reading_def has_handle_def)
  let ?i = "put32 (sf_id s)" and ?hi = "put32 (sf_offset s div 2 ^ 32)" and ?lo = "put32 (sf_offset s)" and ?n = "put32 n"
  have 1: "overwrite 0 ?i b = Some (?i @ H @ y @ z @ u)" using p overwrite_mid [of "[]" 0 x ?i] by simp
  have 2: "overwrite (4 + length H) ?hi (?i @ H @ y @ z @ u) = Some (?i @ H @ ?hi @ z @ u)"
    using p overwrite_mid [of "?i @ H" "4 + length H" y ?hi "z @ u"] by simp
  have 3: "overwrite (4 + length H + 4) ?lo (?i @ H @ ?hi @ z @ u) = Some (?i @ H @ ?hi @ ?lo @ u)"
    using p overwrite_mid [of "?i @ H @ ?hi" "4 + length H + 4" z ?lo u] by simp
  have 4: "overwrite (4 + length H + 8) ?n (?i @ H @ ?hi @ ?lo @ u) = Some (?i @ H @ ?hi @ ?lo @ ?n)"
    using p overwrite_mid [of "?i @ H @ ?hi @ ?lo" "4 + length H + 8" u ?n "[]"] by simp
  have 5: "overwrite (4 + length H + 12) [] (?i @ H @ ?hi @ ?lo @ ?n) = Some (?i @ H @ ?hi @ ?lo @ ?n)"
    by (rule overwrite_Nil) simp
  have "sf_transfer_buffer s = None \<Longrightarrow> b = take (sf_handle_len s) (sf_handle s) @ replicate 12 NUL"
    "sf_transfer_buffer s = Some b' \<Longrightarrow> b' = b" for b'
    by (simp_all add: b_def)
  then show ?thesis
    using 1 2 3 4 5
    by (cases "sf_transfer_buffer s")
      (simp_all add: act_simps transfer_buffer_for_def fill_buffer_def sshv2_initialize_buffer_def need_def sshv2_setup_file_offset_def hl
        read_request_def)
qed

lemma reading_filled:
  "reading s H \<Longrightarrow> reading (s \<lparr> sf_transfer_buffer := Some (read_request i H off n), sf_id := j \<rparr>) H"
  by (simp add: reading_def has_handle_def read_request_def)

lemma reading_cong:
  "sf_handle s' = sf_handle s \<Longrightarrow> sf_handle_len s' = sf_handle_len s \<Longrightarrow> sf_transfer_buffer s' = sf_transfer_buffer s \<Longrightarrow>
    reading s' H = reading s H"
  by (cases "sf_transfer_buffer s") (simp_all add: reading_def has_handle_def)

lemma reading_exchanged: "exchanged s c s' \<Longrightarrow> reading s' H = reading s H"
  using exchanged_sel [of s c s'] by (intro reading_cong) simp_all

text \<open>The command for the next block goes out.\<close>

lemma read_sent:
  assumes "pipe s bs" "reading s H"
  shows "\<exists>s1. pipe s1 bs \<and> reading s1 H \<and> sent s1 = sent s @ frame SSH_FXP_READ (read_request (sf_id s) H (sf_offset s) n) \<and>
    sf_offset s1 = sf_offset s \<and> sf_id s1 = (sf_id s + 1) mod 2 ^ 32 \<and> sf_dont_log_status s1 = sf_dont_log_status s \<and>
    sf_handle s1 = sf_handle s \<and> sf_handle_len s1 = sf_handle_len s \<and> sf_req s1 = sf_req s \<and>
    sshv2_get_next_file_chunk n s =
      and_then (sshv2_read_response (-1)) (\<lambda>(ret, m).
         if ret < 0 then give (Inl ret)
         else if ret \<noteq> SSH_FXP_DATA then
           and_then (sshv2_buffer_get_int32 (Some SSH_FX_EOF) (skip_id m)) (\<lambda>(r, m).
             give (case r of Inl e \<Rightarrow> Inl e | Inr _ \<Rightarrow> Inr []))
         else
           and_then (need (ms_buffer m)) (\<lambda>mem.
           and_then (need (get32 (drop 4 mem))) (\<lambda>num.
             if num > n then and_then (sftp_fail GFTP_ERETRYABLE) (\<lambda>ret. give (Inl ret))
             else if length mem < 8 + num then stop Out_of_bounds
             else and_then (change (advance num)) (\<lambda>_. give (Inr (take num (drop 8 mem))))))) s1"
proof -
  let ?b = "read_request (sf_id s) H (sf_offset s) n"
  let ?s = "s \<lparr> sf_transfer_buffer := Some ?b, sf_id := (sf_id s + 1) mod 2 ^ 32 \<rparr>"
  have hl: "sf_handle_len s = 4 + length H" "length H \<le> 256" using assms(2) by (simp_all add: reading_def has_handle_def)
  have len: "length ?b = 16 + length H" by (simp add: read_request_def)
  have "pipe ?s bs" using assms(1) by (simp add: pipe_def)
  then obtain s1 where s1: "sshv2_send_command SSH_FXP_READ ?b ?s = Inr (0, s1)" "pipe s1 bs" "exchanged ?s (frame SSH_FXP_READ ?b) s1"
    using pipe_send [of ?s bs ?b] len hl(2) by auto
  note sel = exchanged_sel [OF s1(3)]
  have fill: "and_then (transfer_buffer_for 0) (\<lambda>_. fill_buffer n []) s = Inr (?b, ?s)" using filled [OF assms(2)] by blast
  have "reading s1 H" using reading_exchanged [OF s1(3)] reading_filled [OF assms(2)] by blast
  moreover have "sent s1 = sent s @ frame SSH_FXP_READ ?b" using s1(3) by (simp add: exchanged_def sent_def)
  moreover have "rq_protonum (sf_req s) = int GFTP_SSHV2_NUM" "0 < rq_datafd (sf_req s)" using assms(1) by (simp_all add: pipe_def)
  ultimately show ?thesis
    using s1(1,2) sel len hl(1)
    by (intro exI [of _ s1]) (simp add: sshv2_get_next_file_chunk_def if_open_def and_then_assoc [symmetric],
        simp add: and_then_def [where m = "and_then _ _"] fill and_then_def [where m = get_state] get_state_def
          and_then_def [where m = "sshv2_send_command _ _"])
qed

definition data_reply :: "nat \<Rightarrow> string \<Rightarrow> string" where
  "data_reply i d = frame SSH_FXP_DATA (put32 i @ put32 (length d) @ d)"

definition status_reply :: "nat \<Rightarrow> nat \<Rightarrow> string" where
  "status_reply i code = frame SSH_FXP_STATUS (put32 i @ put32 code)"

text \<open>The command for a block asks for the bytes at the offset reached; the answer is handed over and the offset moves
  behind it.\<close>

theorem block_read:
  assumes "pipe s (data_reply i d @ rest)" "reading s H" "length d \<le> n" "length d \<le> 33000"
  shows "\<exists>s'. sshv2_get_next_file_chunk n s = Inr (Inr d, s') \<and> pipe s' rest \<and> reading s' H \<and>
    sent s' = sent s @ frame SSH_FXP_READ (read_request (sf_id s) H (sf_offset s) n) \<and>
    sf_offset s' = (sf_offset s + length d) mod 2 ^ 64 \<and> sf_id s' = (sf_id s + 1) mod 2 ^ 32 \<and>
    sf_dont_log_status s' = sf_dont_log_status s \<and> sf_handle s' = sf_handle s \<and> sf_handle_len s' = sf_handle_len s \<and> sf_req s' = sf_req s"
proof -
  let ?p = "put32 i @ put32 (length d) @ d"
  obtain s1 where s1: "pipe s1 (data_reply i d @ rest)" "reading s1 H" "sent s1 = sent s @ frame SSH_FXP_READ (read_request (sf_id s) H (sf_offset s) n)"
      "sf_offset s1 = sf_offset s" "sf_id s1 = (sf_id s + 1) mod 2 ^ 32" "sf_dont_log_status s1 = sf_dont_log_status s"
      "sf_handle s1 = sf_handle s" "sf_handle_len s1 = sf_handle_len s" "sf_req s1 = sf_req s"
      "sshv2_get_next_file_chunk n s =
      and_then (sshv2_read_response (-1)) (\<lambda>(ret, m).
         if ret < 0 then give (Inl ret)
         else if ret \<noteq> SSH_FXP_DATA then
           and_then (sshv2_buffer_get_int32 (Some SSH_FX_EOF) (skip_id m)) (\<lambda>(r, m).
             give (case r of Inl e \<Rightarrow> Inl e | Inr _ \<Rightarrow> Inr []))
         else
           and_then (need (ms_buffer m)) (\<lambda>mem.
           and_then (need (get32 (drop 4 mem))) (\<lambda>num.
             if num > n then and_then (sftp_fail GFTP_ERETRYABLE) (\<lambda>ret. give (Inl ret))
             else if length mem < 8 + num then stop Out_of_bounds
             else and_then (change (advance num)) (\<lambda>_. give (Inr (take num (drop 8 mem))))))) s1"
    using read_sent [OF assms(1,2), of n] by blast
  have "log_inside (sf_dont_log_status s1) SSH_FXP_DATA (?p @ [NUL, NUL])" by (simp add: log_inside_def)
  then obtain s2 where s2: "sshv2_read_response (-1) s1 = Inr ((SSH_FXP_DATA, message_of SSH_FXP_DATA ?p), s2)" "pipe s2 rest" "only_read s1 s2"
    using message_read_whole [of s1 SSH_FXP_DATA ?p rest] s1(1) assms(4) by (auto simp: data_reply_def)
  have d: "drop 4 (?p @ [NUL, NUL]) = put32 (length d) @ d @ [NUL, NUL]" "drop 8 (?p @ [NUL, NUL]) = d @ [NUL, NUL]" by simp_all
  have small: "length d mod 4294967296 = length d" using assms(4) by simp
  have "sshv2_get_next_file_chunk n s = Inr (Inr d, advance (length d) s2)"
    unfolding s1(10) and_then_def [where m = "sshv2_read_response (-1)"] s2(1)
    using assms(3) by (simp add: d(1) d(2) small act_simps)
  moreover have "reading (advance (length d) s2) H = reading s1 H"
    using only_read_sel [OF s2(3)] by (intro reading_cong) (simp_all add: advance_def)
  moreover have "pipe (advance (length d) s2) rest = pipe s2 rest" by (simp add: pipe_def advance_def)
  moreover have "sent (advance (length d) s2) = sent s1" using only_read_sel [OF s2(3)] by (simp add: sent_def advance_def)
  ultimately show ?thesis
    using s1(2-9) s2(2) only_read_sel [OF s2(3)] by (simp add: advance_def)
qed

lemma example_reading: "reading (example_sftp pieces) example_handle"
  by (simp add: reading_def has_handle_def example_sftp_def example_handle_def)

theorem block_read_witness:
  "\<exists>s'. sshv2_get_next_file_chunk 1024 (example_sftp [data_reply 1 ''data'']) = Inr (Inr ''data'', s') \<and> sf_offset s' = 4"
proof -
  have "pipe (example_sftp [data_reply 1 ''data'']) (data_reply 1 ''data'' @ [])"
    using example_pipe [of "[data_reply 1 ''data'']"] by (simp add: data_reply_def frame_def put32_def)
  from block_read [OF this example_reading, of 1024]
  obtain s' where "sshv2_get_next_file_chunk 1024 (example_sftp [data_reply 1 ''data'']) = Inr (Inr ''data'', s')"
      "sf_offset s' = (sf_offset (example_sftp [data_reply 1 ''data'']) + length ''data'') mod 2 ^ 64"
    by (auto simp del: mod_less)
  then show ?thesis by (simp add: example_sftp_def)
qed

text \<open>At the end of the file the server answers with a status.\<close>

lemma end_read:
  assumes "pipe s (status_reply i SSH_FX_EOF @ rest)" "reading s H"
  shows "\<exists>s'. sshv2_get_next_file_chunk n s = Inr (Inr [], s') \<and> pipe s' rest \<and> reading s' H \<and>
    sent s' = sent s @ frame SSH_FXP_READ (read_request (sf_id s) H (sf_offset s) n) \<and> sf_id s' = (sf_id s + 1) mod 2 ^ 32 \<and>
    sf_dont_log_status s' = sf_dont_log_status s \<and> sf_handle s' = sf_handle s \<and> sf_handle_len s' = sf_handle_len s \<and> sf_req s' = sf_req s"
proof -
  let ?p = "put32 i @ put32 SSH_FX_EOF"
  obtain s1 where s1: "pipe s1 (status_reply i SSH_FX_EOF @ rest)" "reading s1 H"
      "sent s1 = sent s @ frame SSH_FXP_READ (read_request (sf_id s) H (sf_offset s) n)" "sf_id s1 = (sf_id s + 1) mod 2 ^ 32"
      "sf_dont_log_status s1 = sf_dont_log_status s"
      "sf_handle s1 = sf_handle s" "sf_handle_len s1 = sf_handle_len s" "sf_req s1 = sf_req s"
      "sshv2_get_next_file_chunk n s =
      and_then (sshv2_read_response (-1)) (\<lambda>(ret, m).
         if ret < 0 then give (Inl ret)
         else if ret \<noteq> SSH_FXP_DATA then
           and_then (sshv2_buffer_get_int32 (Some SSH_FX_EOF) (skip_id m)) (\<lambda>(r, m).
             give (case r of Inl e \<Rightarrow> Inl e | Inr _ \<Rightarrow> Inr []))
         else
           and_then (need (ms_buffer m)) (\<lambda>mem.
           and_then (need (get32 (drop 4 mem))) (\<lambda>num.
             if num > n then and_then (sftp_fail GFTP_ERETRYABLE) (\<lambda>ret. give (Inl ret))
             else if length mem < 8 + num then stop Out_of_bounds
             else and_then (change (advance num)) (\<lambda>_. give (Inr (take num (drop 8 mem))))))) s1"
    using read_sent [OF assms, of n] by blast
  have "log_inside (sf_dont_log_status s1) SSH_FXP_STATUS (?p @ [NUL, NUL])" by (simp add: log_inside_def)
  then obtain s2 where s2: "sshv2_read_response (-1) s1 = Inr ((SSH_FXP_STATUS, message_of SSH_FXP_STATUS ?p), s2)" "pipe s2 rest" "only_read s1 s2"
    using message_read_whole [of s1 SSH_FXP_STATUS ?p rest] s1(1) by (auto simp: status_reply_def)
  have "rest_of (skip_id (message_of SSH_FXP_STATUS ?p)) (put32 SSH_FX_EOF @ [])"
    using rest_of_skip_id [of "message_of SSH_FXP_STATUS ?p" i "put32 SSH_FX_EOF"] by simp
  note code = rest_int32_expected [OF this]
  have "sshv2_get_next_file_chunk n s = Inr (Inr [], s2)"
    unfolding s1(9) and_then_def [where m = "sshv2_read_response (-1)"] s2(1) using code by (simp add: give_def)
  then show ?thesis
    using s1(2-8) s2(2) only_read_sel [OF s2(3)] reading_exchanged [OF only_read_exchanged [OF s2(3)]] by (simp add: sent_def)
qed


section \<open>Opening a file\<close>

lemma status_read:
  assumes "pipe s (frame t p @ rest)" "0 < t" "t < 128" "length p < 34000" "log_inside (sf_dont_log_status s) t (p @ [NUL, NUL])" "retry \<noteq> t"
  shows "\<exists>s'. sshv2_read_status_response retry t s = Inr ((t, message_of t p), s') \<and> pipe s' rest \<and> only_read s s'"
proof -
  obtain s1 where "sshv2_read_response (-1) s = Inr ((t, message_of t p), s1)" "pipe s1 rest" "only_read s s1"
    using message_read_whole [OF assms(1) _ assms(3-5)] assms(2) by auto
  then show ?thesis using assms(2,6) by (simp add: sshv2_read_status_response_def and_then_def give_def)
qed

lemma handle_stored:
  assumes "length (sf_handle s) = 260" "length H \<le> 255"
  shows "\<exists>s'. store_handle e (message_of SSH_FXP_HANDLE (put32 i @ H)) s = Inr (0, s') \<and> has_handle s' H \<and>
    (\<exists>h n. s' = s \<lparr> sf_handle := h, sf_handle_len := n \<rparr>)"
proof -
  let ?m = "message_of SSH_FXP_HANDLE (put32 i @ H)" and ?h = "put32 0 @ H @ drop (4 + length H) (sf_handle s)"
  have len: "ms_length ?m = length H + 5" by (simp add: message_of_def)
  have "overwrite 4 H (put32 0 @ drop 4 (sf_handle s)) = Some ?h"
    using assms by (simp add: overwrite_def add.commute)
  moreover have "(length H + 5 + 2 ^ 32 - 4) mod 2 ^ 32 = length H + 1"
  proof -
    have "length H + 5 + 2 ^ 32 - 4 = (length H + 1) + 2 ^ 32" by simp
    then have "(length H + 5 + 2 ^ 32 - 4) mod 2 ^ 32 = (length H + 1) mod 2 ^ 32" by (simp only: mod_add_self2)
    also have "\<dots> = length H + 1" using assms(2) by (intro mod_less) simp
    finally show ?thesis .
  qed
  ultimately have "store_handle e ?m s = Inr (0, s \<lparr> sf_handle := ?h, sf_handle_len := length H + 4 \<rparr>)"
    using assms(2) unfolding store_handle_def len by (simp add: act_simps len)
  moreover have "has_handle (s \<lparr> sf_handle := ?h, sf_handle_len := length H + 4 \<rparr>) H"
    using assms by (simp add: has_handle_def)
  ultimately show ?thesis by blast
qed

definition open_request :: "nat \<Rightarrow> string \<Rightarrow> nat \<Rightarrow> string" where
  "open_request i path mode = put32 i @ sshv2_add_string_to_buf path @ put32 mode @ put32 0"

lemma file_opened:
  assumes "pipe s (frame SSH_FXP_HANDLE (put32 i @ H) @ rest)" "f \<noteq> []" "hd f = CHR ''/''" "length (disk_string env f) < 33000"
    and "length (sf_handle s) = 260" "length H \<le> 255"
  shows "\<exists>s'. sshv2_open_file env f n mode s = Inr (0, s') \<and> pipe s' rest \<and> has_handle s' H \<and>
    sent s' = sent s @ frame SSH_FXP_OPEN (open_request (sf_id s) (disk_string env f) mode) \<and> sf_offset s' = nat (n mod 2 ^ 64) \<and>
    sf_id s' = (sf_id s + 1) mod 2 ^ 32 \<and> sf_transfer_buffer s' = sf_transfer_buffer s \<and> sf_req s' = sf_req s \<and>
    sf_dont_log_status s' = sf_dont_log_status s"
proof -
  let ?c = "open_request (sf_id s) (disk_string env f) mode"
  define s1 where "s1 = s \<lparr> sf_offset := nat (n mod 2 ^ 64), sf_id := (sf_id s + 1) mod 2 ^ 32 \<rparr>"
  have "pipe s1 (frame SSH_FXP_HANDLE (put32 i @ H) @ rest)" using assms(1) by (simp add: pipe_def s1_def)
  moreover have "length ?c < 33995" using assms(4) by (simp add: open_request_def sshv2_add_string_to_buf_def)
  ultimately obtain s2 where s2: "sshv2_send_command SSH_FXP_OPEN ?c s1 = Inr (0, s2)" "pipe s2 (frame SSH_FXP_HANDLE (put32 i @ H) @ rest)"
      "exchanged s1 (frame SSH_FXP_OPEN ?c) s2"
    using pipe_send by blast
  have "log_inside (sf_dont_log_status s2) SSH_FXP_HANDLE ((put32 i @ H) @ [NUL, NUL])" by (simp add: log_inside_def)
  then obtain s3 where s3: "sshv2_read_status_response SSH_FXP_STATUS SSH_FXP_HANDLE s2 = Inr ((SSH_FXP_HANDLE, message_of SSH_FXP_HANDLE (put32 i @ H)), s3)"
      "pipe s3 rest" "only_read s2 s3"
    using status_read [OF s2(2), of SSH_FXP_STATUS] assms(6) by auto
  have "length (sf_handle s3) = 260" using assms(5) exchanged_sel [OF s2(3)] only_read_sel [OF s3(3)] by (simp add: s1_def)
  then obtain s4 where s4: "store_handle GFTP_ERETRYABLE (message_of SSH_FXP_HANDLE (put32 i @ H)) s3 = Inr (0, s4)" "has_handle s4 H"
      "\<exists>h n. s4 = s3 \<lparr> sf_handle := h, sf_handle_len := n \<rparr>"
    using handle_stored [OF _ assms(6)] by blast
  have conn: "rq_protonum (sf_req s) = int GFTP_SSHV2_NUM" "0 < rq_datafd (sf_req s)" using assms(1) by (simp_all add: pipe_def)
  have init: "sshv2_initialize_string_with_path env f (s \<lparr> sf_offset := nat (n mod 2 ^ 64) \<rparr>) =
      Inr (put32 (sf_id s) @ sshv2_add_string_to_buf (disk_string env f), s1)"
    using assms(2,3) by (simp add: sshv2_initialize_string_with_path_def sftp_path_def sshv2_initialize_buffer_with_i18n_string_def
        sshv2_initialize_buffer_def act_simps s1_def)
  have "sshv2_open_file env f n mode s = Inr (0, s4)"
    using conn init s2(1) s3(1) s4(1) by (simp add: sshv2_open_file_def if_open_def act_simps open_request_def)
  moreover have "pipe s4 rest" using s3(2) s4(3) by (auto simp: pipe_def)
  moreover have "sent s4 = sent s @ frame SSH_FXP_OPEN ?c"
    using s2(3) s4(3) only_read_sel [OF s3(3)] by (auto simp: exchanged_def sent_def s1_def)
  ultimately show ?thesis
    using s4(2,3) exchanged_sel [OF s2(3)] only_read_sel [OF s3(3)] by (intro exI [of _ s4]) (auto simp: s1_def)
qed

end
