(* ===== verification/Sftp_Names.thy ===== *)
theory Sftp_Names
  imports Sftp_Sessions
begin

text \<open>The entries of a directory, as a server sends them, and what the module reads.\<close>


section \<open>Attributes\<close>

record sftp_name =
  sn_name :: string
  sn_longname :: string
  sn_size :: "nat option"
  sn_owner :: "(nat \<times> nat) option"
  sn_mode :: "nat option"
  sn_times :: "(nat \<times> nat) option"

definition flag :: "nat \<Rightarrow> 'a option \<Rightarrow> nat" where
  "flag b x = (if x = None then 0 else b)"

definition attr_flags :: "sftp_name \<Rightarrow> nat" where
  "attr_flags e = flag 1 (sn_size e) + flag 2 (sn_owner e) + flag 4 (sn_mode e) + flag 8 (sn_times e)"

definition opt_text :: "('a \<Rightarrow> string) \<Rightarrow> 'a option \<Rightarrow> string" where
  "opt_text f x = (case x of None \<Rightarrow> [] | Some a \<Rightarrow> f a)"

definition attr_text :: "sftp_name \<Rightarrow> string" where
  "attr_text e = put32 (attr_flags e) @ opt_text (\<lambda>n. put32 (n div 2 ^ 32) @ put32 n) (sn_size e) @
     opt_text (\<lambda>(u, g). put32 u @ put32 g) (sn_owner e) @ opt_text put32 (sn_mode e) @ opt_text (\<lambda>(a, t). put32 a @ put32 t) (sn_times e)"

definition small_numbers :: "sftp_name \<Rightarrow> bool" where
  "small_numbers e \<longleftrightarrow>
     (\<forall>u g. sn_owner e = Some (u, g) \<longrightarrow> u < 2 ^ 32 \<and> g < 2 ^ 32) \<and> (\<forall>n. sn_mode e = Some n \<longrightarrow> n < 2 ^ 32) \<and>
     (\<forall>a t. sn_times e = Some (a, t) \<longrightarrow> a < 2 ^ 32 \<and> t < 2 ^ 32)"

definition with_attrs :: "sftp_name \<Rightarrow> gftp_file \<Rightarrow> gftp_file" where
  "with_attrs e fle =
    (let fle = (case sn_size e of None \<Rightarrow> fle | Some n \<Rightarrow> fle \<lparr> gf_size := int n \<rparr>);
         fle = (case sn_owner e of None \<Rightarrow> fle | Some (u, g) \<Rightarrow> fle \<lparr> gf_user := Some (show32 u), gf_group := Some (show32 g) \<rparr>);
         fle = (case sn_mode e of None \<Rightarrow> fle | Some n \<Rightarrow> fle \<lparr> gf_st_mode := word_of_nat n \<rparr>)
     in case sn_times e of None \<Rightarrow> fle | Some (a, t) \<Rightarrow> fle \<lparr> gf_datetime := int t \<rparr>)"

text \<open>What is read of the size are its lower 32 bits.\<close>

definition cut_size :: "sftp_name \<Rightarrow> sftp_name" where
  "cut_size e = e \<lparr> sn_size := map_option (\<lambda>n. n mod 2 ^ 32) (sn_size e) \<rparr>"

lemma cut_size_sel [simp]:
  "sn_name (cut_size e) = sn_name e" "sn_owner (cut_size e) = sn_owner e" "sn_mode (cut_size e) = sn_mode e"
  "sn_times (cut_size e) = sn_times e" "sn_size (cut_size e) = map_option (\<lambda>n. n mod 2 ^ 32) (sn_size e)"
  by (simp_all add: cut_size_def)

lemma cut_size_small: "(\<And>n. sn_size e = Some n \<Longrightarrow> n < 2 ^ 32) \<Longrightarrow> cut_size e = e"
  by (cases "sn_size e") (simp_all add: cut_size_def)

definition skip_bytes :: "nat \<Rightarrow> message \<Rightarrow> message" where
  "skip_bytes n m = m \<lparr> ms_pos := ms_pos m + n \<rparr>"

lemma skip_bytes_simps [simp]:
  "ms_pos (skip_bytes n m) = ms_pos m + n" "ms_buffer (skip_bytes n m) = ms_buffer m" "ms_end (skip_bytes n m) = ms_end m"
  "skip_bytes n (skip_bytes k m) = skip_bytes (k + n) m" "skip_bytes 0 m = m"
  by (simp_all add: skip_bytes_def)

lemma rest_skip_bytes: "rest_of m (a @ bs) \<Longrightarrow> length a = n \<Longrightarrow> rest_of (skip_bytes n m) bs"
  unfolding skip_bytes_def by (rule rest_of_skip)

lemma rest_number: "rest_of m (put32 n @ bs) \<Longrightarrow> sshv2_buffer_get_int32 None m = give (Inr (n mod 2 ^ 32), skip_bytes 4 m)"
  using rest_int32 by (simp add: skip_bytes_def)

lemma rest_number_next: "rest_of m (put32 n @ bs) \<Longrightarrow> rest_of (skip_bytes 4 m) bs"
  by (rule rest_skip_bytes [where a = "put32 n"]) simp_all

lemma field_size:
  assumes "rest_of m (opt_text (\<lambda>n. put32 (n div 2 ^ 32) @ put32 n) x @ bs)"
  shows "\<exists>k. attr_size (x \<noteq> None) m fle = give (Inr (case x of None \<Rightarrow> fle | Some n \<Rightarrow> fle \<lparr> gf_size := int (n mod 2 ^ 32) \<rparr>), skip_bytes k m) \<and>
    rest_of (skip_bytes k m) bs"
proof (cases x)
  case None
  then show ?thesis using assms by (intro exI [of _ 0]) (simp add: attr_size_def opt_text_def)
next
  case (Some n)
  then have m: "rest_of m (put32 (n div 2 ^ 32) @ put32 n @ bs)" using assms by (simp add: opt_text_def)
  note n1 = rest_number [OF m] and m1 = rest_number_next [OF m]
  note n2 = rest_number [OF m1] and m2 = rest_number_next [OF m1]
  have "drop_bit 32 (n div 2 ^ 32 mod 2 ^ 32) = (0 :: nat)" by (simp add: drop_bit_eq_div)
  then have "sshv2_buffer_get_int64 m = give (Inr (n mod 2 ^ 32), skip_bytes 8 m)"
    using n1 n2 by (simp add: sshv2_buffer_get_int64_def)
  then show ?thesis using m2 Some by (intro exI [of _ 8]) (simp add: attr_size_def)
qed

lemma field_owner:
  assumes "rest_of m (opt_text (\<lambda>(u, g). put32 u @ put32 g) x @ bs)" "\<And>u g. x = Some (u, g) \<Longrightarrow> u < 2 ^ 32 \<and> g < 2 ^ 32"
  shows "\<exists>k num. attr_owner (x \<noteq> None) m fle = give (Inr (case x of None \<Rightarrow> fle
      | Some (u, g) \<Rightarrow> fle \<lparr> gf_user := Some (show32 u), gf_group := Some (show32 g) \<rparr>, num), skip_bytes k m) \<and> rest_of (skip_bytes k m) bs"
proof (cases x)
  case None
  then show ?thesis using assms(1) by (intro exI [of _ 0] exI [of _ None]) (simp add: attr_owner_def opt_text_def)
next
  case (Some p)
  obtain u g where p: "p = (u, g)" by (metis prod.collapse)
  then have m: "rest_of m (put32 u @ put32 g @ bs)" using assms(1) Some by (simp add: opt_text_def)
  note n1 = rest_number [OF m] and m1 = rest_number_next [OF m]
  note n2 = rest_number [OF m1] and m2 = rest_number_next [OF m1]
  have "u mod 2 ^ 32 = u" "g mod 2 ^ 32 = g" using assms(2) Some p by simp_all
  then show ?thesis using m2 Some p n1 n2 by (intro exI [of _ 8] exI [of _ "Some g"]) (simp add: attr_owner_def)
qed

lemma field_mode:
  assumes "rest_of m (opt_text put32 x @ bs)" "\<And>n. x = Some n \<Longrightarrow> n < 2 ^ 32"
  shows "\<exists>k. attr_field (x \<noteq> None) m = give (Inr x, skip_bytes k m) \<and> rest_of (skip_bytes k m) bs"
proof (cases x)
  case None
  then show ?thesis using assms(1) by (intro exI [of _ 0]) (simp add: attr_field_def opt_text_def)
next
  case (Some n)
  then have m: "rest_of m (put32 n @ bs)" using assms(1) by (simp add: opt_text_def)
  have "n mod 2 ^ 32 = n" using assms(2) Some by simp
  then show ?thesis
    using rest_number [OF m] rest_number_next [OF m] Some by (intro exI [of _ 4]) (simp add: attr_field_def)
qed

lemma field_times:
  assumes "rest_of m (opt_text (\<lambda>(a, t). put32 a @ put32 t) x @ bs)" "\<And>a t. x = Some (a, t) \<Longrightarrow> a < 2 ^ 32 \<and> t < 2 ^ 32"
  shows "\<exists>k. attr_times (x \<noteq> None) num m fle = give (Inr (case x of None \<Rightarrow> fle | Some (a, t) \<Rightarrow> fle \<lparr> gf_datetime := int t \<rparr>), skip_bytes k m) \<and>
    rest_of (skip_bytes k m) bs"
proof (cases x)
  case None
  then show ?thesis using assms(1) by (intro exI [of _ 0]) (simp add: attr_times_def opt_text_def)
next
  case (Some p)
  obtain a t where p: "p = (a, t)" by (metis prod.collapse)
  then have m: "rest_of m (put32 a @ put32 t @ bs)" using assms(1) Some by (simp add: opt_text_def)
  note n1 = rest_number [OF m] and m1 = rest_number_next [OF m]
  note n2 = rest_number [OF m1] and m2 = rest_number_next [OF m1]
  have "t mod 2 ^ 32 = t" using assms(2) Some p by simp
  then show ?thesis using m2 Some p n1 n2 by (intro exI [of _ 8]) (simp add: attr_times_def)
qed

lemma some_flags:
  "attr_flags e = of_bool (sn_size e \<noteq> None) + (of_bool (sn_owner e \<noteq> None) * 2 + (of_bool (sn_mode e \<noteq> None) * 4 + of_bool (sn_times e \<noteq> None) * 8))"
  by (simp add: attr_flags_def flag_def)

lemma all_bits:
  "\<forall>a b c d. has_bit (of_bool a + (of_bool b * 2 + (of_bool c * 4 + of_bool d * 8))) 1 = a"
  "\<forall>a b c d. has_bit (of_bool a + (of_bool b * 2 + (of_bool c * 4 + of_bool d * 8))) 2 = b"
  "\<forall>a b c d. has_bit (of_bool a + (of_bool b * 2 + (of_bool c * 4 + of_bool d * 8))) 4 = c"
  "\<forall>a b c d. has_bit (of_bool a + (of_bool b * 2 + (of_bool c * 4 + of_bool d * 8))) 8 = d"
  "\<forall>a b c d. \<not> has_bit (of_bool a + (of_bool b * 2 + (of_bool c * 4 + of_bool d * 8))) 0x80000000"
  by (simp_all only: all_bool_eq of_bool_eq mult_1 mult_0 add_0 add_0_right) (simp_all add: has_bit_def numeral_3_eq_3 [symmetric])

lemma flag_bits:
  "has_bit (attr_flags e) SSH_FILEXFER_ATTR_SIZE \<longleftrightarrow> sn_size e \<noteq> None"
  "has_bit (attr_flags e) SSH_FILEXFER_ATTR_UIDGID \<longleftrightarrow> sn_owner e \<noteq> None"
  "has_bit (attr_flags e) SSH_FILEXFER_ATTR_PERMISSIONS \<longleftrightarrow> sn_mode e \<noteq> None"
  "has_bit (attr_flags e) SSH_FILEXFER_ATTR_ACMODTIME \<longleftrightarrow> sn_times e \<noteq> None"
  "\<not> has_bit (attr_flags e) SSH_FILEXFER_ATTR_EXTENDED"
  unfolding some_flags SSH_FILEXFER_ATTR_SIZE_def SSH_FILEXFER_ATTR_UIDGID_def SSH_FILEXFER_ATTR_PERMISSIONS_def
    SSH_FILEXFER_ATTR_ACMODTIME_def SSH_FILEXFER_ATTR_EXTENDED_def
  by (rule all_bits [rule_format])+

lemma attributes_read:
  assumes "rest_of m (attr_text e @ bs)" "small_numbers e"
  shows "\<exists>k. sshv2_decode_file_attributes m fle = give ((0, with_attrs (cut_size e) fle), skip_bytes k m) \<and> rest_of (skip_bytes k m) bs"
proof -
  have m: "rest_of m (put32 (attr_flags e) @ opt_text (\<lambda>n. put32 (n div 2 ^ 32) @ put32 n) (sn_size e) @
     opt_text (\<lambda>(u, g). put32 u @ put32 g) (sn_owner e) @ opt_text put32 (sn_mode e) @ opt_text (\<lambda>(a, t). put32 a @ put32 t) (sn_times e) @ bs)"
    using assms(1) by (simp add: attr_text_def)
  have "attr_flags e < 16" by (simp add: attr_flags_def flag_def)
  then have f: "attr_flags e mod 2 ^ 32 = attr_flags e" by simp
  note n0 = rest_number [OF m, unfolded f] and m0 = rest_number_next [OF m]
  obtain k1 where k1: "attr_size (sn_size e \<noteq> None) (skip_bytes 4 m) fle =
      give (Inr (case sn_size e of None \<Rightarrow> fle | Some n \<Rightarrow> fle \<lparr> gf_size := int (n mod 2 ^ 32) \<rparr>), skip_bytes (4 + k1) m)"
      and m1: "rest_of (skip_bytes (4 + k1) m) (opt_text (\<lambda>(u, g). put32 u @ put32 g) (sn_owner e) @ opt_text put32 (sn_mode e) @
        opt_text (\<lambda>(a, t). put32 a @ put32 t) (sn_times e) @ bs)"
    using field_size [OF m0, of fle] by auto
  define f1 where "f1 = (case sn_size e of None \<Rightarrow> fle | Some n \<Rightarrow> fle \<lparr> gf_size := int (n mod 2 ^ 32) \<rparr>)"
  obtain k2 num where k2: "attr_owner (sn_owner e \<noteq> None) (skip_bytes (4 + k1) m) f1 = give (Inr (case sn_owner e of None \<Rightarrow> f1
      | Some (u, g) \<Rightarrow> f1 \<lparr> gf_user := Some (show32 u), gf_group := Some (show32 g) \<rparr>, num), skip_bytes (4 + k1 + k2) m)"
      and m2: "rest_of (skip_bytes (4 + k1 + k2) m) (opt_text put32 (sn_mode e) @ opt_text (\<lambda>(a, t). put32 a @ put32 t) (sn_times e) @ bs)"
    using field_owner [OF m1, of f1] assms(2) by (auto simp: small_numbers_def)
  define f2 where "f2 = (case sn_owner e of None \<Rightarrow> f1 | Some (u, g) \<Rightarrow> f1 \<lparr> gf_user := Some (show32 u), gf_group := Some (show32 g) \<rparr>)"
  obtain k3 where k3: "attr_field (sn_mode e \<noteq> None) (skip_bytes (4 + k1 + k2) m) = give (Inr (sn_mode e), skip_bytes (4 + k1 + k2 + k3) m)"
      and m3: "rest_of (skip_bytes (4 + k1 + k2 + k3) m) (opt_text (\<lambda>(a, t). put32 a @ put32 t) (sn_times e) @ bs)"
    using field_mode [OF m2] assms(2) by (auto simp: small_numbers_def)
  define f3 where "f3 = (case sn_mode e of None \<Rightarrow> f2 | Some n \<Rightarrow> f2 \<lparr> gf_st_mode := word_of_nat n \<rparr>)"
  obtain k4 where k4: "attr_times (sn_times e \<noteq> None) (if sn_mode e = None then num else sn_mode e) (skip_bytes (4 + k1 + k2 + k3) m) f3 =
      give (Inr (case sn_times e of None \<Rightarrow> f3 | Some (a, t) \<Rightarrow> f3 \<lparr> gf_datetime := int t \<rparr>), skip_bytes (4 + k1 + k2 + k3 + k4) m)"
      and m4: "rest_of (skip_bytes (4 + k1 + k2 + k3 + k4) m) bs"
    using field_times [OF m3, of "if sn_mode e = None then num else sn_mode e" f3] assms(2) by (auto simp: small_numbers_def)
  have "(case map_option (\<lambda>n. n mod 2 ^ 32) (sn_size e) of None \<Rightarrow> fle | Some n \<Rightarrow> fle \<lparr> gf_size := int n \<rparr>) = f1"
    by (simp add: f1_def split: option.split)
  then have all: "with_attrs (cut_size e) fle = (case sn_times e of None \<Rightarrow> f3 | Some (a, t) \<Rightarrow> f3 \<lparr> gf_datetime := int t \<rparr>)"
    by (simp only: with_attrs_def Let_def f2_def f3_def cut_size_sel)
  have "sshv2_decode_file_attributes m fle = give ((0, with_attrs (cut_size e) fle), skip_bytes (4 + k1 + k2 + k3 + k4) m)"
    unfolding sshv2_decode_file_attributes_def n0 and_then_give prod.case sum.case flag_bits k1 f1_def [symmetric] k2 f2_def [symmetric] k3
      f3_def [symmetric] Let_def k4
    by (simp only: attr_field_def flag_bits if_False and_then_give prod.case sum.case skip_extended.simps option.case all)
  then show ?thesis using m4 by blast
qed

section \<open>Entries\<close>

definition entry_bytes :: "sftp_name \<Rightarrow> string" where
  "entry_bytes e = put32 (length (sn_name e)) @ sn_name e @ put32 (length (sn_longname e)) @ sn_longname e @ attr_text e"

definition name_ok :: "sftp_name \<Rightarrow> bool" where
  "name_ok e \<longleftrightarrow> length (sn_name e) \<le> 34000 \<and> length (sn_longname e) \<le> 34000 \<and> small_numbers e"

definition entry_read :: "sftp_name \<Rightarrow> gftp_file" where
  "entry_read e = with_attrs e (zero_file \<lparr> gf_file := Some (c_text (sn_name e)) \<rparr>)"

lemma rest_string_skip:
  assumes "rest_of m (put32 (length str) @ str @ bs)" "length str \<le> 34000"
  shows "sshv2_buffer_get_string m = give (Some str, skip_bytes (4 + length str) m)" "rest_of (skip_bytes (4 + length str) m) bs"
  using rest_string [OF assms] by (simp_all add: skip_bytes_def add.assoc)

lemma name_read:
  assumes "rest_of (sf_message s) (entry_bytes e @ bs)" "name_ok e" "0 < sf_count s" "sf_count s < 2 ^ 32"
  shows "\<exists>k. 0 < k \<and> next_name s = Inr ((int k, entry_read (cut_size e)), s \<lparr> sf_message := skip_bytes k (sf_message s), sf_count := sf_count s - 1 \<rparr>) \<and>
    rest_of (skip_bytes k (sf_message s)) bs"
proof -
  let ?m = "sf_message s" and ?k = "4 + length (sn_name e)" and ?l = "4 + length (sn_longname e)"
  have m: "rest_of ?m (put32 (length (sn_name e)) @ sn_name e @ put32 (length (sn_longname e)) @ sn_longname e @ attr_text e @ bs)"
    using assms(1) by (simp add: entry_bytes_def)
  note n1 = rest_string_skip [OF m]
  have ok: "length (sn_name e) \<le> 34000" "length (sn_longname e) \<le> 34000" "small_numbers e" using assms(2) by (simp_all add: name_ok_def)
  note n2 = rest_string_skip [OF n1(2) [OF ok(1)] ok(2)]
  obtain k where k: "sshv2_decode_file_attributes (skip_bytes (?k + ?l) ?m) (zero_file \<lparr> gf_file := Some (c_text (sn_name e)) \<rparr>) =
      give ((0, entry_read (cut_size e)), skip_bytes (?k + ?l + k) ?m)" "rest_of (skip_bytes (?k + ?l + k) ?m) bs"
    using attributes_read [OF n2(2) ok(3)] by (auto simp: entry_read_def)
  have buf: "ms_buffer ?m \<noteq> None" using assms(1) by (auto simp: rest_of_def)
  have cnt: "(sf_count s + 4294967296 - Suc 0) mod 4294967296 = sf_count s - Suc 0"
  proof -
    obtain c where "sf_count s = Suc c" using assms(3) by (cases "sf_count s") auto
    then show ?thesis using assms(4) by simp
  qed
  have "next_name s = Inr ((int (?k + ?l + k), entry_read (cut_size e)), s \<lparr> sf_message := skip_bytes (?k + ?l + k) ?m, sf_count := sf_count s - 1 \<rparr>)"
    using n1(1) [OF ok(1)] n2(1) k(1) buf cnt by (simp add: next_name_def act_simps Let_def)
  then show ?thesis using k(2) by (intro exI [of _ "?k + ?l + k"]) simp
qed

text \<open>An entry of a message that has come is handed out.\<close>

lemma next_file_counted:
  assumes "pipe s rest" "rest_of (sf_message s) (entry_bytes e @ bs)" "name_ok e" "0 < sf_count s" "sf_count s < 2 ^ 32"
  shows "\<exists>k s'. 0 < k \<and> sshv2_get_next_file fd s = Inr ((int k, entry_read (cut_size e)), s') \<and> pipe s' rest \<and> rest_of (sf_message s') bs \<and>
    sf_count s' = sf_count s - 1 \<and> sent s' = sent s \<and> sf_id s' = sf_id s"
proof -
  define s1 where "s1 = on_sf_req (\<lambda>rq. if rq_last_dir_entry rq \<noteq> None then rq \<lparr> rq_last_dir_entry := None, rq_last_dir_entry_len := 0 \<rparr> else rq) s"
  have s1: "sf_message s1 = sf_message s" "sf_count s1 = sf_count s" "pipe s1 rest" "sent s1 = sent s" "sf_id s1 = sf_id s"
    using assms(1) by (simp_all add: s1_def on_sf_req_def pipe_def sent_def)
  obtain k where k: "0 < k" "next_name s1 = Inr ((int k, entry_read (cut_size e)), s1 \<lparr> sf_message := skip_bytes k (sf_message s1), sf_count := sf_count s1 - 1 \<rparr>)"
      "rest_of (skip_bytes k (sf_message s1)) bs"
    using name_read [of s1 e bs] assms(2-5) s1(1,2) by auto
  have "sshv2_get_next_file fd s = next_name s1"
    using assms(1,4) by (simp add: sshv2_get_next_file_def act_simps s1_def pipe_def)
  then show ?thesis
    using k s1 by (intro exI [of _ k]) (simp add: pipe_def sent_def)
qed

text \<open>Reading the entries one after the other.\<close>

fun next_files :: "nat \<Rightarrow> int \<Rightarrow> (int \<times> gftp_file) list sftp_act" where
  "next_files 0 fd = give []"
| "next_files (Suc n) fd = and_then (sshv2_get_next_file fd) (\<lambda>r. and_then (next_files n fd) (\<lambda>rs. give (r # rs)))"

lemma entries_counted:
  assumes "pipe s rest" "rest_of (sf_message s) (concat (map entry_bytes es) @ bs)" "\<forall>e \<in> set es. name_ok e" "sf_count s = length es"
    "length es < 2 ^ 32"
  shows "\<exists>rs s'. next_files (length es) fd s = Inr (rs, s') \<and> map snd rs = map (entry_read \<circ> cut_size) es \<and> (\<forall>r \<in> set rs. 0 < fst r) \<and>
    pipe s' rest \<and> sf_count s' = 0 \<and> sent s' = sent s \<and> sf_id s' = sf_id s"
  using assms
proof (induction es arbitrary: s)
  case Nil
  then show ?case by (simp add: give_def)
next
  case (Cons e es)
  obtain k s1 where s1: "0 < k" "sshv2_get_next_file fd s = Inr ((int k, entry_read (cut_size e)), s1)" "pipe s1 rest"
      "rest_of (sf_message s1) (concat (map entry_bytes es) @ bs)" "sf_count s1 = length es" "sent s1 = sent s" "sf_id s1 = sf_id s"
    using next_file_counted [OF Cons.prems(1), of e "concat (map entry_bytes es) @ bs" fd] Cons.prems(2-5) by auto
  obtain rs s2 where "next_files (length es) fd s1 = Inr (rs, s2)" "map snd rs = map (entry_read \<circ> cut_size) es" "\<forall>r \<in> set rs. 0 < fst r"
      "pipe s2 rest" "sf_count s2 = 0" "sent s2 = sent s1" "sf_id s2 = sf_id s1"
    using Cons.IH [OF s1(3,4)] Cons.prems(3,5) s1(5) by auto
  then show ?case using s1 by (auto simp: act_simps)
qed

lemma handle_sent:
  assumes "pipe s bs" "has_handle s H"
  shows "\<exists>s'. send_handle t s = Inr (0, s') \<and> pipe s' bs \<and> has_handle s' H \<and> sent s' = sent s @ frame t (put32 (sf_id s) @ H) \<and>
    sf_id s' = (sf_id s + 1) mod 2 ^ 32 \<and> sf_req s' = sf_req s \<and> sf_count s' = sf_count s \<and> sf_message s' = sf_message s \<and>
    sf_dont_log_status s' = sf_dont_log_status s"
proof -
  have h: "length (sf_handle s) = 260" "sf_handle_len s = 4 + length H" "length H \<le> 256" "take (length H) (drop 4 (sf_handle s)) = H"
    using assms(2) by (simp_all add: has_handle_def)
  let ?h = "put32 (sf_id s) @ drop 4 (sf_handle s)"
  let ?s = "s \<lparr> sf_handle := ?h, sf_id := (sf_id s + 1) mod 2 ^ 32 \<rparr>"
  have "overwrite 0 (put32 (sf_id s)) (sf_handle s) = Some ?h" using h(1) by (simp add: overwrite_def)
  then have num: "number_handle s = Inr ((), ?s)"
    by (simp add: number_handle_def sshv2_initialize_buffer_def act_simps)
  have t: "take (4 + length H) ?h = put32 (sf_id s) @ H" using h(4) by simp
  have "pipe ?s bs" using assms(1) by (simp add: pipe_def)
  moreover have "length (put32 (sf_id s) @ H) < 33995" using h(3) by simp
  ultimately obtain s1 where s1: "sshv2_send_command t (put32 (sf_id s) @ H) ?s = Inr (0, s1)" "pipe s1 bs" "exchanged ?s (frame t (put32 (sf_id s) @ H)) s1"
    using pipe_send by blast
  have "send_handle t s = Inr (0, s1)" using num s1(1) t h(2) by (simp add: send_handle_def act_simps)
  then show ?thesis
    using s1(2,3) exchanged_sel [OF s1(3)] h by (intro exI [of _ s1]) (simp add: has_handle_def exchanged_def sent_def)
qed

lemma entries_few: "length es \<le> length (concat (map entry_bytes es))"
proof (induction es)
  case (Cons e es)
  moreover have "0 < length (entry_bytes e)" by (simp add: entry_bytes_def)
  ultimately show ?case by (simp only: list.map concat.simps length_append list.size)
qed simp

lemma read_response_fd: "0 < rq_datafd (sf_req s) \<Longrightarrow> sshv2_read_response (rq_datafd (sf_req s)) s = sshv2_read_response (-1) s"
  by (simp add: sshv2_read_response_def and_then_def get_state_def)

text \<open>The first entry brings the message.\<close>

lemma first_name:
  assumes "pipe s (frame SSH_FXP_NAME (put32 i @ put32 n @ bs) @ rest)" "has_handle s H" "sf_count s = 0" "\<not> rq_cached (sf_req s)"
    and "length bs < 33900" "n < 2 ^ 32"
  shows "\<exists>s'. sshv2_get_next_file (rq_datafd (sf_req s)) s = next_name s' \<and> pipe s' rest \<and> rest_of (sf_message s') bs \<and> sf_count s' = n \<and>
    sent s' = sent s @ frame SSH_FXP_READDIR (put32 (sf_id s) @ H)"
proof -
  let ?p = "put32 i @ put32 n @ bs" and ?fd = "rq_datafd (sf_req s)"
  let ?clear = "\<lambda>rq. if rq_last_dir_entry rq \<noteq> None then rq \<lparr> rq_last_dir_entry := None, rq_last_dir_entry_len := 0 \<rparr> else rq"
  define s1 where "s1 = (on_sf_req ?clear s) \<lparr> sf_message := empty_message \<rparr>"
  have fd: "0 < ?fd" "rq_protonum (sf_req s) = int GFTP_SSHV2_NUM" using assms(1) by (simp_all add: pipe_def)
  have p1: "pipe s1 (frame SSH_FXP_NAME ?p @ rest)" "has_handle s1 H" "rq_datafd (sf_req s1) = ?fd" "sf_id s1 = sf_id s" "sent s1 = sent s"
      "\<not> rq_cached (sf_req s1)"
    using assms(1,2,4) by (simp_all add: s1_def on_sf_req_def pipe_def has_handle_def sent_def)
  obtain s2 where s2: "send_handle SSH_FXP_READDIR s1 = Inr (0, s2)" "pipe s2 (frame SSH_FXP_NAME ?p @ rest)"
      "sent s2 = sent s1 @ frame SSH_FXP_READDIR (put32 (sf_id s1) @ H)" "sf_req s2 = sf_req s1"
    using handle_sent [OF p1(1,2)] by blast
  have "log_inside (sf_dont_log_status s2) SSH_FXP_NAME (?p @ [NUL, NUL])" by (simp add: log_inside_def)
  then obtain s3 where s3: "sshv2_read_response (-1) s2 = Inr ((SSH_FXP_NAME, message_of SSH_FXP_NAME ?p), s3)" "pipe s3 rest" "only_read s2 s3"
    using message_read_whole [OF s2(2)] assms(5) by auto
  have resp: "sshv2_read_response ?fd s2 = Inr ((SSH_FXP_NAME, message_of SSH_FXP_NAME ?p), s3)"
    using read_response_fd [of s2] s3(1) fd(1) s2(4) p1(3) by simp
  define m where "m = message_of SSH_FXP_NAME ?p"
  have req3: "\<not> rq_cached (sf_req s3)" using only_read_sel [OF s3(3)] s2(4) p1(6) by simp
  obtain mb where mb: "message_bytes m = Some mb" by (simp add: message_bytes_def m_def)
  define s4 where "s4 = on_sf_req (\<lambda>rq. rq \<lparr> rq_last_dir_entry := Some mb, rq_last_dir_entry_len := length mb \<rparr>) (s3 \<lparr> sf_message := m \<rparr>)"
  have keep: "keep_message (s3 \<lparr> sf_message := m \<rparr>) = Inr ((), s4)"
    using req3 mb by (simp add: keep_message_def act_simps s4_def)
  have m1: "rest_of (skip_id m) (put32 n @ bs)" using rest_of_skip_id [of m i] by (simp add: m_def)
  have num: "sshv2_buffer_get_int32 None (skip_id m) = give (Inr n, skip_bytes 4 (skip_id m))"
    using rest_number [OF m1] assms(6) by simp
  let ?s' = "s4 \<lparr> sf_message := skip_bytes 4 (skip_id m), sf_count := n \<rparr>"
  have ask: "ask_names (on_sf_req ?clear s) = Inr (0, s2)"
  proof -
    have "\<not> rq_cached (sf_req (on_sf_req ?clear s))" using assms(4) by (simp add: on_sf_req_def)
    then show ?thesis using s2(1) by (simp add: ask_names_def act_simps s1_def)
  qed
  have "sshv2_get_next_file ?fd s = next_name ?s'"
    using fd(2) assms(3) ask resp [folded m_def] keep num by (simp add: sshv2_get_next_file_def act_simps)
  moreover have "pipe ?s' rest" using s3(2) by (simp add: s4_def on_sf_req_def pipe_def)
  moreover have "sent ?s' = sent s @ frame SSH_FXP_READDIR (put32 (sf_id s) @ H)"
    using s2(3) p1(4,5) only_read_sel [OF s3(3)] by (simp add: s4_def on_sf_req_def sent_def)
  ultimately show ?thesis using rest_number_next [OF m1] by (intro exI [of _ ?s']) simp
qed

text \<open>C15: A directory is asked for once; its entries come out in the order of the message, with the attributes the server
  gave, whatever pieces the message arrives in.\<close>

theorem names_listed:
  assumes "pipe s (frame SSH_FXP_NAME (put32 i @ put32 (length es) @ concat (map entry_bytes es)) @ rest)" "has_handle s H"
    and "sf_count s = 0" "\<not> rq_cached (sf_req s)" "es \<noteq> []" "\<forall>e \<in> set es. name_ok e \<and> (\<forall>n. sn_size e = Some n \<longrightarrow> n < 2 ^ 32)"
    and "length (concat (map entry_bytes es)) < 33900"
  shows "\<exists>rs s'. next_files (length es) (rq_datafd (sf_req s)) s = Inr (rs, s') \<and> map snd rs = map entry_read es \<and> (\<forall>r \<in> set rs. 0 < fst r) \<and>
    pipe s' rest \<and> sent s' = sent s @ frame SSH_FXP_READDIR (put32 (sf_id s) @ H)"
proof -
  obtain e es' where es: "es = e # es'" using assms(5) by (cases es) auto
  let ?bs = "concat (map entry_bytes es)" and ?fd = "rq_datafd (sf_req s)"
  have few: "length es < 33900" using entries_few [of es] assms(7) by linarith
  obtain s1 where s1: "sshv2_get_next_file ?fd s = next_name s1" "pipe s1 rest" "rest_of (sf_message s1) ?bs" "sf_count s1 = length es"
      "sent s1 = sent s @ frame SSH_FXP_READDIR (put32 (sf_id s) @ H)"
    using first_name [OF assms(1-4) assms(7)] few by auto
  have r1: "rest_of (sf_message s1) (entry_bytes e @ concat (map entry_bytes es'))" using s1(3) es by simp
  obtain k where k: "0 < k" "next_name s1 = Inr ((int k, entry_read (cut_size e)), s1 \<lparr> sf_message := skip_bytes k (sf_message s1), sf_count := sf_count s1 - 1 \<rparr>)"
      "rest_of (skip_bytes k (sf_message s1)) (concat (map entry_bytes es'))"
    using name_read [OF r1] assms(6) es s1(4) few by auto
  define s2 where "s2 = s1 \<lparr> sf_message := skip_bytes k (sf_message s1), sf_count := sf_count s1 - 1 \<rparr>"
  have s2: "pipe s2 rest" "rest_of (sf_message s2) (concat (map entry_bytes es') @ [])" "sf_count s2 = length es'" "sent s2 = sent s1"
    using s1(2,4) k(3) es by (simp_all add: s2_def pipe_def sent_def)
  have "\<forall>e \<in> set es'. name_ok e" "length es' < 2 ^ 32" using assms(6) few es by auto
  from entries_counted [OF s2(1,2) this(1) s2(3) this(2)]
  obtain rs s3 where "next_files (length es') ?fd s2 = Inr (rs, s3)" "map snd rs = map (entry_read \<circ> cut_size) es'" "\<forall>r \<in> set rs. 0 < fst r"
      "pipe s3 rest" "sent s3 = sent s2"
    by metis
  moreover have "sshv2_get_next_file ?fd s = Inr ((int k, entry_read e), s2)"
    using s1(1) k(2) cut_size_small [of e] assms(6) es by (simp add: s2_def)
  moreover have "map (entry_read \<circ> cut_size) es' = map entry_read es'"
    using assms(6) es by (auto intro!: arg_cong [where f = entry_read] cut_size_small)
  ultimately show ?thesis using s1(5) k(1) s2(4) es by (auto simp: act_simps)
qed

definition example_name :: sftp_name where
  "example_name = \<lparr> sn_name = ''a'', sn_longname = ''-rw-r--r-- a'', sn_size = Some 5, sn_owner = None, sn_mode = Some 0x81A4, sn_times = None \<rparr>"

theorem names_listed_witness:
  "\<exists>rs s'. next_files 2 7 (example_sftp [frame 104 (put32 1 @ put32 2 @ entry_bytes example_name @ entry_bytes example_name)]) = Inr (rs, s') \<and>
    map snd rs = [entry_read example_name, entry_read example_name]"
proof -
  let ?f = "frame 104 (put32 1 @ put32 2 @ entry_bytes example_name @ entry_bytes example_name)"
  let ?s = "example_sftp [?f]"
  have "?f \<noteq> []" by (simp add: frame_def put32_def)
  then have p: "pipe ?s (frame SSH_FXP_NAME (put32 1 @ put32 (length [example_name, example_name]) @
      concat (map entry_bytes [example_name, example_name])) @ [])"
    using example_pipe [of "[?f]"] by (simp add: numeral_2_eq_2)
  have h: "has_handle ?s example_handle" "sf_count ?s = 0" "\<not> rq_cached (sf_req ?s)" "rq_datafd (sf_req ?s) = 7"
    by (simp_all add: has_handle_def example_sftp_def example_handle_def zero_request_def)
  have ok: "\<forall>e \<in> set [example_name, example_name]. name_ok e \<and> (\<forall>n. sn_size e = Some n \<longrightarrow> n < 2 ^ 32)"
    by (simp add: name_ok_def small_numbers_def example_name_def)
  have few: "length (concat (map entry_bytes [example_name, example_name])) < 33900"
    by (simp add: entry_bytes_def attr_text_def opt_text_def example_name_def)
  from names_listed [OF p h(1-3) _ ok few] show ?thesis unfolding h(4) by (auto simp: numeral_2_eq_2 simp del: next_files.simps)
qed

end
