(* ===== verification/Sftp_Files.thy ===== *)
theory Sftp_Files
  imports Sftp_Names
begin

text \<open>A whole file over SFTP: it is opened, its size is asked for, its blocks are read up to the end, and it is closed.\<close>


section \<open>Blocks up to the end\<close>

fun read_blocks :: "nat \<Rightarrow> nat \<Rightarrow> (int + string) list sftp_act" where
  "read_blocks 0 n = give []"
| "read_blocks (Suc k) n = and_then (sshv2_get_next_file_chunk n) (\<lambda>r. and_then (read_blocks k n) (\<lambda>rs. give (r # rs)))"

text \<open>The commands for the blocks \<open>ds\<close>: their numbers follow each other, and each asks at the offset behind the one before.\<close>

fun read_requests :: "nat \<Rightarrow> string \<Rightarrow> nat \<Rightarrow> nat \<Rightarrow> string list \<Rightarrow> string" where
  "read_requests i H off n [] = []"
| "read_requests i H off n (d # ds) =
    frame SSH_FXP_READ (read_request i H off n) @ read_requests ((i + 1) mod 2 ^ 32) H ((off + length d) mod 2 ^ 64) n ds"

lemma read_requests_append:
  "read_requests i H off n (ds @ es) = read_requests i H off n ds @
    read_requests ((i + length ds) mod 2 ^ 32) H ((off + length (concat ds)) mod 2 ^ 64) n es"
  if "i < 2 ^ 32" "off < 2 ^ 64"
  using that
proof (induction ds arbitrary: i off)
  case (Cons d ds)
  show ?case by (simp add: Cons.IH mod_simps add.assoc add.commute add.left_commute)
qed simp

text \<open>The server numbers its answers as it likes: the module does not look at the numbers.\<close>

definition data_replies :: "(nat \<times> string) list \<Rightarrow> string" where
  "data_replies rs = concat (map (\<lambda>(i, d). data_reply i d) rs)"

lemma blocks_read:
  assumes "pipe s (data_replies rs @ rest)" "reading s H" "\<forall>(i, d) \<in> set rs. length d \<le> n \<and> length d \<le> 33000" "sf_id s < 2 ^ 32" "sf_offset s < 2 ^ 64"
  shows "\<exists>s'. read_blocks (length rs) n s = Inr (map (Inr \<circ> snd) rs, s') \<and> pipe s' rest \<and> reading s' H \<and>
    sent s' = sent s @ read_requests (sf_id s) H (sf_offset s) n (map snd rs) \<and>
    sf_id s' = (sf_id s + length rs) mod 2 ^ 32 \<and> sf_offset s' = (sf_offset s + length (concat (map snd rs))) mod 2 ^ 64 \<and>
    sf_dont_log_status s' = sf_dont_log_status s \<and> sf_handle s' = sf_handle s \<and> sf_handle_len s' = sf_handle_len s \<and> sf_req s' = sf_req s"
  using assms
proof (induction rs arbitrary: s)
  case Nil
  then show ?case by (simp add: give_def data_replies_def)
next
  case (Cons r rs)
  obtain i d where r: "r = (i, d)" by (metis prod.collapse)
  have p: "pipe s (data_reply i d @ data_replies rs @ rest)" using Cons.prems(1) by (simp add: r data_replies_def)
  have len: "length d \<le> n" "length d \<le> 33000" using Cons.prems(3) by (simp_all add: r)
  obtain s1 where s1: "sshv2_get_next_file_chunk n s = Inr (Inr d, s1)" "pipe s1 (data_replies rs @ rest)" "reading s1 H"
      "sent s1 = sent s @ frame SSH_FXP_READ (read_request (sf_id s) H (sf_offset s) n)"
      "sf_offset s1 = (sf_offset s + length d) mod 2 ^ 64" "sf_id s1 = (sf_id s + 1) mod 2 ^ 32"
      "sf_dont_log_status s1 = sf_dont_log_status s" "sf_handle s1 = sf_handle s" "sf_handle_len s1 = sf_handle_len s" "sf_req s1 = sf_req s"
    using block_read [OF p Cons.prems(2) len] by blast
  obtain s2 where s2: "read_blocks (length rs) n s1 = Inr (map (Inr \<circ> snd) rs, s2)" "pipe s2 rest" "reading s2 H"
      "sent s2 = sent s1 @ read_requests (sf_id s1) H (sf_offset s1) n (map snd rs)" "sf_id s2 = (sf_id s1 + length rs) mod 2 ^ 32"
      "sf_offset s2 = (sf_offset s1 + length (concat (map snd rs))) mod 2 ^ 64" "sf_dont_log_status s2 = sf_dont_log_status s1"
      "sf_handle s2 = sf_handle s1" "sf_handle_len s2 = sf_handle_len s1" "sf_req s2 = sf_req s1"
    using Cons.IH [OF s1(2,3)] Cons.prems(3) s1(5,6) by auto
  have "read_blocks (length (r # rs)) n s = Inr (map (Inr \<circ> snd) (r # rs), s2)"
    using s1(1) s2(1) by (simp add: r act_simps)
  moreover have "sent s2 = sent s @ read_requests (sf_id s) H (sf_offset s) n (map snd (r # rs))"
    using s1(4-6) s2(4) by (simp add: r)
  moreover have "sf_id s2 = (sf_id s + length (r # rs)) mod 2 ^ 32" using s1(6) s2(5) by (simp add: mod_simps)
  moreover have "sf_offset s2 = (sf_offset s + length (concat (map snd (r # rs)))) mod 2 ^ 64"
    using s1(5) s2(6) by (simp add: r mod_simps add.assoc)
  ultimately show ?case using s1 s2 by (intro exI [of _ s2]) simp
qed

lemma read_blocks_snoc:
  "read_blocks (Suc k) n = and_then (read_blocks k n) (\<lambda>rs. and_then (sshv2_get_next_file_chunk n) (\<lambda>r. give (rs @ [r])))"
proof (induction k)
  case (Suc k)
  show ?case by (subst read_blocks.simps(2), subst Suc.IH) (simp add: and_then_assoc)
qed simp

text \<open>With the end of the file.\<close>

lemma file_read:
  assumes "pipe s (data_replies rs @ status_reply j SSH_FX_EOF @ rest)" "reading s H" "\<forall>(i, d) \<in> set rs. length d \<le> n \<and> length d \<le> 33000"
    and "sf_id s < 2 ^ 32" "sf_offset s < 2 ^ 64"
  shows "\<exists>s'. read_blocks (length rs + 1) n s = Inr (map (Inr \<circ> snd) rs @ [Inr []], s') \<and> pipe s' rest \<and>
    sent s' = sent s @ read_requests (sf_id s) H (sf_offset s) n (map snd rs @ [[]]) \<and> sf_id s' = (sf_id s + length rs + 1) mod 2 ^ 32 \<and>
    sf_dont_log_status s' = sf_dont_log_status s \<and> sf_handle s' = sf_handle s \<and> sf_handle_len s' = sf_handle_len s \<and> sf_req s' = sf_req s"
proof -
  obtain s1 where s1: "read_blocks (length rs) n s = Inr (map (Inr \<circ> snd) rs, s1)" "pipe s1 (status_reply j SSH_FX_EOF @ rest)" "reading s1 H"
      "sent s1 = sent s @ read_requests (sf_id s) H (sf_offset s) n (map snd rs)" "sf_id s1 = (sf_id s + length rs) mod 2 ^ 32"
      "sf_offset s1 = (sf_offset s + length (concat (map snd rs))) mod 2 ^ 64" "sf_dont_log_status s1 = sf_dont_log_status s"
      "sf_handle s1 = sf_handle s" "sf_handle_len s1 = sf_handle_len s" "sf_req s1 = sf_req s"
    using blocks_read [OF assms] by blast
  obtain s2 where s2: "sshv2_get_next_file_chunk n s1 = Inr (Inr [], s2)" "pipe s2 rest"
      "sent s2 = sent s1 @ frame SSH_FXP_READ (read_request (sf_id s1) H (sf_offset s1) n)" "sf_id s2 = (sf_id s1 + 1) mod 2 ^ 32"
      "sf_dont_log_status s2 = sf_dont_log_status s1" "sf_handle s2 = sf_handle s1" "sf_handle_len s2 = sf_handle_len s1" "sf_req s2 = sf_req s1"
    using end_read [OF s1(2,3)] by blast
  have "read_blocks (length rs + 1) n s = Inr (map (Inr \<circ> snd) rs @ [Inr []], s2)"
    using s1(1) s2(1) by (simp add: read_blocks_snoc act_simps del: read_blocks.simps)
  moreover have "sent s2 = sent s @ read_requests (sf_id s) H (sf_offset s) n (map snd rs @ [[]])"
    using s1(4-6) s2(3) by (simp add: read_requests_append [OF assms(4,5)])
  moreover have "sf_id s2 = (sf_id s + length rs + 1) mod 2 ^ 32" using s1(5) s2(4) by (simp add: mod_simps)
  ultimately show ?thesis using s1(7-) s2 by (intro exI [of _ s2]) simp
qed


section \<open>Asking for the size\<close>

definition path_request :: "nat \<Rightarrow> string \<Rightarrow> string" where
  "path_request i path = put32 i @ sshv2_add_string_to_buf path"

lemma size_asked:
  assumes "pipe s (frame SSH_FXP_ATTRS (put32 i @ attr_text e) @ rest)" "f \<noteq> []" "hd f = CHR ''/''" "length (disk_string env f) < 33000"
    and "small_numbers e" "sn_size e = Some k" "k < 2 ^ 32"
  shows "\<exists>s'. sshv2_get_file_size env f s = Inr (int k, s') \<and> pipe s' rest \<and>
    sent s' = sent s @ frame SSH_FXP_STAT (path_request (sf_id s) (disk_string env f)) \<and> sf_id s' = (sf_id s + 1) mod 2 ^ 32 \<and>
    sf_handle s' = sf_handle s \<and> sf_handle_len s' = sf_handle_len s \<and> sf_transfer_buffer s' = sf_transfer_buffer s \<and>
    sf_offset s' = sf_offset s \<and> sf_req s' = sf_req s \<and> sf_dont_log_status s' = sf_dont_log_status s"
proof -
  let ?c = "path_request (sf_id s) (disk_string env f)" and ?p = "put32 i @ attr_text e"
  define s1 where "s1 = s \<lparr> sf_id := (sf_id s + 1) mod 2 ^ 32 \<rparr>"
  have "pipe s1 (frame SSH_FXP_ATTRS ?p @ rest)" using assms(1) by (simp add: pipe_def s1_def)
  moreover have "length ?c < 33995" using assms(4) by (simp add: path_request_def sshv2_add_string_to_buf_def)
  ultimately obtain s2 where s2: "sshv2_send_command SSH_FXP_STAT ?c s1 = Inr (0, s2)" "pipe s2 (frame SSH_FXP_ATTRS ?p @ rest)"
      "exchanged s1 (frame SSH_FXP_STAT ?c) s2"
    using pipe_send by blast
  have "log_inside (sf_dont_log_status s2) SSH_FXP_ATTRS (?p @ [NUL, NUL])" by (simp add: log_inside_def)
  moreover have "length ?p < 34000" by (simp add: attr_text_def opt_text_def split: option.split prod.split)
  ultimately obtain s3 where s3: "sshv2_read_status_response SSH_FXP_STATUS SSH_FXP_ATTRS s2 = Inr ((SSH_FXP_ATTRS, message_of SSH_FXP_ATTRS ?p), s3)"
      "pipe s3 rest" "only_read s2 s3"
    using status_read [OF s2(2), of SSH_FXP_STATUS] by auto
  have "rest_of (skip_id (message_of SSH_FXP_ATTRS ?p)) (attr_text e @ [])"
    using rest_of_skip_id [of "message_of SSH_FXP_ATTRS ?p" i "attr_text e"] by simp
  from attributes_read [OF this assms(5), of zero_file]
  obtain m where m: "sshv2_decode_file_attributes (skip_id (message_of SSH_FXP_ATTRS ?p)) zero_file =
      give ((0, with_attrs (cut_size e) zero_file), m)"
    by blast
  have size': "gf_size (with_attrs (cut_size e) zero_file) = int k"
    using assms(6,7) by (simp add: with_attrs_def Let_def split: option.split prod.split)
  have init: "sshv2_initialize_string_with_path env f s = Inr (?c, s1)"
    using assms(2,3) by (simp add: sshv2_initialize_string_with_path_def sftp_path_def sshv2_initialize_buffer_with_i18n_string_def
        sshv2_initialize_buffer_def act_simps s1_def path_request_def)
  have "rq_protonum (sf_req s) = int GFTP_SSHV2_NUM" using assms(1) by (simp add: pipe_def)
  then have "sshv2_get_file_size env f s = Inr (int k, s3)"
    using init s2(1) s3(1) m size'
    by (simp add: sshv2_get_file_size_def sshv2_send_stat_command_def act_simps message_of_def attr_text_def)
  then show ?thesis
    using s3(2) s2(3) exchanged_sel [OF s2(3)] only_read_sel [OF s3(3)]
    by (intro exI [of _ s3]) (simp add: exchanged_def sent_def s1_def)
qed


section \<open>Closing\<close>

lemma file_closed:
  assumes "pipe s (status_reply i c @ rest)" "has_handle s H"
  shows "\<exists>s'. sshv2_end_transfer s = Inr (0, s') \<and> pipe s' rest \<and> sent s' = sent s @ frame SSH_FXP_CLOSE (put32 (sf_id s) @ H) \<and>
    sf_handle_len s' = 0 \<and> sf_transfer_buffer s' = None \<and> ms_buffer (sf_message s') = None"
proof -
  define s0 where "s0 = (if ms_buffer (sf_message s) \<noteq> None then s \<lparr> sf_message := empty_message, sf_count := 0 \<rparr> else s)"
  have p: "pipe s0 (status_reply i c @ rest)" "has_handle s0 H" "sent s0 = sent s" "sf_id s0 = sf_id s" "0 < sf_handle_len s0"
      "sf_req s0 = sf_req s" "ms_buffer (sf_message s0) = None"
    using assms by (auto simp: s0_def pipe_def has_handle_def sent_def empty_message_def)
  obtain s1 where s1: "send_handle SSH_FXP_CLOSE s0 = Inr (0, s1)" "pipe s1 (status_reply i c @ rest)"
      "sent s1 = sent s0 @ frame SSH_FXP_CLOSE (put32 (sf_id s0) @ H)" "sf_message s1 = sf_message s0"
    using handle_sent [OF p(1,2)] by blast
  have "log_inside (sf_dont_log_status s1) SSH_FXP_STATUS ((put32 i @ put32 c) @ [NUL, NUL])" by (simp add: log_inside_def)
  then obtain s2 where s2: "sshv2_read_status_response 0 SSH_FXP_STATUS s1 = Inr ((SSH_FXP_STATUS, message_of SSH_FXP_STATUS (put32 i @ put32 c)), s2)"
      "pipe s2 rest" "only_read s1 s2"
    using status_read [OF s1(2) [unfolded status_reply_def], of 0] by auto
  have conn: "rq_protonum (sf_req s) = int GFTP_SSHV2_NUM" using assms(1) by (simp add: pipe_def)
  have free: "change (\<lambda>s. if ms_buffer (sf_message s) \<noteq> None then s \<lparr> sf_message := empty_message, sf_count := 0 \<rparr> else s) s = Inr ((), s0)"
    by (simp only: change_def s0_def)
  have "sshv2_end_transfer s = Inr (0, s2 \<lparr> sf_handle_len := 0, sf_transfer_buffer := None \<rparr>)"
    unfolding sshv2_end_transfer_def if_sshv2_def if_P [OF conn] and_then_Inr [where m = "change _", OF free]
    using s1(1) s2(1) p(5) by (simp add: act_simps)
  then show ?thesis
    using s2(2) s1(3,4) p(3,4,7) only_read_sel [OF s2(3)]
    by (intro exI [of _ "s2 \<lparr> sf_handle_len := 0, sf_transfer_buffer := None \<rparr>"]) (simp add: pipe_def sent_def)
qed

section \<open>The whole file\<close>

definition sftp_fetch :: "ssh_env \<Rightarrow> string \<Rightarrow> int \<Rightarrow> nat \<Rightarrow> nat \<Rightarrow> (int \<times> (int + string) list \<times> int) sftp_act" where
  "sftp_fetch env f k blocks n =
     and_then (sshv2_get_file env f k) (\<lambda>size'.
     and_then (read_blocks blocks n) (\<lambda>rs.
     and_then sshv2_end_transfer (\<lambda>ret. give (size', rs, ret))))"

lemma has_handle_cong: "sf_handle s' = sf_handle s \<Longrightarrow> sf_handle_len s' = sf_handle_len s \<Longrightarrow> has_handle s' H = has_handle s H"
  by (simp add: has_handle_def)

text \<open>C7: A server that hands out a handle, tells the size, sends the file in blocks of any sizes up to the one asked for, and
  ends it, whatever numbers its answers have and whatever pieces they arrive in: the module reads these blocks and nothing
  else of the stream, asks for each at the offset behind the one before, and closes the file; the next transfer starts
  without a handle and a buffer.\<close>

theorem file_fetched:
  assumes "pipe s (frame SSH_FXP_HANDLE (put32 i @ H) @ frame SSH_FXP_ATTRS (put32 j @ attr_text e) @ data_replies rs @
      status_reply i' SSH_FX_EOF @ status_reply j' c @ rest)"
    and "f \<noteq> []" "hd f = CHR ''/''" "length (disk_string env f) < 33000" "length (sf_handle s) = 260" "length H \<le> 255"
    and "sf_transfer_buffer s = None" "sf_id s < 2 ^ 32" "0 \<le> k" "k < 2 ^ 64"
    and "small_numbers e" "sn_size e = Some len" "len < 2 ^ 32" "\<forall>(i, d) \<in> set rs. length d \<le> n \<and> length d \<le> 33000"
  shows "\<exists>s'. sftp_fetch env f k (length rs + 1) n s = Inr ((int len, map (Inr \<circ> snd) rs @ [Inr []], 0), s') \<and> pipe s' rest \<and>
    sf_handle_len s' = 0 \<and> sf_transfer_buffer s' = None \<and>
    sent s' = sent s @ frame SSH_FXP_OPEN (open_request (sf_id s) (disk_string env f) SSH_FXF_READ) @
      frame SSH_FXP_STAT (path_request ((sf_id s + 1) mod 2 ^ 32) (disk_string env f)) @
      read_requests ((sf_id s + 2) mod 2 ^ 32) H (nat k) n (map snd rs @ [[]]) @
      frame SSH_FXP_CLOSE (put32 ((sf_id s + 2 + length rs + 1) mod 2 ^ 32) @ H)"
proof -
  obtain s1 where s1: "sshv2_open_file env f k SSH_FXF_READ s = Inr (0, s1)"
      "pipe s1 (frame SSH_FXP_ATTRS (put32 j @ attr_text e) @ data_replies rs @ status_reply i' SSH_FX_EOF @ status_reply j' c @ rest)"
      "has_handle s1 H" "sent s1 = sent s @ frame SSH_FXP_OPEN (open_request (sf_id s) (disk_string env f) SSH_FXF_READ)"
      "sf_offset s1 = nat (k mod 2 ^ 64)" "sf_id s1 = (sf_id s + 1) mod 2 ^ 32" "sf_transfer_buffer s1 = sf_transfer_buffer s"
    using file_opened [OF assms(1-6)] by blast
  obtain s2 where s2: "sshv2_get_file_size env f s1 = Inr (int len, s2)"
      "pipe s2 (data_replies rs @ status_reply i' SSH_FX_EOF @ status_reply j' c @ rest)"
      "sent s2 = sent s1 @ frame SSH_FXP_STAT (path_request (sf_id s1) (disk_string env f))" "sf_id s2 = (sf_id s1 + 1) mod 2 ^ 32"
      "sf_handle s2 = sf_handle s1" "sf_handle_len s2 = sf_handle_len s1" "sf_transfer_buffer s2 = sf_transfer_buffer s1"
      "sf_offset s2 = sf_offset s1"
    using size_asked [OF s1(2) assms(2-4,11-13)] by blast
  have h2: "has_handle s2 H" using s1(3) has_handle_cong [OF s2(5,6)] by simp
  then have "reading s2 H" using assms(7) s1(7) s2(7) by (simp add: reading_def has_handle_def)
  moreover have off: "sf_offset s2 = nat k" using s1(5) s2(8) assms(9,10) by simp
  moreover have "nat k < 2 ^ 64" using assms(9,10) by (simp add: nat_less_iff)
  moreover have "sf_id s2 < 2 ^ 32" using s2(4) by simp
  ultimately obtain s3 where s3: "read_blocks (length rs + 1) n s2 = Inr (map (Inr \<circ> snd) rs @ [Inr []], s3)" "pipe s3 (status_reply j' c @ rest)"
      "sent s3 = sent s2 @ read_requests (sf_id s2) H (sf_offset s2) n (map snd rs @ [[]])" "sf_id s3 = (sf_id s2 + length rs + 1) mod 2 ^ 32"
      "sf_handle s3 = sf_handle s2" "sf_handle_len s3 = sf_handle_len s2"
    using file_read [OF s2(2) _ assms(14)] by auto
  have "has_handle s3 H" using h2 has_handle_cong [OF s3(5,6)] by simp
  from file_closed [OF s3(2) this]
  obtain s4 where s4: "sshv2_end_transfer s3 = Inr (0, s4)" "pipe s4 rest" "sent s4 = sent s3 @ frame SSH_FXP_CLOSE (put32 (sf_id s3) @ H)"
      "sf_handle_len s4 = 0" "sf_transfer_buffer s4 = None"
    by blast
  have "sshv2_get_file env f k s = Inr (int len, s2)" using s1(1) s2(1) by (simp add: sshv2_get_file_def act_simps)
  then have run: "sftp_fetch env f k (length rs + 1) n s = Inr ((int len, map (Inr \<circ> snd) rs @ [Inr []], 0), s4)"
    unfolding sftp_fetch_def using s3(1) s4(1) by (simp only: and_then_Inr give_def)
  have id2: "sf_id s2 = (sf_id s + 2) mod 2 ^ 32" using s1(6) s2(4) by (simp add: mod_simps)
  have "sf_id s3 = (sf_id s + 2 + length rs + 1) mod 2 ^ 32"
    unfolding s3(4) id2 by (simp only: mod_add_left_eq add.assoc)
  note ids = id2 this
  show ?thesis
    using run s4(2,4,5) s4(3) unfolding s3(3) s2(3) s1(4) s1(6) ids off append_assoc by blast
qed

theorem file_fetched_witness:
  "\<exists>s'. sftp_fetch example_ssh_env ''/f'' 0 3 1024 (example_sftp [frame 102 (put32 1 @ ''h'') @
      frame 105 (put32 2 @ attr_text example_name) @ data_replies [(3, ''he''), (9, ''llo'')] @ status_reply 4 1 @ status_reply 5 0]) =
    Inr ((5, [Inr ''he'', Inr ''llo'', Inr []], 0), s')"
proof -
  let ?p = "frame SSH_FXP_HANDLE (put32 1 @ ''h'') @ frame SSH_FXP_ATTRS (put32 2 @ attr_text example_name) @
    data_replies [(3, ''he''), (9, ''llo'')] @ status_reply 4 SSH_FX_EOF @ status_reply 5 0 @ []"
  have "?p \<noteq> []" by (simp add: frame_def put32_def)
  then have p: "pipe (example_sftp [?p]) ?p" using example_pipe [of "[?p]"] by simp
  have side: "''/f'' \<noteq> []" "hd ''/f'' = CHR ''/''" "length (disk_string example_ssh_env ''/f'') < 33000"
      "length (sf_handle (example_sftp [?p])) = 260" "length ''h'' \<le> 255" "sf_transfer_buffer (example_sftp [?p]) = None"
      "sf_id (example_sftp [?p]) < 2 ^ 32" "(0 :: int) \<le> 0" "(0 :: int) < 2 ^ 64" "small_numbers example_name"
      "sn_size example_name = Some 5" "(5 :: nat) < 2 ^ 32"
      "\<forall>(i, d) \<in> set [(3, ''he''), (9, ''llo'')]. length d \<le> 1024 \<and> length d \<le> 33000"
    by (simp_all add: disk_string_def example_ssh_env_def example_sftp_def example_handle_def example_name_def small_numbers_def)
  from file_fetched [OF p side]
  obtain s' where "sftp_fetch example_ssh_env ''/f'' 0 (length [(3 :: nat, ''he''), (9, ''llo'')] + 1) 1024 (example_sftp [?p]) =
      Inr ((int 5, map (Inr \<circ> snd) [(3 :: nat, ''he''), (9, ''llo'')] @ [Inr []], 0), s')"
    by (elim exE conjE)
  then show ?thesis by (intro exI [of _ s']) (simp add: numeral_3_eq_3)
qed

end
