(* ===== verification/Sftp_Hazards.thy ===== *)
theory Sftp_Hazards
  imports Sftp_Names
begin

text \<open>What messages that are cut, too short or lying do to the SFTP module, and where it goes wrong by itself.\<close>


section \<open>A message that is not complete\<close>

text \<open>C40: When the program ends inside a message, the module reads on for ever: no number of turns is enough.\<close>

theorem truncated_message_hangs:
  assumes "pipe s bs" "length bs < rem" "length acc + rem \<le> room"
  shows "read_bytes n (rq_datafd (sf_req s)) rem room acc s = Inl Out_of_fuel"
  using assms
proof (induction n arbitrary: s bs rem acc)
  case (Suc n)
  obtain d s1 where d: "sftp_read (rq_datafd (sf_req s)) rem s = Inr (Inr d, s1)" "pipe s1 (drop (length d) bs)" "only_read s s1"
      "d = take (length d) bs" "length d \<le> rem"
    using pipe_read [OF Suc.prems(1), of rem] Suc.prems(2) by auto
  have "length d \<le> length bs" by (metis d(4) length_take min.cobounded1 linorder_le_cases take_all)
  then have "length (drop (length d) bs) < rem - length d" "length (acc @ d) + (rem - length d) \<le> room"
    using Suc.prems(2,3) d(5) by auto
  from Suc.IH [OF d(2) this] have "read_bytes n (rq_datafd (sf_req s)) (rem - length d) room (acc @ d) s1 = Inl Out_of_fuel"
    using only_read_sel [OF d(3)] by simp
  then show ?case using d(1,5) Suc.prems(2,3) by (auto simp: and_then_def)
qed (simp add: stop_def)

theorem truncated_message_hangs_witness:
  "read_bytes 1000 7 5 6 [] (example_sftp [''abc'']) = Inl Out_of_fuel"
proof -
  have "pipe (example_sftp [''abc'']) ''abc''" using example_pipe [of "[''abc'']"] by simp
  from truncated_message_hangs [OF this, of 5 "[]" 6 1000] show ?thesis by (simp add: example_sftp_def)
qed


section \<open>A message that lies\<close>

text \<open>C37: The length of the data of a block is checked against the size asked for, not against the message: a server that
  announces more than it sends is given what lies behind the message in memory, and it goes into the file.\<close>

theorem data_read_past_message:
  assumes "pipe s (frame SSH_FXP_DATA (put32 i @ put32 k @ d) @ rest)" "reading s H" "k \<le> n" "length d + 2 < k" "k < 2 ^ 32" "length d \<le> 33000"
  shows "sshv2_get_next_file_chunk n s = Inl Out_of_bounds"
proof -
  let ?p = "put32 i @ put32 k @ d"
  obtain s1 where s1: "pipe s1 (frame SSH_FXP_DATA ?p @ rest)" "sf_dont_log_status s1 = sf_dont_log_status s"
      "sshv2_get_next_file_chunk n s =
      and_then (sshv2_read_response (-1)) (\<lambda>(ret, m).
         if ret < 0 then give (Inl ret)
         else if ret \<noteq> SSH_FXP_DATA then
           and_then (sshv2_buffer_get_int32 (Some SSH_FX_EOF) (skip_id m)) (\<lambda>(r, m).
             give (case r of Inl e \<Rightarrow> Inl e | Inr _ \<Rightarrow> Inr []))
         else
           and_then (need (ms_buffer m)) (\<lambda>mem.
           and_then (need (get32 (drop 4 mem))) (\<lambda>num.
             if num > n then and_then (sftp_fail GFTP_ERETRYABLE) (\<lambda>ret. give (Inl ret))
             else if length mem < 8 + num then stop Out_of_bounds
             else and_then (change (advance num)) (\<lambda>_. give (Inr (take num (drop 8 mem))))))) s1"
    using read_sent [OF assms(1,2), of n] by blast
  have "log_inside (sf_dont_log_status s1) SSH_FXP_DATA (?p @ [NUL, NUL])" by (simp add: log_inside_def)
  then obtain s2 where s2: "sshv2_read_response (-1) s1 = Inr ((SSH_FXP_DATA, message_of SSH_FXP_DATA ?p), s2)"
    using message_read_whole [OF s1(1)] assms(6) by auto
  have d: "drop 4 (?p @ [NUL, NUL]) = put32 k @ d @ [NUL, NUL]" by simp
  have k: "k mod 4294967296 = k" using assms(5) by simp
  show ?thesis
    unfolding s1(3) and_then_def [where m = "sshv2_read_response (-1)"] s2 using assms(3,4) by (simp add: d k act_simps)
qed

theorem data_read_past_message_witness:
  "sshv2_get_next_file_chunk 1024 (example_sftp [frame 103 (put32 1 @ put32 1000 @ ''x'')]) = Inl Out_of_bounds"
proof -
  have "pipe (example_sftp [frame 103 (put32 1 @ put32 1000 @ ''x'')]) (frame SSH_FXP_DATA (put32 1 @ put32 1000 @ ''x'') @ [])"
    using example_pipe [of "[frame 103 (put32 1 @ put32 1000 @ ''x'')]"] by (simp add: frame_def put32_def)
  from data_read_past_message [OF this example_reading, of 1024] show ?thesis by simp
qed

text \<open>Reading goes past the end of the buffer when the bytes that come are more than fit.\<close>

lemma reads_past_room:
  assumes "pipe s bs" "length acc \<le> room" "room < length acc + length bs" "length bs < fuel" "room < length acc + rem"
  shows "read_bytes fuel (rq_datafd (sf_req s)) rem room acc s = Inl Out_of_bounds"
  using assms
proof (induction fuel arbitrary: s bs rem acc)
  case (Suc fuel)
  have rem: "0 < rem" using Suc.prems(2,5) by linarith
  obtain d s1 where d: "sftp_read (rq_datafd (sf_req s)) rem s = Inr (Inr d, s1)" "pipe s1 (drop (length d) bs)" "only_read s s1"
      "d = take (length d) bs" "length d \<le> rem" "d = [] \<longrightarrow> bs = []"
    using pipe_read [OF Suc.prems(1) rem] by blast
  show ?case
  proof (cases "room < length acc + length d")
    case True
    then show ?thesis using d(1) rem by (simp add: and_then_def stop_def)
  next
    case False
    have some: "0 < length bs" using Suc.prems(2,3) by linarith
    then have pos: "0 < length d" using d(6) by auto
    have len: "length (acc @ d) \<le> room" "room < length (acc @ d) + length (drop (length d) bs)" "room < length (acc @ d) + (rem - length d)"
      using False Suc.prems(3,5) d(5) by auto
    have "length (drop (length d) bs) < fuel" using Suc.prems(4) pos some by (simp only: length_drop)
    from Suc.IH [OF d(2) len(1,2) this len(3)]
    have "read_bytes fuel (rq_datafd (sf_req s)) (rem - length d) room (acc @ d) s1 = Inl Out_of_bounds"
      using only_read_sel [OF d(3)] by simp
    then show ?thesis using d(1) rem False by (simp add: and_then_def)
  qed
qed simp

text \<open>The length 0 makes the module read up to \<open>2 ^ 32 - 1\<close> bytes into a buffer of one byte.\<close>

theorem zero_length_overflows:
  assumes "pipe s (put32 0 @ [c] @ bs)" "2 \<le> length bs"
  shows "sshv2_read_response (-1) s = Inl Out_of_bounds"
proof -
  let ?fd = "rq_datafd (sf_req s)"
  have "pipe s ((put32 0 @ [c]) @ bs)" using assms(1) by simp
  then obtain s1 where s1: "read_exactly ?fd 5 6 s = Inr (Inr (put32 0 @ [c]), s1)" "pipe s1 bs" "only_read s s1"
    using pipe_read_exactly [of s "put32 0 @ [c]" bs 5 6] by auto
  have fd: "rq_datafd (sf_req s1) = ?fd" using only_read_sel [OF s1(3)] by simp
  have "length (bytes_in (script (sftp_source ?fd s1))) = length bs"
    using s1(2) fd by (simp add: pipe_def sftp_source_def from_cache_def)
  then have "read_exactly ?fd 4294967295 1 s1 = Inl Out_of_bounds"
    using reads_past_room [OF s1(2), of "[]" 1 "length bs + 2" 4294967295] assms(2) fd by (simp add: read_exactly_def)
  then show ?thesis using s1(1) by (simp add: sshv2_read_response_def act_simps Let_def del: get32.simps)
qed

theorem zero_length_overflows_witness:
  "sshv2_read_response (-1) (example_sftp [put32 0 @ ''xyz'']) = Inl Out_of_bounds"
proof -
  have "pipe (example_sftp [put32 0 @ ''xyz'']) (put32 0 @ [CHR ''x''] @ ''yz'')"
    using example_pipe [of "[put32 0 @ ''xyz'']"] by simp
  from zero_length_overflows [OF this] show ?thesis by simp
qed

text \<open>A handle message without its last byte of the number makes the module copy \<open>2 ^ 32 - 1\<close> bytes.\<close>

theorem short_handle_overflows:
  assumes "ms_length m = 4"
  shows "store_handle e m s = Inl Out_of_bounds"
  using assms by (cases "ms_buffer m") (simp_all add: store_handle_def act_simps)

theorem short_handle_overflows_witness:
  "store_handle GFTP_EFATAL (message_of 102 ''abc'') (example_sftp []) = Inl Out_of_bounds"
  by (rule short_handle_overflows) (simp add: message_of_def)

text \<open>Sizes are known modulo \<open>2 ^ 32\<close> only: the upper half of a size is shifted away.\<close>

theorem large_size_lost:
  assumes "rest_of m (put32 hi @ put32 lo @ bs)" "hi < 2 ^ 32" "lo < 2 ^ 32"
  shows "sshv2_buffer_get_int64 m = give (Inr lo, skip_bytes 8 m)"
proof -
  note n1 = rest_number [OF assms(1)] and m1 = rest_number_next [OF assms(1)]
  note n2 = rest_number [OF m1]
  have "drop_bit 32 (hi mod 2 ^ 32) = (0 :: nat)" by (simp add: drop_bit_eq_div)
  then show ?thesis using n1 n2 assms(3) by (simp add: sshv2_buffer_get_int64_def)
qed

theorem large_size_lost_witness:
  "\<exists>m. sshv2_buffer_get_int64 (message_of 105 (put32 1 @ put32 7)) = give (Inr 7, m)"
proof -
  have "rest_of (message_of 105 (put32 1 @ put32 7)) (put32 1 @ put32 7 @ [])" by simp
  from large_size_lost [OF this] show ?thesis by auto
qed


section \<open>Buffers and handles that stay\<close>

lemma offset_length: "sshv2_setup_file_offset s b = Some b' \<Longrightarrow> length b' = length b"
  by (auto simp: sshv2_setup_file_offset_def bind_eq_Some_conv dest!: overwrite_length)

text \<open>C38: The buffer for WRITE is made for the first block: a longer block after it is written past its end.\<close>

theorem upload_overflows:
  assumes "rq_protonum (sf_req s) = int GFTP_SSHV2_NUM" "0 < rq_datafd (sf_req s)" "sf_transfer_buffer s = Some b"
    and "length b = sf_handle_len s + 12 + k" "k < length p"
  shows "sshv2_put_next_file_chunk p s = Inl Out_of_bounds"
proof -
  have none: "overwrite (sf_handle_len s + 12) p c = None" if "length c = length b" for c
    using that assms(4,5) by (simp add: overwrite_def)
  have "Option.bind (overwrite 0 num b) (\<lambda>b. Option.bind (sshv2_setup_file_offset s' b) (\<lambda>b.
      Option.bind (overwrite (sf_handle_len s + 8) n b) (overwrite (sf_handle_len s + 12) p))) = None" (is "Option.bind _ ?f = None") for num n s'
  proof (cases "overwrite 0 num b")
    case (Some b1)
    show ?thesis
    proof (cases "sshv2_setup_file_offset s' b1")
      case (Some b2)
      show ?thesis
      proof (cases "overwrite (sf_handle_len s + 8) n b2")
        case (Some b3)
        have "length b3 = length b"
          using overwrite_length [OF \<open>overwrite 0 num b = Some b1\<close>] offset_length [OF \<open>sshv2_setup_file_offset s' b1 = Some b2\<close>]
            overwrite_length [OF Some] by simp
        from none [OF this] show ?thesis
          using Some \<open>overwrite 0 num b = Some b1\<close> \<open>sshv2_setup_file_offset s' b1 = Some b2\<close> by simp
      qed (use \<open>overwrite 0 num b = Some b1\<close> \<open>sshv2_setup_file_offset s' b1 = Some b2\<close> in simp)
    qed (use \<open>overwrite 0 num b = Some b1\<close> in simp)
  qed simp
  then have "fill_buffer (length p) p s = Inl Out_of_bounds"
    using assms(3) by (simp add: fill_buffer_def sshv2_initialize_buffer_def act_simps)
  then show ?thesis using assms(1-3) by (simp add: sshv2_put_next_file_chunk_def if_open_def act_simps transfer_buffer_for_def)
qed

theorem upload_overflows_witness:
  "sshv2_put_next_file_chunk ''longer'' ((example_sftp []) \<lparr> sf_transfer_buffer := Some (put32 0 @ example_handle @ replicate 13 NUL) \<rparr>) =
    Inl Out_of_bounds"
  by (rule upload_overflows [where k = 1 and b = "put32 0 @ example_handle @ replicate 13 NUL"]) (simp_all add: example_sftp_def example_handle_def)

text \<open>C39: Losing the connection keeps the buffer: the next file is opened, and the first block is read with the handle of the
  file before.\<close>

theorem stale_handle_read:
  assumes "pipe s (frame SSH_FXP_HANDLE (put32 i @ H') @ data_reply j d)" "f \<noteq> []" "hd f = CHR ''/''" "length (disk_string env f) < 33000"
    and "length (sf_handle s) = 260" "length H' \<le> 255"
    and "sf_transfer_buffer s = Some b" "length b = 16 + length H" "take (length H) (drop 4 b) = H" "length H' = length H"
    and "length d \<le> n" "length d \<le> 33000" "0 \<le> k" "k < 2 ^ 64"
  shows "\<exists>s1 s2. sshv2_open_file env f k mode s = Inr (0, s1) \<and> has_handle s1 H' \<and> sshv2_get_next_file_chunk n s1 = Inr (Inr d, s2) \<and>
    sent s2 = sent s1 @ frame SSH_FXP_READ (read_request (sf_id s1) H (nat k) n)"
proof -
  obtain s1 where s1: "sshv2_open_file env f k mode s = Inr (0, s1)" "pipe s1 (data_reply j d)" "has_handle s1 H'"
      "sf_offset s1 = nat (k mod 2 ^ 64)" "sf_transfer_buffer s1 = sf_transfer_buffer s"
    using file_opened [OF assms(1-6)] by blast
  have off: "sf_offset s1 = nat k" using s1(4) assms(13,14) by simp
  have "pipe s1 (data_reply j d @ [])" "reading s1 H"
    using s1(2,3,5) assms(7-10) by (simp_all add: reading_def has_handle_def)
  from block_read [OF this assms(11,12)] obtain s2 where
      "sshv2_get_next_file_chunk n s1 = Inr (Inr d, s2)"
      "sent s2 = sent s1 @ frame SSH_FXP_READ (read_request (sf_id s1) H (sf_offset s1) n)"
    by blast
  then show ?thesis using s1(1,3) off by (intro exI [of _ s1] exI [of _ s2] conjI) simp_all
qed

theorem stale_handle_read_witness:
  "\<exists>s s1 s2. sshv2_open_file example_ssh_env ''/f'' 0 SSH_FXF_READ s = Inr (0, s1) \<and> has_handle s1 ''new'' \<and>
    sshv2_get_next_file_chunk 1024 s1 = Inr (Inr ''data'', s2) \<and>
    sent s2 = sent s1 @ frame SSH_FXP_READ (read_request (sf_id s1) ''old'' 0 1024)"
proof -
  let ?p = "frame SSH_FXP_HANDLE (put32 1 @ ''new'') @ data_reply 2 ''data''"
  let ?s = "(example_sftp [?p]) \<lparr> sf_transfer_buffer := Some (put32 0 @ ''old'' @ replicate 12 NUL) \<rparr>"
  have "?p \<noteq> []" by (simp add: frame_def put32_def)
  then have "pipe ?s ?p" using example_pipe [of "[?p]"] by (simp add: pipe_def)
  from stale_handle_read [OF this, where H = "''old''" and f = "''/f''" and env = example_ssh_env and n = 1024 and k = 0 and mode = SSH_FXF_READ]
  show ?thesis
    by (simp add: disk_string_def example_ssh_env_def example_sftp_def example_handle_def del: SSH_FXF_READ_def SSH_FXP_READ_def) blast
qed

end
